(* ===== verification/Prelude.thy ===== *)
theory Prelude
  imports Main "HOL-Library.Word" "HOL-Library.Code_Target_Nat"
begin

text \<open>
  Shared ground of the development: the JavaScript data the clients handle (bytes, UTF-16
  strings), the errors a client operation can reject with, the effect type of an
  \<open>async\<close> function, and the generic lemmas the component theories use.

  \<^item> A \<open>Uint8Array\<close> is a list of \<open>8 word\<close>; a JavaScript string is the list of its UTF-16
    code units, \<open>16 word\<close>. \<open>js ''abc''\<close> is the string literal \<open>"abc"\<close>.
  \<^item> An \<open>async\<close> function is an action \<open>'w \<Rightarrow> (jserror + 'a) \<times> 'w\<close>: it reads and updates
    the world (random source, network, storage) and either fulfils (\<open>Inr\<close>) or rejects
    (\<open>Inl\<close>). The effects made before a \<open>throw\<close> stay, as they do in JavaScript.
\<close>

section \<open>Bytes and strings\<close>

type_synonym byte = "8 word"
type_synonym bytes = "byte list"
type_synonym u16 = "16 word"
type_synonym jsstring = "u16 list"

lemma unat_of_nat16: "n < 65536 \<Longrightarrow> unat (of_nat n :: u16) = n"
  by (simp add: unat_of_nat take_bit_eq_mod)

lemma unat_of_nat8: "n < 256 \<Longrightarrow> unat (of_nat n :: byte) = n"
  by (simp add: unat_of_nat take_bit_eq_mod)

lemma unat_lt16: "unat (c :: u16) < 65536"
  using unsigned_less [of c, where ?'a = nat] by simp

lemma unat_lt8: "unat (b :: byte) < 256"
  using unsigned_less [of b, where ?'a = nat] by simp

text \<open>Character and string literals.\<close>

definition jc :: "char \<Rightarrow> u16" where
  "jc c = of_nat (of_char c)"

definition js :: "string \<Rightarrow> jsstring" where
  "js s = map jc s"

named_theorems act_simps \<open>unfolding of the action combinators\<close>
named_theorems jsc \<open>evaluation of string literals and character classes\<close>

lemma unat_jc [simp]: "unat (jc c) = of_char c"
proof -
  have "(of_char c :: nat) < 256"
    by simp
  then show ?thesis
    unfolding jc_def by (intro unat_of_nat16) linarith
qed

lemma jc_eq_iff [simp]: "jc c = jc d \<longleftrightarrow> c = d"
  by (metis unat_jc of_char_eq_iff)

lemma js_Nil [simp]: "js [] = []"
  and js_Cons [jsc]: "js (c # s) = jc c # js s"
  by (simp_all add: js_def)

lemma js_append [simp]: "js (s @ t) = js s @ js t"
  by (simp add: js_def)

lemma js_eq_iff [simp]: "js s = js t \<longleftrightarrow> s = t"
proof -
  have "inj jc"
    by (rule injI) simp
  then show ?thesis
    unfolding js_def by (rule inj_map_eq_map)
qed

lemma js_eq_Nil [simp]: "js s = [] \<longleftrightarrow> s = []" "[] = js s \<longleftrightarrow> s = []"
  by (auto simp: js_def)

lemma length_js [simp]: "length (js s) = length s"
  by (simp add: js_def)

lemma set_js: "set (js s) = jc ` set s"
  by (simp add: js_def)

section \<open>Errors\<close>

text \<open>
  One constructor per \<open>throw\<close> site of the sources (the message text names it), then the
  exceptions of the platform the sources call: \<open>atob\<close>, Web Crypto, \<open>JSON.parse\<close>, the
  conversion of a value to a string, \<open>fetch\<close> and the native file commands.
\<close>

datatype jserror =
    EEncMissingPrefix \<comment> \<open>invalid EncString: missing type prefix\<close>
  | EEncUnsupportedType \<comment> \<open>unsupported EncString type\<close>
  | EEncParts \<comment> \<open>invalid EncString: expected nonce|data\<close>
  | EWords \<comment> \<open>words must be >= 1\<close>
  | EBackupPassphraseRequired
  | ENotValidBackup
  | ENotBackup
  | EUnsupportedBackupVersion
  | EWrongPassphrase
  | EMasterPasswordRequired
  | ENotValidVault
  | ENotVault
  | EUnsupportedVaultVersion
  | EWrongMasterPassword
  | EImportEmpty
  | EImportNoItems
  | EImportNotJSON
  | EImportShape
  | ETwoFactorRequired "jsstring list"
  | EUnexpectedTwoFactor
  | EServer jsstring \<comment> \<open>the error text of a response\<close>
  | ERequestFailed int
  | ELoginFailed int
  | EBreachService int
  | EInvalidCharacter \<comment> \<open>DOMException of atob\<close>
  | EData \<comment> \<open>DOMException of Web Crypto: bad key material\<close>
  | EOperation \<comment> \<open>DOMException of Web Crypto: e.g. a failed authentication tag\<close>
  | EJsonSyntax
  | EType \<comment> \<open>TypeError\<close>
  | ENetwork \<comment> \<open>fetch rejects\<close>
  | EInvoke jsstring \<comment> \<open>a native command fails\<close>
  | EPlatform \<comment> \<open>any other rejection of a platform API\<close>

section \<open>Results and actions\<close>

type_synonym 'a result = "jserror + 'a"
type_synonym ('w, 'a) act = "'w \<Rightarrow> 'a result \<times> 'w"

definition bindR :: "'a result \<Rightarrow> ('a \<Rightarrow> 'b result) \<Rightarrow> 'b result" where
  "bindR r f = (case r of Inl e \<Rightarrow> Inl e | Inr a \<Rightarrow> f a)"

definition mapR :: "('a \<Rightarrow> 'b) \<Rightarrow> 'a result \<Rightarrow> 'b result" where
  "mapR f r = (case r of Inl e \<Rightarrow> Inl e | Inr a \<Rightarrow> Inr (f a))"

definition returnA :: "'a \<Rightarrow> ('w, 'a) act" where
  "returnA a w = (Inr a, w)"

definition throwA :: "jserror \<Rightarrow> ('w, 'a) act" where
  "throwA e w = (Inl e, w)"

definition liftA :: "'a result \<Rightarrow> ('w, 'a) act" where
  "liftA r w = (r, w)"

definition bindA :: "('w, 'a) act \<Rightarrow> ('a \<Rightarrow> ('w, 'b) act) \<Rightarrow> ('w, 'b) act" where
  "bindA m f w = (case m w of (Inl e, w') \<Rightarrow> (Inl e, w') | (Inr a, w') \<Rightarrow> f a w')"

definition catchA :: "('w, 'a) act \<Rightarrow> (jserror \<Rightarrow> ('w, 'a) act) \<Rightarrow> ('w, 'a) act" where
  "catchA m h w = (case m w of (Inl e, w') \<Rightarrow> h e w' | (Inr a, w') \<Rightarrow> (Inr a, w'))"

text \<open>\<open>try { return f } catch { throw e }\<close> on a result.\<close>

definition rethrow :: "'a result \<Rightarrow> jserror \<Rightarrow> 'a result" where
  "rethrow r e = (case r of Inl _ \<Rightarrow> Inl e | Inr a \<Rightarrow> Inr a)"

text \<open>The value an action fulfils with, and the world it leaves.\<close>

definition resultA :: "('w, 'a) act \<Rightarrow> 'w \<Rightarrow> 'a result" where
  "resultA m w = fst (m w)"

definition worldA :: "('w, 'a) act \<Rightarrow> 'w \<Rightarrow> 'w" where
  "worldA m w = snd (m w)"

lemma bindR_simps [simp]:
  "bindR (Inl e) f = Inl e" "bindR (Inr a) f = f a"
  by (simp_all add: bindR_def)

lemma bindR_eq_Inr [simp]: "bindR r f = Inr b \<longleftrightarrow> (\<exists>a. r = Inr a \<and> f a = Inr b)"
  by (cases r) simp_all

lemma mapR_simps [simp]:
  "mapR f (Inl e) = Inl e" "mapR f (Inr a) = Inr (f a)"
  by (simp_all add: mapR_def)

lemma rethrow_simps [simp]:
  "rethrow (Inl d) e = Inl e" "rethrow (Inr a) e = Inr a"
  by (simp_all add: rethrow_def)

lemma rethrow_eq_Inr [simp]: "rethrow r e = Inr a \<longleftrightarrow> r = Inr a"
  by (cases r) simp_all

lemma returnA_app [act_simps]: "returnA a w = (Inr a, w)"
  by (simp add: returnA_def)

lemma throwA_app [act_simps]: "throwA e w = (Inl e, w)"
  by (simp add: throwA_def)

lemma liftA_app [act_simps]: "liftA r w = (r, w)"
  by (simp add: liftA_def)

lemma bindA_Inr [simp]: "m w = (Inr a, w') \<Longrightarrow> bindA m f w = f a w'"
  and bindA_Inl [simp]: "m w = (Inl e, w') \<Longrightarrow> bindA m f w = (Inl e, w')"
  by (simp_all add: bindA_def)

lemma catchA_Inr [simp]: "m w = (Inr a, w') \<Longrightarrow> catchA m h w = (Inr a, w')"
  and catchA_Inl [simp]: "m w = (Inl e, w') \<Longrightarrow> catchA m h w = h e w'"
  by (simp_all add: catchA_def)

lemma bindA_liftA [act_simps]:
  "bindA (liftA r) f w = (case r of Inl e \<Rightarrow> (Inl e, w) | Inr a \<Rightarrow> f a w)"
  by (simp add: bindA_def liftA_def split: sum.split)

lemma bindA_eq_Inr:
  "bindA m f w = (Inr b, w'') \<longleftrightarrow> (\<exists>a w'. m w = (Inr a, w') \<and> f a w' = (Inr b, w''))"
  by (auto simp: bindA_def split: prod.splits sum.splits)

lemma bindA_assoc: "bindA (bindA m f) g = bindA m (\<lambda>a. bindA (f a) g)"
  by (rule ext) (simp add: bindA_def split: prod.splits sum.splits)

section \<open>The random source\<close>

text \<open>
  \<open>crypto.getRandomValues\<close> fills a buffer from a source the program cannot predict:
  an arbitrary sequence of bytes and the number drawn so far. Every world of the
  development extends this record.
\<close>

record world =
  entropy :: "nat \<Rightarrow> byte"
  drawn :: nat

definition draw :: "nat \<Rightarrow> 'z world_scheme \<Rightarrow> bytes" where
  "draw n w = map (\<lambda>i. entropy w (drawn w + i)) [0..<n]"

lemma length_draw [simp]: "length (draw n w) = n"
  by (simp add: draw_def)

section \<open>Generic list lemmas\<close>

declare dropWhile_eq_Nil_conv [simp del]

lemma take_append_exact [simp]: "length xs = n \<Longrightarrow> take n (xs @ ys) = xs"
  and drop_append_exact [simp]: "length xs = n \<Longrightarrow> drop n (xs @ ys) = ys"
  by auto

lemma takeWhile_append_stop:
  "(\<And>x. x \<in> set xs \<Longrightarrow> P x) \<Longrightarrow> ys = [] \<or> \<not> P (hd ys) \<Longrightarrow> takeWhile P (xs @ ys) = xs"
  by (induction xs) (auto simp: takeWhile_eq_Nil_iff)

lemma dropWhile_append_stop:
  "(\<And>x. x \<in> set xs \<Longrightarrow> P x) \<Longrightarrow> ys = [] \<or> \<not> P (hd ys) \<Longrightarrow> dropWhile P (xs @ ys) = ys"
  by (induction xs) (auto simp: dropWhile_eq_self_iff)

lemma map_of_rev_distinct: "distinct (map fst xs) \<Longrightarrow> map_of (rev xs) = map_of xs"
  by (rule map_of_eqI) (auto simp: rev_map [symmetric] intro!: map_of_is_SomeI dest: map_of_SomeD)

section \<open>Codecs\<close>

text \<open>
  The interface most of the clients rest on: an encoder whose output a decoder reads back.
  \<open>wf\<close> is the domain on which the encoder is used. Base64, UTF-8, the ciphertext envelope,
  JSON, the vault file and the backup file are codecs; each client of a codec uses only
  the facts below.
\<close>

locale codec =
  fixes wf :: "'a \<Rightarrow> bool"
    and enc :: "'a \<Rightarrow> 'b"
    and dec :: "'b \<Rightarrow> jserror + 'a"
  assumes dec_enc: "wf x \<Longrightarrow> dec (enc x) = Inr x"
begin

lemma enc_inject: "wf x \<Longrightarrow> wf y \<Longrightarrow> enc x = enc y \<longleftrightarrow> x = y"
  using dec_enc by (metis Inr_inject)

lemma enc_inj_on: "inj_on enc {x. wf x}"
  by (rule inj_onI) (simp add: enc_inject)

lemma dec_total_on_image: "y \<in> enc ` {x. wf x} \<Longrightarrow> \<exists>x. wf x \<and> dec y = Inr x"
  using dec_enc by auto

lemma enc_dec_stable: "wf x \<Longrightarrow> mapR enc (dec (enc x)) = Inr (enc x)"
  by (simp add: dec_enc)

end

end
