(* ===== verification/JSString.thy ===== *)
theory JSString
  imports Prelude
begin

text \<open>
  The part of JavaScript's string and number library the clients use, on UTF-16 code units:
  white space and \<open>trim\<close>, case mapping, searching and splitting, decimal printing and
  reading. The tables of the Unicode character database (case mapping and NFKC of
  strings that are not ASCII) are not part of the language's text: they are the fields of
  the record \<open>jsenv\<close>, an argument of the functions that use them. On ASCII strings the
  functions are defined here.
\<close>

section \<open>Character classes\<close>

definition is_ascii :: "u16 \<Rightarrow> bool" where
  "is_ascii c \<longleftrightarrow> c < 128"

definition is_digit :: "u16 \<Rightarrow> bool" where
  "is_digit c \<longleftrightarrow> 48 \<le> c \<and> c \<le> 57"

definition is_lower :: "u16 \<Rightarrow> bool" where
  "is_lower c \<longleftrightarrow> 97 \<le> c \<and> c \<le> 122"

definition is_upper :: "u16 \<Rightarrow> bool" where
  "is_upper c \<longleftrightarrow> 65 \<le> c \<and> c \<le> 90"

text \<open>The white space and line terminators of ECMAScript: what \<open>trim\<close> removes and the
  regular expression \<open>\s\<close> matches.\<close>

definition is_space :: "u16 \<Rightarrow> bool" where
  "is_space c \<longleftrightarrow>
     9 \<le> c \<and> c \<le> 13 \<or> c = 32 \<or> c = 0xA0 \<or> c = 0x1680 \<or> 0x2000 \<le> c \<and> c \<le> 0x200A \<or>
     c = 0x2028 \<or> c = 0x2029 \<or> c = 0x202F \<or> c = 0x205F \<or> c = 0x3000 \<or> c = 0xFEFF"

lemmas char_class_defs = is_ascii_def is_digit_def is_lower_def is_upper_def is_space_def

definition ascii_string :: "jsstring \<Rightarrow> bool" where
  "ascii_string s \<longleftrightarrow> (\<forall>c \<in> set s. is_ascii c)"

lemma ascii_string_simps [simp]:
  "ascii_string []"
  "ascii_string (c # s) \<longleftrightarrow> is_ascii c \<and> ascii_string s"
  "ascii_string (s @ t) \<longleftrightarrow> ascii_string s \<and> ascii_string t"
  by (auto simp: ascii_string_def)

section \<open>Case mapping and normal forms\<close>

text \<open>
  The engine's tables: \<open>uc_lower\<close>, \<open>uc_upper\<close> and \<open>uc_nfkc\<close> are \<open>toLowerCase\<close>,
  \<open>toUpperCase\<close> and \<open>normalize("NFKC")\<close> on strings that are not ASCII; \<open>num_text\<close> is the
  text of the double nearest to a numeric literal that is not a safe integer.
\<close>

record jsenv =
  uc_lower :: "jsstring \<Rightarrow> jsstring"
  uc_upper :: "jsstring \<Rightarrow> jsstring"
  uc_nfkc :: "jsstring \<Rightarrow> jsstring"
  num_text :: "jsstring \<Rightarrow> jsstring"

definition ascii_lower :: "u16 \<Rightarrow> u16" where
  "ascii_lower c = (if is_upper c then c + 32 else c)"

definition ascii_upper :: "u16 \<Rightarrow> u16" where
  "ascii_upper c = (if is_lower c then c - 32 else c)"

definition toLowerCase :: "'z jsenv_scheme \<Rightarrow> jsstring \<Rightarrow> jsstring" where
  "toLowerCase U s = (if ascii_string s then map ascii_lower s else uc_lower U s)"

definition toUpperCase :: "'z jsenv_scheme \<Rightarrow> jsstring \<Rightarrow> jsstring" where
  "toUpperCase U s = (if ascii_string s then map ascii_upper s else uc_upper U s)"

definition normalizeNFKC :: "'z jsenv_scheme \<Rightarrow> jsstring \<Rightarrow> jsstring" where
  "normalizeNFKC U s = (if ascii_string s then s else uc_nfkc U s)"

section \<open>Trimming, searching, splitting\<close>

definition trim :: "jsstring \<Rightarrow> jsstring" where
  "trim s = rev (dropWhile is_space (rev (dropWhile is_space s)))"

text \<open>\<open>s.replace(/\s+/g, " ")\<close>: every maximal run of white space becomes one space. The
  flag says whether the character before was white space.\<close>

fun collapse_from :: "bool \<Rightarrow> jsstring \<Rightarrow> jsstring" where
  "collapse_from prev [] = []"
| "collapse_from prev (c # s) =
     (if is_space c
      then (if prev then collapse_from True s else 32 # collapse_from True s)
      else c # collapse_from False s)"

definition collapse_spaces :: "jsstring \<Rightarrow> jsstring" where
  "collapse_spaces s = collapse_from False s"

text \<open>\<open>s.split(re)\<close> for a regular expression that matches one character of a class, and
  \<open>xs.join(sep)\<close>.\<close>

fun split_by :: "(u16 \<Rightarrow> bool) \<Rightarrow> jsstring \<Rightarrow> jsstring list" where
  "split_by P [] = [[]]"
| "split_by P (x # s) =
     (if P x then [] # split_by P s
      else (case split_by P s of [] \<Rightarrow> [[x]] | p # ps \<Rightarrow> (x # p) # ps))"

abbreviation split_on :: "u16 \<Rightarrow> jsstring \<Rightarrow> jsstring list" where
  "split_on c \<equiv> split_by (\<lambda>x. x = c)"

fun join :: "jsstring \<Rightarrow> jsstring list \<Rightarrow> jsstring" where
  "join sep [] = []"
| "join sep [x] = x"
| "join sep (x # y # ys) = x @ sep @ join sep (y # ys)"

text \<open>\<open>s.indexOf(c)\<close>: \<open>None\<close> is \<open>-1\<close>.\<close>

fun indexOf :: "u16 \<Rightarrow> jsstring \<Rightarrow> nat option" where
  "indexOf c [] = None"
| "indexOf c (x # s) = (if x = c then Some 0 else map_option Suc (indexOf c s))"

definition startsWith :: "jsstring \<Rightarrow> jsstring \<Rightarrow> bool" where
  "startsWith s p \<longleftrightarrow> take (length p) s = p"

definition endsWith :: "jsstring \<Rightarrow> jsstring \<Rightarrow> bool" where
  "endsWith s p \<longleftrightarrow> length p \<le> length s \<and> drop (length s - length p) s = p"

fun str_includes :: "jsstring \<Rightarrow> jsstring \<Rightarrow> bool" where
  "str_includes [] p = (p = [])"
| "str_includes (c # s) p = (startsWith (c # s) p \<or> str_includes s p)"

definition padStart :: "nat \<Rightarrow> u16 \<Rightarrow> jsstring \<Rightarrow> jsstring" where
  "padStart n c s = replicate (n - length s) c @ s"

subsection \<open>Facts\<close>

lemma dropWhile_space_eq:
  "s = [] \<or> \<not> is_space (hd s) \<Longrightarrow> dropWhile is_space s = s"
  by (cases s) auto

lemma trim_id: "s = [] \<or> (\<not> is_space (hd s) \<and> \<not> is_space (last s)) \<Longrightarrow> trim s = s"
  by (auto simp: trim_def dropWhile_space_eq hd_rev)

lemma set_trim_subset: "set (trim s) \<subseteq> set s"
proof
  fix c
  assume "c \<in> set (trim s)"
  then have "c \<in> set (dropWhile is_space (rev (dropWhile is_space s)))"
    by (simp add: trim_def)
  then have "c \<in> set (dropWhile is_space s)"
    by (metis set_dropWhileD set_rev)
  then show "c \<in> set s"
    by (rule set_dropWhileD)
qed

lemma trim_hd: "trim s \<noteq> [] \<Longrightarrow> \<not> is_space (hd (trim s))"
proof -
  assume ne: "trim s \<noteq> []"
  let ?d = "dropWhile is_space s"
  have "?d \<noteq> []"
  proof
    assume "?d = []"
    then have "trim s = []"
      unfolding trim_def by (simp only: rev.simps dropWhile.simps)
    with ne show False ..
  qed
  then have h: "\<not> is_space (hd ?d)"
    by (rule hd_dropWhile)
  from ne have "hd (trim s) = hd ?d"
  proof -
    obtain a b where ab: "rev ?d = a @ b" and b: "b = dropWhile is_space (rev ?d)"
      by (metis takeWhile_dropWhile_id)
    from ne b have "b \<noteq> []"
      by (simp add: trim_def)
    have "?d = rev b @ rev a"
      using ab by (metis rev_append rev_rev_ident)
    with \<open>b \<noteq> []\<close> have "hd ?d = hd (rev b)"
      by simp
    then show ?thesis
      using b by (simp add: trim_def)
  qed
  with h show ?thesis
    by simp
qed

lemma trim_last: "trim s \<noteq> [] \<Longrightarrow> \<not> is_space (last (trim s))"
  using hd_dropWhile [of is_space "rev (dropWhile is_space s)"]
  by (simp add: trim_def last_rev)

lemma trim_idem [simp]: "trim (trim s) = trim s"
  by (rule trim_id) (use trim_hd trim_last in blast)

lemma trim_eq_Nil: "trim s = [] \<longleftrightarrow> (\<forall>c \<in> set s. is_space c)"
proof -
  have "trim s = [] \<longleftrightarrow> (\<forall>c \<in> set (dropWhile is_space s). is_space c)"
    by (simp add: trim_def dropWhile_eq_Nil_conv)
  also have "\<dots> \<longleftrightarrow> dropWhile is_space s = []"
    by (metis dropWhile.simps(1) hd_dropWhile hd_in_set list.set(1) empty_iff)
  also have "\<dots> \<longleftrightarrow> (\<forall>c \<in> set s. is_space c)"
    by (rule dropWhile_eq_Nil_conv)
  finally show ?thesis .
qed

text \<open>The words of a string: its maximal runs of characters that are not white space. The
  first argument is the word being read.\<close>

fun words_from :: "jsstring \<Rightarrow> jsstring \<Rightarrow> jsstring list" where
  "words_from w [] = (if w = [] then [] else [w])"
| "words_from w (c # s) =
     (if is_space c then (if w = [] then words_from [] s else w # words_from [] s)
      else words_from (w @ [c]) s)"

definition words :: "jsstring \<Rightarrow> jsstring list" where
  "words s = words_from [] s"

lemma words_from_spaces: "\<forall>c \<in> set sp. is_space c \<Longrightarrow> words_from [] (sp @ s) = words_from [] s"
  by (induction sp) auto

lemma words_from_trailing: "\<forall>c \<in> set sp. is_space c \<Longrightarrow> words_from w (s @ sp) = words_from w s"
proof (induction s arbitrary: w)
  case Nil
  then show ?case
    by (cases sp) (auto dest: words_from_spaces [of _ "[]"])
qed auto

lemma words_from_word: "\<forall>c \<in> set v. \<not> is_space c \<Longrightarrow> words_from w (v @ s) = words_from (w @ v) s"
  by (induction v arbitrary: w) auto

lemma words_from_eq_Nil: "words_from w s = [] \<longleftrightarrow> w = [] \<and> (\<forall>c \<in> set s. is_space c)"
  by (induction s arbitrary: w) auto

lemma words_trim [simp]: "words (trim s) = words s"
proof -
  let ?h = "takeWhile is_space s" and ?d = "dropWhile is_space s"
  let ?tail = "rev (takeWhile is_space (rev ?d))"
  have d: "?d = trim s @ ?tail"
    unfolding trim_def by (metis rev_append rev_rev_ident takeWhile_dropWhile_id)
  have "words s = words_from [] (?h @ ?d)"
    by (simp add: words_def)
  also have "\<dots> = words_from [] ?d"
    by (rule words_from_spaces) (auto dest: set_takeWhileD)
  also have "\<dots> = words_from [] (trim s)"
    by (subst d, rule words_from_trailing) (auto dest: set_takeWhileD)
  finally show ?thesis
    by (simp add: words_def)
qed

lemma join_Cons: "xs \<noteq> [] \<Longrightarrow> join sep (x # xs) = x @ sep @ join sep xs"
  by (cases xs) auto

lemma collapse_words_from:
  "s = [] \<or> \<not> is_space (last s) \<Longrightarrow>
   (if w = [] then collapse_from True s else w @ collapse_from False s) = join [32] (words_from w s)"
proof (induction s arbitrary: w)
  case Nil
  then show ?case by simp
next
  case (Cons c s)
  show ?case
  proof (cases "is_space c")
    case True
    with Cons.prems have s: "s \<noteq> []" "\<not> is_space (last s)"
      by (auto split: if_splits)
    then have "words_from [] s \<noteq> []"
      by (auto simp: words_from_eq_Nil)
    with True s Cons.IH [of "[]"] show ?thesis
      by (simp add: join_Cons)
  next
    case False
    with Cons.prems have "s = [] \<or> \<not> is_space (last s)"
      by (auto split: if_splits)
    with False Cons.IH [of "w @ [c]"] show ?thesis
      by auto
  qed
qed

lemma collapse_trim: "collapse_spaces (trim s) = join [32] (words s)"
proof -
  have "collapse_from False (trim s) = collapse_from True (trim s)"
    using trim_hd [of s] by (cases "trim s") auto
  also have "\<dots> = join [32] (words (trim s))"
    using collapse_words_from [of "trim s" "[]"] trim_last [of s] by (auto simp: words_def)
  finally show ?thesis
    by (simp add: collapse_spaces_def)
qed

lemma words_from_are_words:
  "v \<in> set (words_from w s) \<Longrightarrow> \<forall>c \<in> set w. \<not> is_space c \<Longrightarrow>
   v \<noteq> [] \<and> (\<forall>c \<in> set v. \<not> is_space c \<and> c \<in> set w \<union> set s)"
proof (induction s arbitrary: w)
  case Nil
  then show ?case by (auto split: if_splits)
next
  case (Cons c s)
  show ?case
  proof (cases "is_space c")
    case True
    then show ?thesis
      using Cons.prems Cons.IH [of "[]"] by (auto split: if_splits)
  next
    case False
    then show ?thesis
      using Cons.prems Cons.IH [of "w @ [c]"] by auto
  qed
qed

lemma words_are_words: "w \<in> set (words s) \<Longrightarrow> w \<noteq> [] \<and> (\<forall>c \<in> set w. \<not> is_space c \<and> c \<in> set s)"
  using words_from_are_words [of w "[]" s] by (simp add: words_def)

lemma is_space_32 [simp]: "is_space 32"
  by (simp add: is_space_def)

lemma words_join:
  "\<forall>w \<in> set ws. w \<noteq> [] \<and> (\<forall>c \<in> set w. \<not> is_space c) \<Longrightarrow> words (join [32] ws) = ws"
  unfolding words_def
proof (induction ws)
  case (Cons w ws)
  show ?case
  proof (cases ws)
    case Nil
    with Cons.prems show ?thesis
      using words_from_word [of w "[]" "[]"] by simp
  next
    case (Cons v vs)
    then show ?thesis
      using Cons.IH Cons.prems words_from_word [of w "[]" "32 # join [32] ws"] by simp
  qed
qed simp

end
