(* ===== verification/JSNumber.thy ===== *)
theory JSNumber
  imports JSString
begin

text \<open>
  Numbers as the clients use them. A JavaScript number that is an integer of magnitude at
  most \<open>2 ^ 53\<close> is exact and is an \<open>int\<close> here; any other number is kept as the literal it
  was read from (\<open>NLit\<close>), because no client computes with one: it is only compared with
  small integers or turned into text.
\<close>

datatype jsnum = NInt int | NLit jsstring

section \<open>Decimal digits\<close>

definition digit_char :: "nat \<Rightarrow> u16" where
  "digit_char d = of_nat (48 + d)"

definition digit_val :: "u16 \<Rightarrow> nat" where
  "digit_val c = unat c - 48"

fun nat_digits :: "nat \<Rightarrow> nat list" where
  "nat_digits n = (if n < 10 then [n] else nat_digits (n div 10) @ [n mod 10])"

declare nat_digits.simps [simp del]

definition nat_str :: "nat \<Rightarrow> jsstring" where
  "nat_str n = map digit_char (nat_digits n)"

definition int_str :: "int \<Rightarrow> jsstring" where
  "int_str i = (if i < 0 then 45 # nat_str (nat (- i)) else nat_str (nat i))"

definition digits_val :: "jsstring \<Rightarrow> nat" where
  "digits_val s = foldl (\<lambda>a c. 10 * a + digit_val c) 0 s"

lemma unat_digit_char: "d < 10 \<Longrightarrow> unat (digit_char d) = 48 + d"
  unfolding digit_char_def by (rule unat_of_nat16) simp

lemma digit_val_char [simp]: "d < 10 \<Longrightarrow> digit_val (digit_char d) = d"
  by (simp add: digit_val_def unat_digit_char)

lemma is_digit_char [simp]: "d < 10 \<Longrightarrow> is_digit (digit_char d)"
  by (simp add: is_digit_def word_le_nat_alt unat_digit_char)

lemma nat_digits_bound: "d \<in> set (nat_digits n) \<Longrightarrow> d < 10"
proof (induction n rule: nat_digits.induct)
  case (1 n)
  then show ?case
    by (subst (asm) nat_digits.simps) (auto split: if_splits)
qed

lemma nat_digits_ne [simp]: "nat_digits n \<noteq> []"
  by (subst nat_digits.simps) simp

lemma nat_str_ne [simp]: "nat_str n \<noteq> []"
  by (simp add: nat_str_def)

lemma nat_str_digits: "c \<in> set (nat_str n) \<Longrightarrow> is_digit c"
  by (auto simp: nat_str_def dest: nat_digits_bound)

lemma digits_val_snoc: "digits_val (s @ [c]) = 10 * digits_val s + digit_val c"
  by (simp add: digits_val_def)

lemma digits_val_nat_str [simp]: "digits_val (nat_str n) = n"
proof (induction n rule: nat_digits.induct)
  case (1 n)
  show ?case
  proof (cases "n < 10")
    case True
    then show ?thesis
      by (simp add: nat_str_def nat_digits.simps [of n] digits_val_def)
  next
    case False
    then have "nat_str n = nat_str (n div 10) @ [digit_char (n mod 10)]"
      by (simp add: nat_str_def nat_digits.simps [of n])
    with 1 False show ?thesis
      by (simp add: digits_val_snoc)
  qed
qed

lemma nat_str_inject [simp]: "nat_str m = nat_str n \<longleftrightarrow> m = n"
  by (metis digits_val_nat_str)

text \<open>The number of digits: \<open>n\<close> below \<open>10 ^ k\<close> has at most \<open>k\<close> of them.\<close>

lemma length_nat_str: "n < 10 ^ k \<Longrightarrow> 0 < k \<Longrightarrow> length (nat_str n) \<le> k"
proof (induction n arbitrary: k rule: nat_digits.induct)
  case (1 n)
  show ?case
  proof (cases "n < 10")
    case True
    then show ?thesis
      using "1.prems" by (simp add: nat_str_def nat_digits.simps [of n])
  next
    case False
    with "1.prems" have "k \<noteq> 1"
      by auto
    with "1.prems" obtain j where j: "k = Suc j" "0 < j"
      by (cases k) auto
    with "1.prems" have "n div 10 < 10 ^ j"
      by (simp add: less_mult_imp_div_less mult.commute)
    with "1.IH" [OF False this] j have "length (nat_str (n div 10)) \<le> j"
      by simp
    with False j show ?thesis
      by (simp add: nat_str_def nat_digits.simps [of n])
  qed
qed

text \<open>No superfluous zero: a number of more than one digit does not start with \<open>0\<close>.\<close>

lemma hd_nat_digits: "0 < n \<Longrightarrow> hd (nat_digits n) \<noteq> 0"
proof (induction n rule: nat_digits.induct)
  case (1 n)
  then show ?case
    by (cases "n < 10") (simp_all add: nat_digits.simps [of n] hd_append)
qed

lemma nat_str_leading_zero: "hd (nat_str n) = 48 \<Longrightarrow> nat_str n = [48]"
proof -
  assume h: "hd (nat_str n) = 48"
  have "hd (nat_digits n) < 10"
    using nat_digits_bound [of "hd (nat_digits n)" n] by simp
  moreover have "hd (nat_str n) = digit_char (hd (nat_digits n))"
    by (simp add: nat_str_def hd_map)
  ultimately have "hd (nat_digits n) = 0"
    using h unat_digit_char [of "hd (nat_digits n)"] by simp
  then have "n = 0"
    using hd_nat_digits by blast
  then show ?thesis
    by (simp add: nat_str_def nat_digits.simps digit_char_def)
qed

section \<open>Numeric literals\<close>

text \<open>The number a decimal literal denotes: sign, digits before and after the point, and the
  exponent; \<open>lit\<close> is the text. With an exponent above 22 a number other than 0 is larger
  than \<open>2 ^ 53\<close>.\<close>

definition safe_int :: "bool \<Rightarrow> nat \<Rightarrow> jsstring \<Rightarrow> jsnum" where
  "safe_int neg v lit =
     (if v \<le> 2 ^ 53 then NInt (if neg then - int v else int v) else NLit lit)"

definition dec_literal :: "bool \<Rightarrow> jsstring \<Rightarrow> jsstring \<Rightarrow> int \<Rightarrow> jsstring \<Rightarrow> jsnum" where
  "dec_literal neg ip fp ex lit =
     (let m = digits_val (ip @ fp); e = ex - int (length fp)
      in if m = 0 then NInt 0
         else if 22 < e then NLit lit
         else if 0 \<le> e then safe_int neg (m * 10 ^ nat e) lit
         else if int (length (ip @ fp)) < - e then NLit lit
         else if m mod 10 ^ nat (- e) = 0 then safe_int neg (m div 10 ^ nat (- e)) lit
         else NLit lit)"

lemma dec_literal_nat: "n \<le> 2 ^ 53 \<Longrightarrow> dec_literal neg (nat_str n) [] 0 lit = NInt (if neg then - int n else int n)"
  by (simp add: dec_literal_def safe_int_def)

text \<open>\<open>parseInt(s, 10)\<close>: \<open>None\<close> is \<open>NaN\<close>.\<close>

definition parseInt :: "jsstring \<Rightarrow> int option" where
  "parseInt s =
     (let s1 = dropWhile is_space s;
          neg = (s1 \<noteq> [] \<and> hd s1 = 45);
          s2 = (if s1 \<noteq> [] \<and> (hd s1 = 45 \<or> hd s1 = 43) then tl s1 else s1);
          ds = takeWhile is_digit s2
      in if ds = [] then None else Some (if neg then - int (digits_val ds) else int (digits_val ds)))"

text \<open>\<open>Number(s)\<close> on a string: \<open>None\<close> is \<open>NaN\<close>. Blank text is \<open>0\<close>; binary, octal and
  hexadecimal literals have no sign.\<close>

definition radix_digit :: "nat \<Rightarrow> u16 \<Rightarrow> nat option" where
  "radix_digit r c =
     (let v = (if is_digit c then unat c - 48
               else if is_lower c then unat c - 87
               else if is_upper c then unat c - 55 else 99)
      in if v < r then Some v else None)"

fun radix_val :: "nat \<Rightarrow> nat \<Rightarrow> jsstring \<Rightarrow> nat option" where
  "radix_val r acc [] = Some acc"
| "radix_val r acc (c # s) =
     (case radix_digit r c of None \<Rightarrow> None | Some d \<Rightarrow> radix_val r (r * acc + d) s)"

text \<open>The exponent part of a decimal literal, up to the end of the text.\<close>

definition exp_part :: "jsstring \<Rightarrow> int option" where
  "exp_part s =
     (case s of [] \<Rightarrow> Some 0
      | e # r \<Rightarrow>
          if e = 101 \<or> e = 69 then
            (let neg = (r \<noteq> [] \<and> hd r = 45);
                 ds = (if r \<noteq> [] \<and> (hd r = 45 \<or> hd r = 43) then tl r else r)
             in if ds \<noteq> [] \<and> list_all is_digit ds
                then Some (if neg then - int (digits_val ds) else int (digits_val ds))
                else None)
          else None)"

definition unsigned_decimal :: "bool \<Rightarrow> jsstring \<Rightarrow> jsstring \<Rightarrow> jsnum option" where
  "unsigned_decimal neg s lit =
     (let ip = takeWhile is_digit s; r = dropWhile is_digit s;
          dot = (r \<noteq> [] \<and> hd r = 46);
          fp = (if dot then takeWhile is_digit (tl r) else []);
          r' = (if dot then dropWhile is_digit (tl r) else r)
      in if ip = [] \<and> fp = [] then None
         else case exp_part r' of None \<Rightarrow> None | Some ex \<Rightarrow> Some (dec_literal neg ip fp ex lit))"

definition toNumber :: "jsstring \<Rightarrow> jsnum option" where
  "toNumber s =
     (let t = trim s; pre = take 2 t; body = drop 2 t;
          radix = (\<lambda>r. if body = [] then None
                      else map_option (\<lambda>v. safe_int False v t) (radix_val r 0 body))
      in if t = [] then Some (NInt 0)
         else if pre = js ''0x'' \<or> pre = js ''0X'' then radix 16
         else if pre = js ''0o'' \<or> pre = js ''0O'' then radix 8
         else if pre = js ''0b'' \<or> pre = js ''0B'' then radix 2
         else let neg = (hd t = 45);
                  u = (if hd t = 45 \<or> hd t = 43 then tl t else t)
              in if u = js ''Infinity'' then Some (NLit t) else unsigned_decimal neg u t)"

text \<open>\<open>String(n)\<close>.\<close>

definition num_str :: "'z jsenv_scheme \<Rightarrow> jsnum \<Rightarrow> jsstring" where
  "num_str J n = (case n of NInt i \<Rightarrow> int_str i | NLit l \<Rightarrow> num_text J l)"

lemma num_str_NInt [simp]: "num_str J (NInt i) = int_str i"
  by (simp add: num_str_def)

end
