(* ===== verification/JSValue.thy ===== *)
theory JSValue
  imports JSNumber
begin

text \<open>
  The values \<open>JSON.parse\<close> produces and the operations on them the clients use: property
  reads, spreads and assignments on objects, truth, and conversion to a string.
  An object is the list of its own properties in enumeration order: the array indices among
  the keys in ascending order, then the other keys in the order they were created.
\<close>

datatype jsval =
    JNull
  | JBool bool
  | JNum jsnum
  | JStr jsstring
  | JArr "jsval list"
  | JObj "(jsstring \<times> jsval) list"

type_synonym props = "(jsstring \<times> jsval) list"

section \<open>Objects\<close>

text \<open>Array indices: the canonical decimal texts of the integers below \<open>2 ^ 32 - 1\<close>.\<close>

definition index_key :: "jsstring \<Rightarrow> bool" where
  "index_key k \<longleftrightarrow>
     k \<noteq> [] \<and> list_all is_digit k \<and> (hd k = 48 \<longrightarrow> length k = 1) \<and> length k \<le> 10
     \<and> digits_val k < 2 ^ 32 - 1"

definition key_before :: "jsstring \<Rightarrow> jsstring \<Rightarrow> bool" where
  "key_before k k' \<longleftrightarrow> index_key k \<and> (\<not> index_key k' \<or> digits_val k < digits_val k')"

fun obj_put :: "jsstring \<Rightarrow> 'v \<Rightarrow> (jsstring \<times> 'v) list \<Rightarrow> (jsstring \<times> 'v) list" where
  "obj_put k v [] = [(k, v)]"
| "obj_put k v ((k', v') # r) =
     (if k = k' then (k, v) # r
      else if key_before k k' then (k, v) # (k', v') # r
      else (k', v') # obj_put k v r)"

text \<open>Properties assigned one after the other (an object literal, a spread, the members of
  a JSON object).\<close>

fun obj_assign :: "(jsstring \<times> 'v) list \<Rightarrow> (jsstring \<times> 'v) list \<Rightarrow> (jsstring \<times> 'v) list" where
  "obj_assign o1 [] = o1"
| "obj_assign o1 ((k, v) # kvs) = obj_assign (obj_put k v o1) kvs"

definition obj_of :: "(jsstring \<times> 'v) list \<Rightarrow> (jsstring \<times> 'v) list" where
  "obj_of kvs = obj_assign [] kvs"

definition obj_get :: "(jsstring \<times> 'v) list \<Rightarrow> jsstring \<Rightarrow> 'v option" where
  "obj_get kvs k = map_of kvs k"

text \<open>The own enumerable properties of a value, as \<open>Object.entries\<close> lists and a spread
  copies them.\<close>

definition own_props :: "jsval \<Rightarrow> props" where
  "own_props v =
     (case v of
        JObj kvs \<Rightarrow> kvs
      | JArr vs \<Rightarrow> zip (map nat_str [0..<length vs]) vs
      | JStr s \<Rightarrow> zip (map nat_str [0..<length s]) (map (\<lambda>c. JStr [c]) s)
      | _ \<Rightarrow> [])"

text \<open>\<open>v[k]\<close> for a key no built-in prototype defines: \<open>Inl\<close> on \<open>null\<close>, \<open>Inr None\<close> is
  \<open>undefined\<close>.\<close>

definition get_prop :: "jsval \<Rightarrow> jsstring \<Rightarrow> jsval option result" where
  "get_prop v k = (if v = JNull then Inl EType else Inr (obj_get (own_props v) k))"

text \<open>\<open>v?.[k]\<close>.\<close>

definition get_prop_opt :: "jsval \<Rightarrow> jsstring \<Rightarrow> jsval option" where
  "get_prop_opt v k = (if v = JNull then None else obj_get (own_props v) k)"

section \<open>Truth and text\<close>

fun truthy :: "jsval \<Rightarrow> bool" where
  "truthy JNull = False"
| "truthy (JBool b) = b"
| "truthy (JNum n) = (n \<noteq> NInt 0)"
| "truthy (JStr s) = (s \<noteq> [])"
| "truthy (JArr _) = True"
| "truthy (JObj _) = True"

definition truthy_opt :: "jsval option \<Rightarrow> bool" where
  "truthy_opt ov = (case ov of None \<Rightarrow> False | Some v \<Rightarrow> truthy v)"

text \<open>\<open>typeof v === "object"\<close> for a value that is not \<open>null\<close>.\<close>

fun is_objectlike :: "jsval \<Rightarrow> bool" where
  "is_objectlike (JArr _) = True"
| "is_objectlike (JObj _) = True"
| "is_objectlike _ = False"

text \<open>\<open>String(v)\<close>. An object's text is \<open>[object Object]\<close>, unless it has an own property
  \<open>toString\<close>: a parsed value is no function, so the conversion then fails. An array is
  the text of its elements joined by commas, \<open>null\<close> as nothing.\<close>

fun toText :: "'z jsenv_scheme \<Rightarrow> jsval \<Rightarrow> jsstring result"
  and elemsText :: "'z jsenv_scheme \<Rightarrow> jsval list \<Rightarrow> jsstring list result" where
  "toText J JNull = Inr (js ''null'')"
| "toText J (JBool b) = Inr (js (if b then ''true'' else ''false''))"
| "toText J (JNum n) = Inr (num_str J n)"
| "toText J (JStr s) = Inr s"
| "toText J (JArr vs) = mapR (join [44]) (elemsText J vs)"
| "toText J (JObj kvs) =
     (if js ''toString'' \<in> fst ` set kvs then Inl EType else Inr (js ''[object Object]''))"
| "elemsText J [] = Inr []"
| "elemsText J (v # vs) =
     bindR (if v = JNull then Inr [] else toText J v) (\<lambda>t. mapR ((#) t) (elemsText J vs))"

section \<open>Facts about objects\<close>

lemma obj_get_put_same: "obj_get (obj_put k v kvs) k = Some v"
  by (induction kvs) (auto simp: obj_get_def)

lemma obj_get_put_other: "k' \<noteq> k \<Longrightarrow> obj_get (obj_put k v kvs) k' = obj_get kvs k'"
  by (induction kvs) (auto simp: obj_get_def)

lemma obj_get_put: "obj_get (obj_put k v kvs) k' = (if k' = k then Some v else obj_get kvs k')"
  by (simp add: obj_get_put_same obj_get_put_other)

lemma keys_obj_put: "fst ` set (obj_put k v kvs) = insert k (fst ` set kvs)"
  by (induction k v kvs rule: obj_put.induct) (simp_all add: insert_commute)

lemma keys_obj_assign: "fst ` set (obj_assign o1 kvs) = fst ` set o1 \<union> fst ` set kvs"
  by (induction o1 kvs rule: obj_assign.induct) (auto simp: keys_obj_put)

text \<open>A later assignment wins.\<close>

lemma obj_get_assign:
  "obj_get (obj_assign o1 kvs) k =
     (case map_of (rev kvs) k of None \<Rightarrow> obj_get o1 k | Some v \<Rightarrow> Some v)"
  by (induction o1 kvs rule: obj_assign.induct)
    (auto simp: obj_get_put map_add_def split: option.splits)

lemma obj_get_assign_distinct:
  "distinct (map fst kvs) \<Longrightarrow>
   obj_get (obj_assign o1 kvs) k = (case obj_get kvs k of None \<Rightarrow> obj_get o1 k | Some v \<Rightarrow> Some v)"
  by (simp add: obj_get_assign obj_get_def [of kvs] map_of_rev_distinct)

text \<open>Keys that are not array indices stay in the order they are given.\<close>

lemma obj_put_snoc: "k \<notin> fst ` set kvs \<Longrightarrow> \<not> index_key k \<Longrightarrow> obj_put k v kvs = kvs @ [(k, v)]"
  by (induction kvs) (auto simp: key_before_def)

lemma obj_assign_append:
  "distinct (map fst kvs) \<Longrightarrow> fst ` set o1 \<inter> fst ` set kvs = {} \<Longrightarrow>
   \<forall>k \<in> fst ` set kvs. \<not> index_key k \<Longrightarrow> obj_assign o1 kvs = o1 @ kvs"
  by (induction o1 kvs rule: obj_assign.induct) (auto simp: obj_put_snoc)

lemma obj_of_id:
  "distinct (map fst kvs) \<Longrightarrow> \<forall>k \<in> fst ` set kvs. \<not> index_key k \<Longrightarrow> obj_of kvs = kvs"
  by (simp add: obj_of_def obj_assign_append)

text \<open>A key with a character that is no digit is no array index.\<close>

lemma not_index_key: "c \<in> set k \<Longrightarrow> \<not> is_digit c \<Longrightarrow> \<not> index_key k"
  by (auto simp: index_key_def list_all_iff)

lemma not_index_key_hd: "k \<noteq> [] \<Longrightarrow> \<not> is_digit (hd k) \<Longrightarrow> \<not> index_key k"
  by (rule not_index_key [of "hd k"]) auto

text \<open>Objects written as literals: their keys are identifiers.\<close>

lemma obj_get_simps [simp]:
  "obj_get [] k = None" "obj_get ((k', v) # r) k = (if k = k' then Some v else obj_get r k)"
  by (simp_all add: obj_get_def)

lemma not_index_js [simp]:
  "\<not> (48 \<le> (of_char c :: nat) \<and> (of_char c :: nat) \<le> 57) \<Longrightarrow> \<not> index_key (js (c # s))"
  by (rule not_index_key_hd) (auto simp: js_Cons is_digit_def word_le_nat_alt)

section \<open>Well-formed values\<close>

text \<open>What \<open>JSON.stringify\<close> writes without loss: numbers that are safe integers, objects
  with their keys in enumeration order and each key once.\<close>

fun plain :: "jsval \<Rightarrow> bool" where
  "plain (JNum n) = (\<exists>i. n = NInt i \<and> \<bar>i\<bar> \<le> 2 ^ 53)"
| "plain (JArr vs) = (\<forall>v \<in> set vs. plain v)"
| "plain (JObj kvs) = (obj_of kvs = kvs \<and> (\<forall>kv \<in> set kvs. plain (snd kv)))"
| "plain _ = True"

lemma plain_code [code]:
  "plain (JNum (NInt i)) = (\<bar>i\<bar> \<le> 2 ^ 53)"
  "plain (JNum (NLit l)) = False"
  "plain (JArr vs) = list_all plain vs"
  "plain (JObj kvs) = (obj_of kvs = kvs \<and> list_all (\<lambda>kv. plain (snd kv)) kvs)"
  "plain JNull = True" "plain (JBool b) = True" "plain (JStr s) = True"
  by (simp_all add: list_all_iff)

end
