(* ===== verification/Utf8.thy ===== *)
theory Utf8
  imports Prelude
begin

text \<open>
  \<open>utf8\<close> and \<open>fromUtf8\<close> of packages/crypto/src/primitives.ts. The platform's \<open>TextEncoder\<close>
  and \<open>TextDecoder\<close> are written out as the Encoding standard defines them: the encoder
  replaces a lone surrogate by U+FFFD, the decoder (not fatal, byte order mark
  not ignored) drops a leading byte order mark and replaces every malformed sequence by
  U+FFFD.
\<close>

section \<open>Code points\<close>

definition high_surrogate :: "u16 \<Rightarrow> bool" where
  "high_surrogate u \<longleftrightarrow> 0xD800 \<le> unat u \<and> unat u < 0xDC00"

definition low_surrogate :: "u16 \<Rightarrow> bool" where
  "low_surrogate u \<longleftrightarrow> 0xDC00 \<le> unat u \<and> unat u < 0xE000"

text \<open>The scalar values of a string, lone surrogates replaced.\<close>

fun code_points :: "jsstring \<Rightarrow> nat list" where
  "code_points [] = []"
| "code_points [u] = [if high_surrogate u \<or> low_surrogate u then 0xFFFD else unat u]"
| "code_points (u # v # s) =
     (if high_surrogate u \<and> low_surrogate v
      then (0x10000 + (unat u - 0xD800) * 0x400 + (unat v - 0xDC00)) # code_points s
      else (if high_surrogate u \<or> low_surrogate u then 0xFFFD else unat u) # code_points (v # s))"

definition units_of :: "nat \<Rightarrow> jsstring" where
  "units_of cp =
     (if cp < 0x10000 then [of_nat cp]
      else [of_nat (0xD800 + (cp - 0x10000) div 0x400), of_nat (0xDC00 + (cp - 0x10000) mod 0x400)])"

text \<open>A string without lone surrogates.\<close>

fun well_formed :: "jsstring \<Rightarrow> bool" where
  "well_formed [] = True"
| "well_formed [u] = (\<not> high_surrogate u \<and> \<not> low_surrogate u)"
| "well_formed (u # v # s) =
     (if high_surrogate u then low_surrogate v \<and> well_formed s
      else \<not> low_surrogate u \<and> well_formed (v # s))"

definition scalar_value :: "nat \<Rightarrow> bool" where
  "scalar_value cp \<longleftrightarrow> cp < 0xD800 \<or> 0xE000 \<le> cp \<and> cp < 0x110000"

section \<open>TextEncoder\<close>

definition utf8_point :: "nat \<Rightarrow> bytes" where
  "utf8_point cp =
     (if cp < 0x80 then [of_nat cp]
      else if cp < 0x800 then [of_nat (0xC0 + cp div 0x40), of_nat (0x80 + cp mod 0x40)]
      else if cp < 0x10000 then
        [of_nat (0xE0 + cp div 0x1000), of_nat (0x80 + cp div 0x40 mod 0x40),
         of_nat (0x80 + cp mod 0x40)]
      else [of_nat (0xF0 + cp div 0x40000), of_nat (0x80 + cp div 0x1000 mod 0x40),
            of_nat (0x80 + cp div 0x40 mod 0x40), of_nat (0x80 + cp mod 0x40)])"

definition utf8 :: "jsstring \<Rightarrow> bytes" where
  "utf8 s = concat (map utf8_point (code_points s))"

section \<open>TextDecoder\<close>

text \<open>The decoder's state: the code point so far, how many continuation bytes are missing,
  and the bounds of the next one. A byte out of bounds ends the sequence with U+FFFD and is
  read again as a first byte.\<close>

fun utf8_decode :: "nat \<Rightarrow> nat \<Rightarrow> nat \<Rightarrow> nat \<Rightarrow> nat list \<Rightarrow> nat list" where
  "utf8_decode cp 0 lo hi [] = []"
| "utf8_decode cp (Suc n) lo hi [] = [0xFFFD]"
| "utf8_decode cp 0 lo hi (b # bs) =
     (if b \<le> 0x7F then b # utf8_decode 0 0 0x80 0xBF bs
      else if 0xC2 \<le> b \<and> b \<le> 0xDF then utf8_decode (b - 0xC0) 1 0x80 0xBF bs
      else if 0xE0 \<le> b \<and> b \<le> 0xEF then
        utf8_decode (b - 0xE0) 2 (if b = 0xE0 then 0xA0 else 0x80) (if b = 0xED then 0x9F else 0xBF) bs
      else if 0xF0 \<le> b \<and> b \<le> 0xF4 then
        utf8_decode (b - 0xF0) 3 (if b = 0xF0 then 0x90 else 0x80) (if b = 0xF4 then 0x8F else 0xBF) bs
      else 0xFFFD # utf8_decode 0 0 0x80 0xBF bs)"
| "utf8_decode cp (Suc n) lo hi (b # bs) =
     (if lo \<le> b \<and> b \<le> hi then
        (if n = 0 then (cp * 0x40 + (b - 0x80)) # utf8_decode 0 0 0x80 0xBF bs
         else utf8_decode (cp * 0x40 + (b - 0x80)) n 0x80 0xBF bs)
      else 0xFFFD # utf8_decode 0 0 0x80 0xBF (b # bs))"

abbreviation utf8_scan :: "nat list \<Rightarrow> nat list" where
  "utf8_scan bs \<equiv> utf8_decode 0 0 0x80 0xBF bs"

definition fromUtf8 :: "bytes \<Rightarrow> jsstring" where
  "fromUtf8 b =
     concat (map units_of
       (utf8_scan (map unat (if take 3 b = [0xEF, 0xBB, 0xBF] then drop 3 b else b))))"

section \<open>The decoder inverts the encoder\<close>

lemma div_nest: "(n :: nat) div (a * b) * b + n div a mod b = n div a"
  by (simp add: div_mult2_eq)

lemma split64_bounds:
  fixes cp a b :: nat
  assumes "a * 64 + b = cp div 64" "b < 64"
  shows "a = 0 \<Longrightarrow> 0x800 \<le> cp \<Longrightarrow> 0x20 \<le> b"
    and "a = 0xD \<Longrightarrow> cp < 0xD800 \<or> 0xE000 \<le> cp \<Longrightarrow> b < 0x20"
proof -
  obtain q where q: "a * 64 + b = q" "64 * q \<le> cp" "cp < 64 * q + 64"
    using assms(1) dividend_less_div_times [of 64 cp] by (metis div_times_less_eq_dividend
        mult.commute add.commute zero_less_numeral)
  show "a = 0 \<Longrightarrow> 0x800 \<le> cp \<Longrightarrow> 0x20 \<le> b"
    using q by linarith
  show "a = 0xD \<Longrightarrow> cp < 0xD800 \<or> 0xE000 \<le> cp \<Longrightarrow> b < 0x20"
    using q assms(2) by linarith
qed

lemma split4096_bounds:
  fixes cp a b :: nat
  assumes "a * 64 + b = cp div 4096"
  shows "a = 0 \<Longrightarrow> 0x10000 \<le> cp \<Longrightarrow> 0x10 \<le> b"
    and "a = 4 \<Longrightarrow> cp < 0x110000 \<Longrightarrow> b < 0x10"
proof -
  obtain q where q: "a * 64 + b = q" "4096 * q \<le> cp" "cp < 4096 * q + 4096"
    using assms(1) dividend_less_div_times [of 4096 cp] by (metis div_times_less_eq_dividend
        mult.commute add.commute zero_less_numeral)
  show "a = 0 \<Longrightarrow> 0x10000 \<le> cp \<Longrightarrow> 0x10 \<le> b" "a = 4 \<Longrightarrow> cp < 0x110000 \<Longrightarrow> b < 0x10"
    using q by linarith+
qed

lemma scan_seq3:
  assumes "a < 16" "b < 64" "c < 64" "a = 0 \<Longrightarrow> 32 \<le> b" "a = 13 \<Longrightarrow> b < 32"
  shows "utf8_scan ((0xE0 + a) # (0x80 + b) # (0x80 + c) # bs) = ((a * 64 + b) * 64 + c) # utf8_scan bs"
  using assms by (cases "a = 0"; cases "a = 13") (simp_all add: numeral_2_eq_2)

lemma scan_seq4:
  assumes "a < 5" "b < 64" "c < 64" "d < 64" "a = 0 \<Longrightarrow> 16 \<le> b" "a = 4 \<Longrightarrow> b < 16"
  shows "utf8_scan ((0xF0 + a) # (0x80 + b) # (0x80 + c) # (0x80 + d) # bs) =
    (((a * 64 + b) * 64 + c) * 64 + d) # utf8_scan bs"
  using assms by (cases "a = 0"; cases "a = 4") (simp_all add: numeral_3_eq_3)

lemma utf8_scan_1: "cp < 0x80 \<Longrightarrow> utf8_scan (map unat (utf8_point cp) @ bs) = cp # utf8_scan bs"
  by (simp add: utf8_point_def unat_of_nat8)

lemma utf8_scan_2:
  assumes "0x80 \<le> cp" "cp < 0x800"
  shows "utf8_scan (map unat (utf8_point cp) @ bs) = cp # utf8_scan bs"
proof -
  have "map unat (utf8_point cp) = [0xC0 + cp div 0x40, 0x80 + cp mod 0x40]"
    using assms by (simp add: utf8_point_def unat_of_nat8 del: of_nat_add)
  moreover have "cp div 0x40 < 0x20" "2 \<le> cp div 0x40"
    using assms by simp_all
  ultimately show ?thesis
    using assms by simp
qed

lemma utf8_scan_3:
  assumes "0x800 \<le> cp" "cp < 0x10000" "scalar_value cp"
  shows "utf8_scan (map unat (utf8_point cp) @ bs) = cp # utf8_scan bs"
proof -
  let ?a = "cp div 0x1000" and ?b = "cp div 0x40 mod 0x40" and ?c = "cp mod 0x40"
  have "map unat (utf8_point cp) = [0xE0 + ?a, 0x80 + ?b, 0x80 + ?c]"
    using assms by (simp add: utf8_point_def unat_of_nat8 del: of_nat_add)
  moreover have "?a < 0x10"
    using assms by simp
  moreover have "(?a * 0x40 + ?b) * 0x40 + ?c = cp"
    using div_nest [of cp 64 64] by simp
  moreover have "?a = 0 \<Longrightarrow> 0x20 \<le> ?b" "?a = 0xD \<Longrightarrow> ?b < 0x20"
    using split64_bounds [of ?a ?b cp] div_nest [of cp 64 64] assms(1,3)
    unfolding scalar_value_def by auto
  ultimately show ?thesis
    using scan_seq3 [of ?a ?b ?c bs] by simp
qed

lemma utf8_scan_4:
  assumes "0x10000 \<le> cp" "cp < 0x110000"
  shows "utf8_scan (map unat (utf8_point cp) @ bs) = cp # utf8_scan bs"
proof -
  let ?a = "cp div 0x40000" and ?b = "cp div 0x1000 mod 0x40"
    and ?c = "cp div 0x40 mod 0x40" and ?d = "cp mod 0x40"
  have "?a < 5"
    using assms by simp
  moreover from this have "map unat (utf8_point cp) = [0xF0 + ?a, 0x80 + ?b, 0x80 + ?c, 0x80 + ?d]"
    using assms by (simp add: utf8_point_def unat_of_nat8 del: of_nat_add)
  moreover have "((?a * 0x40 + ?b) * 0x40 + ?c) * 0x40 + ?d = cp"
    using div_nest [of cp 64 64] div_nest [of cp 4096 64] by simp
  moreover have "?a = 0 \<Longrightarrow> 0x10 \<le> ?b" "?a = 4 \<Longrightarrow> ?b < 0x10"
    using split4096_bounds [of ?a ?b cp] div_nest [of cp 4096 64] assms by auto
  ultimately show ?thesis
    using scan_seq4 [of ?a ?b ?c ?d bs] by simp
qed

lemma utf8_scan_point:
  "scalar_value cp \<Longrightarrow> utf8_scan (map unat (utf8_point cp) @ bs) = cp # utf8_scan bs"
proof -
  assume sv: "scalar_value cp"
  then consider "cp < 0x80" | "0x80 \<le> cp" "cp < 0x800" | "0x800 \<le> cp" "cp < 0x10000"
    | "0x10000 \<le> cp" "cp < 0x110000"
    unfolding scalar_value_def by linarith
  then show ?thesis
    by cases (use sv in \<open>simp_all only: utf8_scan_1 utf8_scan_2 utf8_scan_3 utf8_scan_4\<close>)
qed

lemma utf8_scan_points:
  "\<forall>cp \<in> set cps. scalar_value cp \<Longrightarrow> utf8_scan (map unat (concat (map utf8_point cps))) = cps"
  by (induction cps) (simp_all add: utf8_scan_point)

lemma code_points_scalar: "cp \<in> set (code_points s) \<Longrightarrow> scalar_value cp"
proof (induction s rule: code_points.induct)
  case (2 u)
  then show ?case
    using unat_lt16 [of u]
    by (auto simp: scalar_value_def high_surrogate_def low_surrogate_def split: if_splits)
next
  case (3 u v s)
  then show ?case
    using unat_lt16 [of u] unat_lt16 [of v]
    by (auto simp: scalar_value_def high_surrogate_def low_surrogate_def split: if_splits)
qed simp

lemma utf8_scan_utf8 [simp]: "utf8_scan (map unat (utf8 s)) = code_points s"
  unfolding utf8_def by (rule utf8_scan_points) (auto dest: code_points_scalar)

lemma units_code_points: "well_formed s \<Longrightarrow> concat (map units_of (code_points s)) = s"
proof (induction s rule: code_points.induct)
  case (2 u)
  then show ?case
    using unat_lt16 [of u] by (simp add: units_of_def)
next
  case (3 u v s)
  show ?case
  proof (cases "high_surrogate u \<and> low_surrogate v")
    case True
    let ?cp = "0x10000 + (unat u - 0xD800) * 0x400 + (unat v - 0xDC00)"
    obtain x y where "unat u = 0xD800 + x" "unat v = 0xDC00 + y" "y < 0x400"
      using True unfolding high_surrogate_def low_surrogate_def
      by (intro that [of "unat u - 0xD800" "unat v - 0xDC00"]) auto
    then have "0xD800 + (?cp - 0x10000) div 0x400 = unat u" "0xDC00 + (?cp - 0x10000) mod 0x400 = unat v"
      by simp_all
    then have "units_of ?cp = [of_nat (unat u), of_nat (unat v)]"
      by (simp only: units_of_def) simp
    then have "units_of ?cp = [u, v]"
      by simp
    with True 3 show ?thesis
      by simp
  next
    case False
    with 3 show ?thesis
      using unat_lt16 [of u] by (auto simp: units_of_def split: if_splits)
  qed
qed simp

lemma bom_bytes: "unat (0xEF :: byte) = 0xEF" "unat (0xBB :: byte) = 0xBB" "unat (0xBF :: byte) = 0xBF"
  by simp_all

lemma bom_first:
  assumes "take 3 (utf8 s) = [0xEF, 0xBB, 0xBF]"
  shows "s \<noteq> [] \<and> hd s = 0xFEFF"
proof -
  have "utf8 s = [0xEF, 0xBB, 0xBF] @ drop 3 (utf8 s)"
    using assms by (metis append_take_drop_id)
  then have "map unat (utf8 s) = 0xEF # 0xBB # 0xBF # map unat (drop 3 (utf8 s))"
    by (metis (no_types, lifting) append_Cons append_Nil list.simps(9) bom_bytes)
  then have "code_points s = 0xFEFF # utf8_scan (map unat (drop 3 (utf8 s)))"
    using utf8_scan_utf8 [of s] by (simp add: numeral_2_eq_2)
  then show ?thesis
    by (cases s rule: code_points.cases)
      (auto simp: high_surrogate_def low_surrogate_def word_unat_eq_iff split: if_splits)
qed

text \<open>Reading back an encoded string gives the string with its lone surrogates replaced,
  without a leading byte order mark.\<close>

lemma fromUtf8_utf8:
  assumes "well_formed s" "s = [] \<or> hd s \<noteq> 0xFEFF"
  shows "fromUtf8 (utf8 s) = s"
proof -
  have "take 3 (utf8 s) \<noteq> [0xEF, 0xBB, 0xBF]"
    using bom_first assms by blast
  then show ?thesis
    using assms by (simp add: fromUtf8_def units_code_points)
qed

definition plain_text :: "jsstring \<Rightarrow> bool" where
  "plain_text s \<longleftrightarrow> well_formed s \<and> (s = [] \<or> hd s \<noteq> 0xFEFF)"

interpretation utf8: codec plain_text utf8 "\<lambda>b. Inr (fromUtf8 b)"
  by unfold_locales (simp add: plain_text_def fromUtf8_utf8)

end
