(* ===== verification/Json.thy ===== *)
theory Json
  imports JSValue Utf8
begin

text \<open>
  \<open>JSON.stringify\<close> (with no indent, and with the indent 2 the vault and backup files use) and
  \<open>JSON.parse\<close>, as ECMAScript defines them on UTF-16 strings, and the theorem that parsing
  reads back what was printed. The parser is a recursive descent on the text; its fuel bounds
  the number of nested calls, and \<open>json_fuel\<close> shows that the fuel \<open>JSON_parse\<close> starts with is
  always enough.
\<close>

section \<open>JSON.stringify\<close>

definition hex_char :: "nat \<Rightarrow> u16" where
  "hex_char d = of_nat (if d < 10 then 48 + d else 87 + d)"

definition unicode_escape :: "u16 \<Rightarrow> jsstring" where
  "unicode_escape c =
     [92, 117, hex_char (unat c div 0x1000), hex_char (unat c div 0x100 mod 16),
      hex_char (unat c div 16 mod 16), hex_char (unat c mod 16)]"

definition json_char :: "u16 \<Rightarrow> jsstring" where
  "json_char c =
     (if c = 34 then [92, 34] else if c = 92 then [92, 92] else if c = 8 then [92, 98]
      else if c = 12 then [92, 102] else if c = 10 then [92, 110] else if c = 13 then [92, 114]
      else if c = 9 then [92, 116]
      else if c < 32 \<or> high_surrogate c \<or> low_surrogate c then unicode_escape c else [c])"

text \<open>A surrogate is written as itself in a pair and escaped on its own.\<close>

fun json_chars :: "jsstring \<Rightarrow> jsstring" where
  "json_chars [] = []"
| "json_chars [u] = json_char u"
| "json_chars (u # v # s) =
     (if high_surrogate u \<and> low_surrogate v then u # v # json_chars s
      else json_char u @ json_chars (v # s))"

definition json_quote :: "jsstring \<Rightarrow> jsstring" where
  "json_quote s = 34 # json_chars s @ [34]"

text \<open>\<open>g\<close> is the width of the indent (0 for none), \<open>i\<close> the current indentation.\<close>

definition json_nl :: "nat \<Rightarrow> nat \<Rightarrow> jsstring" where
  "json_nl g i = (if g = 0 then [] else 10 # replicate i 32)"

fun json_val :: "'z jsenv_scheme \<Rightarrow> nat \<Rightarrow> nat \<Rightarrow> jsval \<Rightarrow> jsstring"
  and json_elems :: "'z jsenv_scheme \<Rightarrow> nat \<Rightarrow> nat \<Rightarrow> jsval list \<Rightarrow> jsstring"
  and json_members :: "'z jsenv_scheme \<Rightarrow> nat \<Rightarrow> nat \<Rightarrow> props \<Rightarrow> jsstring" where
  "json_val J g i JNull = js ''null''"
| "json_val J g i (JBool b) = js (if b then ''true'' else ''false'')"
| "json_val J g i (JNum n) = num_str J n"
| "json_val J g i (JStr s) = json_quote s"
| "json_val J g i (JArr vs) =
     (if vs = [] then [91, 93]
      else 91 # json_nl g (i + g) @ json_elems J g (i + g) vs @ json_nl g i @ [93])"
| "json_val J g i (JObj kvs) =
     (if kvs = [] then [123, 125]
      else 123 # json_nl g (i + g) @ json_members J g (i + g) kvs @ json_nl g i @ [125])"
| "json_elems J g i [] = []"
| "json_elems J g i (v # vs) =
     json_val J g i v @ (if vs = [] then [] else 44 # json_nl g i @ json_elems J g i vs)"
| "json_members J g i [] = []"
| "json_members J g i ((k, v) # kvs) =
     json_quote k @ 58 # (if g = 0 then [] else [32]) @ json_val J g i v
     @ (if kvs = [] then [] else 44 # json_nl g i @ json_members J g i kvs)"

definition JSON_stringify :: "'z jsenv_scheme \<Rightarrow> nat \<Rightarrow> jsval \<Rightarrow> jsstring" where
  "JSON_stringify J g v = json_val J g 0 v"

section \<open>JSON.parse\<close>

definition json_ws :: "u16 \<Rightarrow> bool" where
  "json_ws c \<longleftrightarrow> c = 32 \<or> c = 9 \<or> c = 10 \<or> c = 13"

abbreviation skip :: "jsstring \<Rightarrow> jsstring" where
  "skip s \<equiv> dropWhile json_ws s"

text \<open>The rest of a string literal after its opening quote.\<close>

fun hex4 :: "jsstring \<Rightarrow> nat option" where
  "hex4 [a, b, c, d] = radix_val 16 0 [a, b, c, d]"
| "hex4 _ = None"

definition simple_escape :: "u16 \<Rightarrow> u16 option" where
  "simple_escape e =
     (if e = 34 \<or> e = 92 \<or> e = 47 then Some e
      else if e = 98 then Some 8 else if e = 102 then Some 12 else if e = 110 then Some 10
      else if e = 114 then Some 13 else if e = 116 then Some 9 else None)"

fun parse_string :: "jsstring \<Rightarrow> (jsstring \<times> jsstring) option" where
  "parse_string [] = None"
| "parse_string (c # s) =
     (if c = 34 then Some ([], s)
      else if c = 92 then
        (case s of [] \<Rightarrow> None
         | e # r \<Rightarrow>
             if e = 117 then
               (case hex4 (take 4 r) of None \<Rightarrow> None
                | Some u \<Rightarrow> map_option (\<lambda>(t, r'). (of_nat u # t, r')) (parse_string (drop 4 r)))
             else
               (case simple_escape e of None \<Rightarrow> None
                | Some x \<Rightarrow> map_option (\<lambda>(t, r'). (x # t, r')) (parse_string r)))
      else if c < 32 then None
      else map_option (\<lambda>(t, r'). (c # t, r')) (parse_string s))"

text \<open>Numbers, read to the longest literal.\<close>

definition parse_exponent :: "jsstring \<Rightarrow> (int \<times> jsstring) option" where
  "parse_exponent s =
     (case s of [] \<Rightarrow> Some (0, [])
      | e # r \<Rightarrow>
          if e = 101 \<or> e = 69 then
            (let neg = (r \<noteq> [] \<and> hd r = 45);
                 r1 = (if r \<noteq> [] \<and> (hd r = 45 \<or> hd r = 43) then tl r else r);
                 ds = takeWhile is_digit r1
             in if ds = [] then None
                else Some (if neg then - int (digits_val ds) else int (digits_val ds), dropWhile is_digit r1))
          else Some (0, s))"

definition parse_number :: "jsstring \<Rightarrow> (jsnum \<times> jsstring) option" where
  "parse_number s =
     (let neg = (s \<noteq> [] \<and> hd s = 45);
          s1 = (if neg then tl s else s);
          ip = takeWhile is_digit s1; r1 = dropWhile is_digit s1;
          dot = (r1 \<noteq> [] \<and> hd r1 = 46);
          fp = (if dot then takeWhile is_digit (tl r1) else []);
          r2 = (if dot then dropWhile is_digit (tl r1) else r1)
      in if ip = [] \<or> (hd ip = 48 \<and> 1 < length ip) \<or> (dot \<and> fp = []) then None
         else case parse_exponent r2 of None \<Rightarrow> None
              | Some (ex, r3) \<Rightarrow>
                  Some (dec_literal neg ip fp ex (take (length s - length r3) s), r3))"

definition parse_word :: "jsstring \<Rightarrow> 'v \<Rightarrow> jsstring \<Rightarrow> ('v \<times> jsstring) option" where
  "parse_word w v s = (if startsWith s w then Some (v, drop (length w) s) else None)"

fun parse_val :: "nat \<Rightarrow> jsstring \<Rightarrow> (jsval \<times> jsstring) option"
  and parse_elems :: "nat \<Rightarrow> jsstring \<Rightarrow> (jsval list \<times> jsstring) option"
  and parse_members :: "nat \<Rightarrow> jsstring \<Rightarrow> (props \<times> jsstring) option" where
  "parse_val 0 s = None"
| "parse_val (Suc n) s =
     (case skip s of [] \<Rightarrow> None
      | c # r \<Rightarrow>
          if c = 34 then map_option (\<lambda>(t, r'). (JStr t, r')) (parse_string r)
          else if c = 91 then
            (case skip r of [] \<Rightarrow> None
             | d # r' \<Rightarrow> if d = 93 then Some (JArr [], r')
                        else map_option (\<lambda>(vs, r''). (JArr vs, r'')) (parse_elems n r))
          else if c = 123 then
            (case skip r of [] \<Rightarrow> None
             | d # r' \<Rightarrow> if d = 125 then Some (JObj [], r')
                        else map_option (\<lambda>(kvs, r''). (JObj (obj_of kvs), r'')) (parse_members n r))
          else if c = 45 \<or> is_digit c then
            map_option (\<lambda>(x, r'). (JNum x, r')) (parse_number (c # r))
          else if c = 116 then parse_word (js ''true'') (JBool True) (c # r)
          else if c = 102 then parse_word (js ''false'') (JBool False) (c # r)
          else parse_word (js ''null'') JNull (c # r))"
| "parse_elems 0 s = None"
| "parse_elems (Suc n) s =
     (case parse_val n s of None \<Rightarrow> None
      | Some (v, r) \<Rightarrow>
          (case skip r of [] \<Rightarrow> None
           | d # r' \<Rightarrow>
               if d = 44 then map_option (\<lambda>(vs, r''). (v # vs, r'')) (parse_elems n r')
               else if d = 93 then Some ([v], r') else None))"
| "parse_members 0 s = None"
| "parse_members (Suc n) s =
     (case skip s of [] \<Rightarrow> None
      | q # r \<Rightarrow>
          if q \<noteq> 34 then None
          else
            (case parse_string r of None \<Rightarrow> None
             | Some (k, r1) \<Rightarrow>
                 (case skip r1 of [] \<Rightarrow> None
                  | d # r2 \<Rightarrow>
                      if d \<noteq> 58 then None
                      else
                        (case parse_val n r2 of None \<Rightarrow> None
                         | Some (v, r3) \<Rightarrow>
                             (case skip r3 of [] \<Rightarrow> None
                              | d' # r4 \<Rightarrow>
                                  if d' = 44 then map_option (\<lambda>(kvs, r''). ((k, v) # kvs, r'')) (parse_members n r4)
                                  else if d' = 125 then Some ([(k, v)], r4) else None)))))"

definition json_fuel :: "jsstring \<Rightarrow> nat" where
  "json_fuel s = 2 * length s + 1"

definition JSON_parse :: "jsstring \<Rightarrow> jsval result" where
  "JSON_parse s =
     (case parse_val (json_fuel s) s of None \<Rightarrow> Inl EJsonSyntax
      | Some (v, r) \<Rightarrow> if skip r = [] then Inr v else Inl EJsonSyntax)"

section \<open>The parser consumes text, and its fuel is enough\<close>

lemma parse_string_length: "parse_string s = Some (t, r) \<Longrightarrow> length r < length s"
proof (induction s arbitrary: t r rule: length_induct)
  case (1 s)
  have IH: "length r' < length s'" if "parse_string s' = Some (t', r')" "length s' < length s" for s' t' r'
    using 1 that by blast
  show ?case
  proof (cases s)
    case (Cons c s')
    with "1.prems" show ?thesis
      by (auto split: if_splits list.splits option.splits dest!: IH)
  qed (use "1.prems" in simp)
qed

lemma parse_exponent_length: "parse_exponent s = Some (e, r) \<Longrightarrow> length r \<le> length s"
  by (auto simp: parse_exponent_def Let_def split: list.splits if_splits
      intro: le_trans [OF length_dropWhile_le])

lemma parse_number_length: "parse_number s = Some (x, r) \<Longrightarrow> length r < length s"
proof -
  assume a: "parse_number s = Some (x, r)"
  define s1 where "s1 = (if s \<noteq> [] \<and> hd s = 45 then tl s else s)"
  define r1 where "r1 = dropWhile is_digit s1"
  define r2 where "r2 = (if r1 \<noteq> [] \<and> hd r1 = 46 then dropWhile is_digit (tl r1) else r1)"
  from a have ip: "takeWhile is_digit s1 \<noteq> []" and ex: "\<exists>ex. parse_exponent r2 = Some (ex, r)"
    unfolding parse_number_def s1_def r1_def r2_def Let_def
    by (auto split: if_splits option.splits)
  have "length r1 < length s1"
    using ip unfolding r1_def by (cases s1) (auto simp: length_dropWhile_le le_imp_less_Suc split: if_splits)
  moreover have "length s1 \<le> length s"
    by (simp add: s1_def)
  moreover have "length r2 \<le> length r1"
    unfolding r2_def using length_dropWhile_le [of is_digit "tl r1"] by (cases r1) auto
  moreover have "length r \<le> length r2"
    using ex parse_exponent_length by blast
  ultimately show ?thesis
    by linarith
qed

lemma skip_length: "skip s = c # r \<Longrightarrow> length r < length s"
  using length_dropWhile_le [of json_ws s] by simp


lemma parse_length:
  "parse_val n s = Some (v, r) \<Longrightarrow> length r < length s"
  "parse_elems n s = Some (vs, r) \<Longrightarrow> length r < length s"
  "parse_members n s = Some (kvs, r) \<Longrightarrow> length r < length s"
proof (induction n arbitrary: s v vs kvs r)
  case 0
  { case 1 then show ?case by simp next
    case 2 then show ?case by simp next
    case 3 then show ?case by simp }
next
  case (Suc n)
  { case 1
    then obtain c s' where s': "skip s = c # s'"
      by (auto split: list.splits)
    have "length r < length (c # s')"
      using 1 s' by (auto simp: parse_word_def split: if_splits list.splits
          dest!: parse_string_length parse_number_length skip_length Suc.IH(2,3))
    then show ?case
      using skip_length [OF s'] by simp
  next
    case 2
    then obtain v s1 d s2 where "parse_val n s = Some (v, s1)" "skip s1 = d # s2"
      and "d = 44 \<and> (\<exists>vs'. parse_elems n s2 = Some (vs', r)) \<or> d = 93 \<and> r = s2"
      by (auto split: option.splits list.splits if_splits)
    then show ?case
      using Suc.IH(1) [of s v s1] Suc.IH(2) [of s2 _ r] skip_length [of s1 d s2] by fastforce
  next
    case 3
    then obtain q s1 k s2 d s3 v s4 d' s5 where "skip s = q # s1" "parse_string s1 = Some (k, s2)"
      "skip s2 = d # s3" "parse_val n s3 = Some (v, s4)" "skip s4 = d' # s5"
      and "d' = 44 \<and> (\<exists>kvs'. parse_members n s5 = Some (kvs', r)) \<or> d' = 125 \<and> r = s5"
      by (auto split: option.splits list.splits if_splits)
    then show ?case
      using Suc.IH(1) [of s3 v s4] Suc.IH(3) [of s5 _ r] skip_length [of s q s1]
        skip_length [of s2 d s3] skip_length [of s4 d' s5] parse_string_length [of s1 k s2] by fastforce
  }
qed

lemma parse_fuel:
  "2 * length s + 1 \<le> n \<Longrightarrow> 2 * length s + 1 \<le> m \<Longrightarrow> parse_val n s = parse_val m s"
  "2 * length s + 2 \<le> n \<Longrightarrow> 2 * length s + 2 \<le> m \<Longrightarrow> parse_elems n s = parse_elems m s"
  "2 * length s + 2 \<le> n \<Longrightarrow> 2 * length s + 2 \<le> m \<Longrightarrow> parse_members n s = parse_members m s"
proof (induction n arbitrary: s m)
  case 0
  { case 1 then show ?case by simp next
    case 2 then show ?case by simp next
    case 3 then show ?case by simp }
next
  case (Suc n)
  { case 1
    then obtain m' where m: "m = Suc m'" "2 * length s \<le> m'" by (cases m) auto
    show ?case
    proof (cases "skip s")
      case Nil then show ?thesis by (simp add: m)
    next
      case (Cons c r)
      have "parse_elems n r = parse_elems m' r" "parse_members n r = parse_members m' r"
        using skip_length [OF Cons] 1 m by (intro Suc.IH; simp)+
      with Cons m show ?thesis
        by (cases "skip r") (simp_all)
    qed
  next
    case 2
    then obtain m' where m: "m = Suc m'" "2 * length s + 1 \<le> m'" by (cases m) auto
    have v: "parse_val n s = parse_val m' s"
      using 2 m by (intro Suc.IH; simp)
    have "parse_elems n r' = parse_elems m' r'" if "parse_val n s = Some (x, r)" "skip r = d # r'" for x r d r'
      using parse_length(1) [OF that(1)] skip_length [OF that(2)] 2 m by (intro Suc.IH; simp)
    with v m show ?case
      by (auto split: option.split list.split)
  next
    case 3
    then obtain m' where m: "m = Suc m'" "2 * length s + 1 \<le> m'" by (cases m) auto
    have v: "parse_val n r2 = parse_val m' r2"
      if "skip s = q # r" "parse_string r = Some (k, r1)" "skip r1 = d # r2" for q r k r1 d r2
      using skip_length [OF that(1)] parse_string_length [OF that(2)] skip_length [OF that(3)] 3 m
      by (intro Suc.IH; simp)
    have e: "parse_members n r4 = parse_members m' r4"
      if "skip s = q # r" "parse_string r = Some (k, r1)" "skip r1 = d # r2"
        "parse_val m' r2 = Some (x, r3)" "skip r3 = d' # r4" for q r k r1 d r2 x r3 d' r4
      using skip_length [OF that(1)] parse_string_length [OF that(2)] skip_length [OF that(3)]
        parse_length(1) [OF that(4)] skip_length [OF that(5)] 3 m
      by (intro Suc.IH; simp)
    show ?case
      using v e by (auto simp: m split: option.split list.split)
  }
qed

section \<open>Parsing reads back what was printed\<close>

lemma unat_hex_char: "d < 16 \<Longrightarrow> unat (hex_char d) = (if d < 10 then 48 + d else 87 + d)"
  unfolding hex_char_def by (rule unat_of_nat16) auto

lemma radix_hex_char [simp]: "d < 16 \<Longrightarrow> radix_digit 16 (hex_char d) = Some d"
  by (auto simp: radix_digit_def char_class_defs word_le_nat_alt unat_hex_char)

lemma hex4_escape:
  "hex4 [hex_char (unat (c :: u16) div 0x1000), hex_char (unat c div 0x100 mod 16),
      hex_char (unat c div 16 mod 16), hex_char (unat c mod 16)] = Some (unat c)"
proof -
  have "unat c div 0x1000 < 16"
    using unat_lt16 [of c] by (simp add: less_mult_imp_div_less)
  moreover have "16 * (16 * (16 * (unat c div 0x1000) + unat c div 0x100 mod 16) + unat c div 16 mod 16) + unat c mod 16 = unat c"
    using div_nest [of "unat c" 256 16] div_nest [of "unat c" 16 16] by (simp add: mult.commute)
  ultimately show ?thesis
    by simp
qed

lemma parse_string_char: "parse_string (json_char c @ s) = map_option (\<lambda>(t, r). (c # t, r)) (parse_string s)"
proof (cases "c < 32 \<or> high_surrogate c \<or> low_surrogate c")
  case True
  then show ?thesis
    using hex4_escape [of c] by (auto simp: json_char_def unicode_escape_def simple_escape_def)
next
  case False
  then show ?thesis
    by (auto simp: json_char_def simple_escape_def)
qed

lemma surrogate_plain:
  "high_surrogate c \<or> low_surrogate c \<Longrightarrow>
   parse_string (c # s) = map_option (\<lambda>(t, r). (c # t, r)) (parse_string s)"
  by (auto simp: high_surrogate_def low_surrogate_def word_less_nat_alt)

lemma parse_string_chars: "parse_string (json_chars s @ 34 # r) = Some (s, r)"
  by (induction s rule: json_chars.induct) (simp_all add: parse_string_char surrogate_plain del: parse_string.simps(2), simp_all)

definition num_stop :: "jsstring \<Rightarrow> bool" where
  "num_stop r \<longleftrightarrow> r = [] \<or> (\<not> is_digit (hd r) \<and> hd r \<noteq> 46 \<and> hd r \<noteq> 101 \<and> hd r \<noteq> 69)"

lemma parse_exponent_stop: "num_stop r \<Longrightarrow> parse_exponent r = Some (0, r)"
  by (auto simp: num_stop_def parse_exponent_def split: list.splits)

lemma parse_number_digits:
  assumes "takeWhile is_digit s = nat_str n" "dropWhile is_digit s = r" "n \<le> 2 ^ 53" "num_stop r"
  shows "hd s \<noteq> 45 \<Longrightarrow> parse_number s = Some (NInt (int n), r)"
    "parse_number (45 # s) = Some (NInt (- int n), r)"
proof -
  have z: "\<not> (hd (nat_str n) = 48 \<and> 1 < length (nat_str n))"
    using nat_str_leading_zero [of n] by auto
  have d: "\<not> (r \<noteq> [] \<and> hd r = 46)"
    using assms(4) by (auto simp: num_stop_def)
  show "hd s \<noteq> 45 \<Longrightarrow> parse_number s = Some (NInt (int n), r)"
    "parse_number (45 # s) = Some (NInt (- int n), r)"
    using z d parse_exponent_stop [OF assms(4)] dec_literal_nat [OF assms(3)]
    by (auto simp: parse_number_def Let_def assms(1,2))
qed

lemma parse_number_nat:
  assumes "n \<le> 2 ^ 53" "num_stop r"
  shows "parse_number (nat_str n @ r) = Some (NInt (int n), r)"
    "parse_number (45 # nat_str n @ r) = Some (NInt (- int n), r)"
proof -
  have s: "r = [] \<or> \<not> is_digit (hd r)"
    using assms(2) by (auto simp: num_stop_def)
  have t: "takeWhile is_digit (nat_str n @ r) = nat_str n" "dropWhile is_digit (nat_str n @ r) = r"
    using takeWhile_append_stop [of "nat_str n" is_digit r]
      dropWhile_append_stop [of "nat_str n" is_digit r] nat_str_digits s by blast+
  have "hd (nat_str n @ r) \<noteq> 45"
    using nat_str_digits [of "hd (nat_str n)" n] by (auto simp: is_digit_def)
  then show "parse_number (nat_str n @ r) = Some (NInt (int n), r)"
    "parse_number (45 # nat_str n @ r) = Some (NInt (- int n), r)"
    using parse_number_digits [OF t assms] by blast+
qed

lemma parse_number_int: "\<bar>i\<bar> \<le> 2 ^ 53 \<Longrightarrow> num_stop r \<Longrightarrow> parse_number (int_str i @ r) = Some (NInt i, r)"
  using parse_number_nat [of "nat (- i)" r] parse_number_nat [of "nat i" r]
  by (auto simp: int_str_def)

lemma int_str_hd: "int_str i \<noteq> []" "hd (int_str i) = 45 \<or> is_digit (hd (int_str i))"
  using nat_str_digits [of "hd (nat_str (nat i))" "nat i"] by (auto simp: int_str_def)

definition value_start :: "u16 \<Rightarrow> bool" where
  "value_start c \<longleftrightarrow> c < 128 \<and> \<not> json_ws c \<and> c \<noteq> 93 \<and> c \<noteq> 125"

lemma value_start_int: "value_start (hd (int_str i))"
  using int_str_hd(2) [of i] by (auto simp: value_start_def json_ws_def is_digit_def word_le_nat_alt word_less_nat_alt)

lemma json_val_hd: "plain v \<Longrightarrow> json_val J g i v \<noteq> [] \<and> value_start (hd (json_val J g i v))"
  by (cases v) (auto simp: json_quote_def js_def jc_def int_str_hd(1) value_start_int
      value_start_def [of "numeral _"] json_ws_def)

text \<open>White space before a value, an element list or a member list is skipped.\<close>

lemma skip_append: "\<forall>c \<in> set w. json_ws c \<Longrightarrow> skip (w @ s) = skip s"
  by (induction w) auto

lemma json_nl_ws: "\<forall>c \<in> set (json_nl g i). json_ws c"
  by (auto simp: json_nl_def json_ws_def)

lemma skip_nl [simp]: "skip (json_nl g i @ s) = skip s"
  by (rule skip_append [OF json_nl_ws])

lemma parse_val_skip: "skip s = skip s' \<Longrightarrow> parse_val n s = parse_val n s'"
  by (cases n) simp_all

lemma json_val_start:
  assumes "plain v"
  obtains c s where "json_val J g i v = c # s" "value_start c"
  using json_val_hd [OF assms, of J g i] by (cases "json_val J g i v") auto

lemma value_start_skip: "value_start c \<Longrightarrow> skip (c # s) = c # s"
  by (simp add: value_start_def)

lemma num_stop_nl [simp]:
  "num_stop (44 # r)" "num_stop (json_nl g i @ 93 # r)" "num_stop (json_nl g i @ 125 # r)"
  by (auto simp: num_stop_def json_nl_def is_digit_def)

lemma parse_word_append [simp]: "parse_word w v (w @ r) = Some (v, r)"
  by (simp add: parse_word_def startsWith_def)


lemma parse_elems_skip: "skip s = skip s' \<Longrightarrow> parse_elems n s = parse_elems n s'"
  by (cases n) (simp_all add: parse_val_skip [of s s'])

lemma parse_members_skip: "skip s = skip s' \<Longrightarrow> parse_members n s = parse_members n s'"
  by (cases n) simp_all

lemma parse_array:
  assumes "vs \<noteq> []" "\<forall>v \<in> set vs. plain v"
    "parse_elems n (json_elems J g (i + g) vs @ json_nl g i @ 93 # r) = Some (vs, r)"
  shows "parse_val (Suc n) (json_val J g i (JArr vs) @ r) = Some (JArr vs, r)"
proof -
  let ?s = "json_elems J g (i + g) vs @ json_nl g i @ 93 # r"
  obtain v vs' where vs: "vs = v # vs'" "plain v"
    using assms by (cases vs) auto
  obtain c s where c: "json_val J g (i + g) v = c # s" "value_start c"
    using vs(2) by (rule json_val_start)
  have "parse_elems n (json_nl g (i + g) @ ?s) = parse_elems n ?s"
    by (rule parse_elems_skip) simp
  then show ?thesis
    using vs c assms(3) by (simp add: json_ws_def value_start_def)
qed

lemma parse_object:
  assumes "kvs \<noteq> []" "obj_of kvs = kvs"
    "parse_members n (json_members J g (i + g) kvs @ json_nl g i @ 125 # r) = Some (kvs, r)"
  shows "parse_val (Suc n) (json_val J g i (JObj kvs) @ r) = Some (JObj kvs, r)"
proof -
  let ?s = "json_members J g (i + g) kvs @ json_nl g i @ 125 # r"
  obtain s where c: "json_members J g (i + g) kvs = 34 # s"
    using assms(1) by (cases kvs) (auto simp: json_quote_def)
  have "parse_members n (json_nl g (i + g) @ ?s) = parse_members n ?s"
    by (rule parse_members_skip) simp
  then show ?thesis
    using c assms by (simp add: json_ws_def is_digit_def)
qed

lemma parse_elems_more:
  assumes "parse_val n (s @ 44 # json_nl g i @ t) = Some (v, 44 # json_nl g i @ t)"
    "parse_elems n t = Some (vs, r)"
  shows "parse_elems (Suc n) (s @ 44 # json_nl g i @ t) = Some (v # vs, r)"
proof -
  have "parse_elems n (json_nl g i @ t) = parse_elems n t"
    by (rule parse_elems_skip) simp
  with assms show ?thesis
    by (simp add: json_ws_def)
qed

lemma parse_member:
  assumes "parse_val n s = Some (v, t)"
  shows "parse_members (Suc n) (json_quote k @ 58 # (if g = (0::nat) then [] else [32]) @ s) =
    (case skip t of [] \<Rightarrow> None
     | d # r \<Rightarrow> if d = 44 then map_option (\<lambda>(kvs, r'). ((k, v) # kvs, r')) (parse_members n r)
               else if d = 125 then Some ([(k, v)], r) else None)"
proof -
  have "parse_val n ((if g = 0 then [] else [32]) @ s) = parse_val n s"
    by (rule parse_val_skip) (simp add: json_ws_def)
  with assms show ?thesis
    by (simp add: json_quote_def json_ws_def parse_string_chars)
qed

lemma parse_members_more:
  assumes "parse_val n (s @ 44 # json_nl g i @ t) = Some (v, 44 # json_nl g i @ t)"
    "parse_members n t = Some (kvs, r)"
  shows "parse_members (Suc n)
      (json_quote k @ 58 # (if g = 0 then [] else [32]) @ s @ 44 # json_nl g i @ t) = Some ((k, v) # kvs, r)"
proof -
  have "parse_members n (json_nl g i @ t) = parse_members n t"
    by (rule parse_members_skip) simp
  with assms(2) show ?thesis
    by (simp only: parse_member [OF assms(1)]) (simp add: json_ws_def)
qed

lemma parse_int: "plain (JNum x) \<Longrightarrow> num_stop r \<Longrightarrow> parse_val (Suc n) (json_val J g i (JNum x) @ r) = Some (JNum x, r)"
proof -
  assume "plain (JNum x)" and r: "num_stop r"
  then obtain k where k: "x = NInt k" "\<bar>k\<bar> \<le> 2 ^ 53"
    by auto
  obtain c s where cs: "int_str k = c # s" "c = 45 \<or> is_digit c" "value_start c"
    using int_str_hd [of k] value_start_int [of k] by (cases "int_str k") auto
  moreover have "c \<noteq> 34" "c \<noteq> 91" "c \<noteq> 123"
    using cs by (auto simp: is_digit_def)
  ultimately show ?thesis
    using r k parse_number_int [of k r] by (auto simp: value_start_def)
qed

lemma parse_words:
  "parse_val (Suc n) (js ''null'' @ r) = Some (JNull, r)"
  "parse_val (Suc n) (js ''true'' @ r) = Some (JBool True, r)"
  "parse_val (Suc n) (js ''false'' @ r) = Some (JBool False, r)"
  using parse_word_append [of "js ''null''" JNull r] parse_word_append [of "js ''true''" "JBool True" r]
    parse_word_append [of "js ''false''" "JBool False" r]
  by (auto simp: json_ws_def js_def jc_def is_digit_def)

lemma parse_json:
  "plain v \<Longrightarrow> num_stop r \<Longrightarrow> 2 * length (json_val J g i v @ r) + 1 \<le> n \<Longrightarrow>
     parse_val n (json_val J g i v @ r) = Some (v, r)"
  "vs \<noteq> [] \<Longrightarrow> \<forall>v \<in> set vs. plain v \<Longrightarrow>
     2 * length (json_elems J g i vs @ json_nl g j @ 93 # r) + 2 \<le> n \<Longrightarrow>
     parse_elems n (json_elems J g i vs @ json_nl g j @ 93 # r) = Some (vs, r)"
  "kvs \<noteq> [] \<Longrightarrow> \<forall>kv \<in> set kvs. plain (snd kv) \<Longrightarrow>
     2 * length (json_members J g i kvs @ json_nl g j @ 125 # r) + 2 \<le> n \<Longrightarrow>
     parse_members n (json_members J g i kvs @ json_nl g j @ 125 # r) = Some (kvs, r)"
proof (induction J g i v and J g i vs and J g i kvs arbitrary: r n and r n j and r n j
    rule: json_val_json_elems_json_members.induct)
  case (5 J g i vs)
  then obtain m where n: "n = Suc m" by (cases n) auto
  show ?case
  proof (cases "vs = []")
    case False
    moreover from this have "parse_elems m (json_elems J g (i + g) vs @ json_nl g i @ 93 # r) = Some (vs, r)"
      using 5 n by (intro "5.IH") auto
    ultimately show ?thesis
      using 5 n parse_array by (metis plain.simps(2))
  qed (simp add: n json_ws_def)
next
  case (6 J g i kvs)
  then obtain m where n: "n = Suc m" by (cases n) auto
  show ?case
  proof (cases "kvs = []")
    case False
    moreover from this have "parse_members m (json_members J g (i + g) kvs @ json_nl g i @ 125 # r) = Some (kvs, r)"
      using 6 n by (intro "6.IH") auto
    ultimately show ?thesis
      using 6 n parse_object by (metis plain.simps(3))
  qed (simp add: n json_ws_def is_digit_def)
next
  case (8 J g i v vs)
  then obtain m where n: "n = Suc m" by (cases n) auto
  have v: "parse_val m (json_val J g i v @ s) = Some (v, s)"
    if "num_stop s" "2 * length (json_val J g i v @ s) + 1 \<le> m" for s
    using 8 that by (intro "8.IH"(1)) auto
  show ?case
    using 8 v [of "json_nl g j @ 93 # r"] n
      parse_elems_more [of m _ g i, OF v "8.IH"(2)]
    by (cases "vs = []") (auto simp: json_ws_def)
next
  case (10 J g i k v kvs)
  then obtain m where n: "n = Suc m" by (cases n) auto
  have v: "parse_val m (json_val J g i v @ s) = Some (v, s)"
    if "num_stop s" "2 * length (json_val J g i v @ s) + 1 \<le> m" for s
    using 10 that by (intro "10.IH"(1)) auto
  show ?case
    using 10 n parse_member [OF v [of "json_nl g j @ 125 # r"], of k g]
      parse_members_more [of m _ g i, OF v "10.IH"(2)]
    by (cases "kvs = []") (auto simp: json_ws_def simp del: parse_members.simps)
next
  case (1 J g i)
  then show ?case by (cases n) (simp_all only: json_val.simps parse_words)
next
  case (2 J g i b)
  then show ?case by (cases n; cases b) (simp_all only: json_val.simps parse_words if_True if_False)
next
  case (3 J g i x)
  then show ?case by (cases n) (simp_all only: parse_int)
next
  case (4 J g i s)
  then show ?case
    by (cases n) (simp_all add: json_quote_def json_ws_def parse_string_chars)
qed simp_all

lemma JSON_parse_stringify: "plain v \<Longrightarrow> JSON_parse (JSON_stringify J g v) = Inr v"
  using parse_json(1) [of v "[]" J g 0 "json_fuel (JSON_stringify J g v)"]
  by (simp add: JSON_parse_def JSON_stringify_def num_stop_def json_fuel_def)


interpretation json: codec plain "JSON_stringify J g" JSON_parse for J :: "'z jsenv_scheme" and g :: nat
  by unfold_locales (rule JSON_parse_stringify)

section \<open>JSON text is safe to encode\<close>

lemma well_formed_append: "well_formed s \<Longrightarrow> well_formed (s @ t) \<longleftrightarrow> well_formed t"
  by (induction s rule: well_formed.induct) (cases t; auto split: if_splits)+

lemma well_formed_bmp: "\<forall>c \<in> set s. unat c < 0xD800 \<Longrightarrow> well_formed s"
  by (induction s rule: well_formed.induct) (auto simp: high_surrogate_def low_surrogate_def)

lemma well_formed_json_char: "well_formed (json_char c)"
proof (cases "c < 32 \<or> high_surrogate c \<or> low_surrogate c")
  case True
  have "unat (hex_char d) < 0xD800" if "d < 16" for d
    using that by (simp add: unat_hex_char)
  moreover have "unat c div 0x1000 < 16"
    using unat_lt16 [of c] by (simp add: less_mult_imp_div_less)
  ultimately have "well_formed (unicode_escape c)"
    by (intro well_formed_bmp) (simp add: unicode_escape_def)
  then show ?thesis
    by (simp add: json_char_def high_surrogate_def low_surrogate_def)
qed (auto simp: json_char_def high_surrogate_def low_surrogate_def)

lemma well_formed_json_chars: "well_formed (json_chars s)"
  by (induction s rule: json_chars.induct)
    (auto simp: well_formed_json_char well_formed_append)

lemma well_formed_small:
  "well_formed [c] \<Longrightarrow> well_formed (c # s) \<longleftrightarrow> well_formed s"
  using well_formed_append [of "[c]" s] by simp

lemma well_formed_nl: "well_formed (json_nl g i)"
  by (rule well_formed_bmp) (auto simp: json_nl_def)

lemma well_formed_quote: "well_formed (json_quote s)"
  by (simp add: json_quote_def well_formed_small high_surrogate_def low_surrogate_def
      well_formed_append [OF well_formed_json_chars])

lemma well_formed_digits: "\<forall>c \<in> set s. is_digit c \<Longrightarrow> well_formed s"
  by (rule well_formed_bmp) (auto simp: is_digit_def word_le_nat_alt)

lemma well_formed_int_str: "well_formed (int_str i)"
  using nat_str_digits
  by (auto simp: int_str_def well_formed_small high_surrogate_def low_surrogate_def
      intro!: well_formed_digits)

lemma well_formed_json:
  "plain v \<Longrightarrow> well_formed (json_val J g i v)"
  "\<forall>v \<in> set vs. plain v \<Longrightarrow> well_formed (json_elems J g i vs)"
  "\<forall>kv \<in> set kvs. plain (snd kv) \<Longrightarrow> well_formed (json_members J g i kvs)"
proof (induction J g i v and J g i vs and J g i kvs rule: json_val_json_elems_json_members.induct)
qed (auto simp: well_formed_append well_formed_quote well_formed_nl well_formed_small
    well_formed_int_str high_surrogate_def low_surrogate_def js_def jc_def)

text \<open>The text of a plain value survives \<open>TextEncoder\<close> and \<open>TextDecoder\<close>.\<close>

lemma plain_text_stringify: "plain v \<Longrightarrow> plain_text (JSON_stringify J g v)"
  using json_val_hd [of v J g 0]
  by (auto simp: plain_text_def JSON_stringify_def well_formed_json value_start_def)

text \<open>A text that starts with a digit is at most a number.\<close>

lemma JSON_parse_digit: "is_digit c \<Longrightarrow> JSON_parse (c # s) = Inr v \<Longrightarrow> \<exists>n. v = JNum n"
proof -
  assume c: "is_digit c" and "JSON_parse (c # s) = Inr v"
  then obtain r where r: "parse_val (json_fuel (c # s)) (c # s) = Some (v, r)"
    by (auto simp: JSON_parse_def split: option.splits if_splits)
  have "skip (c # s) = c # s"
    using c by (auto simp: json_ws_def is_digit_def)
  moreover have "c \<noteq> 34" "c \<noteq> 91" "c \<noteq> 123"
    using c by (auto simp: is_digit_def)
  ultimately show ?thesis
    using r c by (auto simp: json_fuel_def)
qed

end
