(* ===== verification/Base64.thy ===== *)
theory Base64
  imports JSString
begin

text \<open>
  \<open>toBase64\<close> and \<open>fromBase64\<close> of packages/crypto/src/primitives.ts. The platform's
  \<open>btoa\<close> and \<open>atob\<close> are written out as the HTML standard defines them: \<open>atob\<close> is the
  forgiving decoder (it removes ASCII white space, tolerates missing padding and ignores the
  left-over bits). A binary string, a string whose code units are below 256, is represented
  by the list of those units as bytes.
\<close>

section \<open>The alphabet\<close>

definition b64_char :: "nat \<Rightarrow> u16" where
  "b64_char i =
     of_nat (if i < 26 then 65 + i else if i < 52 then 71 + i else if i < 62 then i - 4
             else if i = 62 then 43 else 47)"

definition b64_val :: "u16 \<Rightarrow> nat option" where
  "b64_val c =
     (if is_upper c then Some (unat c - 65)
      else if is_lower c then Some (unat c - 71)
      else if is_digit c then Some (unat c + 4)
      else if c = 43 then Some 62 else if c = 47 then Some 63 else None)"

definition b64_pad :: u16 where
  "b64_pad = 61"

section \<open>btoa\<close>

fun btoa :: "bytes \<Rightarrow> jsstring" where
  "btoa [] = []"
| "btoa [a] = [b64_char (unat a div 4), b64_char (unat a mod 4 * 16), b64_pad, b64_pad]"
| "btoa [a, b] =
     [b64_char (unat a div 4), b64_char (unat a mod 4 * 16 + unat b div 16),
      b64_char (unat b mod 16 * 4), b64_pad]"
| "btoa (a # b # c # r) =
     b64_char (unat a div 4) # b64_char (unat a mod 4 * 16 + unat b div 16)
     # b64_char (unat b mod 16 * 4 + unat c div 64) # b64_char (unat c mod 64) # btoa r"

section \<open>atob\<close>

definition ascii_ws :: "u16 \<Rightarrow> bool" where
  "ascii_ws c \<longleftrightarrow> c = 9 \<or> c = 10 \<or> c = 12 \<or> c = 13 \<or> c = 32"

definition strip_pad :: "jsstring \<Rightarrow> jsstring" where
  "strip_pad s =
     (if length s mod 4 = 0 then
        (if s \<noteq> [] \<and> last s = b64_pad then
           (let t = butlast s in if t \<noteq> [] \<and> last t = b64_pad then butlast t else t)
         else s)
      else s)"

text \<open>The decoder proper, on the values of the characters; a last group of two or three
  values gives one or two bytes.\<close>

fun b64_bytes :: "nat list \<Rightarrow> bytes" where
  "b64_bytes (a # b # c # d # r) =
     of_nat (a * 4 + b div 16) # of_nat (b mod 16 * 16 + c div 4) # of_nat (c mod 4 * 64 + d)
     # b64_bytes r"
| "b64_bytes [a, b, c] = [of_nat (a * 4 + b div 16), of_nat (b mod 16 * 16 + c div 4)]"
| "b64_bytes [a, b] = [of_nat (a * 4 + b div 16)]"
| "b64_bytes _ = []"

definition atob :: "jsstring \<Rightarrow> bytes result" where
  "atob s =
     (let t = strip_pad (filter (\<lambda>c. \<not> ascii_ws c) s)
      in if length t mod 4 = 1 then Inl EInvalidCharacter
         else case those (map b64_val t) of None \<Rightarrow> Inl EInvalidCharacter
              | Some vs \<Rightarrow> Inr (b64_bytes vs))"

section \<open>toBase64 and fromBase64\<close>

definition toBase64 :: "bytes \<Rightarrow> jsstring" where
  "toBase64 b = btoa b"

definition fromBase64 :: "jsstring \<Rightarrow> bytes result" where
  "fromBase64 s = atob s"

section \<open>The decoder inverts the encoder\<close>

text \<open>The part of the encoding before the padding.\<close>

fun btoa_body :: "bytes \<Rightarrow> nat list" where
  "btoa_body [] = []"
| "btoa_body [a] = [unat a div 4, unat a mod 4 * 16]"
| "btoa_body [a, b] = [unat a div 4, unat a mod 4 * 16 + unat b div 16, unat b mod 16 * 4]"
| "btoa_body (a # b # c # r) =
     unat a div 4 # (unat a mod 4 * 16 + unat b div 16) # (unat b mod 16 * 4 + unat c div 64)
     # (unat c mod 64) # btoa_body r"

definition btoa_padding :: "bytes \<Rightarrow> jsstring" where
  "btoa_padding b = replicate ((3 - length b mod 3) mod 3) b64_pad"

lemma unat_b64_char:
  "i < 64 \<Longrightarrow> unat (b64_char i) =
     (if i < 26 then 65 + i else if i < 52 then 71 + i else if i < 62 then i - 4
      else if i = 62 then 43 else 47)"
  unfolding b64_char_def by (rule unat_of_nat16) auto

lemma b64_val_char [simp]: "i < 64 \<Longrightarrow> b64_val (b64_char i) = Some i"
  by (auto simp: b64_val_def char_class_defs word_le_nat_alt word_unat_eq_iff unat_b64_char)

lemma b64_val_Some_class: "b64_val c = Some v \<Longrightarrow> \<not> ascii_ws c \<and> c \<noteq> b64_pad"
  by (auto simp: b64_val_def ascii_ws_def b64_pad_def char_class_defs split: if_splits)

lemma ascii_ws_pad [simp]: "\<not> ascii_ws b64_pad"
  by (simp add: ascii_ws_def b64_pad_def)

lemma b64_char_class [simp]: "i < 64 \<Longrightarrow> \<not> ascii_ws (b64_char i)" "i < 64 \<Longrightarrow> b64_char i \<noteq> b64_pad"
  using b64_val_Some_class [of "b64_char i" i] by simp_all

lemma byte_arith [simp]:
  "unat (a :: byte) div 4 < 64" "unat (a :: byte) mod 4 * 16 < 64"
  "unat (a :: byte) mod 4 * 16 + unat (b :: byte) div 16 < 64"
  "unat (b :: byte) mod 16 * 4 < 64"
  "unat (b :: byte) mod 16 * 4 + unat (c :: byte) div 64 < 64"
  "unat (c :: byte) mod 64 < 64"
  using unat_lt8 [of a] unat_lt8 [of b] unat_lt8 [of c] by simp_all

lemma btoa_body_bound: "v \<in> set (btoa_body b) \<Longrightarrow> v < 64"
  by (induction b rule: btoa_body.induct) auto

lemma btoa_split: "btoa b = map b64_char (btoa_body b) @ btoa_padding b"
  by (induction b rule: btoa_body.induct) (simp_all add: btoa_padding_def numeral_2_eq_2)

lemma length_btoa: "length (btoa b) = 4 * ((length b + 2) div 3)"
  by (induction b rule: btoa.induct) (simp_all, presburger)

lemma length_btoa_body: "length (btoa_body b) mod 4 \<noteq> 1"
  by (induction b rule: btoa_body.induct) simp_all

lemma b64_bytes_body [simp]: "b64_bytes (btoa_body b) = b"
proof (induction b rule: btoa_body.induct)
  case (4 a b c r)
  have "of_nat (unat a div 4 * 4 + (unat a mod 4 * 16 + unat b div 16) div 16) = a"
    using unat_lt8 [of b] by simp
  moreover have "of_nat ((unat a mod 4 * 16 + unat b div 16) mod 16 * 16
      + (unat b mod 16 * 4 + unat c div 64) div 4) = b"
    using unat_lt8 [of b] unat_lt8 [of c] by simp
  moreover have "of_nat ((unat b mod 16 * 4 + unat c div 64) mod 4 * 64 + unat c mod 64) = c"
    using unat_lt8 [of c] by simp
  ultimately show ?case
    using 4 by simp
next
  case (3 a b)
  have "of_nat (unat a div 4 * 4 + (unat a mod 4 * 16 + unat b div 16) div 16) = a"
    using unat_lt8 [of b] by simp
  moreover have "of_nat ((unat a mod 4 * 16 + unat b div 16) mod 16 * 16
      + (unat b mod 16 * 4) div 4) = b"
    using unat_lt8 [of b] by simp
  ultimately show ?case
    by simp
qed simp_all

lemma those_map_Some: "(\<And>v. v \<in> set vs \<Longrightarrow> f (g v) = Some v) \<Longrightarrow> those (map f (map g vs)) = Some vs"
  by (induction vs) simp_all

lemma btoa_body_eq_Nil [simp]: "btoa_body b = [] \<longleftrightarrow> b = []"
  by (cases b rule: btoa_body.cases) simp_all

lemma last_btoa_body: "b \<noteq> [] \<Longrightarrow> last (map b64_char (btoa_body b)) \<noteq> b64_pad"
proof -
  assume "b \<noteq> []"
  then have "btoa_body b \<noteq> []"
    by simp
  then show ?thesis
    using btoa_body_bound [of "last (btoa_body b)" b] by (simp add: last_map)
qed

lemma length_mod_btoa [simp]: "length (btoa b) mod 4 = 0"
  by (simp add: length_btoa)

lemma strip_pad_btoa: "strip_pad (btoa b) = map b64_char (btoa_body b)"
proof (cases "b = []")
  case True
  then show ?thesis by (simp add: strip_pad_def)
next
  case False
  then have l: "last (map b64_char (btoa_body b)) \<noteq> b64_pad"
    and ne: "map b64_char (btoa_body b) \<noteq> []"
    using last_btoa_body by simp_all
  have len: "(length (btoa_body b) + length (btoa_padding b)) mod 4 = 0"
    using length_mod_btoa [of b] by (simp add: btoa_split)
  consider "length b mod 3 = 0" | "length b mod 3 = 1" | "length b mod 3 = 2"
    by linarith
  then show ?thesis
    by cases (use l ne len in \<open>auto simp: strip_pad_def btoa_split btoa_padding_def numeral_2_eq_2
        butlast_append Let_def\<close>)
qed

lemma filter_ws_btoa: "filter (\<lambda>c. \<not> ascii_ws c) (btoa b) = btoa b"
proof (rule filter_True, rule ballI)
  fix c
  assume "c \<in> set (btoa b)"
  then show "\<not> ascii_ws c"
    by (auto simp: btoa_split btoa_padding_def dest!: btoa_body_bound split: if_splits)
qed

lemma fromBase64_toBase64 [simp]: "fromBase64 (toBase64 b) = Inr b"
proof -
  have "those (map b64_val (map b64_char (btoa_body b))) = Some (btoa_body b)"
    by (rule those_map_Some) (simp add: btoa_body_bound)
  moreover have "length (btoa_body b) mod 4 \<noteq> 1"
    by (rule length_btoa_body)
  ultimately show ?thesis
    by (simp add: fromBase64_def toBase64_def atob_def filter_ws_btoa strip_pad_btoa Let_def)
qed

interpretation b64: codec "\<lambda>b. True" toBase64 fromBase64
  by unfold_locales simp

section \<open>The characters of an encoding\<close>

definition b64_alphabet :: "u16 \<Rightarrow> bool" where
  "b64_alphabet c \<longleftrightarrow> is_upper c \<or> is_lower c \<or> is_digit c \<or> c = 43 \<or> c = 47 \<or> c = b64_pad"

lemma b64_alphabet_char: "i < 64 \<Longrightarrow> b64_alphabet (b64_char i)"
  using b64_val_char [of i] by (auto simp: b64_alphabet_def b64_val_def split: if_splits)

lemma toBase64_alphabet: "c \<in> set (toBase64 b) \<Longrightarrow> b64_alphabet c"
  by (auto simp: toBase64_def btoa_split btoa_padding_def b64_alphabet_def [of b64_pad]
      dest!: btoa_body_bound b64_alphabet_char split: if_splits)

lemma toBase64_eq_Nil [simp]: "toBase64 b = [] \<longleftrightarrow> b = []"
  by (cases b rule: btoa.cases) (simp_all add: toBase64_def)

lemma b64_alphabet_not: "\<not> b64_alphabet 124" "\<not> b64_alphabet 46"
  by (simp_all add: b64_alphabet_def char_class_defs b64_pad_def)

end
