(* ===== verification/Primitives.thy ===== *)
theory Primitives
  imports Json Base64
begin

text \<open>
  \<open>packages/crypto/src/primitives.ts\<close>: the wrappers over Web Crypto.

  Web Crypto, hash-wasm, the URL parser and the Unicode tables are not part of the repository. They
  are the fields of the record \<open>platform\<close>, an argument of every definition that calls
  them; \<open>webcrypto_ok\<close> names the documented behaviour the program relies on. A
  \<open>CryptoKey\<close> is an opaque byte string that only the platform reads.
\<close>

section \<open>The platform\<close>

datatype hash_alg = SHA1 | SHA256 | SHA512

datatype raw_alg = AES_GCM | HMAC hash_alg | PBKDF2

type_synonym cryptokey = bytes

record platform = jsenv +
  wc_import_raw :: "raw_alg \<Rightarrow> bytes \<Rightarrow> cryptokey result"
  wc_encrypt :: "cryptokey \<Rightarrow> bytes \<Rightarrow> bytes \<Rightarrow> bytes result" \<comment> \<open>key, iv, data\<close>
  wc_decrypt :: "cryptokey \<Rightarrow> bytes \<Rightarrow> bytes \<Rightarrow> bytes result" \<comment> \<open>key, iv, data\<close>
  wc_sign :: "hash_alg \<Rightarrow> cryptokey \<Rightarrow> bytes \<Rightarrow> bytes result"
  wc_deriveBits :: "cryptokey \<Rightarrow> bytes \<Rightarrow> jsval option \<Rightarrow> nat \<Rightarrow> bytes result"
    \<comment> \<open>key, salt, iterations, bits\<close>
  hw_argon2id :: "bytes \<Rightarrow> bytes \<Rightarrow> jsval option \<Rightarrow> jsval \<Rightarrow> jsval \<Rightarrow> nat \<Rightarrow> bytes result"
    \<comment> \<open>password, salt, iterations, memory in KiB, parallelism, length\<close>
  js_mult :: "jsval \<Rightarrow> int \<Rightarrow> jsval" \<comment> \<open>the operator \<open>*\<close> on an operand that is no integer\<close>
  wc_rsa_generate :: "bytes \<Rightarrow> (cryptokey \<times> cryptokey) result" \<comment> \<open>from 32 random bytes\<close>
  wc_export_spki :: "cryptokey \<Rightarrow> bytes result"
  wc_export_pkcs8 :: "cryptokey \<Rightarrow> bytes result"
  wc_import_spki :: "bytes \<Rightarrow> cryptokey result"
  wc_import_pkcs8 :: "bytes \<Rightarrow> cryptokey result"
  wc_rsa_encrypt :: "cryptokey \<Rightarrow> bytes \<Rightarrow> bytes \<Rightarrow> bytes result" \<comment> \<open>key, 32 random bytes, data\<close>
  wc_rsa_decrypt :: "cryptokey \<Rightarrow> bytes \<Rightarrow> bytes result"
  wc_digest :: "hash_alg \<Rightarrow> bytes \<Rightarrow> bytes"
  url_search :: "jsstring \<Rightarrow> (jsstring \<Rightarrow> jsstring option) option"
    \<comment> \<open>\<open>searchParams.get\<close> of \<open>new URL(s)\<close>, \<open>None\<close> when the text is no URL\<close>
  url_hostname :: "jsstring \<Rightarrow> jsstring option"

fun hash_len :: "hash_alg \<Rightarrow> nat" where
  "hash_len SHA1 = 20"
| "hash_len SHA256 = 32"
| "hash_len SHA512 = 64"

text \<open>What the Web Cryptography API promises: a 256-bit key imports, authenticated encryption
  appends a 16-byte tag and decryption inverts it, an HMAC key that is not empty imports and
  the MAC has the length of the hash, PBKDF2 returns the bits asked for.\<close>

definition aes_ok :: "'z platform_scheme \<Rightarrow> bool" where
  "aes_ok P \<longleftrightarrow>
     (\<forall>k. length k = 32 \<longrightarrow> (\<exists>h. wc_import_raw P AES_GCM k = Inr h)) \<and>
     (\<forall>k h iv m. wc_import_raw P AES_GCM k = Inr h \<longrightarrow> length iv = 12 \<longrightarrow>
        (\<exists>c. wc_encrypt P h iv m = Inr c \<and> length c = length m + 16 \<and> wc_decrypt P h iv c = Inr m))"

definition mac_ok :: "'z platform_scheme \<Rightarrow> bool" where
  "mac_ok P \<longleftrightarrow>
     (\<forall>a k. k \<noteq> [] \<longrightarrow> (\<exists>h. wc_import_raw P (HMAC a) k = Inr h)) \<and>
     (\<forall>a k h m. wc_import_raw P (HMAC a) k = Inr h \<longrightarrow>
        (\<exists>t. wc_sign P a h m = Inr t \<and> length t = hash_len a))"

definition kdf_ok :: "'z platform_scheme \<Rightarrow> bool" where
  "kdf_ok P \<longleftrightarrow>
     (\<forall>k. \<exists>h. wc_import_raw P PBKDF2 k = Inr h) \<and>
     (\<forall>k h salt i n. wc_import_raw P PBKDF2 k = Inr h \<longrightarrow> 0 < i \<longrightarrow> i < 2 ^ 32 \<longrightarrow> 0 < n \<longrightarrow>
        (\<exists>d. wc_deriveBits P h salt (Some (JNum (NInt i))) (8 * n) = Inr d \<and> length d = n)) \<and>
     (\<forall>pw salt i m p n. pw \<noteq> [] \<longrightarrow> 8 \<le> length salt \<longrightarrow> 0 < i \<longrightarrow> i < 2 ^ 32 \<longrightarrow>
        0 < p \<longrightarrow> p < 2 ^ 24 \<longrightarrow> 8 * p \<le> m \<longrightarrow> m < 2 ^ 32 \<longrightarrow> 4 \<le> n \<longrightarrow>
        (\<exists>d. hw_argon2id P pw salt (Some (JNum (NInt i))) (JNum (NInt m)) (JNum (NInt p)) n = Inr d
           \<and> length d = n))"

definition rsa_ok :: "'z platform_scheme \<Rightarrow> bool" where
  "rsa_ok P \<longleftrightarrow>
     (\<forall>seed. \<exists>pub priv spki pkcs8 pub' priv'.
        wc_rsa_generate P seed = Inr (pub, priv) \<and>
        wc_export_spki P pub = Inr spki \<and> wc_export_pkcs8 P priv = Inr pkcs8 \<and>
        wc_import_spki P spki = Inr pub' \<and> wc_import_pkcs8 P pkcs8 = Inr priv' \<and>
        (\<forall>r m. length m \<le> 190 \<longrightarrow>
           (\<exists>c. wc_rsa_encrypt P pub' r m = Inr c \<and> wc_rsa_decrypt P priv' c = Inr m)))"

section \<open>Random bytes\<close>

definition randomBytes :: "nat \<Rightarrow> ('z world_scheme, bytes) act" where
  "randomBytes n w = (Inr (draw n w), w\<lparr>drawn := drawn w + n\<rparr>)"

section \<open>AES-GCM\<close>

record AesGcmResult =
  gcm_nonce :: bytes
  gcm_ciphertext :: bytes

definition aesGcmEncrypt ::
  "'z platform_scheme \<Rightarrow> bytes \<Rightarrow> bytes \<Rightarrow> bytes \<Rightarrow> AesGcmResult result" where
  "aesGcmEncrypt P key plaintext nonce =
     bindR (wc_import_raw P AES_GCM key) (\<lambda>k.
     bindR (wc_encrypt P k nonce plaintext) (\<lambda>ct.
     Inr \<lparr>gcm_nonce = nonce, gcm_ciphertext = ct\<rparr>))"

text \<open>The call without a nonce: the default argument draws 12 random bytes first.\<close>

definition aesGcmEncryptFresh ::
  "'z platform_scheme \<Rightarrow> bytes \<Rightarrow> bytes \<Rightarrow> ('y world_scheme, AesGcmResult) act" where
  "aesGcmEncryptFresh P key plaintext =
     bindA (randomBytes 12) (\<lambda>nonce. liftA (aesGcmEncrypt P key plaintext nonce))"

definition aesGcmDecrypt ::
  "'z platform_scheme \<Rightarrow> bytes \<Rightarrow> bytes \<Rightarrow> bytes \<Rightarrow> bytes result" where
  "aesGcmDecrypt P key nonce ciphertext =
     bindR (wc_import_raw P AES_GCM key) (\<lambda>k. wc_decrypt P k nonce ciphertext)"

section \<open>HKDF-Expand and PBKDF2\<close>

text \<open>\<open>okm.set(bs, offset)\<close>: a \<open>RangeError\<close> when the bytes do not fit.\<close>

definition typed_set :: "bytes \<Rightarrow> bytes \<Rightarrow> nat \<Rightarrow> bytes result" where
  "typed_set arr bs off =
     (if off + length bs \<le> length arr
      then Inr (take off arr @ bs @ drop (off + length bs) arr) else Inl EPlatform)"

text \<open>The loop from block \<open>i\<close> on, \<open>n\<close> blocks to go. The counter is stored into a
  \<open>Uint8Array\<close>, so it wraps at 256.\<close>

fun hkdf_loop ::
  "'z platform_scheme \<Rightarrow> cryptokey \<Rightarrow> bytes \<Rightarrow> nat \<Rightarrow> nat \<Rightarrow> bytes \<Rightarrow> bytes \<Rightarrow> bytes result" where
  "hkdf_loop P key infoBytes 0 i prev okm = Inr okm"
| "hkdf_loop P key infoBytes (Suc n) i prev okm =
     bindR (wc_sign P SHA256 key (prev @ infoBytes @ [of_nat (i + 1)])) (\<lambda>prev'.
     bindR (typed_set okm prev' (i * 32)) (\<lambda>okm'.
     hkdf_loop P key infoBytes n (i + 1) prev' okm'))"

definition hkdfExpand :: "'z platform_scheme \<Rightarrow> bytes \<Rightarrow> jsstring \<Rightarrow> nat \<Rightarrow> bytes result" where
  "hkdfExpand P prk info len =
     bindR (wc_import_raw P (HMAC SHA256) prk) (\<lambda>key.
       let infoBytes = utf8 info; blocks = (len + 31) div 32
       in mapR (take len) (hkdf_loop P key infoBytes blocks 0 [] (replicate (blocks * 32) 0)))"

definition pbkdf2 ::
  "'z platform_scheme \<Rightarrow> bytes \<Rightarrow> bytes \<Rightarrow> jsval option \<Rightarrow> nat \<Rightarrow> bytes result" where
  "pbkdf2 P password salt iterations len =
     bindR (wc_import_raw P PBKDF2 password) (\<lambda>k. wc_deriveBits P k salt iterations (len * 8))"

section \<open>Encryption round trip\<close>

lemma randomBytes_app [act_simps]:
  "randomBytes n w = (Inr (draw n w), w\<lparr>drawn := drawn w + n\<rparr>)"
  by (simp add: randomBytes_def)

lemma aesGcm_roundtrip:
  assumes "aes_ok P" "length key = 32" "length nonce = 12"
  obtains c where "aesGcmEncrypt P key m nonce = Inr \<lparr>gcm_nonce = nonce, gcm_ciphertext = c\<rparr>"
    "length c = length m + 16" "aesGcmDecrypt P key nonce c = Inr m"
proof -
  obtain h where h: "wc_import_raw P AES_GCM key = Inr h"
    using assms by (auto simp: aes_ok_def)
  then obtain c where "wc_encrypt P h nonce m = Inr c" "length c = length m + 16"
      "wc_decrypt P h nonce c = Inr m"
    using assms(1,3) unfolding aes_ok_def by meson
  with h that show ?thesis
    by (auto simp: aesGcmEncrypt_def aesGcmDecrypt_def)
qed

lemma aesGcmEncryptFresh_ok:
  assumes "aes_ok P" "length key = 32"
  obtains c where
    "aesGcmEncryptFresh P key m w =
       (Inr \<lparr>gcm_nonce = draw 12 w, gcm_ciphertext = c\<rparr>, w\<lparr>drawn := drawn w + 12\<rparr>)"
    "length c = length m + 16" "aesGcmDecrypt P key (draw 12 w) c = Inr m"
proof -
  obtain c where "aesGcmEncrypt P key m (draw 12 w)
      = Inr \<lparr>gcm_nonce = draw 12 w, gcm_ciphertext = c\<rparr>"
      "length c = length m + 16" "aesGcmDecrypt P key (draw 12 w) c = Inr m"
    using aesGcm_roundtrip [OF assms, of "draw 12 w" m] by (auto simp del: length_0_conv)
  then show ?thesis
    by (intro that [of c]) (simp_all add: aesGcmEncryptFresh_def act_simps)
qed

section \<open>HKDF-Expand is the function of RFC 5869\<close>

text \<open>\<open>T(0)\<close> is empty, \<open>T(i + 1) = HMAC(PRK, T(i) | info | i + 1)\<close>.\<close>

primrec hkdf_T :: "(bytes \<Rightarrow> bytes) \<Rightarrow> bytes \<Rightarrow> nat \<Rightarrow> bytes" where
  "hkdf_T mac info 0 = []"
| "hkdf_T mac info (Suc i) = mac (hkdf_T mac info i @ info @ [of_nat (i + 1)])"

definition rfc5869_expand :: "(bytes \<Rightarrow> bytes) \<Rightarrow> bytes \<Rightarrow> nat \<Rightarrow> bytes" where
  "rfc5869_expand mac info len =
     take len (concat (map (hkdf_T mac info) [1 ..< (len + 31) div 32 + 1]))"

lemma hkdf_loop_T:
  assumes mac: "\<And>m. wc_sign P SHA256 key m = Inr (mac m)" "\<And>m. length (mac m) = 32"
  shows "length acc = i * 32 \<Longrightarrow>
    hkdf_loop P key info n i (hkdf_T mac info i) (acc @ replicate (n * 32) 0)
    = Inr (acc @ concat (map (hkdf_T mac info) [i + 1 ..< i + n + 1]))"
proof (induction n arbitrary: i "acc")
  case (Suc n)
  have "replicate (Suc n * 32) (0 :: byte) = replicate 32 0 @ replicate (n * 32) 0"
    by (simp add: replicate_add [symmetric])
  then have set: "typed_set (acc @ replicate (Suc n * 32) 0) (hkdf_T mac info (Suc i)) (i * 32)
      = Inr ((acc @ hkdf_T mac info (Suc i)) @ replicate (n * 32) 0)"
    using Suc.prems by (simp add: typed_set_def mac(2) del: replicate_Suc)
  have range: "[i + 1 ..< i + Suc n + 1] = (i + 1) # [Suc i + 1 ..< Suc i + n + 1]"
    by (subst upt_conv_Cons) simp_all
  have "length (acc @ hkdf_T mac info (Suc i)) = Suc i * 32"
    using Suc.prems by (simp add: mac(2))
  from Suc.IH [OF this] set range show ?case
    by (simp add: mac(1))
qed simp

lemma hkdfExpand_rfc5869:
  assumes "wc_import_raw P (HMAC SHA256) prk = Inr key"
    and mac: "\<And>m. wc_sign P SHA256 key m = Inr (mac m)" "\<And>m. length (mac m) = 32"
  shows "hkdfExpand P prk info len = Inr (rfc5869_expand mac (utf8 info) len)"
  using hkdf_loop_T [OF mac, where acc = "[]" and i = 0] assms(1)
  by (simp add: hkdfExpand_def rfc5869_expand_def Let_def)

lemma length_hkdf_blocks:
  assumes "\<And>m. length (mac m) = 32"
  shows "length (concat (map (hkdf_T mac info) [1 ..< n + 1])) = n * 32"
  using assms by (induction n) simp_all

lemma length_rfc5869:
  assumes "\<And>m. length (mac m) = 32"
  shows "length (rfc5869_expand mac info len) = len"
  unfolding rfc5869_expand_def using length_hkdf_blocks [OF assms] by simp

lemma mac_function:
  assumes "mac_ok P" "k \<noteq> []"
  obtains h mac where "wc_import_raw P (HMAC a) k = Inr h" "\<And>m. wc_sign P a h m = Inr (mac m)"
    "\<And>m. length (mac m) = hash_len a"
proof -
  obtain h where h: "wc_import_raw P (HMAC a) k = Inr h"
    using assms unfolding mac_ok_def by meson
  then have "\<forall>m. \<exists>t. wc_sign P a h m = Inr t \<and> length t = hash_len a"
    using assms unfolding mac_ok_def by meson
  then obtain mac where "\<forall>m. wc_sign P a h m = Inr (mac m) \<and> length (mac m) = hash_len a"
    by metis
  with h that show ?thesis
    by blast
qed

lemma hkdfExpand_ok:
  assumes "mac_ok P" "prk \<noteq> []"
  obtains okm where "hkdfExpand P prk info len = Inr okm" "length okm = len"
proof -
  obtain h mac where m: "wc_import_raw P (HMAC SHA256) prk = Inr h"
      "\<And>m. wc_sign P SHA256 h m = Inr (mac m)" "\<And>m. length (mac m) = hash_len SHA256"
    using mac_function [OF assms] by blast
  then have "\<And>m. length (mac m) = 32"
    by simp
  with m show ?thesis
    using that hkdfExpand_rfc5869 [of P prk h mac info len] length_rfc5869 by blast
qed

lemma pbkdf2_ok:
  assumes "kdf_ok P" "0 < i" "i < 2 ^ 32" "0 < n"
  obtains d where "pbkdf2 P pw salt (Some (JNum (NInt i))) n = Inr d" "length d = n"
proof -
  obtain h where h: "wc_import_raw P PBKDF2 pw = Inr h"
    using assms(1) unfolding kdf_ok_def by meson
  then obtain d where "wc_deriveBits P h salt (Some (JNum (NInt i))) (8 * n) = Inr d" "length d = n"
    using assms unfolding kdf_ok_def by meson
  with h that show ?thesis
    by (simp add: pbkdf2_def mult.commute)
qed

end
