(* ===== verification/EncString.thy ===== *)
theory EncString
  imports Primitives
begin

text \<open>
  \<open>packages/crypto/src/encstring.ts\<close>: the self-describing ciphertext envelope
  \<open>"<type>.<base64(nonce)>|<base64(data)>"\<close>.

  A value read from a parsed file need not be a string, so the parser is also given on
  arbitrary values (\<open>parseEncStringVal\<close>), with the exceptions JavaScript raises there.
\<close>

datatype EncType = AesGcm | AesCbcHmac

definition enc_type_num :: "EncType \<Rightarrow> int" where
  "enc_type_num t = (case t of AesGcm \<Rightarrow> 1 | AesCbcHmac \<Rightarrow> 2)"

record EncString =
  enc_type :: EncType
  enc_nonce :: bytes
  enc_data :: bytes

definition serializeEncString :: "EncString \<Rightarrow> jsstring" where
  "serializeEncString e =
     int_str (enc_type_num (enc_type e)) @ js ''.'' @ toBase64 (enc_nonce e) @ js ''|''
       @ toBase64 (enc_data e)"

definition parseEncString :: "jsstring \<Rightarrow> EncString result" where
  "parseEncString s =
     (case indexOf (jc (CHR ''.'')) s of
        None \<Rightarrow> Inl EEncMissingPrefix
      | Some dot \<Rightarrow>
          if toNumber (take dot s) \<noteq> Some (NInt (enc_type_num AesGcm)) then Inl EEncUnsupportedType
          else (case split_on (jc (CHR ''|'')) (drop (dot + 1) s) of
                  [p0, p1] \<Rightarrow>
                    if p0 = [] \<or> p1 = [] then Inl EEncParts
                    else bindR (fromBase64 p0) (\<lambda>n. bindR (fromBase64 p1) (\<lambda>d.
                           Inr \<lparr>enc_type = AesGcm, enc_nonce = n, enc_data = d\<rparr>))
                | _ \<Rightarrow> Inl EEncParts))"

text \<open>The parser on a value of a parsed file. An array has \<open>indexOf\<close> and \<open>slice\<close> of its
  own but no \<open>split\<close>; no other value that is not a string has \<open>indexOf\<close>.\<close>

fun array_prefix :: "jsval list \<Rightarrow> jsval list option" where
  "array_prefix [] = None"
| "array_prefix (v # vs) = (if v = JStr (js ''.'') then Some [] else map_option ((#) v) (array_prefix vs))"

definition parseEncStringVal :: "'z jsenv_scheme \<Rightarrow> jsval option \<Rightarrow> EncString result" where
  "parseEncStringVal J ov =
     (case ov of
        Some (JStr s) \<Rightarrow> parseEncString s
      | Some (JArr vs) \<Rightarrow>
          (case array_prefix vs of
             None \<Rightarrow> Inl EEncMissingPrefix
           | Some pre \<Rightarrow>
               bindR (toText J (JArr pre)) (\<lambda>t.
                 if toNumber t \<noteq> Some (NInt (enc_type_num AesGcm)) then Inl EEncUnsupportedType
                 else Inl EType))
      | _ \<Rightarrow> Inl EType)"

section \<open>Facts\<close>

text \<open>An envelope the program writes: type 1, a nonce and data that are not empty.\<close>

definition enc_wf :: "EncString \<Rightarrow> bool" where
  "enc_wf e \<longleftrightarrow> enc_type e = AesGcm \<and> enc_nonce e \<noteq> [] \<and> enc_data e \<noteq> []"

lemma indexOf_append: "c \<notin> set s \<Longrightarrow> indexOf c (s @ c # t) = Some (length s)"
  by (induction s) auto

lemma split_on_none: "c \<notin> set s \<Longrightarrow> split_on c s = [s]"
  by (induction s) auto

lemma split_on_append: "c \<notin> set s \<Longrightarrow> split_on c (s @ c # t) = s # split_on c t"
  by (induction s) (auto split: list.split)

lemma toNumber_one: "toNumber (js ''1'') = Some (NInt 1)"
  by code_simp

lemma int_str_one: "int_str 1 = js ''1''"
  by code_simp

lemma parseEncString_parts:
  assumes "jc (CHR ''|'') \<notin> set p0" "jc (CHR ''|'') \<notin> set p1" "p0 \<noteq> []" "p1 \<noteq> []"
  shows "parseEncString (js ''1'' @ js ''.'' @ p0 @ js ''|'' @ p1) =
    bindR (fromBase64 p0) (\<lambda>n. bindR (fromBase64 p1) (\<lambda>d.
      Inr \<lparr>enc_type = AesGcm, enc_nonce = n, enc_data = d\<rparr>))"
proof -
  have "indexOf (jc (CHR ''.'')) (js ''1'' @ js ''.'' @ p0 @ js ''|'' @ p1) = Some 1"
    by (simp add: js_Cons)
  moreover have "split_on (jc (CHR ''|'')) (p0 @ jc (CHR ''|'') # p1) = [p0, p1]"
    using assms by (simp add: split_on_append split_on_none)
  ultimately show ?thesis
    using assms toNumber_one
    by (simp add: parseEncString_def enc_type_num_def js_Cons)
qed

lemma base64_no_bar: "jc (CHR ''|'') \<notin> set (toBase64 b)"
  using b64_alphabet_not toBase64_alphabet by (fastforce simp: jc_def)

lemma parse_serialize: "enc_wf e \<Longrightarrow> parseEncString (serializeEncString e) = Inr e"
  unfolding serializeEncString_def enc_wf_def
  by (simp add: enc_type_num_def int_str_one parseEncString_parts base64_no_bar
      toBase64_eq_Nil fromBase64_toBase64 del: append.simps)

interpretation enc: codec enc_wf serializeEncString parseEncString
  by unfold_locales (rule parse_serialize)

lemma parse_type: "parseEncString s = Inr e \<Longrightarrow> enc_type e = AesGcm"
  by (auto simp: parseEncString_def split: option.splits if_splits list.splits)

lemma parseEncStringVal_JStr [simp]: "parseEncStringVal J (Some (JStr s)) = parseEncString s"
  by (simp add: parseEncStringVal_def)


section \<open>Properties\<close>

lemma indexOf_split: "indexOf c s = Some i \<Longrightarrow> s = take i s @ c # drop (i + 1) s"
proof (induction s arbitrary: i)
  case (Cons x s)
  then show ?case
    by (auto split: if_splits)
qed simp

lemma split_by_not_Nil: "split_by P s \<noteq> []"
  by (cases s) (auto split: list.split)

lemma split_on_two: "split_on c s = [a, b] \<Longrightarrow> s = a @ c # b"
proof (induction s arbitrary: a)
  case (Cons x s)
  have one: "split_on c r = [b] \<Longrightarrow> r = b" for r
    by (induction r arbitrary: b) (auto split: if_splits list.splits simp: split_by_not_Nil)
  show ?case
    using Cons by (auto split: if_splits list.splits dest: one simp: split_by_not_Nil)
qed simp

text \<open>An envelope the program writes is read back unchanged.\<close>

theorem encstring_roundtrip:
  "enc_wf e \<Longrightarrow> parseEncString (serializeEncString e) = Inr e"
  by (rule enc.dec_enc)

theorem encstring_roundtrip_witness:
  "parseEncString (serializeEncString \<lparr>enc_type = AesGcm, enc_nonce = [1, 2], enc_data = [255]\<rparr>)
   = Inr \<lparr>enc_type = AesGcm, enc_nonce = [1, 2], enc_data = [255]\<rparr>"
  by (rule encstring_roundtrip) (simp add: enc_wf_def)

text \<open>C19: the parser accepts nothing but a type prefix whose number is 1, a point, and exactly two
  base64 texts, neither empty, separated by one bar; the envelope it returns is theirs.\<close>

theorem parseEncString_sound:
  assumes "parseEncString s = Inr e"
  shows "\<exists>pre p0 p1. s = pre @ [jc (CHR ''.'')] @ p0 @ [jc (CHR ''|'')] @ p1 \<and> toNumber pre = Some (NInt 1)
    \<and> p0 \<noteq> [] \<and> p1 \<noteq> [] \<and> fromBase64 p0 = Inr (enc_nonce e) \<and> fromBase64 p1 = Inr (enc_data e)
    \<and> enc_type e = AesGcm"
proof -
  obtain dot p0 p1 where d: "indexOf (jc (CHR ''.'')) s = Some dot" "toNumber (take dot s) = Some (NInt 1)"
      "split_on (jc (CHR ''|'')) (drop (dot + 1) s) = [p0, p1]" "p0 \<noteq> []" "p1 \<noteq> []"
    and e: "fromBase64 p0 = Inr (enc_nonce e)" "fromBase64 p1 = Inr (enc_data e)" "enc_type e = AesGcm"
    using assms
    by (auto simp: parseEncString_def enc_type_num_def split: option.splits if_splits list.splits)
  show ?thesis
    using indexOf_split [OF d(1)] split_on_two [OF d(3)] d e
    by (intro exI [of _ "take dot s"] exI [of _ p0] exI [of _ p1]) simp
qed

theorem parseEncString_sound_witness:
  "\<exists>pre p0 p1. js ''1.AQI=|/w=='' = pre @ [jc (CHR ''.'')] @ p0 @ [jc (CHR ''|'')] @ p1
     \<and> toNumber pre = Some (NInt 1) \<and> fromBase64 p0 = Inr [1, 2]"
proof -
  have "parseEncString (js ''1.AQI=|/w=='') = Inr \<lparr>enc_type = AesGcm, enc_nonce = [1, 2], enc_data = [255]\<rparr>"
    by code_simp
  from parseEncString_sound [OF this] show ?thesis
    by auto
qed

text \<open>The number of the prefix is what counts, not its spelling.\<close>

lemma parseEncString_prefix_spellings:
  "parseEncString (js '' 0x1.AQI=|/w=='') = Inr \<lparr>enc_type = AesGcm, enc_nonce = [1, 2], enc_data = [255]\<rparr>"
  by code_simp

end
