(* ===== verification/Kdf.thy ===== *)
theory Kdf
  imports Primitives
begin

text \<open>
  \<open>packages/crypto/src/kdf.ts\<close>: the key derivation of a password. The parameters are the
  JavaScript object itself (a \<open>jsval\<close>; \<open>None\<close> is \<open>undefined\<close>), because the vault and backup
  readers pass on what they find in a file, unchecked; \<open>kdf_params_ok\<close> says which objects
  are parameters the KDFs accept.
\<close>

definition DEFAULT_KDF :: jsval where
  "DEFAULT_KDF = JObj [(js ''type'', JStr (js ''argon2id'')), (js ''iterations'', JNum (NInt 3)),
     (js ''memoryMiB'', JNum (NInt 64)), (js ''parallelism'', JNum (NInt 4))]"

text \<open>\<open>utf8(v)\<close> of a value that need not be a string: \<open>encode(undefined)\<close> is empty, another
  value is converted to text.\<close>

definition utf8Val :: "'z jsenv_scheme \<Rightarrow> jsval option \<Rightarrow> bytes result" where
  "utf8Val J ov = (case ov of None \<Rightarrow> Inr [] | Some v \<Rightarrow> mapR utf8 (toText J v))"

text \<open>\<open>ov ?? d\<close> and \<open>v * i\<close>.\<close>

definition nullish :: "jsval option \<Rightarrow> jsval \<Rightarrow> jsval" where
  "nullish ov d = (case ov of None \<Rightarrow> d | Some v \<Rightarrow> if v = JNull then d else v)"

definition times :: "'z platform_scheme \<Rightarrow> jsval \<Rightarrow> int \<Rightarrow> jsval" where
  "times P v i = (case v of JNum (NInt j) \<Rightarrow> JNum (NInt (j * i)) | _ \<Rightarrow> js_mult P v i)"

definition deriveKey ::
  "'z platform_scheme \<Rightarrow> jsstring \<Rightarrow> jsval option \<Rightarrow> jsval option \<Rightarrow> bytes result" where
  "deriveKey P password salt params =
     (let pw = utf8 (normalizeNFKC P password)
      in bindR (utf8Val P salt) (\<lambda>saltBytes.
         case params of
           None \<Rightarrow> Inl EType
         | Some ps \<Rightarrow>
             bindR (get_prop ps (js ''type'')) (\<lambda>ty.
             bindR (get_prop ps (js ''iterations'')) (\<lambda>iterations.
             if ty = Some (JStr (js ''pbkdf2'')) then pbkdf2 P pw saltBytes iterations 32
             else bindR (get_prop ps (js ''memoryMiB'')) (\<lambda>memoryMiB.
                  bindR (get_prop ps (js ''parallelism'')) (\<lambda>parallelism.
                  hw_argon2id P pw saltBytes iterations
                    (times P (nullish memoryMiB (JNum (NInt 64))) 1024)
                    (nullish parallelism (JNum (NInt 4))) 32))))))"

section \<open>Usable parameters\<close>

definition int_prop :: "props \<Rightarrow> string \<Rightarrow> int option \<Rightarrow> int option" where
  "int_prop kvs k d =
     (case obj_get kvs (js k) of Some (JNum (NInt i)) \<Rightarrow> Some i | None \<Rightarrow> d | _ \<Rightarrow> None)"

definition in_range :: "int option \<Rightarrow> int \<Rightarrow> int \<Rightarrow> bool" where
  "in_range oi lo hi = (case oi of None \<Rightarrow> False | Some i \<Rightarrow> lo \<le> i \<and> i < hi)"

text \<open>Either kind of parameters, with the bounds the KDFs document.\<close>

definition kdf_params_ok :: "jsval \<Rightarrow> bool" where
  "kdf_params_ok v =
     (case v of
        JObj kvs \<Rightarrow>
          in_range (int_prop kvs ''iterations'' None) 1 (2 ^ 32) \<and>
          (obj_get kvs (js ''type'') = Some (JStr (js ''pbkdf2'')) \<or>
           in_range (int_prop kvs ''parallelism'' (Some 4)) 1 (2 ^ 12) \<and>
           in_range (int_prop kvs ''memoryMiB'' (Some 64)) 32 (2 ^ 22))
      | _ \<Rightarrow> False)"

lemma in_rangeE:
  assumes "in_range (int_prop kvs k d) lo hi"
  obtains i where "lo \<le> i" "i < hi" "obj_get kvs (js k) = Some (JNum (NInt i))"
  | i where "lo \<le> i" "i < hi" "d = Some i" "obj_get kvs (js k) = None"
  using assms
  by (auto simp: in_range_def int_prop_def split: option.splits jsval.splits jsnum.splits)

lemma in_range_nullish:
  assumes "in_range (int_prop kvs k (Some d)) lo hi"
  obtains i where "lo \<le> i" "i < hi" "nullish (obj_get kvs (js k)) (JNum (NInt d)) = JNum (NInt i)"
  using assms by (auto elim!: in_rangeE simp: nullish_def)

lemma deriveKey_ok:
  assumes P: "kdf_ok P" and v: "kdf_params_ok v"
    and pw: "utf8 (normalizeNFKC P pw) \<noteq> []" and salt: "8 \<le> length (utf8 salt)"
  obtains d where "deriveKey P pw (Some (JStr salt)) (Some v) = Inr d" "length d = 32"
proof -
  from v obtain kvs where kvs: "v = JObj kvs"
    by (auto simp: kdf_params_ok_def split: jsval.splits)
  with v have it: "in_range (int_prop kvs ''iterations'' None) 1 (2 ^ 32)"
    by (simp add: kdf_params_ok_def)
  then obtain i where i: "1 \<le> i" "i < 2 ^ 32" "obj_get kvs (js ''iterations'') = Some (JNum (NInt i))"
    by (auto elim!: in_rangeE)
  show ?thesis
  proof (cases "obj_get kvs (js ''type'') = Some (JStr (js ''pbkdf2''))")
    case True
    obtain d where "pbkdf2 P (utf8 (normalizeNFKC P pw)) (utf8 salt) (Some (JNum (NInt i))) 32 = Inr d"
        "length d = 32"
      using pbkdf2_ok [OF P, of i 32] i by auto
    with True i kvs that show ?thesis
      by (simp add: deriveKey_def utf8Val_def get_prop_def own_props_def)
  next
    case False
    with v kvs have r: "in_range (int_prop kvs ''parallelism'' (Some 4)) 1 (2 ^ 12)"
        "in_range (int_prop kvs ''memoryMiB'' (Some 64)) 32 (2 ^ 22)"
      by (auto simp: kdf_params_ok_def)
    from in_range_nullish [OF r(1)] obtain p where
        p: "1 \<le> p" "p < 2 ^ 12" "nullish (obj_get kvs (js ''parallelism'')) (JNum (NInt 4)) = JNum (NInt p)" .
    from in_range_nullish [OF r(2)] obtain m where
        m: "32 \<le> m" "m < 2 ^ 22" "nullish (obj_get kvs (js ''memoryMiB'')) (JNum (NInt 64)) = JNum (NInt m)" .
    have "\<exists>d. hw_argon2id P (utf8 (normalizeNFKC P pw)) (utf8 salt) (Some (JNum (NInt i)))
        (JNum (NInt (m * 1024))) (JNum (NInt p)) 32 = Inr d \<and> length d = 32"
      using P pw salt i(1,2) p(1,2) m(1,2) unfolding kdf_ok_def by (elim conjE) simp
    with False i(3) p(3) m(3) kvs that show ?thesis
      by (auto simp: deriveKey_def utf8Val_def get_prop_def own_props_def times_def)
  qed
qed

lemma DEFAULT_KDF_ok: "kdf_params_ok DEFAULT_KDF"
  by code_simp

text \<open>The salt and password enter only through their bytes: two passwords with the same
  compatibility normal form derive the same key.\<close>

lemma deriveKey_nfkc:
  "normalizeNFKC P p = normalizeNFKC P q \<Longrightarrow> deriveKey P p s ps = deriveKey P q s ps"
  by (simp add: deriveKey_def)

end
