(* ===== verification/Identifier.thy ===== *)
theory Identifier
  imports Primitives Wordlist
begin

text \<open>
  \<open>packages/crypto/src/identifier.ts\<close>: the canonical form of an account identifier and the
  generator of passphrase identifiers. \<open>words\<close> (of theory JSString) is the specification of
  the canonical form: the maximal runs of characters that are no white space.
\<close>

definition normalizeIdentifier :: "'z jsenv_scheme \<Rightarrow> jsstring \<Rightarrow> jsstring" where
  "normalizeIdentifier J identifier = collapse_spaces (toLowerCase J (trim identifier))"

text \<open>\<open>getRandomValues\<close> on a \<open>Uint32Array\<close> of length 1 (little endian).\<close>

definition le32 :: "bytes \<Rightarrow> nat" where
  "le32 b = foldr (\<lambda>x a. unat x + 256 * a) b 0"

definition randomU32 :: "'z world_scheme \<Rightarrow> nat \<times> 'z world_scheme" where
  "randomU32 w = (le32 (draw 4 w), w\<lparr>drawn := drawn w + 4\<rparr>)"

definition sample_limit :: nat where
  "sample_limit = 0x100000000 div length BIP39_WORDLIST * length BIP39_WORDLIST"

lemma le32_bound: "le32 b < 256 ^ length b"
proof (induction b)
  case (Cons x b)
  have "unat x + 256 * le32 b < 256 + 256 * (256 ^ length b - 1)"
    using Cons.IH unat_lt8 [of x] by (intro add_less_le_mono) simp_all
  also have "\<dots> = 256 ^ length (x # b)"
    by (simp add: diff_mult_distrib2)
  finally show ?case
    by (simp add: le32_def)
qed (simp add: le32_def)

lemma sample_limit_eq: "sample_limit = 2 ^ 32"
  by (simp add: sample_limit_def length_wordlist)

lemma randomU32_bound: "fst (randomU32 w) < 2 ^ 32"
  using le32_bound [of "draw 4 w"] by (simp add: randomU32_def)

text \<open>The sampling loop. Its termination proof is the argument that the rejection branch,
  which would leave the list as it is, is never taken: 2048 divides the range.\<close>

function account_words ::
  "nat \<Rightarrow> jsstring list \<Rightarrow> 'z world_scheme \<Rightarrow> jsstring list \<times> 'z world_scheme" where
  "account_words nwords out w =
     (if length out < nwords
      then (let (x, w') = randomU32 w
            in if sample_limit \<le> x then account_words nwords out w'
               else account_words nwords (out @ [BIP39_WORDLIST ! (x mod length BIP39_WORDLIST)]) w')
      else (out, w))"
  by pat_completeness auto

termination
proof (relation "measure (\<lambda>(nwords, out, w). nwords - length out)")
  fix nwords :: nat and out :: "jsstring list" and w w' :: "'z world_scheme" and r x
  assume "r = randomU32 w" "(x, w') = r" "sample_limit \<le> x"
  then show "((nwords, out, w'), (nwords, out, w)) \<in> measure (\<lambda>(nwords, out, w). nwords - length out)"
    using randomU32_bound [of w] by (metis fst_conv leD sample_limit_eq)
qed auto

declare account_words.simps [simp del]

definition generateAccountId :: "nat \<Rightarrow> ('z world_scheme, jsstring) act" where
  "generateAccountId nwords w =
     (if nwords < 1 then (Inl EWords, w)
      else (let (out, w') = account_words nwords [] w in (Inr (join [32] out), w')))"

section \<open>The canonical form\<close>

lemma char_class_nat:
  "is_upper c \<longleftrightarrow> 65 \<le> unat c \<and> unat c \<le> 90"
  "is_lower c \<longleftrightarrow> 97 \<le> unat c \<and> unat c \<le> 122"
  "is_ascii c \<longleftrightarrow> unat c < 128"
  by (simp_all add: char_class_defs word_le_nat_alt word_less_nat_alt)

lemma no_space_between: "33 \<le> unat c \<Longrightarrow> unat c \<le> 127 \<Longrightarrow> \<not> is_space c"
  by (auto simp: is_space_def word_le_nat_alt)

lemma unat_upper_shift: "is_upper c \<Longrightarrow> unat (c + 32) = unat c + 32"
  by (simp add: char_class_nat unat_word_ariths)

lemma ascii_lower_space [simp]: "is_space (ascii_lower c) \<longleftrightarrow> is_space c"
  using no_space_between [of c] no_space_between [of "c + 32"] unat_upper_shift [of c]
  by (auto simp: ascii_lower_def char_class_nat)

lemma ascii_lower_ascii: "is_ascii c \<Longrightarrow> is_ascii (ascii_lower c)"
  using unat_upper_shift [of c] by (auto simp: ascii_lower_def char_class_nat)

lemma ascii_lower_idem: "ascii_lower (ascii_lower c) = ascii_lower c"
  using unat_upper_shift [of c] by (auto simp: ascii_lower_def char_class_nat)

lemma ascii_string_map_lower: "ascii_string s \<Longrightarrow> ascii_string (map ascii_lower s)"
  by (simp add: ascii_string_def ascii_lower_ascii)

lemma dropWhile_map_space:
  "dropWhile is_space (map ascii_lower s) = map ascii_lower (dropWhile is_space s)"
  by (induction s) simp_all

lemma trim_map_lower: "trim (map ascii_lower s) = map ascii_lower (trim s)"
  by (simp add: trim_def dropWhile_map_space rev_map)

lemma words_from_map_lower:
  "words_from (map ascii_lower v) (map ascii_lower s) = map (map ascii_lower) (words_from v s)"
proof (induction s arbitrary: v)
  case (Cons c s)
  show ?case
    using Cons.IH [of "[]"] Cons.IH [of "v @ [c]"] by simp
qed simp

lemma words_map_lower: "words (map ascii_lower s) = map (map ascii_lower) (words s)"
  using words_from_map_lower [of "[]"] by (simp add: words_def)

lemma ascii_string_trim: "ascii_string s \<Longrightarrow> ascii_string (trim s)"
  using set_trim_subset by (auto simp: ascii_string_def)

lemma normalize_ascii:
  assumes "ascii_string s"
  shows "normalizeIdentifier J s = join [32] (map (map ascii_lower) (words s))"
proof -
  have "toLowerCase J (trim s) = trim (map ascii_lower s)"
    using ascii_string_trim [OF assms] by (simp add: toLowerCase_def trim_map_lower)
  then show ?thesis
    by (simp add: normalizeIdentifier_def collapse_trim words_map_lower)
qed

lemma lower_words_are_words:
  "\<forall>w \<in> set (map (map ascii_lower) (words s)). w \<noteq> [] \<and> (\<forall>c \<in> set w. \<not> is_space c)"
  using words_are_words by fastforce

lemma words_normalize:
  "ascii_string s \<Longrightarrow> words (normalizeIdentifier J s) = map (map ascii_lower) (words s)"
  using words_join [OF lower_words_are_words] by (simp add: normalize_ascii)

lemma ascii_string_join:
  "ascii_string (join [32] ws) \<longleftrightarrow> (\<forall>w \<in> set ws. ascii_string w)"
  by (induction "[32] :: jsstring" ws rule: join.induct) (auto simp: is_ascii_def)

lemma ascii_string_normalize:
  assumes "ascii_string s"
  shows "ascii_string (normalizeIdentifier J s)"
proof -
  have "ascii_string w" if "w \<in> set (words s)" for w
    using words_are_words [OF that] assms by (auto simp: ascii_string_def)
  then show ?thesis
    using assms by (auto simp: normalize_ascii ascii_string_join ascii_string_map_lower)
qed

lemma normalize_idem:
  assumes "ascii_string s"
  shows "normalizeIdentifier J (normalizeIdentifier J s) = normalizeIdentifier J s"
  using assms
  by (simp add: normalize_ascii [OF ascii_string_normalize] words_normalize)
    (simp add: normalize_ascii comp_def ascii_lower_idem)

text \<open>Two identifiers (ASCII, so that lower-casing needs no Unicode tables) have the same
  canonical form exactly when they consist of the same words up to case: spacing never tells
  two identifiers apart, and the canonical form forgets nothing else.\<close>

theorem normalizeIdentifier_same_iff:
  assumes "ascii_string s" "ascii_string t"
  shows "normalizeIdentifier J s = normalizeIdentifier J t
    \<longleftrightarrow> map (map ascii_lower) (words s) = map (map ascii_lower) (words t)"
  using assms words_normalize by (metis normalize_ascii)

theorem normalizeIdentifier_same_iff_witness:
  "(normalizeIdentifier \<lparr>uc_lower = id, uc_upper = id, uc_nfkc = id, num_text = id\<rparr> (js ''  Word  WORD '')
     = normalizeIdentifier \<lparr>uc_lower = id, uc_upper = id, uc_nfkc = id, num_text = id\<rparr> (js ''word word''))
   \<and> ascii_string (js ''  Word  WORD '') \<and> ascii_string (js ''word word'')"
proof -
  have a: "ascii_string (js ''  Word  WORD '')" "ascii_string (js ''word word'')"
    by code_simp+
  have "map (map ascii_lower) (words (js ''  Word  WORD ''))
      = map (map ascii_lower) (words (js ''word word''))"
    by code_simp
  then show ?thesis
    using normalizeIdentifier_same_iff [OF a] a by blast
qed

section \<open>Generated identifiers\<close>

lemma account_words_step:
  "length out < n \<Longrightarrow> account_words n out w =
     account_words n (out @ [BIP39_WORDLIST ! (fst (randomU32 w) mod 2048)]) (snd (randomU32 w))"
  using randomU32_bound [of w]
  by (subst account_words.simps) (simp add: split_beta sample_limit_eq length_wordlist)

text \<open>The word at position \<open>i\<close> is chosen by the \<open>i\<close>th draw of 32 bits.\<close>

definition nth_word :: "'z world_scheme \<Rightarrow> nat \<Rightarrow> jsstring" where
  "nth_word w i = BIP39_WORDLIST ! (fst (randomU32 (w\<lparr>drawn := drawn w + 4 * i\<rparr>)) mod 2048)"

lemma account_words_eq:
  "length out + k = n \<Longrightarrow> account_words n out w =
     (out @ map (nth_word w) [0..<k], w\<lparr>drawn := drawn w + 4 * k\<rparr>)"
proof (induction k arbitrary: out w)
  case 0
  then show ?case
    by (subst account_words.simps) simp
next
  case (Suc k)
  let ?w = "snd (randomU32 w)"
  have shift: "map (nth_word ?w) [0..<k] = map (nth_word w) [1..<Suc k]"
    by (simp add: map_Suc_upt [symmetric] nth_word_def randomU32_def comp_def add.assoc del: upt_Suc)
  have "[0..<Suc k] = 0 # [1..<Suc k]"
    by (subst upt_conv_Cons) simp_all
  then show ?case
    using Suc.prems
    by (subst account_words_step)
      (simp_all add: Suc.IH shift nth_word_def [of w 0] del: upt_Suc, simp add: randomU32_def)
qed

lemma generateAccountId_eq:
  "1 \<le> n \<Longrightarrow> generateAccountId n w =
     (Inr (join [32] (map (nth_word w) [0..<n])), w\<lparr>drawn := drawn w + 4 * n\<rparr>)"
  using account_words_eq [of "[]" n n w] by (simp add: generateAccountId_def)

lemma nth_word_in: "nth_word w i \<in> set BIP39_WORDLIST"
  by (simp add: nth_word_def length_wordlist)

lemma wordlist_no_space:
  assumes "u \<in> set BIP39_WORDLIST"
  shows "u \<noteq> [] \<and> (\<forall>c \<in> set u. \<not> is_space c)" "ascii_string u" "map ascii_lower u = u"
proof -
  note l = wordlist_lower [OF assms]
  have c: "\<not> is_space c \<and> is_ascii c \<and> ascii_lower c = c" if "is_lower c" for c
    using that no_space_between [of c] by (auto simp: ascii_lower_def char_class_nat)
  show "u \<noteq> [] \<and> (\<forall>c \<in> set u. \<not> is_space c)" "ascii_string u"
    using l c by (auto simp: ascii_string_def)
  show "map ascii_lower u = u"
    using l(2) c by (simp add: map_idI)
qed

lemma normalize_passphrase:
  assumes "set ws \<subseteq> set BIP39_WORDLIST"
  shows "normalizeIdentifier J (join [32] ws) = join [32] ws"
proof -
  have "ascii_string (join [32] ws)"
    using assms wordlist_no_space(2) by (auto simp: ascii_string_join)
  moreover have "words (join [32] ws) = ws"
    using assms wordlist_no_space(1) by (intro words_join) blast
  moreover have "map (map ascii_lower) ws = ws"
    by (rule map_idI) (rule wordlist_no_space(3) [OF subsetD [OF assms]])
  ultimately show ?thesis
    using normalize_ascii [of "join [32] ws" J] by (simp only:)
qed

text \<open>C16: a call for \<open>n\<close> words, at least one, returns: it takes exactly \<open>4 n\<close> random bytes,
  and its text splits into exactly \<open>n\<close> words of the list, the \<open>i\<close>th selected by the \<open>i\<close>th
  draw, and is its own canonical form, so the identifier shown is the one hashed.\<close>

theorem generateAccountId_correct:
  assumes "1 \<le> n"
  shows "\<exists>phrase. generateAccountId n w = (Inr phrase, w\<lparr>drawn := drawn w + 4 * n\<rparr>)
    \<and> words phrase = map (nth_word w) [0..<n] \<and> set (words phrase) \<subseteq> set BIP39_WORDLIST
    \<and> normalizeIdentifier J phrase = phrase"
proof -
  let ?ws = "map (nth_word w) [0..<n]"
  have sub: "set ?ws \<subseteq> set BIP39_WORDLIST"
    using nth_word_in by auto
  then have "words (join [32] ?ws) = ?ws"
    using wordlist_no_space(1) by (intro words_join) blast
  then show ?thesis
    using generateAccountId_eq [OF assms, of w] sub normalize_passphrase [OF sub, of J] by simp
qed

theorem generateAccountId_correct_witness:
  "\<exists>phrase. generateAccountId 2 \<lparr>entropy = (\<lambda>i. if i = 0 then 3 else 0), drawn = 0\<rparr>
      = (Inr phrase, \<lparr>entropy = (\<lambda>i. if i = 0 then 3 else 0), drawn = 8\<rparr>)
      \<and> length (words phrase) = 2"
  using generateAccountId_correct [of 2 "\<lparr>entropy = (\<lambda>i. if i = 0 then 3 else 0), drawn = 0\<rparr>"] by force

text \<open>Rejection sampling leaves no bias: every word of the list is selected by exactly
  \<open>2^21\<close> of the \<open>2^32\<close> values a draw can have.\<close>

theorem generateAccountId_unbiased:
  assumes "k < length BIP39_WORDLIST"
  shows "card {x. x < 2 ^ 32 \<and> x < sample_limit \<and> x mod length BIP39_WORDLIST = k} = 2 ^ 21"
proof -
  have k: "k < 2048"
    using assms by (simp add: length_wordlist)
  have "{x. x < 2 ^ 32 \<and> x < sample_limit \<and> x mod length BIP39_WORDLIST = k}
      = {x. x < 2 ^ 32 \<and> x mod 2048 = k}"
    by (simp add: sample_limit_eq length_wordlist)
  also have "\<dots> = (\<lambda>q. 2048 * q + k) ` {0..<2 ^ 21}" (is "?A = ?f ` ?B")
  proof (intro subset_antisym subsetI)
    fix x
    assume "x \<in> ?A"
    then have "x = ?f (x div 2048)" "x div 2048 \<in> ?B"
      by (auto simp: less_mult_imp_div_less)
    then show "x \<in> ?f ` ?B"
      by (rule image_eqI)
  next
    fix x
    assume "x \<in> ?f ` ?B"
    then show "x \<in> ?A"
      using k by auto
  qed
  finally show ?thesis
    by (simp add: card_image inj_on_def)
qed

theorem generateAccountId_unbiased_witness:
  "7 < length BIP39_WORDLIST \<and>
   card {x. x < 2 ^ 32 \<and> x < sample_limit \<and> x mod length BIP39_WORDLIST = 7} = 2 ^ 21"
  using generateAccountId_unbiased [of 7] by (simp add: length_wordlist)

end
