(* ===== verification/Seal.thy ===== *)
theory Seal
  imports EncString Kdf Identifier
begin

text \<open>
  Sealed texts. Most of the clients' storage goes through one contract: a value is sealed into
  a text under a key, drawing a fixed number of random bytes, and the same key opens the text
  again. The locale \<open>sealing\<close> states it; the user key, the item, the item key, the recovery
  and the vault functions are its instances, and the callers use only its facts.
\<close>

locale sealing =
  fixes ok :: "'k \<Rightarrow> 'm \<Rightarrow> bool"
    and seal :: "'k \<Rightarrow> 'm \<Rightarrow> ('y world_scheme, jsstring) act"
    and unseal :: "'k \<Rightarrow> jsstring \<Rightarrow> 'm result"
    and cost :: nat
  assumes seal_ok: "ok k m \<Longrightarrow>
    \<exists>c. seal k m w = (Inr c, w\<lparr>drawn := drawn w + cost\<rparr>) \<and> unseal k c = Inr m"
begin

lemma sealE:
  assumes "ok k m"
  obtains c where "seal k m w = (Inr c, w\<lparr>drawn := drawn w + cost\<rparr>)" "unseal k c = Inr m"
  using seal_ok [OF assms] by blast

lemma unseal_seal: "ok k m \<Longrightarrow> seal k m w = (Inr c, w') \<Longrightarrow> unseal k c = Inr m"
  using seal_ok [of k m w] by auto

lemma seal_world: "ok k m \<Longrightarrow> seal k m w = (r, w') \<Longrightarrow> w' = w\<lparr>drawn := drawn w + cost\<rparr>"
  using seal_ok [of k m w] by auto

lemma seal_no_error: "ok k m \<Longrightarrow> seal k m w \<noteq> (Inl e, w')"
  using seal_ok [of k m w] by auto

text \<open>Equal texts under a key have equal contents, whatever the random source gave.\<close>

lemma seal_inject:
  "ok k m \<Longrightarrow> ok k m' \<Longrightarrow> seal k m w = (Inr c, u) \<Longrightarrow> seal k m' w' = (Inr c, u') \<Longrightarrow> m = m'"
  using unseal_seal by (metis Inr_inject)

text \<open>Seal a list one after the other, and open it again.\<close>

primrec seal_all :: "'k \<Rightarrow> 'm list \<Rightarrow> ('y world_scheme, jsstring list) act" where
  "seal_all k [] = returnA []"
| "seal_all k (m # ms) = bindA (seal k m) (\<lambda>c. bindA (seal_all k ms) (\<lambda>cs. returnA (c # cs)))"

lemma seal_all_ok:
  "\<forall>m \<in> set ms. ok k m \<Longrightarrow>
   \<exists>cs. seal_all k ms w = (Inr cs, w\<lparr>drawn := drawn w + length ms * cost\<rparr>)
      \<and> map (unseal k) cs = map Inr ms"
proof (induction ms arbitrary: w)
  case (Cons m ms)
  obtain c where c: "seal k m w = (Inr c, w\<lparr>drawn := drawn w + cost\<rparr>)" "unseal k c = Inr m"
    using Cons.prems by (auto elim: sealE [where w = w])
  obtain cs where "seal_all k ms (w\<lparr>drawn := drawn w + cost\<rparr>)
      = (Inr cs, w\<lparr>drawn := drawn w + cost + length ms * cost\<rparr>)"
      "map (unseal k) cs = map Inr ms"
    using Cons.IH [of "w\<lparr>drawn := drawn w + cost\<rparr>"] Cons.prems by auto
  with c show ?case
    by (intro exI [of _ "c # cs"]) (simp add: returnA_def add.assoc)
qed (simp add: returnA_def)

end

section \<open>Bytes under a 256-bit key\<close>

text \<open>The pattern the sources repeat: encrypt under a fresh nonce and serialize the envelope;
  parse the envelope and decrypt.\<close>

definition sealBytes :: "'z platform_scheme \<times> bytes \<Rightarrow> bytes \<Rightarrow> ('y world_scheme, jsstring) act" where
  "sealBytes = (\<lambda>(P, key) m.
     bindA (aesGcmEncryptFresh P key m) (\<lambda>r.
     returnA (serializeEncString
       \<lparr>enc_type = AesGcm, enc_nonce = gcm_nonce r, enc_data = gcm_ciphertext r\<rparr>)))"

definition openBytes :: "'z platform_scheme \<times> bytes \<Rightarrow> jsstring \<Rightarrow> bytes result" where
  "openBytes = (\<lambda>(P, key) s.
     bindR (parseEncString s) (\<lambda>e. aesGcmDecrypt P key (enc_nonce e) (enc_data e)))"

definition key_ok :: "'z platform_scheme \<times> bytes \<Rightarrow> 'm \<Rightarrow> bool" where
  "key_ok = (\<lambda>(P, key) m. aes_ok P \<and> length key = 32)"

lemma draw_not_Nil: "0 < n \<Longrightarrow> draw n w \<noteq> []"
  by (simp add: draw_def)

lemma sealBytes_ok:
  assumes "key_ok (P, key) m"
  shows "\<exists>c. sealBytes (P, key) m w = (Inr c, w\<lparr>drawn := drawn w + 12\<rparr>)
    \<and> openBytes (P, key) c = Inr m"
proof -
  obtain c where c: "aesGcmEncryptFresh P key m w =
       (Inr \<lparr>gcm_nonce = draw 12 w, gcm_ciphertext = c\<rparr>, w\<lparr>drawn := drawn w + 12\<rparr>)"
      "length c = length m + 16" "aesGcmDecrypt P key (draw 12 w) c = Inr m"
    using assms by (auto simp: key_ok_def elim: aesGcmEncryptFresh_ok [of P key m w])
  have "enc_wf \<lparr>enc_type = AesGcm, enc_nonce = draw 12 w, enc_data = c\<rparr>"
    using c(2) draw_not_Nil [of 12 w] by (auto simp: enc_wf_def)
  then show ?thesis
    using c by (simp add: sealBytes_def openBytes_def act_simps enc.dec_enc)
qed

interpretation sb: sealing key_ok sealBytes openBytes 12
  by unfold_locales (metis sealBytes_ok surj_pair)

section \<open>Text under a 256-bit key\<close>

definition sealText :: "'z platform_scheme \<times> bytes \<Rightarrow> jsstring \<Rightarrow> ('y world_scheme, jsstring) act" where
  "sealText k m = sealBytes k (utf8 m)"

definition openText :: "'z platform_scheme \<times> bytes \<Rightarrow> jsstring \<Rightarrow> jsstring result" where
  "openText k s = mapR fromUtf8 (openBytes k s)"

definition text_ok :: "'z platform_scheme \<times> bytes \<Rightarrow> jsstring \<Rightarrow> bool" where
  "text_ok k m \<longleftrightarrow> key_ok k m \<and> plain_text m"

interpretation st: sealing text_ok sealText openText 12
proof
  fix k :: "'z platform_scheme \<times> bytes" and m and w :: "'y world_scheme"
  assume "text_ok k m"
  then have "key_ok k (utf8 m)" "fromUtf8 (utf8 m) = m"
    using utf8.dec_enc [of m] by (auto simp: text_ok_def key_ok_def)
  then show "\<exists>c. sealText k m w = (Inr c, w\<lparr>drawn := drawn w + 12\<rparr>) \<and> openText k c = Inr m"
    using sb.seal_ok [of k "utf8 m" w] by (auto simp: sealText_def openText_def)
qed

end
