(* ===== verification/Sample.thy ===== *)
theory Sample
  imports Kdf
begin

text \<open>
  A concrete platform on which the documented behaviour of Web Crypto and hash-wasm holds, for
  the witnesses: every hypothesis about the platform can be met, and every definition
  evaluates on it. Its ciphers are no ciphers: a ciphertext is the plaintext followed by half
  of the key.
\<close>

definition mix :: "bytes \<Rightarrow> nat \<Rightarrow> bytes" where
  "mix b n = map (\<lambda>i. fold (\<lambda>x a. 5 * a + x) b (of_nat i)) [0..<n]"

definition sample_decrypt :: "bytes \<Rightarrow> bytes \<Rightarrow> bytes result" where
  "sample_decrypt h c =
     (if 16 \<le> length c \<and> drop (length c - 16) c = take 16 h
      then Inr (take (length c - 16) c) else Inl EOperation)"

definition sample_import :: "raw_alg \<Rightarrow> bytes \<Rightarrow> bytes result" where
  "sample_import a k =
     (case a of AES_GCM \<Rightarrow> if length k = 32 then Inr k else Inl EData
      | HMAC _ \<Rightarrow> if k \<noteq> [] then Inr k else Inl EData
      | PBKDF2 \<Rightarrow> Inr k)"

definition int_between :: "jsval option \<Rightarrow> int \<Rightarrow> int \<Rightarrow> bool" where
  "int_between ov lo hi = (case ov of Some (JNum (NInt i)) \<Rightarrow> lo \<le> i \<and> i < hi | _ \<Rightarrow> False)"

definition sample_rsa_decrypt :: "bytes \<Rightarrow> bytes \<Rightarrow> bytes result" where
  "sample_rsa_decrypt k c =
     (if take (length k) c = k then Inr (drop (length k) c) else Inl EOperation)"

definition sample_platform :: platform where
  "sample_platform =
     \<lparr>uc_lower = id, uc_upper = id, uc_nfkc = id, num_text = id,
      wc_import_raw = sample_import,
      wc_encrypt = (\<lambda>h iv m. Inr (m @ take 16 h)),
      wc_decrypt = (\<lambda>h iv c. sample_decrypt h c),
      wc_sign = (\<lambda>a h m. Inr (mix (h @ m) (hash_len a))),
      wc_deriveBits = (\<lambda>h salt it bits.
        if int_between it 1 (2 ^ 32) then Inr (mix (h @ salt) (bits div 8)) else Inl EType),
      hw_argon2id = (\<lambda>pw salt it m p n.
        if pw \<noteq> [] \<and> 8 \<le> length salt \<and> int_between it 1 (2 ^ 32)
        then Inr (mix (pw @ salt) n) else Inl EPlatform),
      js_mult = (\<lambda>v i. v),
      wc_rsa_generate = (\<lambda>seed. Inr (seed, seed)),
      wc_export_spki = Inr, wc_export_pkcs8 = Inr, wc_import_spki = Inr, wc_import_pkcs8 = Inr,
      wc_rsa_encrypt = (\<lambda>k r m. Inr (k @ m)),
      wc_rsa_decrypt = sample_rsa_decrypt,
      wc_digest = (\<lambda>a b. mix b (hash_len a)),
      url_search = (\<lambda>s. Some (\<lambda>k.
        if k = js ''secret'' then Some (js ''MY'')
        else if k = js ''digits'' then Some (js ''8'') else None)),
      url_hostname = (\<lambda>s.
        if startsWith s (js ''https://'') then Some (takeWhile (\<lambda>c. c \<noteq> 47) (drop 8 s)) else None)\<rparr>"

definition sample_world :: world where
  "sample_world = \<lparr>entropy = (\<lambda>i. of_nat (7 * i + 1)), drawn = 0\<rparr>"

lemma length_mix [simp]: "length (mix b n) = n"
  by (simp add: mix_def)

lemma sample_aes: "aes_ok sample_platform"
  by (auto simp: aes_ok_def sample_platform_def sample_import_def sample_decrypt_def)

lemma sample_mac: "mac_ok sample_platform"
  by (auto simp: mac_ok_def sample_platform_def sample_import_def)

lemma sample_kdf: "kdf_ok sample_platform"
  by (auto simp: kdf_ok_def sample_platform_def sample_import_def int_between_def)

lemma sample_rsa: "rsa_ok sample_platform"
  by (auto simp: rsa_ok_def sample_platform_def sample_rsa_decrypt_def)

lemmas sample_ok = sample_aes sample_mac sample_kdf sample_rsa

end
