(* ===== verification/Sharing.thy ===== *)
theory Sharing
  imports Seal Sample
begin

text \<open>
  \<open>packages/crypto/src/sharing.ts\<close>: a sharing key pair, and one item encrypted to the holder
  of a public key.
\<close>

definition userEncKey :: "bytes \<Rightarrow> bytes" where
  "userEncKey userKey = take 32 userKey"

record UserKeypair =
  kp_publicKey :: jsstring
  kp_protectedPrivateKey :: jsstring

text \<open>\<open>generateKey\<close> takes its randomness from the platform's source, as
  \<open>getRandomValues\<close> does.\<close>

definition generateUserKeypair ::
  "'z platform_scheme \<Rightarrow> bytes \<Rightarrow> ('y world_scheme, UserKeypair) act" where
  "generateUserKeypair P userKey =
     bindA (randomBytes 32) (\<lambda>seed.
     bindA (liftA (wc_rsa_generate P seed)) (\<lambda>pair.
     bindA (liftA (wc_export_spki P (fst pair))) (\<lambda>spki.
     bindA (liftA (wc_export_pkcs8 P (snd pair))) (\<lambda>pkcs8.
     bindA (aesGcmEncryptFresh P (userEncKey userKey) pkcs8) (\<lambda>wrapped.
     returnA \<lparr>kp_publicKey = toBase64 spki,
       kp_protectedPrivateKey = serializeEncString
         \<lparr>enc_type = AesGcm, enc_nonce = gcm_nonce wrapped, enc_data = gcm_ciphertext wrapped\<rparr>\<rparr>)))))"

definition importPublicKey :: "'z platform_scheme \<Rightarrow> jsstring \<Rightarrow> cryptokey result" where
  "importPublicKey P spkiB64 = bindR (fromBase64 spkiB64) (wc_import_spki P)"

definition importPrivateKey :: "'z platform_scheme \<Rightarrow> bytes \<Rightarrow> jsstring \<Rightarrow> cryptokey result" where
  "importPrivateKey P userKey protectedPrivateKey =
     bindR (parseEncString protectedPrivateKey) (\<lambda>e.
     bindR (aesGcmDecrypt P (userEncKey userKey) (enc_nonce e) (enc_data e)) (\<lambda>pkcs8.
     wc_import_pkcs8 P pkcs8))"

record ShareEnvelope =
  wrappedKey :: jsstring
  share_data :: jsstring

definition createShare ::
  "'z platform_scheme \<Rightarrow> jsstring \<Rightarrow> jsstring \<Rightarrow> ('y world_scheme, ShareEnvelope) act" where
  "createShare P recipientPublicKey plaintext =
     bindA (randomBytes 32) (\<lambda>itemKey.
     bindA (aesGcmEncryptFresh P itemKey (utf8 plaintext)) (\<lambda>enc.
     bindA (liftA (importPublicKey P recipientPublicKey)) (\<lambda>pub.
     bindA (randomBytes 32) (\<lambda>oaep.
     bindA (liftA (wc_rsa_encrypt P pub oaep itemKey)) (\<lambda>wrapped.
     returnA \<lparr>wrappedKey = toBase64 wrapped,
       share_data = serializeEncString
         \<lparr>enc_type = AesGcm, enc_nonce = gcm_nonce enc, enc_data = gcm_ciphertext enc\<rparr>\<rparr>)))))"

definition openShare ::
  "'z platform_scheme \<Rightarrow> bytes \<Rightarrow> jsstring \<Rightarrow> ShareEnvelope \<Rightarrow> jsstring result" where
  "openShare P userKey protectedPrivateKey envelope =
     bindR (importPrivateKey P userKey protectedPrivateKey) (\<lambda>priv.
     bindR (fromBase64 (wrappedKey envelope)) (\<lambda>wk.
     bindR (wc_rsa_decrypt P priv wk) (\<lambda>itemKey.
     bindR (parseEncString (share_data envelope)) (\<lambda>e.
     mapR fromUtf8 (aesGcmDecrypt P itemKey (enc_nonce e) (enc_data e))))))"

section \<open>A share opens for its recipient\<close>

text \<open>A stored key pair: some private key opens the RSA ciphertexts of the public key. Generating a
  pair establishes it, and it is all that sharing needs.\<close>

definition keypair_ok :: "'z platform_scheme \<Rightarrow> bytes \<Rightarrow> jsstring \<Rightarrow> jsstring \<Rightarrow> bool" where
  "keypair_ok P userKey pub prot \<longleftrightarrow>
     (\<exists>pk sk. importPublicKey P pub = Inr pk \<and> importPrivateKey P userKey prot = Inr sk \<and>
        (\<forall>r m. length m \<le> 190 \<longrightarrow>
           (\<exists>c. wc_rsa_encrypt P pk r m = Inr c \<and> wc_rsa_decrypt P sk c = Inr m)))"

lemma generateUserKeypair_seal:
  "generateUserKeypair P userKey =
     bindA (randomBytes 32) (\<lambda>seed.
     bindA (liftA (wc_rsa_generate P seed)) (\<lambda>pair.
     bindA (liftA (wc_export_spki P (fst pair))) (\<lambda>spki.
     bindA (liftA (wc_export_pkcs8 P (snd pair))) (\<lambda>pkcs8.
     bindA (sealBytes (P, userEncKey userKey) pkcs8) (\<lambda>s.
     returnA \<lparr>kp_publicKey = toBase64 spki, kp_protectedPrivateKey = s\<rparr>)))))"
  by (simp add: generateUserKeypair_def sealBytes_def bindA_assoc)
    (simp add: bindA_def returnA_def fun_eq_iff split: prod.splits sum.splits)

lemma importPrivateKey_open:
  "importPrivateKey P userKey prot = bindR (openBytes (P, userEncKey userKey) prot) (wc_import_pkcs8 P)"
  by (cases "parseEncString prot") (simp_all add: importPrivateKey_def openBytes_def)

lemma generateUserKeypair_ok:
  assumes "aes_ok P" "rsa_ok P" "32 \<le> length userKey"
  obtains kp where "generateUserKeypair P userKey w = (Inr kp, w\<lparr>drawn := drawn w + 44\<rparr>)"
    "keypair_ok P userKey (kp_publicKey kp) (kp_protectedPrivateKey kp)"
proof -
  let ?w = "w\<lparr>drawn := drawn w + 32\<rparr>"
  obtain pub priv spki pkcs8 pub' priv' where g: "wc_rsa_generate P (draw 32 w) = Inr (pub, priv)"
      "wc_export_spki P pub = Inr spki" "wc_export_pkcs8 P priv = Inr pkcs8"
      "wc_import_spki P spki = Inr pub'" "wc_import_pkcs8 P pkcs8 = Inr priv'"
      "\<forall>r m. length m \<le> 190 \<longrightarrow>
         (\<exists>c. wc_rsa_encrypt P pub' r m = Inr c \<and> wc_rsa_decrypt P priv' c = Inr m)"
    using assms(2) unfolding rsa_ok_def by meson
  have "key_ok (P, userEncKey userKey) pkcs8"
    using assms by (simp add: key_ok_def userEncKey_def)
  then obtain s where s: "sealBytes (P, userEncKey userKey) pkcs8 ?w
      = (Inr s, w\<lparr>drawn := drawn w + 44\<rparr>)" "openBytes (P, userEncKey userKey) s = Inr pkcs8"
    using sb.seal_ok [of _ _ ?w] by fastforce
  show ?thesis
  proof (rule that [of "\<lparr>kp_publicKey = toBase64 spki, kp_protectedPrivateKey = s\<rparr>"])
    show "generateUserKeypair P userKey w
        = (Inr \<lparr>kp_publicKey = toBase64 spki, kp_protectedPrivateKey = s\<rparr>, w\<lparr>drawn := drawn w + 44\<rparr>)"
      using g s by (simp add: generateUserKeypair_seal act_simps)
    show "keypair_ok P userKey (kp_publicKey \<lparr>kp_publicKey = toBase64 spki, kp_protectedPrivateKey = s\<rparr>)
        (kp_protectedPrivateKey \<lparr>kp_publicKey = toBase64 spki, kp_protectedPrivateKey = s\<rparr>)"
      using g s by (auto simp: keypair_ok_def importPublicKey_def importPrivateKey_open fromBase64_toBase64)
  qed
qed

lemma createShare_open:
  assumes P: "aes_ok P" and kp: "keypair_ok P userKey pub prot" and m: "plain_text m"
  obtains env where "createShare P pub m w = (Inr env, w\<lparr>drawn := drawn w + 76\<rparr>)"
    "openShare P userKey prot env = Inr m"
proof -
  let ?k = "draw 32 w" and ?w = "w\<lparr>drawn := drawn w + 32\<rparr>" and ?v = "w\<lparr>drawn := drawn w + 44\<rparr>"
  obtain pk sk where k: "importPublicKey P pub = Inr pk" "importPrivateKey P userKey prot = Inr sk"
      "\<And>r m. length m \<le> 190 \<Longrightarrow>
         \<exists>c. wc_rsa_encrypt P pk r m = Inr c \<and> wc_rsa_decrypt P sk c = Inr m"
    using kp unfolding keypair_ok_def by auto
  obtain c where c: "aesGcmEncryptFresh P ?k (utf8 m) ?w =
       (Inr \<lparr>gcm_nonce = draw 12 ?w, gcm_ciphertext = c\<rparr>, ?v)"
      "length c = length (utf8 m) + 16" "aesGcmDecrypt P ?k (draw 12 ?w) c = Inr (utf8 m)"
    by (rule aesGcmEncryptFresh_ok [OF P, of ?k "utf8 m" ?w]) (simp, rule that, simp_all)
  have "\<exists>c. wc_rsa_encrypt P pk (draw 32 ?v) ?k = Inr c \<and> wc_rsa_decrypt P sk c = Inr ?k"
    by (rule k(3)) simp
  then obtain x where x: "wc_rsa_encrypt P pk (draw 32 ?v) ?k = Inr x" "wc_rsa_decrypt P sk x = Inr ?k"
    by blast
  have e: "parseEncString (serializeEncString
      \<lparr>enc_type = AesGcm, enc_nonce = draw 12 ?w, enc_data = c\<rparr>)
      = Inr \<lparr>enc_type = AesGcm, enc_nonce = draw 12 ?w, enc_data = c\<rparr>"
    using c(2) draw_not_Nil [of 12 ?w] by (intro enc.dec_enc) (auto simp: enc_wf_def)
  let ?env = "\<lparr>wrappedKey = toBase64 x, share_data = serializeEncString
      \<lparr>enc_type = AesGcm, enc_nonce = draw 12 ?w, enc_data = c\<rparr>\<rparr>"
  show ?thesis
  proof (rule that [of ?env])
    show "createShare P pub m w = (Inr ?env, w\<lparr>drawn := drawn w + 76\<rparr>)"
      using k c x by (simp add: createShare_def act_simps)
    show "openShare P userKey prot ?env = Inr m"
      using k x e c(3) utf8.dec_enc [OF m] by (simp add: openShare_def fromBase64_toBase64)
  qed
qed

text \<open>An item shared to the public key of a freshly generated pair is opened by the owner
  of the pair, who holds the user key the private key is wrapped with, for every text that
  UTF-8 carries (no lone surrogate, no leading byte order mark).\<close>

theorem share_roundtrip:
  assumes "aes_ok P" "rsa_ok P" "32 \<le> length userKey" "plain_text m"
  shows "\<exists>kp w1 env w2. generateUserKeypair P userKey w = (Inr kp, w1)
    \<and> createShare P (kp_publicKey kp) m w1 = (Inr env, w2)
    \<and> openShare P userKey (kp_protectedPrivateKey kp) env = Inr m"
proof -
  obtain kp where kp: "generateUserKeypair P userKey w = (Inr kp, w\<lparr>drawn := drawn w + 44\<rparr>)"
      "keypair_ok P userKey (kp_publicKey kp) (kp_protectedPrivateKey kp)"
    using generateUserKeypair_ok assms by metis
  obtain env where "createShare P (kp_publicKey kp) m (w\<lparr>drawn := drawn w + 44\<rparr>)
      = (Inr env, w\<lparr>drawn := drawn w + 44 + 76\<rparr>)"
      "openShare P userKey (kp_protectedPrivateKey kp) env = Inr m"
    using createShare_open [OF assms(1) kp(2) assms(4), of "w\<lparr>drawn := drawn w + 44\<rparr>"] by auto
  with kp(1) show ?thesis
    by blast
qed

theorem share_roundtrip_witness:
  "\<exists>kp w1 env w2. generateUserKeypair sample_platform (replicate 64 7) sample_world = (Inr kp, w1)
    \<and> createShare sample_platform (kp_publicKey kp) (js ''secret'') w1 = (Inr env, w2)
    \<and> openShare sample_platform (replicate 64 7) (kp_protectedPrivateKey kp) env = Inr (js ''secret'')"
proof -
  have "plain_text (js ''secret'')"
    by code_simp
  then show ?thesis
    by (intro share_roundtrip sample_ok) simp_all
qed

end
