(* ===== verification/Account.thy ===== *)
theory Account
  imports Sharing
begin

text \<open>
  \<open>packages/crypto/src/account.ts\<close>: the account key hierarchy, from the master password to
  the item keys, registration and unlocking, and recovery with a recovery code.
\<close>

section \<open>Keys\<close>

record StretchedKey =
  encKey :: bytes
  macKey :: bytes

definition deriveMasterKey ::
  "'z platform_scheme \<Rightarrow> jsstring \<Rightarrow> jsstring \<Rightarrow> jsval option \<Rightarrow> bytes result" where
  "deriveMasterKey P masterPassword identifier params =
     deriveKey P masterPassword (Some (JStr (normalizeIdentifier P identifier))) params"

definition MASTER_PASSWORD_HASH_DOMAIN :: jsstring where
  "MASTER_PASSWORD_HASH_DOMAIN = js ''passwd.master-password-hash.v1:''"

definition deriveMasterPasswordHash ::
  "'z platform_scheme \<Rightarrow> bytes \<Rightarrow> jsstring \<Rightarrow> jsstring result" where
  "deriveMasterPasswordHash P masterKey masterPassword =
     (let salt = utf8 (MASTER_PASSWORD_HASH_DOMAIN @ normalizeNFKC P masterPassword)
      in mapR toBase64 (pbkdf2 P masterKey salt (Some (JNum (NInt 1))) 32))"

definition stretchMasterKey :: "'z platform_scheme \<Rightarrow> bytes \<Rightarrow> StretchedKey result" where
  "stretchMasterKey P masterKey =
     bindR (hkdfExpand P masterKey (js ''enc'') 32) (\<lambda>e.
     bindR (hkdfExpand P masterKey (js ''mac'') 32) (\<lambda>m.
     Inr \<lparr>encKey = e, macKey = m\<rparr>))"

definition USER_KEY_BYTES :: nat where
  "USER_KEY_BYTES = 64"

definition generateUserKey :: "('y world_scheme, bytes) act" where
  "generateUserKey = randomBytes USER_KEY_BYTES"

definition itemKey :: "bytes \<Rightarrow> bytes" where
  "itemKey userKey = take 32 userKey"

definition wrapUserKey ::
  "'z platform_scheme \<Rightarrow> StretchedKey \<Rightarrow> bytes \<Rightarrow> ('y world_scheme, jsstring) act" where
  "wrapUserKey P stretched userKey =
     bindA (aesGcmEncryptFresh P (encKey stretched) userKey) (\<lambda>r.
     returnA (serializeEncString
       \<lparr>enc_type = AesGcm, enc_nonce = gcm_nonce r, enc_data = gcm_ciphertext r\<rparr>))"

definition unwrapUserKey ::
  "'z platform_scheme \<Rightarrow> StretchedKey \<Rightarrow> jsval option \<Rightarrow> bytes result" where
  "unwrapUserKey P stretched protectedUserKey =
     bindR (parseEncStringVal P protectedUserKey) (\<lambda>e.
     aesGcmDecrypt P (encKey stretched) (enc_nonce e) (enc_data e))"

definition encryptItem ::
  "'z platform_scheme \<Rightarrow> bytes \<Rightarrow> jsstring \<Rightarrow> ('y world_scheme, jsstring) act" where
  "encryptItem P userKey plaintext =
     bindA (aesGcmEncryptFresh P (itemKey userKey) (utf8 plaintext)) (\<lambda>r.
     returnA (serializeEncString
       \<lparr>enc_type = AesGcm, enc_nonce = gcm_nonce r, enc_data = gcm_ciphertext r\<rparr>))"

definition decryptItem :: "'z platform_scheme \<Rightarrow> bytes \<Rightarrow> jsval option \<Rightarrow> jsstring result" where
  "decryptItem P userKey encString =
     bindR (parseEncStringVal P encString) (\<lambda>e.
     mapR fromUtf8 (aesGcmDecrypt P (itemKey userKey) (enc_nonce e) (enc_data e)))"

section \<open>Per-item keys\<close>

definition ITEM_KEY_BYTES :: nat where
  "ITEM_KEY_BYTES = 32"

definition wrapItemKey ::
  "'z platform_scheme \<Rightarrow> bytes \<Rightarrow> bytes \<Rightarrow> ('y world_scheme, jsstring) act" where
  "wrapItemKey P userKey key =
     bindA (aesGcmEncryptFresh P (itemKey userKey) key) (\<lambda>r.
     returnA (serializeEncString
       \<lparr>enc_type = AesGcm, enc_nonce = gcm_nonce r, enc_data = gcm_ciphertext r\<rparr>))"

definition unwrapItemKey :: "'z platform_scheme \<Rightarrow> bytes \<Rightarrow> jsval option \<Rightarrow> bytes result" where
  "unwrapItemKey P userKey wrapped =
     bindR (parseEncStringVal P wrapped) (\<lambda>e.
     aesGcmDecrypt P (itemKey userKey) (enc_nonce e) (enc_data e))"

definition encryptItemKeyed ::
  "'z platform_scheme \<Rightarrow> bytes \<Rightarrow> jsstring \<Rightarrow> ('y world_scheme, jsstring) act" where
  "encryptItemKeyed P userKey plaintext =
     bindA (randomBytes ITEM_KEY_BYTES) (\<lambda>key.
     bindA (aesGcmEncryptFresh P key (utf8 plaintext)) (\<lambda>enc.
     bindA (wrapItemKey P userKey key) (\<lambda>wrapped.
     returnA (JSON_stringify P 0 (JObj
       [(js ''v'', JNum (NInt 2)),
        (js ''key'', JStr wrapped),
        (js ''data'', JStr (serializeEncString
          \<lparr>enc_type = AesGcm, enc_nonce = gcm_nonce enc, enc_data = gcm_ciphertext enc\<rparr>))])))))"

text \<open>The container of a stored text: an object (or array) whose \<open>key\<close> and \<open>data\<close> are
  truthy; anything else, not JSON included, is taken for a bare envelope.\<close>

definition parseContainer :: "jsstring \<Rightarrow> jsval option" where
  "parseContainer stored =
     (case JSON_parse stored of
        Inl _ \<Rightarrow> None
      | Inr parsed \<Rightarrow>
          if truthy parsed \<and> is_objectlike parsed
             \<and> truthy_opt (get_prop_opt parsed (js ''key''))
             \<and> truthy_opt (get_prop_opt parsed (js ''data''))
          then Some parsed else None)"

definition decryptItemKeyed :: "'z platform_scheme \<Rightarrow> bytes \<Rightarrow> jsstring \<Rightarrow> jsstring result" where
  "decryptItemKeyed P userKey stored =
     (case parseContainer stored of
        None \<Rightarrow> decryptItem P userKey (Some (JStr stored))
      | Some container \<Rightarrow>
          bindR (unwrapItemKey P userKey (get_prop_opt container (js ''key''))) (\<lambda>key.
          bindR (parseEncStringVal P (get_prop_opt container (js ''data''))) (\<lambda>e.
          mapR fromUtf8 (aesGcmDecrypt P key (enc_nonce e) (enc_data e)))))"

section \<open>Registration and unlocking\<close>

record RegistrationBundle =
  rb_identifier :: jsstring
  rb_kdf :: "jsval option"
  rb_masterPasswordHash :: jsstring
  rb_protectedUserKey :: jsstring
  rb_publicKey :: jsstring
  rb_protectedPrivateKey :: jsstring

definition buildRegistration ::
  "'z platform_scheme \<Rightarrow> jsstring \<Rightarrow> jsstring \<Rightarrow> jsval option
   \<Rightarrow> ('y world_scheme, RegistrationBundle \<times> bytes) act" where
  "buildRegistration P identifier masterPassword params =
     bindA (liftA (deriveMasterKey P masterPassword identifier params)) (\<lambda>masterKey.
     bindA (liftA (stretchMasterKey P masterKey)) (\<lambda>stretched.
     bindA generateUserKey (\<lambda>userKey.
     bindA (wrapUserKey P stretched userKey) (\<lambda>protectedUserKey.
     bindA (liftA (deriveMasterPasswordHash P masterKey masterPassword)) (\<lambda>masterPasswordHash.
     bindA (generateUserKeypair P userKey) (\<lambda>keypair.
     returnA
       (\<lparr>rb_identifier = normalizeIdentifier P identifier,
         rb_kdf = params,
         rb_masterPasswordHash = masterPasswordHash,
         rb_protectedUserKey = protectedUserKey,
         rb_publicKey = kp_publicKey keypair,
         rb_protectedPrivateKey = kp_protectedPrivateKey keypair\<rparr>,
        userKey)))))))"

definition unlock ::
  "'z platform_scheme \<Rightarrow> jsstring \<Rightarrow> jsstring \<Rightarrow> jsval option \<Rightarrow> jsstring
   \<Rightarrow> (bytes \<times> jsstring) result" where
  "unlock P identifier masterPassword params protectedUserKey =
     bindR (deriveMasterKey P masterPassword identifier params) (\<lambda>masterKey.
     bindR (stretchMasterKey P masterKey) (\<lambda>stretched.
     bindR (unwrapUserKey P stretched (Some (JStr protectedUserKey))) (\<lambda>userKey.
     bindR (deriveMasterPasswordHash P masterKey masterPassword) (\<lambda>masterPasswordHash.
     Inr (userKey, masterPasswordHash)))))"

section \<open>Recovery\<close>

definition RECOVERY_KDF_SALT :: jsstring where
  "RECOVERY_KDF_SALT = js ''passwd.recovery.salt.v1''"

definition RECOVERY_KDF_ITERATIONS :: int where
  "RECOVERY_KDF_ITERATIONS = 100000"

record RecoveryKeys =
  recoveryEncKey :: bytes
  rk_recoveryAuthHash :: jsstring

definition deriveRecoveryKeys :: "'z platform_scheme \<Rightarrow> jsstring \<Rightarrow> RecoveryKeys result" where
  "deriveRecoveryKeys P recoveryCode =
     bindR (pbkdf2 P (utf8 (normalizeIdentifier P recoveryCode)) (utf8 RECOVERY_KDF_SALT)
       (Some (JNum (NInt RECOVERY_KDF_ITERATIONS))) 32) (\<lambda>base.
     bindR (hkdfExpand P base (js ''recovery-enc'') 32) (\<lambda>e.
     bindR (hkdfExpand P base (js ''recovery-auth'') 32) (\<lambda>a.
     Inr \<lparr>recoveryEncKey = e, rk_recoveryAuthHash = toBase64 a\<rparr>)))"

definition wrapUserKeyWithRecovery ::
  "'z platform_scheme \<Rightarrow> bytes \<Rightarrow> bytes \<Rightarrow> ('y world_scheme, jsstring) act" where
  "wrapUserKeyWithRecovery P recEncKey userKey =
     bindA (aesGcmEncryptFresh P recEncKey userKey) (\<lambda>r.
     returnA (serializeEncString
       \<lparr>enc_type = AesGcm, enc_nonce = gcm_nonce r, enc_data = gcm_ciphertext r\<rparr>))"

definition unwrapUserKeyWithRecovery ::
  "'z platform_scheme \<Rightarrow> bytes \<Rightarrow> jsstring \<Rightarrow> bytes result" where
  "unwrapUserKeyWithRecovery P recEncKey recoveryProtectedUserKey =
     bindR (parseEncString recoveryProtectedUserKey) (\<lambda>e.
     aesGcmDecrypt P recEncKey (enc_nonce e) (enc_data e))"

record RecoveryEnrollment =
  re_recoveryCode :: jsstring
  re_recoveryProtectedUserKey :: jsstring
  re_recoveryAuthHash :: jsstring

definition enrollRecovery ::
  "'z platform_scheme \<Rightarrow> bytes \<Rightarrow> ('y world_scheme, RecoveryEnrollment) act" where
  "enrollRecovery P userKey =
     bindA (generateAccountId 24) (\<lambda>recoveryCode.
     bindA (liftA (deriveRecoveryKeys P recoveryCode)) (\<lambda>ks.
     bindA (wrapUserKeyWithRecovery P (recoveryEncKey ks) userKey) (\<lambda>recoveryProtectedUserKey.
     returnA \<lparr>re_recoveryCode = recoveryCode,
       re_recoveryProtectedUserKey = recoveryProtectedUserKey,
       re_recoveryAuthHash = rk_recoveryAuthHash ks\<rparr>)))"

record RecoveryReset =
  rr_recoveryAuthHash :: jsstring
  rr_masterPasswordHash :: jsstring
  rr_protectedUserKey :: jsstring
  rr_kdf :: "jsval option"
  rr_userKey :: bytes

definition completeRecovery ::
  "'z platform_scheme \<Rightarrow> jsstring \<Rightarrow> jsstring \<Rightarrow> jsstring \<Rightarrow> jsstring \<Rightarrow> jsval option
   \<Rightarrow> ('y world_scheme, RecoveryReset) act" where
  "completeRecovery P recoveryCode recoveryProtectedUserKey identifier newMasterPassword params =
     bindA (liftA (deriveRecoveryKeys P recoveryCode)) (\<lambda>ks.
     bindA (liftA (unwrapUserKeyWithRecovery P (recoveryEncKey ks) recoveryProtectedUserKey)) (\<lambda>userKey.
     bindA (liftA (deriveMasterKey P newMasterPassword identifier params)) (\<lambda>masterKey.
     bindA (liftA (stretchMasterKey P masterKey)) (\<lambda>stretched.
     bindA (wrapUserKey P stretched userKey) (\<lambda>protectedUserKey.
     bindA (liftA (deriveMasterPasswordHash P masterKey newMasterPassword)) (\<lambda>masterPasswordHash.
     returnA \<lparr>rr_recoveryAuthHash = rk_recoveryAuthHash ks,
       rr_masterPasswordHash = masterPasswordHash,
       rr_protectedUserKey = protectedUserKey,
       rr_kdf = params,
       rr_userKey = userKey\<rparr>))))))"


section \<open>The instances of the sealing contract\<close>

definition user_key_ok :: "'z platform_scheme \<times> StretchedKey \<Rightarrow> bytes \<Rightarrow> bool" where
  "user_key_ok = (\<lambda>(P, st) uk. aes_ok P \<and> length (encKey st) = 32)"

definition item_ok :: "'z platform_scheme \<times> bytes \<Rightarrow> jsstring \<Rightarrow> bool" where
  "item_ok = (\<lambda>(P, uk) m. aes_ok P \<and> 32 \<le> length uk \<and> plain_text m)"

lemma wrapUserKey_seal: "wrapUserKey P st uk = sealBytes (P, encKey st) uk"
  and wrapItemKey_seal: "wrapItemKey P userKey k = sealBytes (P, itemKey userKey) k"
  and wrapRecovery_seal: "wrapUserKeyWithRecovery P rk uk = sealBytes (P, rk) uk"
  and encryptItem_seal: "encryptItem P userKey m = sealText (P, itemKey userKey) m"
  by (simp_all add: wrapUserKey_def wrapItemKey_def wrapUserKeyWithRecovery_def encryptItem_def
      sealBytes_def sealText_def)

lemma unwrapUserKey_open: "unwrapUserKey P st (Some (JStr s)) = openBytes (P, encKey st) s"
  and unwrapItemKey_open: "unwrapItemKey P userKey (Some (JStr s)) = openBytes (P, itemKey userKey) s"
  and unwrapRecovery_open: "unwrapUserKeyWithRecovery P rk s = openBytes (P, rk) s"
  by (simp_all add: unwrapUserKey_def unwrapItemKey_def unwrapUserKeyWithRecovery_def openBytes_def)

lemma decryptItem_open: "decryptItem P userKey (Some (JStr s)) = openText (P, itemKey userKey) s"
  by (cases "parseEncString s") (simp_all add: decryptItem_def openText_def openBytes_def)

interpretation uk: sealing user_key_ok "\<lambda>(P, st). wrapUserKey P st"
  "\<lambda>(P, st) s. unwrapUserKey P st (Some (JStr s))" 12
proof
  fix k :: "'z platform_scheme \<times> StretchedKey" and m and w :: "'y world_scheme"
  assume "user_key_ok k m"
  then show "\<exists>c. (case k of (P, st) \<Rightarrow> wrapUserKey P st) m w = (Inr c, w\<lparr>drawn := drawn w + 12\<rparr>)
      \<and> (case k of (P, st) \<Rightarrow> \<lambda>s. unwrapUserKey P st (Some (JStr s))) c = Inr m"
    using sb.seal_ok [of "(fst k, encKey (snd k))" m w]
    by (auto simp: wrapUserKey_seal unwrapUserKey_open user_key_ok_def key_ok_def split: prod.splits)
qed

interpretation item: sealing item_ok "\<lambda>(P, uk). encryptItem P uk"
  "\<lambda>(P, uk) s. decryptItem P uk (Some (JStr s))" 12
proof
  fix k :: "'z platform_scheme \<times> bytes" and m and w :: "'y world_scheme"
  assume "item_ok k m"
  then show "\<exists>c. (case k of (P, uk) \<Rightarrow> encryptItem P uk) m w = (Inr c, w\<lparr>drawn := drawn w + 12\<rparr>)
      \<and> (case k of (P, uk) \<Rightarrow> \<lambda>s. decryptItem P uk (Some (JStr s))) c = Inr m"
    using st.seal_ok [of "(fst k, itemKey (snd k))" m w]
    by (auto simp: encryptItem_seal decryptItem_open item_ok_def text_ok_def key_ok_def itemKey_def
        split: prod.splits)
qed

lemma container_plain:
  "plain (JObj [(js ''v'', JNum (NInt 2)), (js ''key'', JStr a), (js ''data'', JStr b)])"
  by (simp add: obj_of_id)

lemma parseContainer_container:
  "a \<noteq> [] \<Longrightarrow> b \<noteq> [] \<Longrightarrow>
   parseContainer (JSON_stringify P 0
     (JObj [(js ''v'', JNum (NInt 2)), (js ''key'', JStr a), (js ''data'', JStr b)]))
   = Some (JObj [(js ''v'', JNum (NInt 2)), (js ''key'', JStr a), (js ''data'', JStr b)])"
  by (simp add: parseContainer_def json.dec_enc [OF container_plain] get_prop_opt_def own_props_def
      truthy_opt_def)

lemma serializeEncString_hd: "\<exists>r. serializeEncString
    \<lparr>enc_type = AesGcm, enc_nonce = n, enc_data = d\<rparr> = 49 # r"
  by (simp add: serializeEncString_def enc_type_num_def int_str_one js_Cons jc_def)

text \<open>A bare envelope starts with the digit 1, so it is no container.\<close>

lemma parseContainer_envelope:
  "parseContainer (serializeEncString \<lparr>enc_type = AesGcm, enc_nonce = n, enc_data = d\<rparr>) = None"
proof -
  obtain r where r: "serializeEncString \<lparr>enc_type = AesGcm, enc_nonce = n, enc_data = d\<rparr> = 49 # r"
    using serializeEncString_hd by blast
  have "is_digit 49"
    by (simp add: is_digit_def)
  then show ?thesis
    using JSON_parse_digit [of 49 r]
    by (auto simp: r parseContainer_def split: sum.splits)
qed

lemma sealBytes_envelope:
  "sealBytes (P, k) m w = (Inr s, w') \<Longrightarrow>
   \<exists>n d. s = serializeEncString \<lparr>enc_type = AesGcm, enc_nonce = n, enc_data = d\<rparr>"
  by (auto simp: sealBytes_def bindA_eq_Inr returnA_def)

lemma encryptItem_envelope:
  "encryptItem P uk m w = (Inr s, w') \<Longrightarrow> parseContainer s = None"
  by (auto simp: encryptItem_seal sealText_def parseContainer_envelope dest!: sealBytes_envelope)

interpretation legacy: sealing item_ok "\<lambda>(P, uk). encryptItem P uk"
  "\<lambda>(P, uk) s. decryptItemKeyed P uk s" 12
proof
  fix k :: "'z platform_scheme \<times> bytes" and m and w :: "'y world_scheme"
  assume "item_ok k m"
  then obtain c where c: "encryptItem (fst k) (snd k) m w = (Inr c, w\<lparr>drawn := drawn w + 12\<rparr>)"
      "decryptItem (fst k) (snd k) (Some (JStr c)) = Inr m"
    using item.seal_ok [of k m w] by (auto simp: split_beta)
  then show "\<exists>c. (case k of (P, uk) \<Rightarrow> encryptItem P uk) m w = (Inr c, w\<lparr>drawn := drawn w + 12\<rparr>)
      \<and> (case k of (P, uk) \<Rightarrow> \<lambda>s. decryptItemKeyed P uk s) c = Inr m"
    by (intro exI [of _ c]) (simp add: split_beta decryptItemKeyed_def encryptItem_envelope [OF c(1)])
qed

lemma encryptItemKeyed_seal:
  "encryptItemKeyed P userKey m =
     bindA (randomBytes ITEM_KEY_BYTES) (\<lambda>key.
     bindA (sealText (P, key) m) (\<lambda>dat.
     bindA (sealBytes (P, itemKey userKey) key) (\<lambda>wrapped.
     returnA (JSON_stringify P 0 (JObj
       [(js ''v'', JNum (NInt 2)), (js ''key'', JStr wrapped), (js ''data'', JStr dat)])))))"
  by (simp add: encryptItemKeyed_def wrapItemKey_seal sealText_def sealBytes_def bindA_assoc)
    (simp add: bindA_def returnA_def fun_eq_iff split: prod.splits sum.splits)

lemma openText_parts:
  "bindR (parseEncStringVal P (Some (JStr s)))
     (\<lambda>e. mapR fromUtf8 (aesGcmDecrypt P key (enc_nonce e) (enc_data e))) = openText (P, key) s"
  by (cases "parseEncString s") (simp_all add: openText_def openBytes_def)

lemma serialize_not_Nil: "serializeEncString \<lparr>enc_type = AesGcm, enc_nonce = n, enc_data = d\<rparr> \<noteq> []"
  using serializeEncString_hd [of n d] by auto

interpretation keyed: sealing item_ok "\<lambda>(P, uk). encryptItemKeyed P uk"
  "\<lambda>(P, uk) s. decryptItemKeyed P uk s" 56
proof
  fix k :: "'z platform_scheme \<times> bytes" and m and w :: "'y world_scheme"
  assume ok: "item_ok k m"
  obtain P uk where k: "k = (P, uk)"
    by (cases k)
  let ?w = "w\<lparr>drawn := drawn w + 32\<rparr>" and ?v = "w\<lparr>drawn := drawn w + 44\<rparr>"
  have t: "text_ok (P, draw 32 w) m" and b: "key_ok (P, itemKey uk) (draw 32 w)"
    using ok k by (simp_all add: item_ok_def text_ok_def key_ok_def itemKey_def)
  obtain dat where d: "sealText (P, draw 32 w) m ?w = (Inr dat, ?v)"
      "openText (P, draw 32 w) dat = Inr m"
    using st.seal_ok [OF t, of ?w] by auto
  obtain wk where wk: "sealBytes (P, itemKey uk) (draw 32 w) ?v = (Inr wk, w\<lparr>drawn := drawn w + 56\<rparr>)"
      "openBytes (P, itemKey uk) wk = Inr (draw 32 w)"
    using sb.seal_ok [OF b, of ?v] by auto
  have ne: "wk \<noteq> []" "dat \<noteq> []"
    using d(1) wk(1) serialize_not_Nil by (auto simp: sealText_def dest!: sealBytes_envelope)
  let ?s = "JSON_stringify P 0
     (JObj [(js ''v'', JNum (NInt 2)), (js ''key'', JStr wk), (js ''data'', JStr dat)])"
  have "encryptItemKeyed P uk m w = (Inr ?s, w\<lparr>drawn := drawn w + 56\<rparr>)"
    using d(1) wk(1) by (simp add: encryptItemKeyed_seal ITEM_KEY_BYTES_def act_simps)
  moreover have "decryptItemKeyed P uk ?s = Inr m"
    using d(2) wk(2) ne
    by (simp add: decryptItemKeyed_def parseContainer_container get_prop_opt_def own_props_def
        unwrapItemKey_open openText_parts del: parseEncStringVal_JStr)
  ultimately show "\<exists>c. (case k of (P, uk) \<Rightarrow> encryptItemKeyed P uk) m w = (Inr c, w\<lparr>drawn := drawn w + 56\<rparr>)
      \<and> (case k of (P, uk) \<Rightarrow> \<lambda>s. decryptItemKeyed P uk s) c = Inr m"
    using k by auto
qed


section \<open>Keys derived from passwords\<close>

definition webcrypto_ok :: "'z platform_scheme \<Rightarrow> bool" where
  "webcrypto_ok P \<longleftrightarrow> aes_ok P \<and> mac_ok P \<and> kdf_ok P \<and> rsa_ok P"

text \<open>Credentials the KDF accepts: a password that is not empty, parameters within its bounds,
  and an identifier of at least 8 bytes, the shortest salt of Argon2.\<close>

definition login_ok :: "'z platform_scheme \<Rightarrow> jsstring \<Rightarrow> jsstring \<Rightarrow> jsval option \<Rightarrow> bool" where
  "login_ok P identifier password params \<longleftrightarrow>
     (case params of None \<Rightarrow> False | Some ps \<Rightarrow> kdf_params_ok ps) \<and>
     utf8 (normalizeNFKC P password) \<noteq> [] \<and> 8 \<le> length (utf8 (normalizeIdentifier P identifier))"

lemma stretchMasterKey_ok:
  assumes "mac_ok P" "mk \<noteq> []"
  obtains st where "stretchMasterKey P mk = Inr st" "length (encKey st) = 32" "length (macKey st) = 32"
proof -
  obtain e m where "hkdfExpand P mk (js ''enc'') 32 = Inr e" "length e = 32"
      "hkdfExpand P mk (js ''mac'') 32 = Inr m" "length m = 32"
    using hkdfExpand_ok [OF assms] by metis
  then show ?thesis
    using that [of "\<lparr>encKey = e, macKey = m\<rparr>"] by (simp add: stretchMasterKey_def)
qed

lemma deriveMasterPasswordHash_ok:
  assumes "kdf_ok P"
  obtains h where "deriveMasterPasswordHash P mk pw = Inr h"
proof -
  obtain d where "pbkdf2 P mk (utf8 (MASTER_PASSWORD_HASH_DOMAIN @ normalizeNFKC P pw))
      (Some (JNum (NInt 1))) 32 = Inr d"
    by (rule pbkdf2_ok [OF assms, of 1 32]) simp_all
  then show ?thesis
    using that by (simp add: deriveMasterPasswordHash_def Let_def)
qed

lemma master_chain:
  assumes P: "webcrypto_ok P" and l: "login_ok P identifier pw params"
  obtains mk st h where "deriveMasterKey P pw identifier params = Inr mk"
    "stretchMasterKey P mk = Inr st" "length (encKey st) = 32"
    "deriveMasterPasswordHash P mk pw = Inr h"
proof -
  obtain ps where ps: "params = Some ps" "kdf_params_ok ps"
    using l by (auto simp: login_ok_def split: option.splits)
  obtain mk where mk: "deriveMasterKey P pw identifier params = Inr mk" "length mk = 32"
    using deriveKey_ok [of P ps pw "normalizeIdentifier P identifier"] P l ps
    by (auto simp: webcrypto_ok_def login_ok_def deriveMasterKey_def)
  then have ne: "mk \<noteq> []"
    by auto
  have "mac_ok P" "kdf_ok P"
    using P by (simp_all add: webcrypto_ok_def)
  with mk ne that show ?thesis
    by (metis stretchMasterKey_ok deriveMasterPasswordHash_ok)
qed

lemma deriveRecoveryKeys_ok:
  assumes "webcrypto_ok P"
  obtains ks where "deriveRecoveryKeys P code = Inr ks" "length (recoveryEncKey ks) = 32"
proof -
  have P: "mac_ok P" "kdf_ok P"
    using assms by (simp_all add: webcrypto_ok_def)
  obtain b where b: "pbkdf2 P (utf8 (normalizeIdentifier P code)) (utf8 RECOVERY_KDF_SALT)
       (Some (JNum (NInt RECOVERY_KDF_ITERATIONS))) 32 = Inr b" "length b = 32"
    by (rule pbkdf2_ok [OF P(2), of RECOVERY_KDF_ITERATIONS 32])
      (simp_all add: RECOVERY_KDF_ITERATIONS_def)
  then have "b \<noteq> []"
    by auto
  then obtain e a where "hkdfExpand P b (js ''recovery-enc'') 32 = Inr e" "length e = 32"
      "hkdfExpand P b (js ''recovery-auth'') 32 = Inr a"
    using hkdfExpand_ok [OF P(1)] by metis
  with b(1) show ?thesis
    using that [of "\<lparr>recoveryEncKey = e, rk_recoveryAuthHash = toBase64 a\<rparr>"]
    by (simp add: deriveRecoveryKeys_def)
qed

section \<open>Properties\<close>

text \<open>C18: the key stretching is HKDF-Expand of RFC 5869 over HMAC-SHA-256, for every length the code asks
  for, and the output has the length asked for. (The counter byte wraps beyond 255 blocks in both.)\<close>

theorem hkdfExpand_is_rfc5869:
  assumes "mac_ok P" "prk \<noteq> []"
  shows "\<exists>key mac. wc_import_raw P (HMAC SHA256) prk = Inr key
    \<and> (\<forall>m. wc_sign P SHA256 key m = Inr (mac m))
    \<and> hkdfExpand P prk info len = Inr (rfc5869_expand mac (utf8 info) len)
    \<and> length (rfc5869_expand mac (utf8 info) len) = len"
proof -
  obtain key mac where k: "wc_import_raw P (HMAC SHA256) prk = Inr key"
      "\<And>m. wc_sign P SHA256 key m = Inr (mac m)" "\<And>m. length (mac m) = hash_len SHA256"
    using mac_function [OF assms] by metis
  then have len: "\<And>m. length (mac m) = 32"
    by simp
  show ?thesis
    using k hkdfExpand_rfc5869 [OF k(1,2) len] length_rfc5869 [of mac, OF len] by blast
qed

theorem hkdfExpand_is_rfc5869_witness:
  "\<exists>mac. hkdfExpand sample_platform [1, 2, 3] (js ''enc'') 32 = Inr (rfc5869_expand mac (utf8 (js ''enc'')) 32)"
  using hkdfExpand_is_rfc5869 [OF sample_mac, of "[1, 2, 3]"] by blast

lemma buildRegistration_ok:
  assumes P: "webcrypto_ok P" and l: "login_ok P identifier pw params"
    and same: "normalizeIdentifier P identifier' = normalizeIdentifier P identifier"
  shows "\<exists>b userKey. buildRegistration P identifier pw params w = (Inr (b, userKey), w\<lparr>drawn := drawn w + 120\<rparr>)
    \<and> length userKey = 64 \<and> rb_identifier b = normalizeIdentifier P identifier \<and> rb_kdf b = params
    \<and> unlock P identifier' pw params (rb_protectedUserKey b) = Inr (userKey, rb_masterPasswordHash b)
    \<and> keypair_ok P userKey (rb_publicKey b) (rb_protectedPrivateKey b)"
proof -
  obtain mk st h where m: "deriveMasterKey P pw identifier params = Inr mk"
      "stretchMasterKey P mk = Inr st" "length (encKey st) = 32"
      "deriveMasterPasswordHash P mk pw = Inr h"
    using master_chain [OF P l] by metis
  let ?uk = "draw 64 w" and ?w = "w\<lparr>drawn := drawn w + 64\<rparr>" and ?v = "w\<lparr>drawn := drawn w + 76\<rparr>"
  have "user_key_ok (P, st) ?uk"
    using P m by (simp add: user_key_ok_def webcrypto_ok_def)
  then obtain s where s: "wrapUserKey P st ?uk ?w = (Inr s, ?v)"
      "unwrapUserKey P st (Some (JStr s)) = Inr ?uk"
    using uk.seal_ok [of "(P, st)" ?uk ?w] by auto
  have "aes_ok P" "rsa_ok P" "32 \<le> length ?uk"
    using P by (simp_all add: webcrypto_ok_def)
  then obtain kp where kp: "generateUserKeypair P ?uk ?v = (Inr kp, ?v\<lparr>drawn := drawn ?v + 44\<rparr>)"
      "keypair_ok P ?uk (kp_publicKey kp) (kp_protectedPrivateKey kp)"
    using generateUserKeypair_ok by metis
  have "deriveMasterKey P pw identifier' params = Inr mk"
    using m(1) same by (simp add: deriveMasterKey_def)
  then show ?thesis
    using m s kp by (simp add: buildRegistration_def unlock_def generateUserKey_def
        USER_KEY_BYTES_def act_simps)
qed

text \<open>C11: what \<open>buildRegistration\<close> uploads is enough to log in again: with the same
  password, and an identifier with the same canonical form, \<open>unlock\<close> on the uploaded parameters
  and wrapped key returns the user key of the registration and the credential the
  server holds. The private sharing key that was uploaded opens under that user key.\<close>

theorem registration_unlock:
  assumes P: "webcrypto_ok P" and l: "login_ok P identifier pw params"
    and same: "normalizeIdentifier P identifier' = normalizeIdentifier P identifier"
  shows "\<exists>b userKey w'. buildRegistration P identifier pw params w = (Inr (b, userKey), w')
    \<and> length userKey = 64 \<and> rb_identifier b = normalizeIdentifier P identifier
    \<and> unlock P identifier' pw (rb_kdf b) (rb_protectedUserKey b) = Inr (userKey, rb_masterPasswordHash b)
    \<and> keypair_ok P userKey (rb_publicKey b) (rb_protectedPrivateKey b)"
  using buildRegistration_ok [OF assms, of w] by metis

text \<open>What a name and a password are depends on the platform through Unicode only.\<close>

lemma unicode_only:
  "uc_lower P = uc_lower Q \<Longrightarrow> normalizeIdentifier P i = normalizeIdentifier Q i"
  "uc_lower P = uc_lower Q \<Longrightarrow> uc_nfkc P = uc_nfkc Q \<Longrightarrow> login_ok P i pw ps = login_ok Q i pw ps"
  by (simp_all add: login_ok_def normalizeIdentifier_def toLowerCase_def normalizeNFKC_def cong: option.case_cong)

lemma sample_credentials:
  "login_ok sample_platform (js ''Me@Example.org'') (js ''correct horse'') (Some DEFAULT_KDF)"
  "normalizeIdentifier sample_platform (js '' me@example.ORG'') = normalizeIdentifier sample_platform (js ''Me@Example.org'')"
  by code_simp+

theorem registration_unlock_witness:
  "\<exists>b userKey w'. buildRegistration sample_platform (js ''Me@Example.org'') (js ''correct horse'')
      (Some DEFAULT_KDF) sample_world = (Inr (b, userKey), w')
    \<and> unlock sample_platform (js '' me@example.ORG'') (js ''correct horse'') (rb_kdf b)
        (rb_protectedUserKey b) = Inr (userKey, rb_masterPasswordHash b)"
proof -
  have "webcrypto_ok sample_platform"
    by (simp add: webcrypto_ok_def sample_ok)
  then show ?thesis
    using sample_credentials registration_unlock [of sample_platform "js ''Me@Example.org''" "js ''correct horse''"
        "Some DEFAULT_KDF" "js '' me@example.ORG''" sample_world] by blast
qed

text \<open>Recovery gives the vault back without re-encrypting it. The code shown at enrollment, re-typed with any case and
  spacing, opens the stored key and yields the same user key and the verifier the server stored; after the reset the new
  password unlocks that same user key with the new credential.\<close>

lemma recovery_works:
  fixes w :: "'y world_scheme" and w2 :: "'x world_scheme"
  assumes P: "webcrypto_ok P"
  obtains en where "enrollRecovery P userKey w = (Inr en, w\<lparr>drawn := drawn w + 108\<rparr>)"
    "\<forall>code identifier newPw params (w2 :: 'x world_scheme). login_ok P identifier newPw params \<longrightarrow>
       normalizeIdentifier P code = normalizeIdentifier P (re_recoveryCode en) \<longrightarrow>
       (\<exists>r. completeRecovery P code (re_recoveryProtectedUserKey en) identifier newPw params w2 = (Inr r, w2\<lparr>drawn := drawn w2 + 12\<rparr>)
        \<and> rr_userKey r = userKey \<and> rr_recoveryAuthHash r = re_recoveryAuthHash en \<and> rr_kdf r = params
        \<and> unlock P identifier newPw params (rr_protectedUserKey r) = Inr (userKey, rr_masterPasswordHash r))"
proof -
  let ?w = "w\<lparr>drawn := drawn w + 96\<rparr>"
  obtain code0 where c0: "generateAccountId 24 w = (Inr code0, ?w)"
    using generateAccountId_eq [of 24 w] by simp
  obtain ks where ks: "deriveRecoveryKeys P code0 = Inr ks" "length (recoveryEncKey ks) = 32"
    using deriveRecoveryKeys_ok [OF P] by blast
  have "key_ok (P, recoveryEncKey ks) userKey"
    using P ks by (simp add: key_ok_def webcrypto_ok_def)
  then obtain s where s: "sealBytes (P, recoveryEncKey ks) userKey ?w
      = (Inr s, w\<lparr>drawn := drawn w + 108\<rparr>)" "openBytes (P, recoveryEncKey ks) s = Inr userKey"
    using sb.seal_ok [of _ userKey ?w] by fastforce
  let ?en = "\<lparr>re_recoveryCode = code0, re_recoveryProtectedUserKey = s, re_recoveryAuthHash = rk_recoveryAuthHash ks\<rparr>"
  show thesis
  proof (rule that [of ?en])
    show "enrollRecovery P userKey w = (Inr ?en, w\<lparr>drawn := drawn w + 108\<rparr>)"
      using c0 ks s by (simp add: enrollRecovery_def wrapRecovery_seal act_simps)
    show "\<forall>code identifier newPw params (w2 :: 'x world_scheme). login_ok P identifier newPw params \<longrightarrow>
       normalizeIdentifier P code = normalizeIdentifier P (re_recoveryCode ?en) \<longrightarrow>
       (\<exists>r. completeRecovery P code (re_recoveryProtectedUserKey ?en) identifier newPw params w2 = (Inr r, w2\<lparr>drawn := drawn w2 + 12\<rparr>)
        \<and> rr_userKey r = userKey \<and> rr_recoveryAuthHash r = re_recoveryAuthHash ?en \<and> rr_kdf r = params
        \<and> unlock P identifier newPw params (rr_protectedUserKey r) = Inr (userKey, rr_masterPasswordHash r))"
    proof (intro allI impI)
      fix code ident newPw params and w2 :: "'x world_scheme"
      assume l: "login_ok P ident newPw params"
        and "normalizeIdentifier P code = normalizeIdentifier P (re_recoveryCode ?en)"
      then have "deriveRecoveryKeys P code = Inr ks"
        using ks(1) by (simp add: deriveRecoveryKeys_def)
      moreover obtain mk st h where m: "deriveMasterKey P newPw ident params = Inr mk"
          "stretchMasterKey P mk = Inr st" "length (encKey st) = 32" "deriveMasterPasswordHash P mk newPw = Inr h"
        using master_chain [OF P l] by metis
      moreover have "user_key_ok (P, st) userKey"
        using P m by (simp add: user_key_ok_def webcrypto_ok_def)
      then obtain u where "wrapUserKey P st userKey w2 = (Inr u, w2\<lparr>drawn := drawn w2 + 12\<rparr>)"
          "unwrapUserKey P st (Some (JStr u)) = Inr userKey"
        using uk.seal_ok [of "(P, st)" userKey w2] by auto
      ultimately show "\<exists>r. completeRecovery P code (re_recoveryProtectedUserKey ?en) ident newPw params w2
            = (Inr r, w2\<lparr>drawn := drawn w2 + 12\<rparr>)
        \<and> rr_userKey r = userKey \<and> rr_recoveryAuthHash r = re_recoveryAuthHash ?en \<and> rr_kdf r = params
        \<and> unlock P ident newPw params (rr_protectedUserKey r) = Inr (userKey, rr_masterPasswordHash r)"
        using s(2) by (simp add: completeRecovery_def unlock_def unwrapRecovery_open act_simps)
    qed
  qed
qed

text \<open>An item encrypted under its own key is decrypted by the holder of the user key, and so
  is an item of the older single-key format, which is recognised as such; neither encryption
  can fail.\<close>

theorem item_roundtrip:
  assumes "aes_ok P" "32 \<le> length userKey" "plain_text m"
  shows "(\<exists>s. encryptItemKeyed P userKey m w = (Inr s, w\<lparr>drawn := drawn w + 56\<rparr>)
      \<and> decryptItemKeyed P userKey s = Inr m)
    \<and> (\<exists>s. encryptItem P userKey m w = (Inr s, w\<lparr>drawn := drawn w + 12\<rparr>)
      \<and> decryptItemKeyed P userKey s = Inr m \<and> decryptItem P userKey (Some (JStr s)) = Inr m)"
proof -
  have ok: "item_ok (P, userKey) m"
    using assms by (simp add: item_ok_def)
  then show ?thesis
    using keyed.seal_ok [OF ok, of w] item.seal_ok [OF ok, of w] legacy.unseal_seal [OF ok, of w] by auto
qed

end
