(* ===== verification/Backup.thy ===== *)
theory Backup
  imports Account
begin

text \<open>
  \<open>packages/crypto/src/backup.ts\<close>: the passphrase-protected backup envelope. The reader works
  on whatever JSON the file holds, so properties may be missing or have any type.
\<close>

definition BACKUP_FORMAT :: jsstring where
  "BACKUP_FORMAT = js ''passwd-backup''"

definition BACKUP_VERSION :: int where
  "BACKUP_VERSION = 1"

text \<open>A property of an object literal whose value may be \<open>undefined\<close>: \<open>JSON.stringify\<close>
  leaves it out.\<close>

definition opt_prop :: "string \<Rightarrow> jsval option \<Rightarrow> props" where
  "opt_prop k ov = (case ov of None \<Rightarrow> [] | Some v \<Rightarrow> [(js k, v)])"

definition encryptBackup ::
  "'z platform_scheme \<Rightarrow> jsstring \<Rightarrow> jsstring \<Rightarrow> jsval option \<Rightarrow> ('y world_scheme, jsstring) act" where
  "encryptBackup P plaintext passphrase params =
     (if passphrase = [] then throwA EBackupPassphraseRequired
      else bindA (randomBytes 16) (\<lambda>b.
        let salt = toBase64 b in
        bindA (liftA (deriveKey P passphrase (Some (JStr salt)) params)) (\<lambda>key.
        bindA (aesGcmEncryptFresh P key (utf8 plaintext)) (\<lambda>r.
        returnA (JSON_stringify P 2 (JObj
          ([(js ''format'', JStr BACKUP_FORMAT), (js ''version'', JNum (NInt BACKUP_VERSION))]
           @ opt_prop ''kdf'' params
           @ [(js ''salt'', JStr salt), (js ''nonce'', JStr (toBase64 (gcm_nonce r))),
              (js ''data'', JStr (toBase64 (gcm_ciphertext r)))])))))))"

text \<open>\<open>fromBase64(v)\<close> of a value that need not be a string.\<close>

definition fromBase64Val :: "'z jsenv_scheme \<Rightarrow> jsval option \<Rightarrow> bytes result" where
  "fromBase64Val J ov =
     (case ov of None \<Rightarrow> fromBase64 (js ''undefined'') | Some v \<Rightarrow> bindR (toText J v) fromBase64)"

text \<open>Throwing an error whose message shows a value: the conversion to text may itself fail.\<close>

definition throwShowing :: "'z jsenv_scheme \<Rightarrow> jsval option \<Rightarrow> jserror \<Rightarrow> 'a result" where
  "throwShowing J ov e = (case ov of None \<Rightarrow> Inl e | Some v \<Rightarrow> bindR (toText J v) (\<lambda>_. Inl e))"

definition decryptBackup :: "'z platform_scheme \<Rightarrow> jsstring \<Rightarrow> jsstring \<Rightarrow> jsstring result" where
  "decryptBackup P envelope passphrase =
     (case JSON_parse envelope of
        Inl _ \<Rightarrow> Inl ENotValidBackup
      | Inr env \<Rightarrow>
          if get_prop_opt env (js ''format'') \<noteq> Some (JStr BACKUP_FORMAT) then Inl ENotBackup
          else if get_prop_opt env (js ''version'') \<noteq> Some (JNum (NInt BACKUP_VERSION))
          then throwShowing P (get_prop_opt env (js ''version'')) EUnsupportedBackupVersion
          else bindR (deriveKey P passphrase (get_prop_opt env (js ''salt'')) (get_prop_opt env (js ''kdf''))) (\<lambda>key.
            rethrow
              (bindR (fromBase64Val P (get_prop_opt env (js ''nonce''))) (\<lambda>nonce.
               bindR (fromBase64Val P (get_prop_opt env (js ''data''))) (\<lambda>dat.
               mapR fromUtf8 (aesGcmDecrypt P key nonce dat))))
              EWrongPassphrase))"

definition isBackupEnvelope :: "jsstring \<Rightarrow> bool" where
  "isBackupEnvelope s =
     (case JSON_parse s of
        Inl _ \<Rightarrow> False
      | Inr v \<Rightarrow> get_prop_opt v (js ''format'') = Some (JStr BACKUP_FORMAT))"

section \<open>Salts\<close>

lemma utf8_ascii: "ascii_string s \<Longrightarrow> length (utf8 s) = length s"
proof (induction s rule: code_points.induct)
  case (2 u)
  then show ?case
    by (simp add: utf8_def utf8_point_def high_surrogate_def low_surrogate_def is_ascii_def word_less_nat_alt)
next
  case (3 u v s)
  then show ?case
    by (simp add: utf8_def utf8_point_def high_surrogate_def low_surrogate_def is_ascii_def word_less_nat_alt)
qed (simp add: utf8_def)

lemma b64_alphabet_ascii: "b64_alphabet c \<Longrightarrow> is_ascii c"
  by (auto simp: b64_alphabet_def char_class_defs b64_pad_def word_le_nat_alt word_less_nat_alt)

lemma length_utf8_toBase64: "length (utf8 (toBase64 b)) = length (toBase64 b)"
  using toBase64_alphabet b64_alphabet_ascii by (intro utf8_ascii) (auto simp: ascii_string_def)

lemma salt_long_enough: "length b = 16 \<Longrightarrow> 8 \<le> length (utf8 (toBase64 b))"
  using length_utf8_toBase64 [of b] by (simp add: toBase64_def length_btoa)

section \<open>Properties\<close>

text \<open>Parameters and a passphrase under which a backup or vault can be written.\<close>

definition secret_ok :: "'z platform_scheme \<Rightarrow> jsstring \<Rightarrow> jsval \<Rightarrow> bool" where
  "secret_ok P pw ps \<longleftrightarrow> kdf_params_ok ps \<and> plain ps \<and> pw \<noteq> [] \<and> utf8 (normalizeNFKC P pw) \<noteq> []"

lemma secret_key:
  assumes "webcrypto_ok P" "secret_ok P pw ps" "length b = 16"
  obtains key where "deriveKey P pw (Some (JStr (toBase64 b))) (Some ps) = Inr key" "length key = 32"
  using assms deriveKey_ok [of P ps pw "toBase64 b"] salt_long_enough
  by (auto simp: webcrypto_ok_def secret_ok_def)

lemma envelope_plain:
  "plain ps \<Longrightarrow> plain (JObj [(js ''format'', JStr a), (js ''version'', JNum (NInt 1)), (js ''kdf'', ps),
     (js ''salt'', JStr b), (js ''nonce'', JStr c), (js ''data'', JStr d)])"
  by (simp add: obj_of_id)

lemma backup_works:
  assumes P: "webcrypto_ok P" and s: "secret_ok P pw ps" and m: "plain_text m"
  shows "\<exists>f w'. encryptBackup P m pw (Some ps) w = (Inr f, w')
    \<and> isBackupEnvelope f \<and> decryptBackup P f pw = Inr m"
proof -
  let ?salt = "toBase64 (draw 16 w)" and ?w = "w\<lparr>drawn := drawn w + 16\<rparr>"
  obtain key where key: "deriveKey P pw (Some (JStr ?salt)) (Some ps) = Inr key" "length key = 32"
    using secret_key [OF P s, of "draw 16 w"] by auto
  have aes: "aes_ok P"
    using P by (simp add: webcrypto_ok_def)
  obtain c where c: "aesGcmEncryptFresh P key (utf8 m) ?w =
       (Inr \<lparr>gcm_nonce = draw 12 ?w, gcm_ciphertext = c\<rparr>, ?w\<lparr>drawn := drawn ?w + 12\<rparr>)"
      "aesGcmDecrypt P key (draw 12 ?w) c = Inr (utf8 m)"
    by (rule aesGcmEncryptFresh_ok [OF aes key(2)])
  let ?env = "JObj [(js ''format'', JStr BACKUP_FORMAT), (js ''version'', JNum (NInt BACKUP_VERSION)),
      (js ''kdf'', ps), (js ''salt'', JStr ?salt), (js ''nonce'', JStr (toBase64 (draw 12 ?w))),
      (js ''data'', JStr (toBase64 c))]"
  have parse: "JSON_parse (JSON_stringify P 2 ?env) = Inr ?env"
    using s envelope_plain by (intro json.dec_enc) (simp add: secret_ok_def BACKUP_VERSION_def)
  have "encryptBackup P m pw (Some ps) w = (Inr (JSON_stringify P 2 ?env), ?w\<lparr>drawn := drawn ?w + 12\<rparr>)"
    using s key c by (simp add: encryptBackup_def secret_ok_def opt_prop_def Let_def act_simps)
  moreover have "isBackupEnvelope (JSON_stringify P 2 ?env)"
    by (simp add: isBackupEnvelope_def parse get_prop_opt_def own_props_def)
  moreover have "decryptBackup P (JSON_stringify P 2 ?env) pw = Inr m"
    using key c(2) utf8.dec_enc [OF m]
    by (simp add: decryptBackup_def parse get_prop_opt_def own_props_def fromBase64Val_def
        fromBase64_toBase64)
  ultimately show ?thesis
    by blast
qed

text \<open>A backup is read back: for every passphrase and parameters the KDF accepts, and every
  text UTF-8 carries, encryption succeeds, the file is recognised as a backup, and decryption with
  the same passphrase returns the text.\<close>

theorem backup_roundtrip:
  assumes P: "webcrypto_ok P" and s: "secret_ok P pw ps" and m: "plain_text m"
  shows "\<exists>f w'. encryptBackup P m pw (Some ps) w = (Inr f, w')
    \<and> isBackupEnvelope f \<and> decryptBackup P f pw = Inr m"
  by (rule backup_works [OF assms])

theorem backup_roundtrip_witness:
  "\<exists>f w'. encryptBackup sample_platform (js ''[]'') (js ''open sesame'') (Some DEFAULT_KDF) sample_world
      = (Inr f, w') \<and> decryptBackup sample_platform f (js ''open sesame'') = Inr (js ''[]'')"
proof -
  have "webcrypto_ok sample_platform"
    by (simp add: webcrypto_ok_def sample_ok)
  moreover have "secret_ok sample_platform (js ''open sesame'') DEFAULT_KDF"
    by code_simp
  moreover have "plain_text (js ''[]'')"
    by code_simp
  ultimately show ?thesis
    using backup_roundtrip by blast
qed

end
