(* ===== verification/Vault.thy ===== *)
theory Vault
  imports Backup
begin

text \<open>
  \<open>packages/crypto/src/vault.ts\<close>: the offline vault file. The file is a JSON object, read
  unchecked; the state kept in memory repeats what the file had, so its public fields are
  values that may be \<open>undefined\<close>.

  The history of a vault (create it, save it, change its password, open it again, in any order)
  is the relation \<open>vault_history\<close>; its invariant is the contract of the file: the current
  password opens the current file to the current payload.
\<close>

section \<open>The operations\<close>

definition VAULT_FORMAT :: jsstring where
  "VAULT_FORMAT = js ''passwd-vault''"

definition VAULT_VERSION :: int where
  "VAULT_VERSION = 1"

record VaultState =
  vs_kdf :: "jsval option"
  vs_salt :: "jsval option"
  vs_protectedUserKey :: "jsval option"
  vs_userKey :: bytes

definition serialize ::
  "'z platform_scheme \<Rightarrow> VaultState \<Rightarrow> jsstring \<Rightarrow> ('y world_scheme, jsstring) act" where
  "serialize P state payload =
     bindA (encryptItem P (vs_userKey state) payload) (\<lambda>vault.
     returnA (JSON_stringify P 2 (JObj
       ([(js ''format'', JStr VAULT_FORMAT), (js ''version'', JNum (NInt VAULT_VERSION))]
        @ opt_prop ''kdf'' (vs_kdf state) @ opt_prop ''salt'' (vs_salt state)
        @ opt_prop ''protectedUserKey'' (vs_protectedUserKey state)
        @ [(js ''vault'', JStr vault)]))))"

definition createVault ::
  "'z platform_scheme \<Rightarrow> jsstring \<Rightarrow> jsstring \<Rightarrow> jsval option
   \<Rightarrow> ('y world_scheme, jsstring \<times> VaultState) act" where
  "createVault P masterPassword payload params =
     (if masterPassword = [] then throwA EMasterPasswordRequired
      else bindA (randomBytes 16) (\<lambda>b.
        let salt = toBase64 b in
        bindA (liftA (deriveKey P masterPassword (Some (JStr salt)) params)) (\<lambda>masterKey.
        bindA (liftA (stretchMasterKey P masterKey)) (\<lambda>stretched.
        bindA generateUserKey (\<lambda>userKey.
        bindA (wrapUserKey P stretched userKey) (\<lambda>protectedUserKey.
        let state = \<lparr>vs_kdf = params, vs_salt = Some (JStr salt),
                     vs_protectedUserKey = Some (JStr protectedUserKey), vs_userKey = userKey\<rparr>
        in bindA (serialize P state payload) (\<lambda>file. returnA (file, state))))))))"

definition openVault ::
  "'z platform_scheme \<Rightarrow> jsstring \<Rightarrow> jsstring \<Rightarrow> (VaultState \<times> jsstring) result" where
  "openVault P fileText masterPassword =
     (case JSON_parse fileText of
        Inl _ \<Rightarrow> Inl ENotValidVault
      | Inr file \<Rightarrow>
          if get_prop_opt file (js ''format'') \<noteq> Some (JStr VAULT_FORMAT) then Inl ENotVault
          else if get_prop_opt file (js ''version'') \<noteq> Some (JNum (NInt VAULT_VERSION))
          then throwShowing P (get_prop_opt file (js ''version'')) EUnsupportedVaultVersion
          else
            bindR (deriveKey P masterPassword (get_prop_opt file (js ''salt'')) (get_prop_opt file (js ''kdf''))) (\<lambda>masterKey.
            bindR (stretchMasterKey P masterKey) (\<lambda>stretched.
            rethrow
              (bindR (unwrapUserKey P stretched (get_prop_opt file (js ''protectedUserKey''))) (\<lambda>userKey.
               bindR (decryptItem P userKey (get_prop_opt file (js ''vault''))) (\<lambda>payload.
               Inr (\<lparr>vs_kdf = get_prop_opt file (js ''kdf''), vs_salt = get_prop_opt file (js ''salt''),
                     vs_protectedUserKey = get_prop_opt file (js ''protectedUserKey''),
                     vs_userKey = userKey\<rparr>, payload))))
              EWrongMasterPassword)))"

definition saveVault ::
  "'z platform_scheme \<Rightarrow> VaultState \<Rightarrow> jsstring \<Rightarrow> ('y world_scheme, jsstring) act" where
  "saveVault P state payload = serialize P state payload"

definition changeMasterPassword ::
  "'z platform_scheme \<Rightarrow> VaultState \<Rightarrow> jsstring \<Rightarrow> jsstring \<Rightarrow> jsval option
   \<Rightarrow> ('y world_scheme, jsstring \<times> VaultState) act" where
  "changeMasterPassword P state newPassword payload params =
     (if newPassword = [] then throwA EMasterPasswordRequired
      else bindA (randomBytes 16) (\<lambda>b.
        let salt = toBase64 b in
        bindA (liftA (deriveKey P newPassword (Some (JStr salt)) params)) (\<lambda>masterKey.
        bindA (liftA (stretchMasterKey P masterKey)) (\<lambda>stretched.
        bindA (wrapUserKey P stretched (vs_userKey state)) (\<lambda>protectedUserKey.
        let next_state = \<lparr>vs_kdf = params, vs_salt = Some (JStr salt),
                     vs_protectedUserKey = Some (JStr protectedUserKey),
                     vs_userKey = vs_userKey state\<rparr>
        in bindA (serialize P next_state payload) (\<lambda>file. returnA (file, next_state)))))))"

definition isVaultFile :: "jsstring \<Rightarrow> bool" where
  "isVaultFile s =
     (case JSON_parse s of
        Inl _ \<Rightarrow> False
      | Inr v \<Rightarrow> get_prop_opt v (js ''format'') = Some (JStr VAULT_FORMAT))"

section \<open>A state and the password that opens it\<close>

definition vault_holds :: "'z platform_scheme \<Rightarrow> jsstring \<Rightarrow> VaultState \<Rightarrow> bool" where
  "vault_holds P pw st \<longleftrightarrow>
     (\<exists>ps salt prot mk sk.
        vs_kdf st = Some ps \<and> vs_salt st = Some (JStr salt) \<and> vs_protectedUserKey st = Some (JStr prot)
        \<and> plain ps \<and> deriveKey P pw (Some (JStr salt)) (Some ps) = Inr mk
        \<and> stretchMasterKey P mk = Inr sk \<and> unwrapUserKey P sk (Some (JStr prot)) = Inr (vs_userKey st)
        \<and> 32 \<le> length (vs_userKey st))"

lemma file_plain:
  "plain ps \<Longrightarrow> plain (JObj [(js ''format'', JStr a), (js ''version'', JNum (NInt 1)), (js ''kdf'', ps),
     (js ''salt'', JStr b), (js ''protectedUserKey'', JStr c), (js ''vault'', JStr d)])"
  by (simp add: obj_of_id)

lemma serialize_open:
  assumes aes: "aes_ok P" and st: "vault_holds P pw st" and m: "plain_text payload"
  obtains f where "serialize P st payload w = (Inr f, w\<lparr>drawn := drawn w + 12\<rparr>)"
    "isVaultFile f" "openVault P f pw = Inr (st, payload)"
proof -
  obtain ps salt prot mk sk where s: "vs_kdf st = Some ps" "vs_salt st = Some (JStr salt)"
      "vs_protectedUserKey st = Some (JStr prot)" "plain ps"
      "deriveKey P pw (Some (JStr salt)) (Some ps) = Inr mk" "stretchMasterKey P mk = Inr sk"
      "unwrapUserKey P sk (Some (JStr prot)) = Inr (vs_userKey st)" "32 \<le> length (vs_userKey st)"
    using st unfolding vault_holds_def by blast
  have "item_ok (P, vs_userKey st) payload"
    using aes s(8) m by (simp add: item_ok_def)
  then obtain v where v: "encryptItem P (vs_userKey st) payload w = (Inr v, w\<lparr>drawn := drawn w + 12\<rparr>)"
      "decryptItem P (vs_userKey st) (Some (JStr v)) = Inr payload"
    using item.seal_ok [of "(P, vs_userKey st)" payload w] by auto
  let ?file = "JObj [(js ''format'', JStr VAULT_FORMAT), (js ''version'', JNum (NInt VAULT_VERSION)),
      (js ''kdf'', ps), (js ''salt'', JStr salt), (js ''protectedUserKey'', JStr prot), (js ''vault'', JStr v)]"
  have parse: "JSON_parse (JSON_stringify P 2 ?file) = Inr ?file"
    using s(4) file_plain by (intro json.dec_enc) (simp add: VAULT_VERSION_def)
  show ?thesis
  proof (rule that [of "JSON_stringify P 2 ?file"])
    show "serialize P st payload w = (Inr (JSON_stringify P 2 ?file), w\<lparr>drawn := drawn w + 12\<rparr>)"
      using s v by (simp add: serialize_def opt_prop_def act_simps)
    show "isVaultFile (JSON_stringify P 2 ?file)"
      by (simp add: isVaultFile_def parse get_prop_opt_def own_props_def)
    show "openVault P (JSON_stringify P 2 ?file) pw = Inr (st, payload)"
      using s v by (simp add: openVault_def parse get_prop_opt_def own_props_def)
  qed
qed

lemma serialize_ok:
  assumes "aes_ok P" "vault_holds P pw st" "plain_text payload"
  shows "\<exists>f. serialize P st payload w = (Inr f, w\<lparr>drawn := drawn w + 12\<rparr>)
    \<and> isVaultFile f \<and> openVault P f pw = Inr (st, payload)"
  using serialize_open [OF assms, of w] by blast

text \<open>Creating a vault and changing its password both wrap a user key, new or old, under a key
  derived from the password and a fresh salt.\<close>

lemma password_chain:
  assumes P: "webcrypto_ok P" and s: "secret_ok P pw ps" and b: "length b = 16"
  obtains mk sk where "deriveKey P pw (Some (JStr (toBase64 b))) (Some ps) = Inr mk"
    "stretchMasterKey P mk = Inr sk" "length (encKey sk) = 32"
proof -
  obtain mk where mk: "deriveKey P pw (Some (JStr (toBase64 b))) (Some ps) = Inr mk" "length mk = 32"
    using secret_key [OF assms] by blast
  moreover have "mac_ok P" "mk \<noteq> []"
    using P mk by (auto simp: webcrypto_ok_def)
  ultimately show ?thesis
    using that by (metis stretchMasterKey_ok)
qed

lemma rewrap_ok:
  assumes P: "webcrypto_ok P" and s: "secret_ok P pw ps" and b: "length b = 16"
    and uk: "32 \<le> length userKey"
  obtains mk sk t st where "deriveKey P pw (Some (JStr (toBase64 b))) (Some ps) = Inr mk"
    "stretchMasterKey P mk = Inr sk" "wrapUserKey P sk userKey w = (Inr t, w\<lparr>drawn := drawn w + 12\<rparr>)"
    "st = \<lparr>vs_kdf = Some ps, vs_salt = Some (JStr (toBase64 b)),
       vs_protectedUserKey = Some (JStr t), vs_userKey = userKey\<rparr>" "vault_holds P pw st"
proof -
  obtain mk sk where k: "deriveKey P pw (Some (JStr (toBase64 b))) (Some ps) = Inr mk"
      "stretchMasterKey P mk = Inr sk" "length (encKey sk) = 32"
    using password_chain [OF P s b] by blast
  have "user_key_ok (P, sk) userKey"
    using P k(3) by (simp add: user_key_ok_def webcrypto_ok_def)
  then obtain t where t: "wrapUserKey P sk userKey w = (Inr t, w\<lparr>drawn := drawn w + 12\<rparr>)"
      "unwrapUserKey P sk (Some (JStr t)) = Inr userKey"
    using uk.seal_ok [of "(P, sk)" userKey w] by auto
  have "plain ps"
    using s by (simp add: secret_ok_def)
  then show ?thesis
    using that [OF k(1,2) t(1) refl] k t(2) uk by (simp add: vault_holds_def)
qed

lemma createVault_ok:
  assumes P: "webcrypto_ok P" and s: "secret_ok P pw ps" and m: "plain_text payload"
  shows "\<exists>f st. createVault P pw payload (Some ps) w = (Inr (f, st), w\<lparr>drawn := drawn w + 104\<rparr>)
    \<and> isVaultFile f \<and> vault_holds P pw st \<and> openVault P f pw = Inr (st, payload)
    \<and> vs_userKey st = draw 64 (w\<lparr>drawn := drawn w + 16\<rparr>)"
proof -
  let ?b = "draw 16 w" and ?w = "w\<lparr>drawn := drawn w + 16\<rparr>" and ?v = "w\<lparr>drawn := drawn w + 80\<rparr>"
  obtain mk sk t st where k: "deriveKey P pw (Some (JStr (toBase64 ?b))) (Some ps) = Inr mk"
      "stretchMasterKey P mk = Inr sk" "wrapUserKey P sk (draw 64 ?w) ?v = (Inr t, ?v\<lparr>drawn := drawn ?v + 12\<rparr>)"
      "st = \<lparr>vs_kdf = Some ps, vs_salt = Some (JStr (toBase64 ?b)),
         vs_protectedUserKey = Some (JStr t), vs_userKey = draw 64 ?w\<rparr>" "vault_holds P pw st"
    by (rule rewrap_ok [OF P s, of ?b "draw 64 ?w" ?v]) simp_all
  have "aes_ok P"
    using P by (simp add: webcrypto_ok_def)
  then obtain f where f: "serialize P st payload (w\<lparr>drawn := drawn w + 92\<rparr>) = (Inr f, w\<lparr>drawn := drawn w + 104\<rparr>)"
      "isVaultFile f" "openVault P f pw = Inr (st, payload)"
    using serialize_ok [OF _ k(5) m, of "w\<lparr>drawn := drawn w + 92\<rparr>"] by auto
  have "createVault P pw payload (Some ps) w = (Inr (f, st), w\<lparr>drawn := drawn w + 104\<rparr>)"
    using s k(1-4) f(1) by (simp add: createVault_def secret_ok_def Let_def generateUserKey_def
        USER_KEY_BYTES_def act_simps add.commute)
  then show ?thesis
    using k f by simp
qed

lemma changeMasterPassword_ok:
  assumes P: "webcrypto_ok P" and s: "secret_ok P pw ps" and m: "plain_text payload"
    and uk: "32 \<le> length (vs_userKey st)"
  shows "\<exists>f st'. changeMasterPassword P st pw payload (Some ps) w = (Inr (f, st'), w\<lparr>drawn := drawn w + 40\<rparr>)
    \<and> isVaultFile f \<and> vault_holds P pw st' \<and> openVault P f pw = Inr (st', payload)
    \<and> vs_userKey st' = vs_userKey st"
proof -
  let ?b = "draw 16 w" and ?w = "w\<lparr>drawn := drawn w + 16\<rparr>"
  obtain mk sk t st' where k: "deriveKey P pw (Some (JStr (toBase64 ?b))) (Some ps) = Inr mk"
      "stretchMasterKey P mk = Inr sk" "wrapUserKey P sk (vs_userKey st) ?w = (Inr t, ?w\<lparr>drawn := drawn ?w + 12\<rparr>)"
      "st' = \<lparr>vs_kdf = Some ps, vs_salt = Some (JStr (toBase64 ?b)),
         vs_protectedUserKey = Some (JStr t), vs_userKey = vs_userKey st\<rparr>" "vault_holds P pw st'"
    by (rule rewrap_ok [OF P s _ uk, of ?b ?w]) simp_all
  have "aes_ok P"
    using P by (simp add: webcrypto_ok_def)
  then obtain f where f: "serialize P st' payload (w\<lparr>drawn := drawn w + 28\<rparr>) = (Inr f, w\<lparr>drawn := drawn w + 40\<rparr>)"
      "isVaultFile f" "openVault P f pw = Inr (st', payload)"
    using serialize_ok [OF _ k(5) m, of "w\<lparr>drawn := drawn w + 28\<rparr>"] by auto
  have "changeMasterPassword P st pw payload (Some ps) w = (Inr (f, st'), w\<lparr>drawn := drawn w + 40\<rparr>)"
    using s k(1-4) f(1) by (simp add: changeMasterPassword_def secret_ok_def Let_def act_simps add.commute)
  then show ?thesis
    using k f by simp
qed


section \<open>The history of a vault\<close>

text \<open>\<open>vault_history P uk pw payload f st\<close>: some sequence of operations, each of which returned, has
  left the file \<open>f\<close> and the unlocked state \<open>st\<close>; \<open>pw\<close> is the password last set, \<open>payload\<close> what was
  last written, \<open>uk\<close> the user key drawn at creation.\<close>

inductive vault_history ::
  "'z platform_scheme \<Rightarrow> bytes \<Rightarrow> jsstring \<Rightarrow> jsstring \<Rightarrow> jsstring \<Rightarrow> VaultState \<Rightarrow> bool" for P where
  create: "createVault P pw payload (Some ps) (w :: world) = (Inr (f, st), w') \<Longrightarrow>
    secret_ok P pw ps \<Longrightarrow> plain_text payload \<Longrightarrow> vault_history P (vs_userKey st) pw payload f st"
| save: "vault_history P uk pw old f st \<Longrightarrow> plain_text payload \<Longrightarrow>
    saveVault P st payload (w :: world) = (Inr f', w') \<Longrightarrow> vault_history P uk pw payload f' st"
| change: "vault_history P uk oldPw old f st \<Longrightarrow> secret_ok P pw ps \<Longrightarrow> plain_text payload \<Longrightarrow>
    changeMasterPassword P st pw payload (Some ps) (w :: world) = (Inr (f', st'), w') \<Longrightarrow>
    vault_history P uk pw payload f' st'"
| reopen: "vault_history P uk pw payload f st \<Longrightarrow> openVault P f pw = Inr (st', payload') \<Longrightarrow>
    vault_history P uk pw payload' f st'"

definition vault_inv ::
  "'z platform_scheme \<Rightarrow> bytes \<Rightarrow> jsstring \<Rightarrow> jsstring \<Rightarrow> jsstring \<Rightarrow> VaultState \<Rightarrow> bool" where
  "vault_inv P uk pw payload f st \<longleftrightarrow>
     isVaultFile f \<and> vault_holds P pw st \<and> plain_text payload
     \<and> openVault P f pw = Inr (st, payload) \<and> vs_userKey st = uk"

lemma vault_holds_key: "vault_holds P pw st \<Longrightarrow> 32 \<le> length (vs_userKey st)"
  by (auto simp: vault_holds_def)

lemma webcrypto_aes: "webcrypto_ok P \<Longrightarrow> aes_ok P"
  by (simp add: webcrypto_ok_def)

lemma vault_history_inv:
  assumes "webcrypto_ok P" "vault_history P uk pw payload f st"
  shows "vault_inv P uk pw payload f st"
  using assms(2)
proof induction
  case (create pw payload ps w f st w')
  then show ?case
    using createVault_ok [OF assms(1) create(2,3), of w] by (auto simp: vault_inv_def)
next
  case (save uk pw old f st payload w f' w')
  then show ?case
    using serialize_ok [OF webcrypto_aes [OF assms(1)], of pw st payload w]
    by (auto simp: vault_inv_def saveVault_def)
next
  case (change uk oldPw old f st pw ps payload w f' st' w')
  then show ?case
    using changeMasterPassword_ok [OF assms(1) change(2,3), of st w] vault_holds_key
    by (auto simp: vault_inv_def)
next
  case (reopen uk pw payload f st st' payload')
  then show ?case
    by (simp add: vault_inv_def)
qed

text \<open>C2: the contract of the vault file. After any sequence of creating, saving, changing the
  password and re-opening, the file on disk is a vault file, the password last set opens it,
  to exactly the payload last written and the state in memory, and the user key is still
  the one drawn at creation, so no password change re-keys the payload.\<close>

theorem vault_file_contract:
  assumes "webcrypto_ok P" "vault_history P uk pw payload f st"
  shows "isVaultFile f \<and> openVault P f pw = Inr (st, payload) \<and> vs_userKey st = uk"
  using vault_history_inv [OF assms] by (simp add: vault_inv_def)

lemma sample_webcrypto: "webcrypto_ok sample_platform"
  by (simp add: webcrypto_ok_def sample_ok)

lemma sample_history:
  obtains f st where "vault_history sample_platform (vs_userKey st) (js ''first password'') (js ''[]'') f st"
proof -
  have s: "secret_ok sample_platform (js ''first password'') DEFAULT_KDF" "plain_text (js ''[]'')"
    by (code_simp, code_simp)
  then show ?thesis
    using createVault_ok [OF sample_webcrypto s, of sample_world] vault_history.create [OF _ s] that by metis
qed

theorem vault_file_contract_witness:
  "\<exists>uk f st. vault_history sample_platform uk (js ''first password'') (js ''[]'') f st
    \<and> openVault sample_platform f (js ''first password'') = Inr (st, js ''[]'')"
proof -
  obtain f st where h: "vault_history sample_platform (vs_userKey st) (js ''first password'') (js ''[]'') f st"
    using sample_history by blast
  show ?thesis
    using h vault_file_contract [OF sample_webcrypto h] by blast
qed

text \<open>C17: no reachable vault is stuck: from any history, saving a new payload and changing the
  password both succeed, whatever the random source gives, and lead to a longer history.\<close>

theorem vault_progress:
  assumes "webcrypto_ok P" "vault_history P uk pw payload f st"
    and "plain_text payload'" "secret_ok P pw' ps"
  shows "(\<exists>f' w'. saveVault P st payload' (w :: world) = (Inr f', w') \<and> vault_history P uk pw payload' f' st)
    \<and> (\<exists>f' st' w'. changeMasterPassword P st pw' payload' (Some ps) w = (Inr (f', st'), w')
        \<and> vault_history P uk pw' payload' f' st')"
proof -
  have i: "vault_holds P pw st"
    using vault_history_inv [OF assms(1,2)] by (simp add: vault_inv_def)
  obtain f1 w1 where "saveVault P st payload' w = (Inr f1, w1)"
    using serialize_ok [OF webcrypto_aes [OF assms(1)] i assms(3), of w] by (auto simp: saveVault_def)
  moreover obtain f2 st2 w2 where "changeMasterPassword P st pw' payload' (Some ps) w = (Inr (f2, st2), w2)"
    using changeMasterPassword_ok [OF assms(1,4,3) vault_holds_key [OF i], of w] by blast
  ultimately show ?thesis
    using vault_history.save [OF assms(2,3)] vault_history.change [OF assms(2,4,3)] by metis
qed

theorem vault_progress_witness:
  "\<exists>uk f st. vault_history sample_platform uk (js ''first password'') (js ''[1]'') f st"
proof -
  obtain f st where h: "vault_history sample_platform (vs_userKey st) (js ''first password'') (js ''[]'') f st"
    using sample_history by blast
  have "plain_text (js ''[1]'')" "secret_ok sample_platform (js ''second password'') DEFAULT_KDF"
    by (code_simp, code_simp)
  then show ?thesis
    using vault_progress [OF sample_webcrypto h] by blast
qed

text \<open>The two file formats are told apart before any key is derived: no text is both a vault and
  a backup, and each reader rejects the other's file with the error that says so.\<close>

theorem formats_disjoint:
  "\<not> (isVaultFile f \<and> isBackupEnvelope f)
   \<and> (isBackupEnvelope f \<longrightarrow> openVault P f pw = Inl ENotVault)
   \<and> (isVaultFile f \<longrightarrow> decryptBackup P f pw = Inl ENotBackup)"
proof -
  have "VAULT_FORMAT \<noteq> BACKUP_FORMAT"
    by (simp add: VAULT_FORMAT_def BACKUP_FORMAT_def)
  then show ?thesis
    by (auto simp: isVaultFile_def isBackupEnvelope_def openVault_def decryptBackup_def split: sum.splits)
qed

theorem formats_disjoint_witness:
  "openVault sample_platform (js ''{\"format\":\"passwd-backup\"}'') (js ''pw'') = Inl ENotVault
   \<and> decryptBackup sample_platform (js ''{\"format\":\"passwd-vault\"}'') (js ''pw'') = Inl ENotBackup"
proof -
  have "isBackupEnvelope (js ''{\"format\":\"passwd-backup\"}'')"
      "isVaultFile (js ''{\"format\":\"passwd-vault\"}'')"
    by (code_simp, code_simp)
  then show ?thesis
    using formats_disjoint by blast
qed

end
