(* ===== verification/Password.thy ===== *)
theory Password
  imports JSNumber
begin

text \<open>
  \<open>packages/crypto/src/password.ts\<close>: the master password policy shared by the clients.
\<close>

definition MIN_MASTER_PASSWORD_LENGTH :: nat where
  "MIN_MASTER_PASSWORD_LENGTH = 12"

text \<open>The four regular expressions, as tests of a character. Without the \<open>u\<close> flag they look at
  UTF-16 code units, as the length does.\<close>

definition char_tests :: "(u16 \<Rightarrow> bool) list" where
  "char_tests = [is_lower, is_upper, is_digit, \<lambda>c. \<not> (is_upper c \<or> is_lower c \<or> is_digit c)]"

definition masterPasswordIssue :: "jsstring \<Rightarrow> jsstring option" where
  "masterPasswordIssue password =
     (if length password < MIN_MASTER_PASSWORD_LENGTH
      then Some (js ''Use at least '' @ nat_str MIN_MASTER_PASSWORD_LENGTH
        @ js '' characters (a short passphrase works well).'')
      else if 16 \<le> length password then None
      else (let classes = length (filter (\<lambda>re. list_ex re password) char_tests)
            in if classes < 2
               then Some (js ''Mix in another character type, or use a longer passphrase.'')
               else None))"

text \<open>The class of a character: each belongs to exactly one.\<close>

definition char_kind :: "u16 \<Rightarrow> nat" where
  "char_kind c = (if is_lower c then 0 else if is_upper c then 1 else if is_digit c then 2 else 3)"

lemma classes_disjoint:
  "\<not> (is_lower c \<and> is_upper c)" "\<not> (is_lower c \<and> is_digit c)" "\<not> (is_upper c \<and> is_digit c)"
  by (auto simp: char_class_defs word_le_nat_alt)

lemma char_tests_kind: "i < 4 \<Longrightarrow> (char_tests ! i) c \<longleftrightarrow> char_kind c = i"
  using classes_disjoint [of c] by (auto simp: char_tests_def char_kind_def less_Suc_eq numeral_eq_Suc)

lemma classes_are_kinds:
  "length (filter (\<lambda>re. list_ex re s) char_tests) = card (char_kind ` set s)"
proof -
  have "length char_tests = 4"
    by (simp add: char_tests_def)
  then have "length (filter (\<lambda>re. list_ex re s) char_tests) = card {i. i < 4 \<and> list_ex (char_tests ! i) s}"
    by (simp only: length_filter_conv_card)
  also have "{i. i < 4 \<and> list_ex (char_tests ! i) s} = {i. i < 4 \<and> (\<exists>c \<in> set s. char_kind c = i)}"
    using char_tests_kind by (auto simp: list_ex_iff)
  also have "\<dots> = char_kind ` set s"
    by (auto simp: char_kind_def)
  finally show ?thesis .
qed

text \<open>The policy, exactly: a password is accepted when it has at least 16 code units, or at least
  12 of at least two of the four kinds of characters; everything else is refused with a reason.\<close>

theorem masterPasswordIssue_policy:
  "masterPasswordIssue s = None \<longleftrightarrow>
     16 \<le> length s \<or> 12 \<le> length s \<and> 2 \<le> card (char_kind ` set s)"
  by (auto simp: masterPasswordIssue_def MIN_MASTER_PASSWORD_LENGTH_def classes_are_kinds Let_def)

end
