(* ===== verification/Totp.thy ===== *)
theory Totp
  imports Sample
begin

unbundle bit_operations_syntax

text \<open>
  \<open>packages/crypto/src/totp.ts\<close>: one-time codes. The 32-bit shifts of the source are
  operations on \<open>32 word\<close>. Times are integers (milliseconds); the quotients are exact, which
  floating-point division is for every date a clock can show.
\<close>

record TotpConfig =
  totp_secret :: bytes
  totp_algorithm :: hash_alg
  totp_digits :: nat
  totp_period :: int

section \<open>Base32\<close>

definition b32_alphabet :: jsstring where
  "b32_alphabet = js ''ABCDEFGHIJKLMNOPQRSTUVWXYZ234567''"

text \<open>\<open>s.replace(/=+$/, "")\<close>.\<close>

definition strip_padding :: "jsstring \<Rightarrow> jsstring" where
  "strip_padding s = rev (dropWhile (\<lambda>c. c = jc (CHR ''='')) (rev s))"

definition b32_clean :: "'z jsenv_scheme \<Rightarrow> jsstring \<Rightarrow> jsstring" where
  "b32_clean J s =
     strip_padding (filter (\<lambda>c. \<not> (is_space c \<or> c = jc (CHR ''-''))) (toUpperCase J s))"

fun b32_loop :: "jsstring \<Rightarrow> nat \<Rightarrow> 32 word \<Rightarrow> bytes \<Rightarrow> bytes option" where
  "b32_loop [] bits value out = Some out"
| "b32_loop (ch # r) bits value out =
     (case indexOf ch b32_alphabet of
        None \<Rightarrow> None
      | Some idx \<Rightarrow>
          (let value' = (push_bit 5 value OR of_nat idx); bits' = bits + 5
           in if 8 \<le> bits'
              then b32_loop r (bits' - 8) value' (out @ [ucast (drop_bit (bits' - 8) value' AND 0xff)])
              else b32_loop r bits' value' out))"

definition base32Decode :: "'z jsenv_scheme \<Rightarrow> jsstring \<Rightarrow> bytes option" where
  "base32Decode J s =
     (let clean = b32_clean J s in if clean = [] then None else b32_loop clean 0 0 [])"

section \<open>Secrets\<close>

text \<open>\<open>s.replace(p, r)\<close> with a string pattern: the first occurrence only.\<close>

fun replace_first :: "jsstring \<Rightarrow> jsstring \<Rightarrow> jsstring \<Rightarrow> jsstring" where
  "replace_first p r [] = (if p = [] then r else [])"
| "replace_first p r (c # s) =
     (if startsWith (c # s) p then r @ drop (length p) (c # s) else c # replace_first p r s)"

definition is_otpauth :: "jsstring \<Rightarrow> bool" where
  "is_otpauth raw \<longleftrightarrow> map ascii_lower (take 10 raw) = js ''otpauth://''"

definition orElse :: "'a option \<Rightarrow> 'a \<Rightarrow> 'a" where
  "orElse oa d = (case oa of None \<Rightarrow> d | Some a \<Rightarrow> a)"

definition totp_alg :: "jsstring \<Rightarrow> hash_alg" where
  "totp_alg alg =
     (if alg = js ''SHA-256'' then SHA256 else if alg = js ''SHA-512'' then SHA512 else SHA1)"

definition parseTotpSecret :: "'z platform_scheme \<Rightarrow> jsstring \<Rightarrow> TotpConfig option" where
  "parseTotpSecret P input =
     (let raw = trim input in
      if raw = [] then None
      else if is_otpauth raw then
        (case url_search P raw of
           None \<Rightarrow> None
         | Some params \<Rightarrow>
             (case base32Decode P (orElse (params (js ''secret'')) []) of
                None \<Rightarrow> None
              | Some secret \<Rightarrow>
                  (let alg = replace_first (js ''SHA'') (js ''SHA-'')
                               (toUpperCase P (orElse (params (js ''algorithm'')) (js ''SHA1'')));
                       digits = parseInt (orElse (params (js ''digits'')) (js ''6''));
                       period = parseInt (orElse (params (js ''period'')) (js ''30''))
                   in Some \<lparr>totp_secret = secret,
                        totp_algorithm = totp_alg alg,
                        totp_digits = (case digits of
                            Some d \<Rightarrow> if 6 \<le> d \<and> d \<le> 10 then nat d else 6 | None \<Rightarrow> 6),
                        totp_period = (case period of
                            Some p \<Rightarrow> if 0 < p \<and> p \<le> 300 then p else 30 | None \<Rightarrow> 30)\<rparr>)))
      else
        (case base32Decode P raw of
           None \<Rightarrow> None
         | Some secret \<Rightarrow>
             Some \<lparr>totp_secret = secret, totp_algorithm = SHA1, totp_digits = 6, totp_period = 30\<rparr>))"

section \<open>Codes\<close>

text \<open>\<open>DataView.setUint32\<close>: the value modulo \<open>2^32\<close>, most significant byte first.\<close>

definition setUint32 :: "int \<Rightarrow> bytes" where
  "setUint32 x =
     [word_of_int (x div 2 ^ 24), word_of_int (x div 2 ^ 16), word_of_int (x div 2 ^ 8), word_of_int x]"

text \<open>Reading past the end of a typed array gives \<open>undefined\<close>, which the bit operators take
  for 0.\<close>

definition byte_at :: "bytes \<Rightarrow> nat \<Rightarrow> 32 word" where
  "byte_at b i = (if i < length b then ucast (b ! i) else 0)"

definition truncate31 :: "bytes \<Rightarrow> int" where
  "truncate31 mac =
     (let offset = unat (byte_at mac (length mac - 1) AND 0x0f)
      in sint (push_bit 24 (byte_at mac offset AND 0x7f) OR push_bit 16 (byte_at mac (offset + 1))
               OR push_bit 8 (byte_at mac (offset + 2)) OR byte_at mac (offset + 3)))"

definition hotp :: "'z platform_scheme \<Rightarrow> TotpConfig \<Rightarrow> int \<Rightarrow> jsstring result" where
  "hotp P cfg counter =
     bindR (wc_import_raw P (HMAC (totp_algorithm cfg)) (totp_secret cfg)) (\<lambda>key.
       let msg = setUint32 (counter div 0x100000000) @ setUint32 (counter mod 0x100000000)
       in bindR (wc_sign P (totp_algorithm cfg) key msg) (\<lambda>mac.
          Inr (padStart (totp_digits cfg) 48
            (int_str (truncate31 mac mod 10 ^ totp_digits cfg)))))"

text \<open>The remainder of JavaScript has the sign of the dividend.\<close>

definition js_mod :: "int \<Rightarrow> int \<Rightarrow> int" where
  "js_mod a b = (if 0 \<le> a then a mod b else - (- a mod b))"

definition totpCode ::
  "'z platform_scheme \<Rightarrow> TotpConfig \<Rightarrow> int \<Rightarrow> (jsstring \<times> int) result" where
  "totpCode P cfg nowMs =
     (let step = nowMs div 1000 div totp_period cfg
      in bindR (hotp P cfg step) (\<lambda>code.
         Inr (code, totp_period cfg - js_mod (nowMs div 1000) (totp_period cfg))))"

definition totpFromString ::
  "'z platform_scheme \<Rightarrow> jsstring \<Rightarrow> int \<Rightarrow> (jsstring \<times> int \<times> int) option result" where
  "totpFromString P stored nowMs =
     (case parseTotpSecret P stored of
        None \<Rightarrow> Inr None
      | Some cfg \<Rightarrow>
          bindR (totpCode P cfg nowMs) (\<lambda>(code, secondsLeft).
          Inr (Some (code, secondsLeft, totp_period cfg))))"


section \<open>Base32 decodes the number its digits write\<close>

definition b32_value :: "nat \<Rightarrow> nat list \<Rightarrow> nat" where
  "b32_value = foldl (\<lambda>a i. 32 * a + i)"

definition be_value :: "bytes \<Rightarrow> nat" where
  "be_value b = foldl (\<lambda>a x. 256 * a + unat x) 0 b"

fun b32_indices :: "jsstring \<Rightarrow> nat list option" where
  "b32_indices [] = Some []"
| "b32_indices (c # r) =
     (case indexOf c b32_alphabet of None \<Rightarrow> None | Some i \<Rightarrow> map_option ((#) i) (b32_indices r))"

lemma indexOf_less: "indexOf c s = Some i \<Longrightarrow> i < length s"
  by (induction s arbitrary: i) (auto split: if_splits)

lemma length_b32_alphabet: "length b32_alphabet = 32"
  by (simp add: b32_alphabet_def)

lemma b32_shift:
  assumes "idx < 32"
  shows "unat (push_bit 5 (v :: 32 word) OR of_nat idx) = (32 * unat v + idx) mod 2 ^ 32"
proof -
  have "push_bit 5 v AND of_nat idx = 0"
  proof (rule bit_eqI)
    fix n
    show "bit (push_bit 5 v AND of_nat idx) n \<longleftrightarrow> bit (0 :: 32 word) n"
    proof (cases "n < 5")
      case False
      then have "idx < 2 ^ n"
        using assms power_increasing [of 5 n "2 :: nat"] by simp
      then have "\<not> bit idx n"
        by (simp add: bit_iff_odd)
      then show ?thesis
        by (simp add: bit_simps)
    qed (simp add: bit_simps)
  qed
  then have "push_bit 5 v OR of_nat idx = push_bit 5 v + of_nat idx"
    by (simp add: disjunctive_add_eq_or)
  also have "\<dots> = of_nat (32 * unat v + idx)"
    by (simp add: push_bit_eq_mult)
  finally have eq: "push_bit 5 v OR of_nat idx = of_nat (32 * unat v + idx)" .
  show ?thesis
    unfolding eq by (simp only: unat_of_nat take_bit_eq_mod) simp
qed


lemma mod_div_byte: "(x :: nat) div a mod b = x mod (a * b) div a"
  by (cases "a = 0") (simp_all add: mod_mult2_eq)

lemma mod_pow_le: "m \<le> n \<Longrightarrow> (x :: nat) mod 2 ^ n mod 2 ^ m = x mod 2 ^ m"
  by (simp add: le_imp_power_dvd mod_mod_cancel)

text \<open>One step keeps the pending low bits of the accumulator and the bytes already written in
  step with the number read so far.\<close>

lemma b32_step:
  assumes "i < 32" "bits < 8" "unat v mod 2 ^ bits = N mod 2 ^ bits"
  shows "unat (push_bit 5 (v :: 32 word) OR of_nat i) mod 2 ^ (bits + 5) = (32 * N + i) mod 2 ^ (bits + 5)"
    and "(32 * N + i) div 2 ^ (bits + 5) = N div 2 ^ bits"
proof -
  have pow: "(2 :: nat) ^ (bits + 5) = 32 * 2 ^ bits"
    by (simp add: power_add)
  have "unat (push_bit 5 v OR of_nat i) mod 2 ^ (bits + 5) = (32 * unat v + i) mod 2 ^ (bits + 5)"
    using assms(1,2) by (simp only: b32_shift) (rule mod_pow_le, simp)
  also have "\<dots> = (32 * unat v mod (32 * 2 ^ bits) + i) mod 2 ^ (bits + 5)"
    by (simp only: pow mod_add_left_eq)
  also have "\<dots> = (32 * N mod (32 * 2 ^ bits) + i) mod 2 ^ (bits + 5)"
    by (simp only: mult_mod_right [symmetric] assms(3))
  also have "\<dots> = (32 * N + i) mod 2 ^ (bits + 5)"
    by (simp only: pow mod_add_left_eq)
  finally show "unat (push_bit 5 v OR of_nat i) mod 2 ^ (bits + 5) = (32 * N + i) mod 2 ^ (bits + 5)" .
  show "(32 * N + i) div 2 ^ (bits + 5) = N div 2 ^ bits"
    using assms(1) by (simp add: pow div_mult2_eq)
qed

lemma b32_emit:
  assumes "unat (v :: 32 word) mod 2 ^ (q + 8) = M mod 2 ^ (q + 8)"
  shows "256 * (M div 2 ^ (q + 8)) + unat (ucast (drop_bit q v AND 0xff) :: byte) = M div 2 ^ q"
proof -
  have "drop_bit q v AND 0xff = take_bit 8 (drop_bit q v)"
    by (simp add: take_bit_eq_mask mask_eq_exp_minus_1)
  then have "unat (ucast (drop_bit q v AND 0xff) :: byte) = take_bit 8 (take_bit 8 (drop_bit q (unat v)))"
    using unsigned_less [of v, where ?'a = nat]
    by (simp only: unsigned_ucast_eq unsigned_take_bit_eq unsigned_drop_bit_eq)
      (simp add: take_bit_nat_eq_self)
  also have "\<dots> = unat v div 2 ^ q mod 256"
    by (simp add: take_bit_eq_mod drop_bit_eq_div)
  finally have "unat (ucast (drop_bit q v AND 0xff) :: byte) = unat v div 2 ^ q mod 256" .
  also have "\<dots> = M div 2 ^ q mod 256"
    using assms by (simp add: mod_div_byte power_add)
  finally show ?thesis
    by (simp add: power_add div_mult2_eq)
qed

lemma be_value_snoc [simp]: "be_value (b @ [x]) = 256 * be_value b + unat x"
  by (simp add: be_value_def)

lemma b32_loop_spec:
  "bits < 8 \<Longrightarrow> unat v mod 2 ^ bits = N mod 2 ^ bits \<Longrightarrow> be_value out = N div 2 ^ bits \<Longrightarrow>
   (case b32_indices s of
      None \<Rightarrow> b32_loop s bits v out = None
    | Some ds \<Rightarrow> (\<exists>res. b32_loop s bits v out = Some res
        \<and> length res = length out + (bits + 5 * length s) div 8
        \<and> be_value res = b32_value N ds div 2 ^ ((bits + 5 * length s) mod 8)))"
proof (induction s bits v out arbitrary: N rule: b32_loop.induct)
  case (1 bits v out)
  then show ?case
    by (simp add: b32_value_def)
next
  case (2 ch r bits v out)
  show ?case
  proof (cases "indexOf ch b32_alphabet")
    case (Some i)
    have i: "i < 32"
      using indexOf_less [OF Some] by (simp add: length_b32_alphabet)
    let ?v = "push_bit 5 v OR of_nat i" and ?N = "32 * N + i"
    note step = b32_step [OF i "2.prems"(1,2)]
    have val: "b32_value N (i # ds) = b32_value ?N ds" for ds
      by (simp add: b32_value_def)
    show ?thesis
    proof (cases "8 \<le> bits + 5")
      case True
      then obtain q where q: "bits + 5 = q + 8"
        by (metis add.commute le_Suc_ex)
      let ?out = "out @ [ucast (drop_bit q ?v AND 0xff)]"
      have a: "unat ?v mod 2 ^ q = ?N mod 2 ^ q"
        using step(1) mod_pow_le [of q "q + 8"] by (metis q le_add1)
      have b: "be_value ?out = ?N div 2 ^ q"
        using b32_emit [of ?v q ?N] step "2.prems"(3) q by simp
      have q': "bits + 5 - 8 = q" and "q < 8"
        using q "2.prems"(1) by simp_all
      then have IH: "case b32_indices r of
          None \<Rightarrow> b32_loop r q ?v ?out = None
        | Some ds \<Rightarrow> (\<exists>res. b32_loop r q ?v ?out = Some res
            \<and> length res = length ?out + (q + 5 * length r) div 8
            \<and> be_value res = b32_value ?N ds div 2 ^ ((q + 5 * length r) mod 8))"
        by (intro "2.IH"(1) [OF Some refl refl True, unfolded q'] a b)
      have "bits + 5 * length (ch # r) = (q + 5 * length r) + 8"
        using q by simp
      then show ?thesis
        using IH Some True q by (auto simp: val split: option.splits)
    next
      case False
      have IH: "case b32_indices r of
          None \<Rightarrow> b32_loop r (bits + 5) ?v out = None
        | Some ds \<Rightarrow> (\<exists>res. b32_loop r (bits + 5) ?v out = Some res
            \<and> length res = length out + (bits + 5 + 5 * length r) div 8
            \<and> be_value res = b32_value ?N ds div 2 ^ ((bits + 5 + 5 * length r) mod 8))"
        using "2.IH"(2) [OF Some refl refl False, of ?N] step "2.prems"(3) False by simp
      then show ?thesis
        using Some False by (auto simp: val ac_simps split: option.splits)
    qed
  qed simp
qed

text \<open>C15: base32 decoding is that of RFC 4648, in any case and with spaces, dashes and padding
  removed: a text of \<open>n > 0\<close> digits gives the first \<open>5 n div 8\<close> bytes of the number the digits
  write, most significant first, the left-over bits dropped; any other character, or no digit at
  all, gives no secret.\<close>

theorem base32Decode_rfc4648:
  "(case b32_indices (b32_clean J s) of
      None \<Rightarrow> base32Decode J s = None
    | Some ds \<Rightarrow>
        if ds = [] then base32Decode J s = None
        else \<exists>res. base32Decode J s = Some res \<and> length res = 5 * length ds div 8
          \<and> be_value res = b32_value 0 ds div 2 ^ (5 * length ds mod 8))"
proof -
  have len: "length ds = length t" if "b32_indices t = Some ds" for t ds
    using that by (induction t arbitrary: ds) (auto split: option.splits)
  have "case b32_indices (b32_clean J s) of
      None \<Rightarrow> b32_loop (b32_clean J s) 0 0 [] = None
    | Some ds \<Rightarrow> (\<exists>res. b32_loop (b32_clean J s) 0 0 [] = Some res
        \<and> length res = length ([] :: bytes) + (0 + 5 * length (b32_clean J s)) div 8
        \<and> be_value res = b32_value 0 ds div 2 ^ ((0 + 5 * length (b32_clean J s)) mod 8))"
    by (rule b32_loop_spec) (simp_all add: be_value_def)
  then show ?thesis
    using len [of "b32_clean J s"]
    by (auto simp: base32Decode_def Let_def split: option.splits)
qed


section \<open>HOTP is the function of RFC 4226\<close>

lemma or_shift:
  fixes x y :: "32 word"
  assumes "unat y < 2 ^ k" "2 ^ k * unat x < 2 ^ 32" "k < 32"
  shows "unat (push_bit k x OR y) = 2 ^ k * unat x + unat y"
proof -
  have "push_bit k x AND y = 0"
  proof (rule bit_eqI)
    fix n
    show "bit (push_bit k x AND y) n \<longleftrightarrow> bit (0 :: 32 word) n"
    proof (cases "n < k")
      case False
      then have "unat y < 2 ^ n"
        by (intro less_le_trans [OF assms(1)]) simp
      then have "\<not> bit (unat y) n"
        by (simp add: bit_iff_odd)
      then have "\<not> bit y n"
        by (simp add: bit_unsigned_iff)
      then show ?thesis
        by (simp add: bit_simps)
    qed (simp add: bit_simps)
  qed
  then have "unat (push_bit k x OR y) = unat (push_bit k x + y)"
    by (simp add: disjunctive_add_eq_or)
  moreover have p: "unat (push_bit k x) = 2 ^ k * unat x"
    using assms(2) by (simp only: unsigned_push_bit_eq) (simp add: push_bit_eq_mult take_bit_nat_eq_self mult.commute)
  moreover have "2 ^ k * unat x + unat y < 2 ^ 32"
  proof -
    have "2 ^ 32 = 2 ^ k * (2 :: nat) ^ (32 - k)"
      using assms(3) by (simp add: power_add [symmetric])
    moreover from this have "unat x + 1 \<le> 2 ^ (32 - k)"
      using assms(2) by (metis Suc_eq_plus1 Suc_leI mult_less_cancel1)
    then have "2 ^ k * unat x + 2 ^ k \<le> 2 ^ k * (2 :: nat) ^ (32 - k)"
      by (metis add_mult_distrib2 mult.right_neutral mult_le_mono2)
    ultimately show ?thesis
      using assms(1) by linarith
  qed
  ultimately show ?thesis
    by (simp add: unat_word_ariths)
qed


lemma unat_byte_at: "i < length b \<Longrightarrow> unat (byte_at b i) = unat (b ! i)"
  using unat_lt8 [of "b ! i"] by (simp add: byte_at_def unsigned_ucast_eq take_bit_nat_eq_self)

lemma unat_and_low: "unat (x AND 0x7f) = unat x mod 128" "unat (x AND 0x0f) = unat x mod 16"
  for x :: "32 word"
proof -
  have "x AND 0x7f = take_bit 7 x" "x AND 0x0f = take_bit 4 x"
    by (simp_all add: take_bit_eq_mask mask_eq_exp_minus_1)
  then show "unat (x AND 0x7f) = unat x mod 128" "unat (x AND 0x0f) = unat x mod 16"
    by (simp_all add: take_bit_eq_mod unat_mod_distrib)
qed

text \<open>The dynamic truncation of RFC 4226: four bytes from the offset the last half-byte gives, most
  significant first, without the sign bit.\<close>

definition rfc4226_truncate :: "bytes \<Rightarrow> nat" where
  "rfc4226_truncate mac = be_value (take 4 (drop (unat (last mac) mod 16) mac)) mod 2 ^ 31"

lemma take4_drop:
  assumes "o1 + 3 < length (m :: bytes)"
  shows "take 4 (drop o1 m) = [m ! o1, m ! (o1 + 1), m ! (o1 + 2), m ! (o1 + 3)]"
  by (rule nth_equalityI) (use assms in \<open>auto simp: numeral_eq_Suc less_Suc_eq\<close>)

lemma sint_small: "unat w < 2 ^ 31 \<Longrightarrow> sint w = int (unat w)" for w :: "32 word"
proof -
  assume "unat w < 2 ^ 31"
  then have "int (unat w) < 2 ^ 31"
    by (metis of_nat_less_iff of_nat_numeral of_nat_power)
  then show ?thesis
    using signed_take_bit_int_eq_self [of 31 "int (unat w)"] order_trans [of "- (2 ^ 31)" 0 "uint w"]
    by (simp add: sint_uint)
qed

lemma truncate31_rfc4226:
  assumes "20 \<le> length mac"
  shows "truncate31 mac = int (rfc4226_truncate mac)"
proof -
  define off where "off = unat (last mac) mod 16"
  have ne: "mac \<noteq> []" and len: "off + 3 < length mac"
    using assms mod_less_divisor [of 16 "unat (last mac)"] by (auto simp: off_def)
  have off: "unat (byte_at mac (length mac - 1) AND 0x0f) = off"
    using ne by (simp add: unat_and_low unat_byte_at off_def last_conv_nth)
  define a b c d where abcd: "a = unat (mac ! off)" "b = unat (mac ! (off + 1))"
    "c = unat (mac ! (off + 2))" "d = unat (mac ! (off + 3))"
  have lt: "a < 256" "b < 256" "c < 256" "d < 256"
    unfolding abcd by (rule unat_lt8)+
  have at: "unat (byte_at mac off) = a" "unat (byte_at mac (off + 1)) = b"
    "unat (byte_at mac (off + 2)) = c" "unat (byte_at mac (off + 3)) = d"
    unfolding abcd using len by (intro unat_byte_at; linarith)+
  let ?cd = "push_bit 8 (byte_at mac (off + 2)) OR byte_at mac (off + 3)"
  let ?bcd = "push_bit 16 (byte_at mac (off + 1)) OR ?cd"
  let ?w = "push_bit 24 (byte_at mac off AND 0x7f) OR ?bcd"
  have "unat ?cd = 256 * c + d"
    using at lt by (subst or_shift) simp_all
  then have "unat ?bcd = 65536 * b + 256 * c + d"
    using at lt by (subst or_shift) simp_all
  then have w: "unat ?w = 16777216 * (a mod 128) + 65536 * b + 256 * c + d"
    using at lt mod_less_divisor [of 128 a] by (subst or_shift) (simp_all add: unat_and_low)
  have "a div 128 * 2 ^ 31 + (16777216 * (a mod 128) + 65536 * b + 256 * c + d)
      = 16777216 * a + 65536 * b + 256 * c + d"
  proof -
    have "16777216 * (k * 128 + r) = k * 2 ^ 31 + 16777216 * r" for k r :: nat
      by simp
    from this [of "a div 128" "a mod 128"] show ?thesis
      by (simp only: div_mult_mod_eq add.assoc [symmetric])
  qed
  moreover have small: "16777216 * (a mod 128) + 65536 * b + 256 * c + d < 2 ^ 31"
  proof -
    have "a mod 128 < 128"
      by simp
    then have "16777216 * (a mod 128) + 65536 * b + 256 * c + d < 2147483648"
      using lt by linarith
    then show ?thesis
      by simp
  qed
  ultimately have "(16777216 * a + 65536 * b + 256 * c + d) mod 2 ^ 31 = unat ?w"
    using w by (metis mod_less mod_mult_self3)
  moreover have "be_value (take 4 (drop off mac)) = 16777216 * a + 65536 * b + 256 * c + d"
    by (simp add: take4_drop [OF len] be_value_def abcd)
  ultimately have "rfc4226_truncate mac = unat ?w"
    by (simp add: rfc4226_truncate_def off_def)
  moreover have "sint ?w = int (unat ?w)"
    using small w by (intro sint_small) simp
  ultimately show ?thesis
    by (simp only: truncate31_def Let_def off)
qed


lemma unat_of_int_byte: "unat (word_of_int x :: byte) = nat (x mod 256)"
  by (simp add: unsigned_of_int take_bit_eq_mod)

lemma be_value_setUint32: "int (be_value (setUint32 x)) = x mod 2 ^ 32"
proof -
  define q where "q = x div 2 ^ 8"
  define r where "r = q div 2 ^ 8"
  define t where "t = r div 2 ^ 8"
  have "x div 2 ^ 16 = r" "x div 2 ^ 24 = t"
    by (simp_all add: q_def r_def t_def div_mult2_eq [symmetric])
  then have "int (be_value (setUint32 x)) =
      256 * (256 * (256 * (t mod 256) + r mod 256) + q mod 256) + x mod 256"
    by (simp add: setUint32_def be_value_def unat_of_int_byte q_def)
  also have "256 * (t mod 256) + r mod 256 = r mod 2 ^ 16"
    using mod_mult2_eq' [of r 256 256] by (simp add: t_def mod_mult2_eq)
  also have "256 * (r mod 2 ^ 16) + q mod 256 = q mod 2 ^ 24"
    using mod_mult2_eq' [of q 256 "2 ^ 16"] by (simp add: r_def mod_mult2_eq)
  also have "256 * (q mod 2 ^ 24) + x mod 256 = x mod 2 ^ 32"
    using mod_mult2_eq' [of x 256 "2 ^ 24"] by (simp add: q_def mod_mult2_eq)
  finally show ?thesis .
qed


lemma be_value_append: "be_value (a @ b) = be_value a * 256 ^ length b + be_value b"
proof (induction b rule: rev_induct)
  case (snoc x b)
  then show ?case
    by (simp add: be_value_def algebra_simps)
qed (simp add: be_value_def)

lemma counter_message:
  fixes counter :: int
  defines "msg \<equiv> setUint32 (counter div 0x100000000) @ setUint32 (counter mod 0x100000000)"
  shows "length msg = 8" "int (be_value msg) = counter mod 2 ^ 64"
proof -
  show "length msg = 8"
    by (simp add: msg_def setUint32_def)
  have "length (setUint32 x) = 4" for x
    by (simp add: setUint32_def)
  then have "int (be_value msg) = int (be_value (setUint32 (counter div 0x100000000))) * 2 ^ 32
      + int (be_value (setUint32 (counter mod 0x100000000)))"
    by (simp add: msg_def be_value_append)
  also have "\<dots> = 4294967296 * (counter div 4294967296 mod 4294967296) + counter mod 4294967296"
    by (simp only: be_value_setUint32) simp
  also have "\<dots> = counter mod 2 ^ 64"
    using mod_mult2_eq' [of counter 4294967296 4294967296] by simp
  finally show "int (be_value msg) = counter mod 2 ^ 64" .
qed

lemma digits_val_zeros: "digits_val (replicate k 48 @ s) = digits_val s"
proof (induction k)
  case (Suc k)
  have "foldl (\<lambda>a c. 10 * a + digit_val c) 0 (48 # t) = foldl (\<lambda>a c. 10 * a + digit_val c) 0 t" for t
    by (simp add: digit_val_def)
  with Suc show ?case
    by (simp add: digits_val_def)
qed simp

text \<open>The decimal text of a number below \<open>10^d\<close>, padded to \<open>d\<close> digits.\<close>

lemma code_text:
  assumes "0 < d" "n < 10 ^ d"
  defines "code \<equiv> padStart d 48 (int_str (int n))"
  shows "length code = d" "\<forall>c \<in> set code. is_digit c" "digits_val code = n"
proof -
  have code: "code = replicate (d - length (nat_str n)) 48 @ nat_str n"
    by (simp add: code_def padStart_def int_str_def)
  show "length code = d"
    using length_nat_str [OF assms(2,1)] by (simp add: code)
  show "\<forall>c \<in> set code. is_digit c"
    using nat_str_digits by (auto simp: code is_digit_def)
  show "digits_val code = n"
    by (simp add: code digits_val_zeros)
qed

text \<open>C12: \<open>hotp\<close> is HOTP of RFC 4226 with its eight-byte big-endian counter, for each hash of
  RFC 6238: a code is always produced for a key that is not empty, it has exactly the configured number
  of decimal digits, and its value is the dynamic truncation of the MAC modulo \<open>10^digits\<close>.\<close>

theorem hotp_rfc4226:
  assumes "mac_ok P" "totp_secret cfg \<noteq> []" "0 < totp_digits cfg"
  shows "\<exists>key msg mac code.
    wc_import_raw P (HMAC (totp_algorithm cfg)) (totp_secret cfg) = Inr key
    \<and> length msg = 8 \<and> int (be_value msg) = counter mod 2 ^ 64
    \<and> wc_sign P (totp_algorithm cfg) key msg = Inr mac
    \<and> hotp P cfg counter = Inr code
    \<and> length code = totp_digits cfg \<and> (\<forall>c \<in> set code. is_digit c)
    \<and> digits_val code = rfc4226_truncate mac mod 10 ^ totp_digits cfg"
proof -
  let ?msg = "setUint32 (counter div 0x100000000) @ setUint32 (counter mod 0x100000000)"
  obtain key mac where k: "wc_import_raw P (HMAC (totp_algorithm cfg)) (totp_secret cfg) = Inr key"
      "\<And>m. wc_sign P (totp_algorithm cfg) key m = Inr (mac m)"
      "\<And>m. length (mac m) = hash_len (totp_algorithm cfg)"
    using mac_function [OF assms(1,2)] by metis
  have "20 \<le> length (mac ?msg)"
    unfolding k(3) by (cases "totp_algorithm cfg") simp_all
  then have t: "truncate31 (mac ?msg) = int (rfc4226_truncate (mac ?msg))"
    by (rule truncate31_rfc4226)
  let ?n = "rfc4226_truncate (mac ?msg) mod 10 ^ totp_digits cfg"
  have "hotp P cfg counter = Inr (padStart (totp_digits cfg) 48 (int_str (int ?n)))"
    by (simp add: hotp_def k Let_def t zmod_int)
  moreover have "?n < 10 ^ totp_digits cfg"
    by simp
  ultimately show ?thesis
    using k counter_message [of counter] code_text [OF assms(3), of ?n] by blast
qed

theorem hotp_rfc4226_witness:
  "\<exists>code. hotp sample_platform \<lparr>totp_secret = [1, 2, 3], totp_algorithm = SHA1, totp_digits = 6,
      totp_period = 30\<rparr> 59 = Inr code \<and> length code = 6"
  using hotp_rfc4226 [OF sample_mac, of "\<lparr>totp_secret = [1, 2, 3], totp_algorithm = SHA1,
      totp_digits = 6, totp_period = 30\<rparr>" 59] by auto

section \<open>Time steps and configurations\<close>

lemma hotp_total:
  assumes "mac_ok P" "totp_secret cfg \<noteq> []"
  shows "\<exists>code. hotp P cfg counter = Inr code"
  by (rule mac_function [OF assms, of "totp_algorithm cfg"]) (simp add: hotp_def Let_def)

lemma window_div:
  fixes s p d :: int
  assumes "0 < p" "0 \<le> d" "d < p - s mod p"
  shows "(s + d) div p = s div p" "(s + d) mod p = s mod p + d"
proof -
  define q r where "q = s div p" and "r = s mod p + d"
  have s: "s + d = r + q * p"
    by (simp add: q_def r_def algebra_simps)
  have "0 \<le> r" "r < p"
    using assms by (simp_all add: r_def)
  then have "(s + d) div p = q" "(s + d) mod p = r"
    unfolding s using assms(1) by simp_all
  then show "(s + d) div p = s div p" "(s + d) mod p = s mod p + d"
    by (simp_all add: q_def r_def)
qed

text \<open>The remaining time is right. At a time on or after 1970 the code shown is valid for at least one
  and at most \<open>period\<close> seconds; for every whole second before that time is up the code stays
  the same while the remaining time counts down, and when it is up the next time step begins.\<close>

theorem totpCode_window:
  assumes "0 < totp_period cfg" "0 \<le> t" "totpCode P cfg t = Inr (code, left)"
  shows "1 \<le> left \<and> left \<le> totp_period cfg
    \<and> (\<forall>d. 0 \<le> d \<and> d < left \<longrightarrow> totpCode P cfg (t + 1000 * d) = Inr (code, left - d))
    \<and> (t + 1000 * left) div 1000 div totp_period cfg = t div 1000 div totp_period cfg + 1
    \<and> (t + 1000 * left) div 1000 mod totp_period cfg = 0"
proof -
  let ?p = "totp_period cfg" and ?s = "t div 1000"
  have s: "0 \<le> ?s"
    using assms(2) by (simp add: pos_imp_zdiv_nonneg_iff)
  have sec: "(t + 1000 * d) div 1000 = ?s + d" for d
    by simp
  have left: "left = ?p - ?s mod ?p" and code: "hotp P cfg (?s div ?p) = Inr code"
    using assms(3) s by (auto simp: totpCode_def js_mod_def)
  have "totpCode P cfg (t + 1000 * d) = Inr (code, left - d)" if "0 \<le> d" "d < left" for d
    using window_div [of ?p d ?s] assms(1) that left code s
    by (simp add: totpCode_def sec js_mod_def Let_def)
  moreover have "?s + left = (?s div ?p + 1) * ?p"
    using left by (simp add: algebra_simps minus_mod_eq_mult_div [symmetric])
  then have "(?s + left) div ?p = ?s div ?p + 1" "(?s + left) mod ?p = 0"
    using assms(1) by simp_all
  moreover have "1 \<le> left" "left \<le> ?p"
    using left assms(1) by (simp_all add: pos_mod_bound [of ?p ?s] int_one_le_iff_zero_less)
  ultimately show ?thesis
    by (simp add: sec)
qed

theorem totpCode_window_witness:
  "\<exists>code. totpCode sample_platform \<lparr>totp_secret = [1, 2, 3], totp_algorithm = SHA1, totp_digits = 6,
      totp_period = 30\<rparr> (59000 + 1000 * 0) = Inr (code, 1 - 0)"
proof -
  let ?cfg = "\<lparr>totp_secret = [1, 2, 3], totp_algorithm = SHA1, totp_digits = 6, totp_period = 30\<rparr>"
  obtain code where "hotp sample_platform ?cfg 1 = Inr code"
    using hotp_total [OF sample_mac, of ?cfg 1] by auto
  then have "totpCode sample_platform ?cfg 59000 = Inr (code, 1)"
    by (simp add: totpCode_def js_mod_def)
  then show ?thesis
    using totpCode_window [of ?cfg 59000 sample_platform code 1] by simp
qed

text \<open>Whatever is pasted, a configuration that is accepted has between 6 and 10 digits and a
  period of 1 to 300 seconds.\<close>

theorem parseTotpSecret_bounds:
  "parseTotpSecret P input = Some cfg \<Longrightarrow>
   6 \<le> totp_digits cfg \<and> totp_digits cfg \<le> 10 \<and> 0 < totp_period cfg \<and> totp_period cfg \<le> 300"
  by (auto simp: parseTotpSecret_def Let_def split: option.splits if_splits)

text \<open>A single base32 digit is five bits, not a byte: it is accepted as a secret of no bytes,
  although no code can be computed from it.\<close>

lemma parseTotpSecret_empty_secret:
  "map_option totp_secret (parseTotpSecret sample_platform (js ''A'')) = Some []
   \<and> totpFromString sample_platform (js ''A'') 0 = Inl EData"
  by code_simp

end
