(* ===== verification/Api.thy ===== *)
theory Api
  imports Account
begin

text \<open>
  \<open>packages/api-client/src/api.ts\<close>: the transport. The network and the server behind it are one
  function of the platform, \<open>fetch\<close>, from a request and the state of the outside to a response (or a
  rejection) and the next state; the state is a component of the world. The module variable
  \<open>baseUrl\<close> is another. Replies are JSON read unchecked, hence \<open>jsval\<close>.
\<close>

section \<open>Requests\<close>

record request =
  rq_method :: jsstring
  rq_url :: jsstring
  rq_headers :: "(jsstring \<times> jsstring) list"
  rq_body :: "jsstring option"

record response =
  rs_status :: int
  rs_text :: jsstring

definition rs_ok :: "response \<Rightarrow> bool" where
  "rs_ok r \<longleftrightarrow> 200 \<le> rs_status r \<and> rs_status r < 300"

record 'n networld = world +
  net :: 'n
  baseUrl :: jsstring

record 'n service = platform +
  fetch :: "request \<Rightarrow> 'n \<Rightarrow> response result \<times> 'n"
  wa_create :: "jsval option \<Rightarrow> 'n \<Rightarrow> jsval result \<times> 'n"
    \<comment> \<open>\<open>startRegistration\<close> of @simplewebauthn/browser\<close>
  wa_get :: "jsval option \<Rightarrow> 'n \<Rightarrow> jsval result \<times> 'n" \<comment> \<open>\<open>startAuthentication\<close>\<close>

text \<open>An effect on the outside.\<close>

definition outside :: "('n \<Rightarrow> 'a result \<times> 'n) \<Rightarrow> (('n, 'y) networld_scheme, 'a) act" where
  "outside f w = (let (r, n) = f (net w) in (r, w\<lparr>net := n\<rparr>))"

definition configureApi :: "jsstring \<Rightarrow> (('n, 'y) networld_scheme, unit) act" where
  "configureApi url w =
     (Inr (), w\<lparr>baseUrl := (if url \<noteq> [] \<and> last url = jc (CHR ''/'') then butlast url else url)\<rparr>)"

text \<open>The text of a value that may be \<open>undefined\<close>, as a template string shows it.\<close>

definition valText :: "'z jsenv_scheme \<Rightarrow> jsval option \<Rightarrow> jsstring result" where
  "valText J ov = (case ov of None \<Rightarrow> Inr (js ''undefined'') | Some v \<Rightarrow> toText J v)"

text \<open>\<open>new Error(v || d)\<close>.\<close>

definition errorOf :: "'z jsenv_scheme \<Rightarrow> jsval option \<Rightarrow> jserror \<Rightarrow> 'a result" where
  "errorOf J ov d =
     (case ov of
        Some v \<Rightarrow> if truthy v then bindR (toText J v) (\<lambda>t. Inl (EServer t)) else Inl d
      | None \<Rightarrow> Inl d)"

definition call ::
  "('n, 'z) service_scheme \<Rightarrow> string \<Rightarrow> jsstring \<Rightarrow> jsval option \<Rightarrow> jsval option
   \<Rightarrow> (('n, 'y) networld_scheme, jsval) act" where
  "call P method path body token w =
     (let h1 = (if body \<noteq> None then [(js ''content-type'', js ''application/json'')] else [])
      in bindA (liftA (if truthy_opt token
                       then mapR (\<lambda>t. h1 @ [(js ''authorization'', js ''Bearer '' @ t)]) (valText P token)
                       else Inr h1)) (\<lambda>headers.
         bindA (outside (fetch P
           \<lparr>rq_method = js method, rq_url = baseUrl w @ path, rq_headers = headers,
            rq_body = map_option (JSON_stringify P 0) body\<rparr>)) (\<lambda>res.
         bindA (liftA (if rs_text res \<noteq> [] then JSON_parse (rs_text res) else Inr (JObj []))) (\<lambda>json.
         if \<not> rs_ok res
         then liftA (bindR (get_prop json (js ''error'')) (\<lambda>e. errorOf P e (ERequestFailed (rs_status res))))
         else returnA json))) w)"

abbreviation obj :: "(string \<times> jsval) list \<Rightarrow> jsval" where
  "obj kvs \<equiv> JObj (map (\<lambda>(k, v). (js k, v)) kvs)"

section \<open>The endpoints\<close>

definition prelogin where
  "prelogin P identifier =
     call P ''POST'' (js ''/api/accounts/prelogin'') (Some (obj [(''identifier'', JStr identifier)])) None"

text \<open>The bundle as the object that is sent; an undefined \<open>kdf\<close> is left out.\<close>

definition bundleVal :: "RegistrationBundle \<Rightarrow> jsval" where
  "bundleVal b = JObj ([(js ''identifier'', JStr (rb_identifier b))]
     @ (case rb_kdf b of None \<Rightarrow> [] | Some v \<Rightarrow> [(js ''kdf'', v)])
     @ [(js ''masterPasswordHash'', JStr (rb_masterPasswordHash b)),
        (js ''protectedUserKey'', JStr (rb_protectedUserKey b)),
        (js ''publicKey'', JStr (rb_publicKey b)),
        (js ''protectedPrivateKey'', JStr (rb_protectedPrivateKey b))])"

definition register where
  "register P bundle = call P ''POST'' (js ''/api/accounts/register'') (Some (bundleVal bundle)) None"

definition deleteAccountReq where
  "deleteAccountReq P token = call P ''DELETE'' (js ''/api/account'') None token"

definition listSessions where
  "listSessions P token = call P ''GET'' (js ''/api/sessions'') None token"

definition logoutAll where
  "logoutAll P token = call P ''POST'' (js ''/api/auth/logout-all'') None token"

text \<open>\<open>login\<close>: the reply of a 401 that asks for a second factor is a value, not an error.\<close>

definition login ::
  "('n, 'z) service_scheme \<Rightarrow> jsstring \<Rightarrow> jsstring \<Rightarrow> jsstring option
   \<Rightarrow> (('n, 'y) networld_scheme, jsval) act" where
  "login P identifier masterPasswordHash totpCode w =
     bindA (outside (fetch P
       \<lparr>rq_method = js ''POST'', rq_url = baseUrl w @ js ''/api/auth/login'',
        rq_headers = [(js ''content-type'', js ''application/json'')],
        rq_body = Some (JSON_stringify P 0 (JObj
          ([(js ''identifier'', JStr identifier), (js ''masterPasswordHash'', JStr masterPasswordHash)]
           @ (case totpCode of None \<Rightarrow> [] | Some c \<Rightarrow> [(js ''totpCode'', JStr c)]))))\<rparr>)) (\<lambda>res.
     let json = (case JSON_parse (rs_text res) of Inl _ \<Rightarrow> JObj [] | Inr v \<Rightarrow> v) in
     if rs_ok res then returnA json
     else liftA
       (bindR (if rs_status res = 401 then get_prop json (js ''twoFactorRequired'') else Inr None) (\<lambda>tf.
        if truthy_opt tf
        then bindR (get_prop json (js ''methods'')) (\<lambda>ms.
             Inr (JObj [(js ''twoFactorRequired'', JBool True), (js ''methods'', nullish ms (JArr []))]))
        else bindR (get_prop json (js ''error'')) (\<lambda>e. errorOf P e (ELoginFailed (rs_status res)))))) w"

definition twoFactorStatus where
  "twoFactorStatus P token = call P ''GET'' (js ''/api/2fa'') None token"

definition twoFactorSetup where
  "twoFactorSetup P token = call P ''POST'' (js ''/api/2fa/setup'') (Some (JObj [])) token"

definition twoFactorEnable where
  "twoFactorEnable P token code =
     call P ''POST'' (js ''/api/2fa/enable'') (Some (obj [(''code'', JStr code)])) token"

definition twoFactorDisable where
  "twoFactorDisable P token code =
     call P ''POST'' (js ''/api/2fa/disable'') (Some (obj [(''code'', JStr code)])) token"

definition recoveryStatus where
  "recoveryStatus P token = call P ''GET'' (js ''/api/recovery'') None token"

definition recoveryEnable where
  "recoveryEnable P token recoveryProtectedUserKey recoveryAuthHash =
     call P ''POST'' (js ''/api/recovery/enable'')
       (Some (obj [(''recoveryProtectedUserKey'', JStr recoveryProtectedUserKey),
                   (''recoveryAuthHash'', JStr recoveryAuthHash)])) token"

definition recoveryDisable where
  "recoveryDisable P token = call P ''POST'' (js ''/api/recovery/disable'') None token"

definition recoveryChallenge where
  "recoveryChallenge P identifier =
     call P ''POST'' (js ''/api/auth/recovery/challenge'') (Some (obj [(''identifier'', JStr identifier)])) None"

definition recoveryComplete where
  "recoveryComplete P identifier reset =
     call P ''POST'' (js ''/api/auth/recovery/complete'')
       (Some (JObj ([(js ''identifier'', JStr identifier),
          (js ''recoveryAuthHash'', JStr (rr_recoveryAuthHash reset)),
          (js ''masterPasswordHash'', JStr (rr_masterPasswordHash reset)),
          (js ''protectedUserKey'', JStr (rr_protectedUserKey reset))]
          @ (case rr_kdf reset of None \<Rightarrow> [] | Some v \<Rightarrow> [(js ''kdf'', v)])))) None"

definition webauthnCredentials where
  "webauthnCredentials P token = call P ''GET'' (js ''/api/2fa/webauthn/credentials'') None token"

definition webauthnDeleteCredential where
  "webauthnDeleteCredential P token cid =
     call P ''DELETE'' (js ''/api/2fa/webauthn/credentials/'' @ cid) None token"

definition webauthnRegisterBegin where
  "webauthnRegisterBegin P token =
     call P ''POST'' (js ''/api/2fa/webauthn/register/begin'') (Some (JObj [])) token"

text \<open>A member of a request body that is \<open>undefined\<close> is left out.\<close>

definition opt_member :: "string \<Rightarrow> jsval option \<Rightarrow> props" where
  "opt_member k ov = (case ov of None \<Rightarrow> [] | Some v \<Rightarrow> [(js k, v)])"

definition webauthnRegisterFinish where
  "webauthnRegisterFinish P token sessionId nm credential =
     call P ''POST'' (js ''/api/2fa/webauthn/register/finish'')
       (Some (JObj (opt_member ''sessionId'' sessionId
          @ [(js ''name'', JStr nm), (js ''credential'', credential)]))) token"

definition webauthnLoginBegin where
  "webauthnLoginBegin P identifier masterPasswordHash =
     call P ''POST'' (js ''/api/auth/webauthn/begin'')
       (Some (obj [(''identifier'', JStr identifier), (''masterPasswordHash'', JStr masterPasswordHash)])) None"

definition webauthnLoginFinish where
  "webauthnLoginFinish P identifier masterPasswordHash sessionId credential =
     call P ''POST'' (js ''/api/auth/webauthn/finish'')
       (Some (JObj ([(js ''identifier'', JStr identifier), (js ''masterPasswordHash'', JStr masterPasswordHash)]
          @ opt_member ''sessionId'' sessionId @ [(js ''credential'', credential)]))) None"

definition auditLog where
  "auditLog P token = call P ''GET'' (js ''/api/audit'') None token"

text \<open>\<open>encodeURIComponent\<close>: a lone surrogate is a \<open>URIError\<close>.\<close>

definition uri_unreserved :: "u16 \<Rightarrow> bool" where
  "uri_unreserved c \<longleftrightarrow> is_lower c \<or> is_upper c \<or> is_digit c \<or> c \<in> jc ` set ''-_.!~*()'' \<or> c = 39"

definition hex_upper :: "nat \<Rightarrow> u16" where
  "hex_upper d = (if d < 10 then of_nat (48 + d) else of_nat (55 + d))"

definition percent_byte :: "byte \<Rightarrow> jsstring" where
  "percent_byte b = [37, hex_upper (unat b div 16), hex_upper (unat b mod 16)]"

definition uri_byte :: "byte \<Rightarrow> jsstring" where
  "uri_byte b = (if uri_unreserved (ucast b) then [ucast b] else percent_byte b)"

definition encodeURIComponent :: "jsstring \<Rightarrow> jsstring result" where
  "encodeURIComponent s =
     (if well_formed s then Inr (concat (map uri_byte (utf8 s))) else Inl EPlatform)"

definition lookupPublicKey ::
  "('n, 'z) service_scheme \<Rightarrow> jsval option \<Rightarrow> jsstring \<Rightarrow> (('n, 'y) networld_scheme, jsval) act" where
  "lookupPublicKey P token identifier =
     bindA (liftA (encodeURIComponent identifier)) (\<lambda>q.
     call P ''GET'' (js ''/api/users/public-key?identifier='' @ q) None token)"

definition createShareReq where
  "createShareReq P token recipientIdentifier wrapped dat =
     call P ''POST'' (js ''/api/shares'')
       (Some (obj [(''recipientIdentifier'', JStr recipientIdentifier), (''wrappedKey'', JStr wrapped),
                   (''data'', JStr dat)])) token"

definition listShares where
  "listShares P token = call P ''GET'' (js ''/api/shares'') None token"

definition deleteShare where
  "deleteShare P token sid = call P ''DELETE'' (js ''/api/shares/'' @ sid) None token"

definition sync where
  "sync P token = call P ''GET'' (js ''/api/sync'') None token"

definition createCipher where
  "createCipher P token dat =
     call P ''POST'' (js ''/api/ciphers'') (Some (obj [(''data'', JStr dat)])) token"

definition updateCipher where
  "updateCipher P token cid dat =
     call P ''PUT'' (js ''/api/ciphers/'' @ cid) (Some (obj [(''data'', JStr dat)])) token"

definition deleteCipher where
  "deleteCipher P token cid = call P ''DELETE'' (js ''/api/ciphers/'' @ cid) None token"

section \<open>The outcome of a request\<close>

text \<open>The request a call makes, when its token has a text.\<close>

definition request_of ::
  "'z jsenv_scheme \<Rightarrow> jsstring \<Rightarrow> string \<Rightarrow> jsstring \<Rightarrow> jsval option \<Rightarrow> jsstring option \<Rightarrow> request" where
  "request_of J base method path body token =
     \<lparr>rq_method = js method, rq_url = base @ path,
      rq_headers = (if body \<noteq> None then [(js ''content-type'', js ''application/json'')] else [])
        @ (case token of None \<Rightarrow> [] | Some t \<Rightarrow> [(js ''authorization'', js ''Bearer '' @ t)]),
      rq_body = map_option (JSON_stringify J 0) body\<rparr>"

definition token_text :: "'z jsenv_scheme \<Rightarrow> jsval option \<Rightarrow> jsstring option \<Rightarrow> bool" where
  "token_text J token t \<longleftrightarrow>
     (if truthy_opt token then \<exists>u. t = Some u \<and> valText J token = Inr u else t = None)"

text \<open>A reply with status 2xx and a JSON text is the value of the call.\<close>

lemma call_ok:
  assumes "token_text P token t"
    and "fetch P (request_of P (baseUrl w) method path body t) (net w) = (Inr r, n')"
    and "rs_ok r" "JSON_parse (rs_text r) = Inr v" "rs_text r \<noteq> []"
  shows "call P method path body token w = (Inr v, w\<lparr>net := n'\<rparr>)"
  using assms
  by (auto simp: call_def request_of_def token_text_def outside_def act_simps Let_def bindA_def
      split: if_splits)

lemma call_error:
  assumes "token_text P token t"
    and "fetch P (request_of P (baseUrl w) method path body t) (net w) = (Inr r, n')"
    and "\<not> rs_ok r" "JSON_parse (rs_text r) = Inr (JObj [(js ''error'', JStr msg)])" "msg \<noteq> []"
  shows "call P method path body token w = (Inl (EServer msg), w\<lparr>net := n'\<rparr>)"
proof -
  have "rs_text r \<noteq> []"
    using assms(4) by (auto simp: JSON_parse_def json_fuel_def)
  then show ?thesis
    using assms
    by (auto simp: call_def request_of_def token_text_def outside_def act_simps Let_def bindA_def
        get_prop_def own_props_def errorOf_def split: if_splits)
qed

lemma call_network_error:
  assumes "token_text P token t"
    and "fetch P (request_of P (baseUrl w) method path body t) (net w) = (Inl e, n')"
  shows "call P method path body token w = (Inl e, w\<lparr>net := n'\<rparr>)"
  using assms
  by (auto simp: call_def request_of_def token_text_def outside_def act_simps Let_def bindA_def
      split: if_splits)

text \<open>A call changes nothing of the world but the outside.\<close>

lemma outside_world: "outside f w = (r, w') \<Longrightarrow> drawn w' = drawn w \<and> baseUrl w' = baseUrl w \<and> entropy w' = entropy w"
  by (auto simp: outside_def split: prod.splits)

end
