(* ===== verification/Items.thy ===== *)
theory Items
  imports Primitives
begin

text \<open>
  The item part of \<open>packages/api-client/src/session.ts\<close>: blank items, the coercion of decrypted or
  imported JSON of any vintage into a full item, and the password generator.

  An item is the JavaScript object the code handles (a \<open>jsval\<close>): unknown keys are kept, so no
  record of fixed fields would do. \<open>item_wf\<close> says which objects are full items.
\<close>

definition ITEM_TYPES :: "jsstring list" where
  "ITEM_TYPES = [js ''login'', js ''note'', js ''card'', js ''identity'']"

definition blankCard :: props where
  "blankCard = [(js ''cardholder'', JStr []), (js ''number'', JStr []), (js ''expMonth'', JStr []),
     (js ''expYear'', JStr []), (js ''cvv'', JStr [])]"

definition blankIdentity :: props where
  "blankIdentity = [(js ''fullName'', JStr []), (js ''email'', JStr []), (js ''phone'', JStr []),
     (js ''address'', JStr []), (js ''company'', JStr [])]"

definition blankFields :: "jsstring \<Rightarrow> props" where
  "blankFields ty = [(js ''type'', JStr ty), (js ''name'', JStr []), (js ''username'', JStr []),
     (js ''password'', JStr []), (js ''url'', JStr []), (js ''totp'', JStr []), (js ''notes'', JStr []),
     (js ''card'', JObj blankCard), (js ''identity'', JObj blankIdentity), (js ''fields'', JArr []),
     (js ''favorite'', JBool False), (js ''folder'', JStr [])]"

section \<open>Coercion\<close>

text \<open>\<open>x == null ? "" : String(x)\<close>.\<close>

definition textOrBlank :: "'z jsenv_scheme \<Rightarrow> jsval option \<Rightarrow> jsstring result" where
  "textOrBlank J ov =
     (case ov of None \<Rightarrow> Inr [] | Some v \<Rightarrow> if v = JNull then Inr [] else toText J v)"

definition coerceType :: "jsval option \<Rightarrow> jsstring" where
  "coerceType t =
     (if t = Some (JStr (js ''note'')) then js ''note''
      else if t = Some (JStr (js ''card'')) then js ''card''
      else if t = Some (JStr (js ''identity'')) then js ''identity'' else js ''login'')"

text \<open>\<open>{...base, ...(v && typeof v === "object" ? v : {})}\<close>.\<close>

definition complete :: "props \<Rightarrow> jsval option \<Rightarrow> jsval" where
  "complete base ov =
     (case ov of
        Some v \<Rightarrow> if truthy v \<and> is_objectlike v then JObj (obj_assign base (own_props v)) else JObj base
      | None \<Rightarrow> JObj base)"

definition coerceField :: "'z jsenv_scheme \<Rightarrow> jsval \<Rightarrow> jsval result" where
  "coerceField J f =
     bindR (textOrBlank J (get_prop_opt f (js ''label''))) (\<lambda>label.
     bindR (textOrBlank J (get_prop_opt f (js ''value''))) (\<lambda>val.
     Inr (JObj ([(js ''label'', JStr label), (js ''value'', JStr val)]
       @ (if truthy_opt (get_prop_opt f (js ''hidden'')) then [(js ''hidden'', JBool True)] else [])))))"

fun coerceFieldList :: "'z jsenv_scheme \<Rightarrow> jsval list \<Rightarrow> jsval list result" where
  "coerceFieldList J [] = Inr []"
| "coerceFieldList J (f # fs) =
     (if truthy f \<and> is_objectlike f
      then bindR (coerceField J f) (\<lambda>x. bindR (coerceFieldList J fs) (\<lambda>xs. Inr (x # xs)))
      else coerceFieldList J fs)"

definition coerceFields :: "'z jsenv_scheme \<Rightarrow> jsval option \<Rightarrow> jsval result" where
  "coerceFields J ov =
     (case ov of Some (JArr vs) \<Rightarrow> mapR JArr (coerceFieldList J vs) | _ \<Rightarrow> Inr (JArr []))"

definition TEXT_KEYS :: "string list" where
  "TEXT_KEYS = [''name'', ''username'', ''password'', ''url'', ''totp'', ''notes'', ''folder'']"

text \<open>The loop over the text fields; the blank of each is the empty string.\<close>

fun putTexts ::
  "'z jsenv_scheme \<Rightarrow> (jsstring \<Rightarrow> jsval option) \<Rightarrow> string list \<Rightarrow> props \<Rightarrow> props result" where
  "putTexts J raw [] out = Inr out"
| "putTexts J raw (k # ks) out =
     bindR (textOrBlank J (raw (js k))) (\<lambda>s. putTexts J raw ks (obj_put (js k) (JStr s) out))"

definition coerceFavorite :: "'z jsenv_scheme \<Rightarrow> jsval option \<Rightarrow> bool result" where
  "coerceFavorite J ov =
     (case ov of
        None \<Rightarrow> Inr False
      | Some v \<Rightarrow>
          if v = JBool True then Inr True
          else mapR (\<lambda>t. toLowerCase J t \<in> set [js ''1'', js ''true'', js ''yes'']) (toText J v))"

definition normalizeItemFields :: "'z jsenv_scheme \<Rightarrow> jsval \<Rightarrow> jsval result" where
  "normalizeItemFields J raw =
     (if raw = JNull then Inl EType
      else
        let get = obj_get (own_props raw);
            out0 = obj_assign (blankFields (js ''login'')) (own_props raw);
            out1 = obj_put (js ''type'') (JStr (coerceType (get (js ''type'')))) out0;
            out2 = obj_put (js ''card'') (complete blankCard (get (js ''card''))) out1;
            out3 = obj_put (js ''identity'') (complete blankIdentity (get (js ''identity''))) out2
        in bindR (coerceFields J (get (js ''fields''))) (\<lambda>fields.
           bindR (putTexts J get TEXT_KEYS (obj_put (js ''fields'') fields out3)) (\<lambda>out4.
           bindR (coerceFavorite J (get (js ''favorite''))) (\<lambda>fav.
           Inr (JObj (obj_put (js ''favorite'') (JBool fav) out4))))))"

section \<open>The password generator\<close>

definition password_alphabet :: jsstring where
  "password_alphabet =
     js ''ABCDEFGHIJKLMNOPQRSTUVWXYZabcdefghijklmnopqrstuvwxyz0123456789!@#$%^&*()-_=+''"

text \<open>A \<open>Uint32Array\<close> filled in one call, little endian.\<close>

definition u32_at :: "'z world_scheme \<Rightarrow> nat \<Rightarrow> nat" where
  "u32_at w i = foldr (\<lambda>x a. unat x + 256 * a) (draw 4 (w\<lparr>drawn := drawn w + 4 * i\<rparr>)) 0"

definition generatePassword :: "nat \<Rightarrow> ('z world_scheme, jsstring) act" where
  "generatePassword len w =
     (Inr (map (\<lambda>i. password_alphabet ! (u32_at w i mod length password_alphabet)) [0..<len]),
      w\<lparr>drawn := drawn w + 4 * len\<rparr>)"

section \<open>Full items\<close>

text \<open>A custom field as the coercion leaves it.\<close>

definition field_wf :: "jsval \<Rightarrow> bool" where
  "field_wf f \<longleftrightarrow>
     (\<exists>l v h. f = JObj ([(js ''label'', JStr l), (js ''value'', JStr v)]
        @ (if h then [(js ''hidden'', JBool True)] else [])))"

text \<open>The keys of an object that starts with the keys of a template, no key twice, and no array
  index among the others.\<close>

definition extends_keys :: "props \<Rightarrow> props \<Rightarrow> bool" where
  "extends_keys base kvs \<longleftrightarrow>
     (\<exists>ks. map fst kvs = map fst base @ ks) \<and> distinct (map fst kvs)
     \<and> (\<forall>k \<in> fst ` set kvs. \<not> index_key k)"

definition text_at :: "props \<Rightarrow> string \<Rightarrow> bool" where
  "text_at kvs k \<longleftrightarrow> (\<exists>s. obj_get kvs (js k) = Some (JStr s))"

definition item_wf :: "jsval \<Rightarrow> bool" where
  "item_wf v \<longleftrightarrow>
     (\<exists>kvs card ident fs fav. v = JObj kvs \<and> extends_keys (blankFields (js ''login'')) kvs
        \<and> (\<exists>ty \<in> set ITEM_TYPES. obj_get kvs (js ''type'') = Some (JStr ty))
        \<and> obj_get kvs (js ''card'') = Some (JObj card) \<and> extends_keys blankCard card
        \<and> obj_get kvs (js ''identity'') = Some (JObj ident) \<and> extends_keys blankIdentity ident
        \<and> obj_get kvs (js ''fields'') = Some (JArr fs) \<and> (\<forall>f \<in> set fs. field_wf f)
        \<and> obj_get kvs (js ''favorite'') = Some (JBool fav)
        \<and> (\<forall>k \<in> set TEXT_KEYS. text_at kvs k))"

lemma obj_put_same:
  "obj_get kvs k = Some v \<Longrightarrow> \<not> index_key k \<Longrightarrow> obj_put k v kvs = kvs"
  by (induction kvs) (auto simp: key_before_def split: if_splits)

lemma map_fst_obj_put:
  "k \<in> fst ` set kvs \<Longrightarrow> \<not> index_key k \<Longrightarrow> map fst (obj_put k v kvs) = map fst kvs"
  by (induction kvs) (force simp: key_before_def)+

lemma obj_assign_app: "obj_assign o1 (a @ b) = obj_assign (obj_assign o1 a) b"
  by (induction o1 a rule: obj_assign.induct) simp_all

lemma obj_assign_pre:
  "distinct (map fst (pre @ o1)) \<Longrightarrow> distinct (map fst a) \<Longrightarrow> \<forall>k \<in> fst ` set a. \<not> index_key k \<Longrightarrow>
   map fst a = map fst o1 \<Longrightarrow> obj_assign (pre @ o1) a = pre @ a"
proof (induction a arbitrary: pre o1)
  case (Cons kv a)
  obtain k v where kv: "kv = (k, v)"
    by (cases kv)
  from Cons.prems(4) kv obtain u r where o1: "o1 = (k, u) # r" "map fst a = map fst r"
    by (cases o1) auto
  have k: "k \<notin> fst ` set pre" "\<not> index_key k"
    using Cons.prems(1,3) kv o1 by auto
  then have "obj_put k v (pre @ (k, u) # r) = (pre @ [(k, v)]) @ r"
    by (induction pre) (auto simp: key_before_def)
  moreover have "obj_assign ((pre @ [(k, v)]) @ r) a = (pre @ [(k, v)]) @ a"
    using Cons.prems o1 kv by (intro Cons.IH) auto
  ultimately show ?case
    by (simp add: kv o1)
qed simp

lemma obj_assign_extends:
  assumes "extends_keys base kvs"
  shows "obj_assign base kvs = kvs"
proof -
  obtain ks where ks: "map fst kvs = map fst base @ ks"
    and d: "distinct (map fst kvs)" and ix: "\<forall>k \<in> fst ` set kvs. \<not> index_key k"
    using assms by (auto simp: extends_keys_def)
  let ?a = "take (length base) kvs" and ?b = "drop (length base) kvs"
  have a: "map fst ?a = map fst base"
    using ks by (metis append_eq_conv_conj length_map take_map)
  have split: "set kvs = set ?a \<union> set ?b"
    by (metis append_take_drop_id set_append)
  have "distinct (map fst (?a @ ?b))"
    using d by simp
  then have da: "distinct (map fst ?a)" "distinct (map fst ?b)" "fst ` set ?a \<inter> fst ` set ?b = {}"
    by (simp_all only: map_append distinct_append set_map)
  have "obj_assign ([] @ base) ?a = [] @ ?a"
    using da a ix split by (intro obj_assign_pre) auto
  then have "obj_assign base (?a @ ?b) = obj_assign ?a ?b"
    by (simp only: obj_assign_app append.left_neutral)
  also have "\<dots> = ?a @ ?b"
    using da ix split by (intro obj_assign_append) auto
  finally show ?thesis
    by simp
qed


lemma extends_put:
  "extends_keys base kvs \<Longrightarrow> \<not> index_key k \<Longrightarrow> extends_keys base (obj_put k v kvs)"
  by (cases "k \<in> fst ` set kvs")
    (auto simp: extends_keys_def map_fst_obj_put keys_obj_put obj_put_snoc image_iff)

lemma extends_assign:
  "extends_keys base o1 \<Longrightarrow> \<forall>k \<in> fst ` set kvs. \<not> index_key k \<Longrightarrow> extends_keys base (obj_assign o1 kvs)"
  by (induction o1 kvs rule: obj_assign.induct) (simp_all add: extends_put)

lemma extends_refl:
  "distinct (map fst base) \<Longrightarrow> \<forall>k \<in> fst ` set base. \<not> index_key k \<Longrightarrow> extends_keys base base"
  by (simp add: extends_keys_def)

lemma extends_blank:
  "extends_keys (blankFields ty) (blankFields ty)" "extends_keys blankCard blankCard"
  "extends_keys blankIdentity blankIdentity"
  by (rule extends_refl; simp add: blankFields_def blankCard_def blankIdentity_def)+

lemma js_image [simp]: "js k \<in> js ` A \<longleftrightarrow> k \<in> A"
  by auto

lemma putTexts_props:
  "putTexts J raw ks out = Inr out' \<Longrightarrow> \<forall>k \<in> set ks. \<not> index_key (js k) \<Longrightarrow> extends_keys base out \<Longrightarrow>
   extends_keys base out' \<and> (\<forall>k \<in> set ks. text_at out' k)
   \<and> (\<forall>k. k \<notin> js ` set ks \<longrightarrow> obj_get out' k = obj_get out k)"
proof (induction J raw ks out rule: putTexts.induct)
  case (2 J raw k ks out)
  obtain t where t: "putTexts J raw ks (obj_put (js k) (JStr t) out) = Inr out'"
    using "2.prems"(1) by auto
  have IH: "extends_keys base out'" "\<forall>k \<in> set ks. text_at out' k"
      "\<And>k'. k' \<notin> js ` set ks \<Longrightarrow> obj_get out' k' = obj_get (obj_put (js k) (JStr t) out) k'"
    using "2.IH" [OF t] "2.prems" by (auto simp: extends_put)
  have "text_at out' k"
    using IH(2) IH(3) [of "js k"] by (cases "k \<in> set ks") (auto simp: text_at_def obj_get_put)
  then show ?case
    using IH by (auto simp: obj_get_put)
qed simp

lemma putTexts_same:
  "\<forall>k \<in> set ks. text_at out k \<and> \<not> index_key (js k) \<Longrightarrow> putTexts J (obj_get out) ks out = Inr out"
  by (induction ks) (auto simp: text_at_def textOrBlank_def obj_put_same)

lemma TEXT_KEYS_index: "\<forall>k \<in> set TEXT_KEYS. \<not> index_key (js k)"
  by (simp add: TEXT_KEYS_def)

lemma coerceField_wf: "coerceField J f = Inr x \<Longrightarrow> field_wf x"
  unfolding coerceField_def field_wf_def bindR_eq_Inr by blast

lemma coerceFieldList_wf: "coerceFieldList J fs = Inr xs \<Longrightarrow> x \<in> set xs \<Longrightarrow> field_wf x"
  by (induction fs arbitrary: xs) (auto split: if_splits dest: coerceField_wf)

lemma coerceField_same: "field_wf f \<Longrightarrow> truthy f \<and> is_objectlike f \<and> coerceField J f = Inr f"
  by (auto simp: field_wf_def coerceField_def textOrBlank_def get_prop_opt_def own_props_def
      truthy_opt_def split: if_splits)

lemma coerceFieldList_same: "\<forall>f \<in> set fs. field_wf f \<Longrightarrow> coerceFieldList J fs = Inr fs"
  by (induction fs) (simp_all add: coerceField_same)

lemma coerceFields_wf: "coerceFields J ov = Inr v \<Longrightarrow> \<exists>fs. v = JArr fs \<and> (\<forall>f \<in> set fs. field_wf f)"
  by (auto simp: coerceFields_def mapR_def split: option.splits jsval.splits sum.splits
      dest: coerceFieldList_wf)

text \<open>No key twice and no array-index key in an object, nor an index in its card and identity.\<close>

definition no_index_keys :: "jsval \<Rightarrow> bool" where
  "no_index_keys v \<longleftrightarrow> (\<forall>k \<in> fst ` set (own_props v). \<not> index_key k)"

definition raw_ok :: "jsval \<Rightarrow> bool" where
  "raw_ok raw \<longleftrightarrow> distinct (map fst (own_props raw)) \<and> no_index_keys raw
     \<and> (\<forall>v. obj_get (own_props raw) (js ''card'') = Some v \<longrightarrow> no_index_keys v)
     \<and> (\<forall>v. obj_get (own_props raw) (js ''identity'') = Some v \<longrightarrow> no_index_keys v)"

lemma complete_extends:
  assumes "extends_keys base base" "\<forall>v. ov = Some v \<longrightarrow> no_index_keys v"
  shows "\<exists>kvs. complete base ov = JObj kvs \<and> extends_keys base kvs"
  using assms by (auto simp: complete_def no_index_keys_def intro!: extends_assign split: option.splits)

lemma normalizeItemFields_wf:
  assumes n: "normalizeItemFields J raw = Inr v" and ok: "raw_ok raw"
  shows "item_wf v \<and> (\<forall>k. k \<notin> fst ` set (blankFields (js ''login'')) \<longrightarrow>
    obj_get (own_props v) k = obj_get (own_props raw) k)"
proof
  let ?get = "obj_get (own_props raw)" and ?base = "blankFields (js ''login'')"
  obtain card ident where
      c: "complete blankCard (?get (js ''card'')) = JObj card" "extends_keys blankCard card"
    and i: "complete blankIdentity (?get (js ''identity'')) = JObj ident" "extends_keys blankIdentity ident"
    using ok complete_extends extends_blank by (metis raw_ok_def)
  let ?out3 = "obj_put (js ''identity'') (JObj ident) (obj_put (js ''card'') (JObj card)
      (obj_put (js ''type'') (JStr (coerceType (?get (js ''type'')))) (obj_assign ?base (own_props raw))))"
  from n c i obtain fields out4 fav where f: "coerceFields J (?get (js ''fields'')) = Inr fields"
      and t: "putTexts J ?get TEXT_KEYS (obj_put (js ''fields'') fields ?out3) = Inr out4"
      and v: "v = JObj (obj_put (js ''favorite'') (JBool fav) out4)"
    by (auto simp: normalizeItemFields_def Let_def split: if_splits)
  obtain fs where fs: "fields = JArr fs" "\<forall>f \<in> set fs. field_wf f"
    using coerceFields_wf [OF f] by blast
  have "extends_keys ?base (obj_put (js ''fields'') fields ?out3)"
    using ok by (intro extends_put extends_assign extends_blank) (simp_all add: raw_ok_def no_index_keys_def)
  note p = putTexts_props [OF t TEXT_KEYS_index this]
  have other: "obj_get out4 (js k) = obj_get (obj_put (js ''fields'') fields ?out3) (js k)"
    if "k \<notin> set TEXT_KEYS" for k
    using p that by simp
  have "coerceType ov \<in> set ITEM_TYPES" for ov
    by (simp add: coerceType_def ITEM_TYPES_def)
  moreover have "extends_keys ?base (obj_put (js ''favorite'') (JBool fav) out4)"
    using p by (intro extends_put) simp_all
  moreover have "text_at (obj_put (js ''favorite'') (JBool fav) out4) k" if "k \<in> set TEXT_KEYS" for k
    using p that by (auto simp: text_at_def obj_get_put TEXT_KEYS_def)
  ultimately show "item_wf v"
    unfolding item_wf_def v using fs c(2) i(2)
    by (intro exI [of _ "obj_put (js ''favorite'') (JBool fav) out4"] exI [of _ card] exI [of _ ident]
        exI [of _ fs] exI [of _ fav])
      (simp add: obj_get_put other TEXT_KEYS_def)
  show "\<forall>k. k \<notin> fst ` set ?base \<longrightarrow> obj_get (own_props v) k = ?get k"
  proof (intro allI impI)
    fix k
    assume k: "k \<notin> fst ` set ?base"
    then have "k \<notin> js ` set TEXT_KEYS"
      by (auto simp: blankFields_def TEXT_KEYS_def)
    then have "obj_get (own_props v) k = obj_get (obj_assign ?base (own_props raw)) k"
      using p k by (simp add: v own_props_def obj_get_put) (simp add: blankFields_def)
    also have "\<dots> = ?get k"
    proof -
      have "obj_get ?base k = None"
        using k by (simp add: obj_get_def map_of_eq_None_iff)
      then show ?thesis
        using ok by (simp add: raw_ok_def obj_get_assign_distinct split: option.split)
    qed
    finally show "obj_get (own_props v) k = ?get k" .
  qed
qed

lemma coerceType_same: "ty \<in> set ITEM_TYPES \<Longrightarrow> coerceType (Some (JStr ty)) = ty"
  by (auto simp: coerceType_def ITEM_TYPES_def)

lemma coerceFavorite_same: "coerceFavorite J (Some (JBool b)) = Inr b"
  by (cases b) (auto simp: coerceFavorite_def toLowerCase_def ascii_string_def js_def jc_def is_ascii_def
      ascii_lower_def is_upper_def)

lemma normalizeItemFields_same:
  assumes "item_wf v"
  shows "normalizeItemFields J v = Inr v"
proof -
  obtain kvs card ident fs fav ty where v: "v = JObj kvs" and e: "extends_keys (blankFields (js ''login'')) kvs"
    and ty: "ty \<in> set ITEM_TYPES" "obj_get kvs (js ''type'') = Some (JStr ty)"
    and c: "obj_get kvs (js ''card'') = Some (JObj card)" "extends_keys blankCard card"
    and i: "obj_get kvs (js ''identity'') = Some (JObj ident)" "extends_keys blankIdentity ident"
    and f: "obj_get kvs (js ''fields'') = Some (JArr fs)" "\<forall>f \<in> set fs. field_wf f"
    and fav: "obj_get kvs (js ''favorite'') = Some (JBool fav)"
    and t: "\<forall>k \<in> set TEXT_KEYS. text_at kvs k"
    using assms unfolding item_wf_def by blast
  have "complete blankCard (Some (JObj card)) = JObj card" "complete blankIdentity (Some (JObj ident)) = JObj ident"
    using c i by (simp_all add: complete_def own_props_def obj_assign_extends)
  moreover have "putTexts J (obj_get kvs) TEXT_KEYS kvs = Inr kvs"
    using t TEXT_KEYS_index by (intro putTexts_same) blast
  ultimately show ?thesis
    using e ty c i f fav
    by (simp add: normalizeItemFields_def v own_props_def obj_assign_extends obj_put_same
        coerceType_same coerceFields_def coerceFieldList_same coerceFavorite_same Let_def)
qed

text \<open>C13: coercion makes a full item of whatever JSON an old client, another manager or a shared
  item gives: when it returns, every field is present with its type, custom fields are completed,
  the other keys are kept, and coercing the result again changes nothing.\<close>

theorem normalizeItemFields_canonical:
  assumes "raw_ok raw" "normalizeItemFields J raw = Inr v"
  shows "item_wf v \<and> normalizeItemFields J v = Inr v
    \<and> (\<forall>k. k \<notin> fst ` set (blankFields (js ''login'')) \<longrightarrow>
         obj_get (own_props v) k = obj_get (own_props raw) k)"
  using normalizeItemFields_wf [OF assms(2,1)] normalizeItemFields_same by blast

theorem normalizeItemFields_canonical_witness:
  "\<exists>v. normalizeItemFields \<lparr>uc_lower = id, uc_upper = id, uc_nfkc = id, num_text = id\<rparr>
      (JObj [(js ''name'', JNum (NInt 7)), (js ''color'', JStr (js ''red''))]) = Inr v \<and> item_wf v"
proof -
  let ?J = "\<lparr>uc_lower = id, uc_upper = id, uc_nfkc = id, num_text = id\<rparr>"
  let ?raw = "JObj [(js ''name'', JNum (NInt 7)), (js ''color'', JStr (js ''red''))]"
  have "\<not> isl (normalizeItemFields ?J ?raw)"
    by code_simp
  then obtain v where "normalizeItemFields ?J ?raw = Inr v"
    by (cases "normalizeItemFields ?J ?raw") auto
  moreover have "raw_ok ?raw"
    by (simp add: raw_ok_def no_index_keys_def own_props_def)
  ultimately show ?thesis
    using normalizeItemFields_canonical by blast
qed

lemma length_password_alphabet: "length password_alphabet = 76"
  by (simp add: password_alphabet_def)

text \<open>A generated password has exactly the length asked for, each character comes from the alphabet
  and is chosen by its own four random bytes, and \<open>4 n\<close> bytes are drawn.\<close>

theorem generatePassword_spec:
  "\<exists>pw. generatePassword n w = (Inr pw, w\<lparr>drawn := drawn w + 4 * n\<rparr>) \<and> length pw = n
     \<and> set pw \<subseteq> set password_alphabet"
  by (auto simp: generatePassword_def length_password_alphabet intro!: nth_mem)

end
