(* ===== verification/Portable.thy ===== *)
theory Portable
  imports Items Identifier
begin

text \<open>
  \<open>packages/api-client/src/portable.ts\<close>: exporting a vault as JSON or CSV and reading such files,
  or those of other password managers, back.
\<close>

section \<open>Export\<close>

definition FIELDS :: "jsstring list" where
  "FIELDS = [js ''name'', js ''url'', js ''username'', js ''password'', js ''totp'', js ''notes'',
     js ''folder'']"

definition EXPORT_FORMAT :: jsstring where
  "EXPORT_FORMAT = js ''passwd-export''"

definition EXPORT_VERSION :: int where
  "EXPORT_VERSION = 2"

fun traverse :: "('a \<Rightarrow> 'b result) \<Rightarrow> 'a list \<Rightarrow> 'b list result" where
  "traverse f [] = Inr []"
| "traverse f (x # xs) = bindR (f x) (\<lambda>y. bindR (traverse f xs) (\<lambda>ys. Inr (y # ys)))"

definition toPlaintextJSON :: "'z jsenv_scheme \<Rightarrow> jsval list \<Rightarrow> jsstring result" where
  "toPlaintextJSON J items =
     bindR (traverse (normalizeItemFields J) items) (\<lambda>vs.
     Inr (JSON_stringify J 2 (JObj
       [(js ''format'', JStr EXPORT_FORMAT), (js ''version'', JNum (NInt EXPORT_VERSION)),
        (js ''items'', JArr vs)])))"

definition csv_special :: "jsstring \<Rightarrow> bool" where
  "csv_special v \<longleftrightarrow> list_ex (\<lambda>c. c = 34 \<or> c = 44 \<or> c = 13 \<or> c = 10) v"

fun double_quotes :: "jsstring \<Rightarrow> jsstring" where
  "double_quotes [] = []"
| "double_quotes (c # s) = (if c = 34 then 34 # 34 # double_quotes s else c # double_quotes s)"

definition csvEscape :: "jsstring \<Rightarrow> jsstring" where
  "csvEscape v = (if csv_special v then 34 # double_quotes v @ [34] else v)"

text \<open>The cell of a column: \<open>csvEscape(it[f] ?? "")\<close>. Only a string has \<open>replace\<close>.\<close>

definition csvCell :: "'z jsenv_scheme \<Rightarrow> jsval \<Rightarrow> jsstring \<Rightarrow> jsstring result" where
  "csvCell J it f =
     (case get_prop_opt it f of
        None \<Rightarrow> Inr []
      | Some JNull \<Rightarrow> Inr []
      | Some (JStr s) \<Rightarrow> Inr (csvEscape s)
      | Some v \<Rightarrow> bindR (toText J v) (\<lambda>t. if csv_special t then Inl EType else Inr t))"

definition csvLine :: "'z jsenv_scheme \<Rightarrow> jsval \<Rightarrow> jsstring result" where
  "csvLine J it =
     bindR (traverse (csvCell J it) FIELDS) (\<lambda>cells.
     Inr (join [44] (cells @ [if truthy_opt (get_prop_opt it (js ''favorite'')) then js ''1'' else []])))"

definition toCSV :: "'z jsenv_scheme \<Rightarrow> jsval list \<Rightarrow> jsstring result" where
  "toCSV J items =
     bindR (traverse (csvLine J) items) (\<lambda>lines.
     Inr (join [13, 10] (join [44] (FIELDS @ [js ''favorite'']) # lines)))"

section \<open>Import\<close>

text \<open>The alias table is an object literal, so a lookup also finds what every object inherits. Of the
  inherited names two are in lower case; used as a property name, their values read as below.\<close>

definition ALIASES :: "(string \<times> string) list" where
  "ALIASES = [(''name'', ''name''), (''title'', ''name''), (''item'', ''name''), (''url'', ''url''),
     (''uri'', ''url''), (''login_uri'', ''url''), (''website'', ''url''), (''site'', ''url''),
     (''username'', ''username''), (''user'', ''username''), (''user name'', ''username''),
     (''login'', ''username''), (''login_username'', ''username''), (''email'', ''username''),
     (''password'', ''password''), (''pass'', ''password''), (''login_password'', ''password''),
     (''notes'', ''notes''), (''note'', ''notes''), (''comment'', ''notes''), (''comments'', ''notes''),
     (''totp'', ''totp''), (''otp'', ''totp''), (''login_totp'', ''totp''),
     (''folder'', ''folder''), (''group'', ''folder''), (''grouping'', ''folder'')]"

definition inherited_names :: "(string \<times> string) list" where
  "inherited_names = [(''constructor'', ''function Object() { [native code] }''),
     (''__proto__'', ''[object Object]'')]"

definition aliasOf :: "jsstring \<Rightarrow> jsstring option" where
  "aliasOf lower = map_of (map (\<lambda>(k, f). (js k, js f)) (ALIASES @ inherited_names)) lower"

definition FAVORITE_KEYS :: "jsstring list" where
  "FAVORITE_KEYS = [js ''favorite'', js ''favourite'', js ''fav'']"

fun carryStructured :: "(jsstring \<Rightarrow> jsval option) \<Rightarrow> string list \<Rightarrow> props \<Rightarrow> props" where
  "carryStructured row [] flat = flat"
| "carryStructured row (k # ks) flat =
     carryStructured row ks (case row (js k) of None \<Rightarrow> flat | Some v \<Rightarrow> obj_put (js k) v flat)"

fun mapEntries :: "'z jsenv_scheme \<Rightarrow> props \<Rightarrow> props \<Rightarrow> props result" where
  "mapEntries J [] flat = Inr flat"
| "mapEntries J ((key, v) # r) flat =
     (let lower = toLowerCase J (trim key) in
      if lower \<in> set FAVORITE_KEYS then mapEntries J r (obj_put (js ''favorite'') v flat)
      else
        (case (if key \<in> set FIELDS then Some key else aliasOf lower) of
           None \<Rightarrow> mapEntries J r flat
         | Some field \<Rightarrow>
             if truthy_opt (obj_get flat field) then mapEntries J r flat
             else bindR (textOrBlank J (Some v)) (\<lambda>s. mapEntries J r (obj_put field (JStr s) flat))))"

definition normalize :: "'z jsenv_scheme \<Rightarrow> jsval \<Rightarrow> jsval result" where
  "normalize J row =
     (if row = JNull then Inl EType
      else
        bindR (mapEntries J (own_props row)
          (carryStructured (obj_get (own_props row)) [''type'', ''card'', ''identity'', ''fields''] [])) (\<lambda>flat.
        normalizeItemFields J (JObj flat)))"

text \<open>\<open>i.card.number\<close> and the like.\<close>

definition sub_prop :: "jsval \<Rightarrow> string \<Rightarrow> string \<Rightarrow> jsval option" where
  "sub_prop i k f = (case get_prop_opt i (js k) of None \<Rightarrow> None | Some v \<Rightarrow> get_prop_opt v (js f))"

definition nonEmpty :: "jsval \<Rightarrow> bool" where
  "nonEmpty i \<longleftrightarrow>
     truthy_opt (get_prop_opt i (js ''name'')) \<or> truthy_opt (get_prop_opt i (js ''username''))
     \<or> truthy_opt (get_prop_opt i (js ''password'')) \<or> truthy_opt (get_prop_opt i (js ''url''))
     \<or> truthy_opt (get_prop_opt i (js ''notes'')) \<or> truthy_opt (get_prop_opt i (js ''totp''))
     \<or> truthy_opt (sub_prop i ''card'' ''number'') \<or> truthy_opt (sub_prop i ''identity'' ''fullName'')
     \<or> truthy_opt (sub_prop i ''identity'' ''email'')
     \<or> (case get_prop_opt i (js ''fields'') of Some (JArr fs) \<Rightarrow> fs \<noteq> [] | _ \<Rightarrow> False)"

definition parseJSON :: "'z jsenv_scheme \<Rightarrow> jsstring \<Rightarrow> jsval list result" where
  "parseJSON J s =
     (case JSON_parse s of
        Inl _ \<Rightarrow> Inl EImportNotJSON
      | Inr dat \<Rightarrow>
          bindR (case dat of
                   JArr arr \<Rightarrow> Inr (Some arr)
                 | _ \<Rightarrow> bindR (get_prop dat (js ''items'')) (\<lambda>ov.
                     Inr (case ov of Some (JArr arr) \<Rightarrow> Some arr | _ \<Rightarrow> None))) (\<lambda>oarr.
          case oarr of
            None \<Rightarrow> Inl EImportShape
          | Some arr \<Rightarrow> mapR (filter nonEmpty) (traverse (normalize J) arr)))"

subsection \<open>CSV\<close>

text \<open>\<open>text.replace(/\r\n/g, "\n").replace(/\r/g, "\n")\<close>.\<close>

fun newlines :: "jsstring \<Rightarrow> jsstring" where
  "newlines [] = []"
| "newlines (c # r) =
     (if c = 13
      then 10 # (case r of [] \<Rightarrow> [] | d # r' \<Rightarrow> if d = 10 then newlines r' else newlines r)
      else c # newlines r)"

definition push_row :: "jsstring list \<Rightarrow> jsstring list list \<Rightarrow> jsstring list list" where
  "push_row row rows = (if list_ex (\<lambda>c. c \<noteq> []) row then rows @ [row] else rows)"

fun csv_scan ::
  "bool \<Rightarrow> jsstring \<Rightarrow> jsstring list \<Rightarrow> jsstring list list \<Rightarrow> jsstring \<Rightarrow> jsstring list list" where
  "csv_scan quoted cell row rows [] =
     (if cell \<noteq> [] \<or> row \<noteq> [] then push_row (row @ [cell]) rows else rows)"
| "csv_scan quoted cell row rows (ch # r) =
     (if quoted then
        if ch = 34 then
          (case r of
             [] \<Rightarrow> csv_scan False cell row rows r
           | d # r' \<Rightarrow> if d = 34 then csv_scan True (cell @ [34]) row rows r'
                      else csv_scan False cell row rows r)
        else csv_scan True (cell @ [ch]) row rows r
      else if ch = 34 then csv_scan True cell row rows r
      else if ch = 44 then csv_scan False [] (row @ [cell]) rows r
      else if ch = 10 then csv_scan False [] [] (push_row (row @ [cell]) rows) r
      else csv_scan False (cell @ [ch]) row rows r)"

definition csvRows :: "jsstring \<Rightarrow> jsstring list list" where
  "csvRows s = csv_scan False [] [] [] (newlines s)"

definition csvColumn :: "'z jsenv_scheme \<Rightarrow> jsstring \<Rightarrow> jsstring option" where
  "csvColumn J h =
     (let lower = toLowerCase J (trim h)
      in case aliasOf lower of
           Some f \<Rightarrow> Some f
         | None \<Rightarrow> if lower \<in> set FAVORITE_KEYS then Some (js ''favorite'') else None)"

fun csvObject :: "jsstring option list \<Rightarrow> jsstring list \<Rightarrow> props \<Rightarrow> props" where
  "csvObject [] cells obj = obj"
| "csvObject (c # cs) cells obj =
     csvObject cs (tl cells)
       (case c of
          None \<Rightarrow> obj
        | Some field \<Rightarrow>
            if obj_get obj field = None
            then obj_put field (JStr (case cells of [] \<Rightarrow> [] | x # _ \<Rightarrow> x)) obj
            else obj)"

definition parseCSV :: "'z jsenv_scheme \<Rightarrow> jsstring \<Rightarrow> jsval list result" where
  "parseCSV J s =
     (case csvRows s of
        [] \<Rightarrow> Inr []
      | header # rows \<Rightarrow>
          (let cols = map (csvColumn J) header
           in mapR (filter nonEmpty)
                (traverse (\<lambda>cells. normalize J (JObj (csvObject cols cells []))) rows)))"

definition parseVaultImport :: "'z jsenv_scheme \<Rightarrow> jsstring \<Rightarrow> jsval list result" where
  "parseVaultImport J s =
     (let trimmed = trim s in
      if trimmed = [] then Inl EImportEmpty
      else bindR (if hd trimmed = 123 \<or> hd trimmed = 91 then parseJSON J trimmed else parseCSV J trimmed) (\<lambda>items.
           if items = [] then Inl EImportNoItems else Inr items))"


section \<open>CSV text is read back\<close>

definition csv_text :: "jsstring list list \<Rightarrow> jsstring" where
  "csv_text rows = join [13, 10] (map (\<lambda>row. join [44] (map csvEscape row)) rows)"

definition no_cr :: "jsstring \<Rightarrow> bool" where
  "no_cr s \<longleftrightarrow> 13 \<notin> set s"

definition not_blank :: "jsstring list \<Rightarrow> bool" where
  "not_blank row \<longleftrightarrow> list_ex (\<lambda>c. c \<noteq> []) row"

lemma newlines_append: "no_cr a \<Longrightarrow> newlines (a @ b) = a @ newlines b"
  by (induction a) (auto simp: no_cr_def)

lemma newlines_id: "no_cr a \<Longrightarrow> newlines a = a"
  using newlines_append [of a "[]"] by simp

lemma no_cr_append [simp]: "no_cr (a @ b) \<longleftrightarrow> no_cr a \<and> no_cr b"
  by (auto simp: no_cr_def)

lemma no_cr_join: "no_cr sep \<Longrightarrow> \<forall>x \<in> set xs. no_cr x \<Longrightarrow> no_cr (join sep xs)"
  by (induction sep xs rule: join.induct) (auto simp: no_cr_def)

lemma no_cr_double: "no_cr v \<Longrightarrow> no_cr (double_quotes v)"
  by (induction v) (auto simp: no_cr_def)

lemma no_cr_escape: "no_cr v \<Longrightarrow> no_cr (csvEscape v)"
  using no_cr_double [of v] by (auto simp: csvEscape_def no_cr_def)

lemma newlines_join:
  "\<forall>x \<in> set xs. no_cr x \<Longrightarrow> newlines (join [13, 10] xs) = join [10] xs"
proof (induction "[13, 10] :: jsstring" xs rule: join.induct)
  case (3 x y ys)
  then show ?case
    by (simp add: newlines_append)
qed (simp_all add: newlines_id)

text \<open>A rendered cell is read as that cell, up to the separator that follows it.\<close>

definition cell_end :: "jsstring \<Rightarrow> bool" where
  "cell_end r \<longleftrightarrow> r = [] \<or> hd r = 44 \<or> hd r = 10"

lemma scan_quoted:
  "cell_end r \<Longrightarrow> csv_scan True cell row rows (double_quotes v @ 34 # r) = csv_scan False (cell @ v) row rows r"
proof (induction v arbitrary: cell)
  case Nil
  then show ?case
    by (cases r) (auto simp: cell_end_def)
qed simp

lemma scan_plain:
  "\<not> csv_special v \<Longrightarrow> csv_scan False cell row rows (v @ r) = csv_scan False (cell @ v) row rows r"
  by (induction v arbitrary: cell) (simp_all add: csv_special_def)

lemma scan_cell: "cell_end r \<Longrightarrow> csv_scan False [] row rows (csvEscape v @ r) = csv_scan False v row rows r"
  using scan_quoted [of r "[]" row rows v] scan_plain [of v "[]" row rows r]
  by (simp add: csvEscape_def)

lemma scan_row:
  "row \<noteq> [] \<Longrightarrow> r = [] \<or> hd r = 10 \<Longrightarrow>
   csv_scan False [] pre rows (join [44] (map csvEscape row) @ r)
   = csv_scan False (last row) (pre @ butlast row) rows r"
proof (induction row arbitrary: pre)
  case (Cons v row)
  show ?case
  proof (cases "row = []")
    case True
    then show ?thesis
      using Cons.prems scan_cell [of r pre rows v] by (auto simp: cell_end_def)
  next
    case False
    then have "csv_scan False [] pre rows (join [44] (map csvEscape (v # row)) @ r)
        = csv_scan False v pre rows (44 # join [44] (map csvEscape row) @ r)"
      by (simp add: join_Cons scan_cell cell_end_def)
    also have "\<dots> = csv_scan False [] (pre @ [v]) rows (join [44] (map csvEscape row) @ r)"
      by simp
    finally show ?thesis
      using Cons.IH [OF False Cons.prems(2), of "pre @ [v]"] False by simp
  qed
qed simp

lemma push_row_snoc: "push_row row rows = rows @ filter not_blank [row]"
  by (simp add: push_row_def not_blank_def)

lemma scan_rows:
  "\<forall>row \<in> set new. row \<noteq> [] \<Longrightarrow>
   csv_scan False [] [] rows (join [10] (map (\<lambda>row. join [44] (map csvEscape row)) new))
   = rows @ filter not_blank new"
proof (induction new arbitrary: rows)
  case (Cons row new)
  show ?case
  proof (cases "new = []")
    case True
    have "csv_scan False (last row) (butlast row) rows [] = rows @ filter not_blank [row]"
    proof (cases "last row = [] \<and> butlast row = []")
      case True
      then have "row = [[]]"
        using Cons.prems by (metis append_butlast_last_id append_Nil list.set_intros(1))
      then show ?thesis
        by (simp add: not_blank_def)
    next
      case False
      then show ?thesis
        using Cons.prems by (auto simp: push_row_snoc)
    qed
    then show ?thesis
      using True Cons.prems scan_row [of row "[]" "[]" rows] by simp
  next
    case False
    let ?line = "\<lambda>row. join [44] (map csvEscape row)"
    have "csv_scan False [] [] rows (join [10] (map ?line (row # new)))
        = csv_scan False [] [] (push_row row rows) (join [10] (map ?line new))"
      using False Cons.prems scan_row [of row "10 # join [10] (map ?line new)" "[]" rows]
      by (simp add: join_Cons)
    then show ?thesis
      using Cons by (simp add: push_row_snoc)
  qed
qed simp

lemma csv_roundtrip_lemma:
  assumes "\<forall>row \<in> set rows. row \<noteq> [] \<and> (\<forall>c \<in> set row. no_cr c)"
  shows "csvRows (csv_text rows) = filter not_blank rows"
proof -
  let ?line = "\<lambda>row. join [44] (map csvEscape row)"
  have "no_cr [44]"
    by (simp add: no_cr_def)
  then have "\<forall>x \<in> set (map ?line rows). no_cr x"
    using assms by (auto intro!: no_cr_join no_cr_escape)
  then have "newlines (csv_text rows) = join [10] (map ?line rows)"
    by (simp only: csv_text_def newlines_join)
  then show ?thesis
    using scan_rows [of rows "[]"] assms by (simp add: csvRows_def)
qed

text \<open>The CSV reader inverts the CSV writer: for rows of at least one cell, whose cells may hold
  commas, quotes and line feeds but no carriage return, reading the rendered text gives
  the rows back, in order and cell by cell, with the blank ones left out.\<close>

theorem csv_roundtrip:
  assumes "\<forall>row \<in> set rows. row \<noteq> [] \<and> (\<forall>c \<in> set row. no_cr c)"
  shows "csvRows (csv_text rows) = filter not_blank rows"
  using assms by (rule csv_roundtrip_lemma)

theorem csv_roundtrip_witness:
  "csvRows (csv_text [[js ''a,b'', js ''say \"hi\"''], [[], []], [[10], []]])
   = [[js ''a,b'', js ''say \"hi\"''], [[10], []]]"
proof -
  let ?rows = "[[js ''a,b'', js ''say \"hi\"''], [[], []], [[10], []]]"
  have "\<forall>row \<in> set ?rows. row \<noteq> [] \<and> (\<forall>c \<in> set row. no_cr c)"
    by (simp add: no_cr_def set_js jc_def)
  then show ?thesis
    using csv_roundtrip [of ?rows] by (simp add: not_blank_def)
qed


section \<open>Exported items are read back\<close>

text \<open>The typed view of an item that has no keys beyond those of this version. The parts of a card and
  an identity may be any JSON.\<close>

record ItemFields =
  it_type :: jsstring
  it_name :: jsstring
  it_username :: jsstring
  it_password :: jsstring
  it_url :: jsstring
  it_totp :: jsstring
  it_notes :: jsstring
  it_card :: props
  it_identity :: props
  it_fields :: "jsval list"
  it_favorite :: bool
  it_folder :: jsstring

definition itemVal :: "ItemFields \<Rightarrow> jsval" where
  "itemVal i = JObj [(js ''type'', JStr (it_type i)), (js ''name'', JStr (it_name i)),
     (js ''username'', JStr (it_username i)), (js ''password'', JStr (it_password i)),
     (js ''url'', JStr (it_url i)), (js ''totp'', JStr (it_totp i)), (js ''notes'', JStr (it_notes i)),
     (js ''card'', JObj (it_card i)), (js ''identity'', JObj (it_identity i)),
     (js ''fields'', JArr (it_fields i)), (js ''favorite'', JBool (it_favorite i)),
     (js ''folder'', JStr (it_folder i))]"

definition item_fields_ok :: "ItemFields \<Rightarrow> bool" where
  "item_fields_ok i \<longleftrightarrow> it_type i \<in> set ITEM_TYPES
     \<and> extends_keys blankCard (it_card i) \<and> (\<forall>kv \<in> set (it_card i). plain (snd kv))
     \<and> extends_keys blankIdentity (it_identity i) \<and> (\<forall>kv \<in> set (it_identity i). plain (snd kv))
     \<and> (\<forall>f \<in> set (it_fields i). field_wf f)"

lemma itemVal_wf:
  assumes ok: "item_fields_ok i"
  shows "item_wf (itemVal i)"
proof -
  obtain kvs where v: "itemVal i = JObj kvs" and keys: "map fst kvs = map fst (blankFields (js ''login''))"
    and get: "obj_get kvs (js ''type'') = Some (JStr (it_type i))" "obj_get kvs (js ''card'') = Some (JObj (it_card i))"
      "obj_get kvs (js ''identity'') = Some (JObj (it_identity i))" "obj_get kvs (js ''fields'') = Some (JArr (it_fields i))"
      "obj_get kvs (js ''favorite'') = Some (JBool (it_favorite i))" "\<forall>k \<in> set TEXT_KEYS. text_at kvs k"
    by (simp add: itemVal_def blankFields_def text_at_def TEXT_KEYS_def)
  have "extends_keys (blankFields (js ''login'')) kvs"
    using extends_blank(1) keys by (simp add: extends_keys_def flip: set_map)
  then show ?thesis
    unfolding item_wf_def using ok v get unfolding item_fields_ok_def by blast
qed

lemma key_lower:
  assumes "list_all (\<lambda>c. is_lower (jc c)) k"
  shows "toLowerCase J (trim (js k)) = js k"
proof -
  have c: "\<not> is_space c \<and> is_ascii c \<and> ascii_lower c = c" if "c \<in> set (js k)" for c
  proof -
    have "is_lower c"
      using that assms by (auto simp: set_js list_all_iff)
    then show ?thesis
      using no_space_between [of c] by (auto simp: ascii_lower_def char_class_nat)
  qed
  then have "trim (js k) = js k"
    by (intro trim_id) (metis hd_in_set last_in_set)
  moreover have "ascii_string (js k)" "map ascii_lower (js k) = js k"
    using c by (simp_all add: ascii_string_def map_idI)
  ultimately show ?thesis
    by (simp add: toLowerCase_def)
qed

lemma item_keys_lower:
  "toLowerCase J (trim (js ''type'')) = js ''type''" "toLowerCase J (trim (js ''name'')) = js ''name''"
  "toLowerCase J (trim (js ''username'')) = js ''username''"
  "toLowerCase J (trim (js ''password'')) = js ''password''"
  "toLowerCase J (trim (js ''url'')) = js ''url''" "toLowerCase J (trim (js ''totp'')) = js ''totp''"
  "toLowerCase J (trim (js ''notes'')) = js ''notes''" "toLowerCase J (trim (js ''card'')) = js ''card''"
  "toLowerCase J (trim (js ''identity'')) = js ''identity''"
  "toLowerCase J (trim (js ''fields'')) = js ''fields''"
  "toLowerCase J (trim (js ''favorite'')) = js ''favorite''"
  "toLowerCase J (trim (js ''folder'')) = js ''folder''"
  by (rule key_lower; simp add: char_class_nat)+

lemma aliasOf_structured:
  "aliasOf (js ''type'') = None" "aliasOf (js ''card'') = None" "aliasOf (js ''identity'') = None"
  "aliasOf (js ''fields'') = None" "aliasOf (js ''favorite'') = None"
  by (simp_all add: aliasOf_def ALIASES_def inherited_names_def)

lemma aliasOf_fields:
  "aliasOf (js ''name'') = Some (js ''name'')" "aliasOf (js ''url'') = Some (js ''url'')"
  "aliasOf (js ''username'') = Some (js ''username'')" "aliasOf (js ''password'') = Some (js ''password'')"
  "aliasOf (js ''totp'') = Some (js ''totp'')" "aliasOf (js ''notes'') = Some (js ''notes'')"
  "aliasOf (js ''folder'') = Some (js ''folder'')"
  by (simp_all add: aliasOf_def ALIASES_def inherited_names_def)

lemmas entry_simps = item_keys_lower aliasOf_structured aliasOf_fields FAVORITE_KEYS_def FIELDS_def
  textOrBlank_def truthy_opt_def key_before_def

text \<open>Coercion depends on the order of the keys only through the template it fills in.\<close>

lemma normalizeItemFields_reorder:
  assumes "item_wf (JObj kvs)" "obj_get flat = obj_get kvs" "obj_assign (blankFields (js ''login'')) flat = kvs"
  shows "normalizeItemFields J (JObj flat) = Inr (JObj kvs)"
proof -
  have "extends_keys (blankFields (js ''login'')) kvs"
    using assms(1) by (auto simp: item_wf_def)
  then have "normalizeItemFields J (JObj flat) = normalizeItemFields J (JObj kvs)"
    using assms(2,3) by (simp add: normalizeItemFields_def own_props_def obj_assign_extends)
  then show ?thesis
    using normalizeItemFields_same [OF assms(1)] by simp
qed

lemma mapEntries_item:
  "mapEntries J (own_props (itemVal i))
     (carryStructured (obj_get (own_props (itemVal i))) [''type'', ''card'', ''identity'', ''fields''] [])
   = Inr [(js ''type'', JStr (it_type i)), (js ''card'', JObj (it_card i)),
      (js ''identity'', JObj (it_identity i)), (js ''fields'', JArr (it_fields i)),
      (js ''name'', JStr (it_name i)), (js ''username'', JStr (it_username i)),
      (js ''password'', JStr (it_password i)), (js ''url'', JStr (it_url i)),
      (js ''totp'', JStr (it_totp i)), (js ''notes'', JStr (it_notes i)),
      (js ''favorite'', JBool (it_favorite i)), (js ''folder'', JStr (it_folder i))]"
  by (simp add: itemVal_def own_props_def entry_simps)

lemma normalize_itemVal:
  assumes "item_fields_ok i"
  shows "normalize J (itemVal i) = Inr (itemVal i)"
proof -
  obtain kvs where kvs: "itemVal i = JObj kvs"
    by (simp add: itemVal_def)
  let ?flat = "[(js ''type'', JStr (it_type i)), (js ''card'', JObj (it_card i)),
      (js ''identity'', JObj (it_identity i)), (js ''fields'', JArr (it_fields i)),
      (js ''name'', JStr (it_name i)), (js ''username'', JStr (it_username i)),
      (js ''password'', JStr (it_password i)), (js ''url'', JStr (it_url i)),
      (js ''totp'', JStr (it_totp i)), (js ''notes'', JStr (it_notes i)),
      (js ''favorite'', JBool (it_favorite i)), (js ''folder'', JStr (it_folder i))]"
  have "normalizeItemFields J (JObj ?flat) = Inr (itemVal i)"
    unfolding kvs
  proof (rule normalizeItemFields_reorder)
    show "item_wf (JObj kvs)"
      using itemVal_wf [OF assms] kvs by simp
    show "obj_get ?flat = obj_get kvs"
      using kvs by (auto simp: itemVal_def fun_eq_iff)
    show "obj_assign (blankFields (js ''login'')) ?flat = kvs"
      using kvs by (auto simp: itemVal_def blankFields_def key_before_def)
  qed
  moreover have "itemVal i \<noteq> JNull"
    by (simp add: itemVal_def)
  ultimately show ?thesis
    by (simp only: normalize_def mapEntries_item bindR_simps if_False)
qed

lemma traverse_same: "\<forall>x \<in> set xs. f x = Inr x \<Longrightarrow> traverse f xs = Inr xs"
  by (induction xs) simp_all

lemma traverse_map: "\<forall>x \<in> set xs. f (g x) = Inr (h x) \<Longrightarrow> traverse f (map g xs) = Inr (map h xs)"
  by (induction xs) simp_all


lemma field_plain: "field_wf f \<Longrightarrow> plain f"
  by (auto simp: field_wf_def obj_of_id)

lemma extends_plain: "extends_keys base kvs \<Longrightarrow> \<forall>kv \<in> set kvs. plain (snd kv) \<Longrightarrow> plain (JObj kvs)"
  by (simp add: extends_keys_def obj_of_id)

lemma itemVal_plain: "item_fields_ok i \<Longrightarrow> plain (itemVal i)"
  unfolding itemVal_def item_fields_ok_def
  using extends_plain field_plain by (fastforce simp: obj_of_id simp del: plain.simps(3) intro: plain.simps(3) [THEN iffD2])

definition imported :: "jsval list \<Rightarrow> jsval list result" where
  "imported vs = (let found = filter nonEmpty vs in if found = [] then Inl EImportNoItems else Inr found)"

lemma trim_object:
  assumes "kvs \<noteq> []"
  shows "trim (JSON_stringify J g (JObj kvs)) = JSON_stringify J g (JObj kvs)"
    "hd (JSON_stringify J g (JObj kvs)) = 123" "JSON_stringify J g (JObj kvs) \<noteq> []"
proof -
  show "hd (JSON_stringify J g (JObj kvs)) = 123" "JSON_stringify J g (JObj kvs) \<noteq> []"
    using assms by (simp_all add: JSON_stringify_def)
  moreover have "last (JSON_stringify J g (JObj kvs)) = 125"
    using assms by (simp add: JSON_stringify_def)
  ultimately show "trim (JSON_stringify J g (JObj kvs)) = JSON_stringify J g (JObj kvs)"
    by (intro trim_id) (simp add: is_space_def)
qed

text \<open>A JSON export is a faithful backup of the items: reading the exported text back returns exactly
  the items, in order, with cards, identities and custom fields, except those that carry no data at
  all; and if none carries data, the import says so.\<close>

theorem json_export_roundtrip:
  assumes "\<forall>i \<in> set items. item_fields_ok i"
  shows "\<exists>t. toPlaintextJSON J (map itemVal items) = Inr t
    \<and> parseVaultImport J t = imported (map itemVal items)"
proof -
  let ?kvs = "[(js ''format'', JStr EXPORT_FORMAT), (js ''version'', JNum (NInt EXPORT_VERSION)),
        (js ''items'', JArr (map itemVal items))]"
  have "traverse (normalizeItemFields J) (map itemVal items) = Inr (map itemVal items)"
    using assms itemVal_wf normalizeItemFields_same by (intro traverse_same) auto
  then have export: "toPlaintextJSON J (map itemVal items) = Inr (JSON_stringify J 2 (JObj ?kvs))"
    by (simp add: toPlaintextJSON_def)
  have "plain (JObj ?kvs)"
    using assms itemVal_plain by (auto simp: obj_of_id EXPORT_VERSION_def)
  then have parse: "JSON_parse (JSON_stringify J 2 (JObj ?kvs)) = Inr (JObj ?kvs)"
    by (rule json.dec_enc)
  have "traverse (normalize J) (map itemVal items) = Inr (map itemVal items)"
    using assms normalize_itemVal by (intro traverse_same) auto
  then have "parseJSON J (JSON_stringify J 2 (JObj ?kvs)) = Inr (filter nonEmpty (map itemVal items))"
    by (simp add: parseJSON_def parse get_prop_def own_props_def)
  then have "parseVaultImport J (JSON_stringify J 2 (JObj ?kvs)) = imported (map itemVal items)"
    using trim_object [of ?kvs J 2] by (simp add: parseVaultImport_def imported_def Let_def)
  with export show ?thesis
    by blast
qed

definition sample_item :: ItemFields where
  "sample_item = \<lparr>it_type = js ''card'', it_name = js ''Visa'', it_username = [], it_password = [],
     it_url = [], it_totp = [], it_notes = js ''a,b'', it_card = blankCard, it_identity = blankIdentity,
     it_fields = [], it_favorite = True, it_folder = js ''Work''\<rparr>"

lemma sample_item_ok: "item_fields_ok sample_item"
  using extends_blank
  by (simp add: item_fields_ok_def sample_item_def ITEM_TYPES_def)
    (simp add: blankCard_def blankIdentity_def)

theorem json_export_roundtrip_witness:
  "\<exists>t. toPlaintextJSON \<lparr>uc_lower = id, uc_upper = id, uc_nfkc = id, num_text = id\<rparr> [itemVal sample_item] = Inr t
    \<and> parseVaultImport \<lparr>uc_lower = id, uc_upper = id, uc_nfkc = id, num_text = id\<rparr> t = Inr [itemVal sample_item]"
proof -
  have "nonEmpty (itemVal sample_item)"
    by (simp add: nonEmpty_def itemVal_def sample_item_def get_prop_opt_def own_props_def truthy_opt_def)
  then have "imported (map itemVal [sample_item]) = Inr [itemVal sample_item]"
    by (simp add: imported_def)
  then show ?thesis
    using json_export_roundtrip [of "[sample_item]"] sample_item_ok by simp
qed


section \<open>A CSV export keeps the login part\<close>

text \<open>The cells of an item, and what of the item they carry.\<close>

definition csv_row :: "ItemFields \<Rightarrow> jsstring list" where
  "csv_row i = [it_name i, it_url i, it_username i, it_password i, it_totp i, it_notes i, it_folder i,
     if it_favorite i then js ''1'' else []]"

definition login_part :: "ItemFields \<Rightarrow> ItemFields" where
  "login_part i = i\<lparr>it_type := js ''login'', it_card := blankCard, it_identity := blankIdentity, it_fields := []\<rparr>"

definition csv_header :: "jsstring list" where
  "csv_header = FIELDS @ [js ''favorite'']"

definition csv_item_ok :: "ItemFields \<Rightarrow> bool" where
  "csv_item_ok i \<longleftrightarrow> (\<forall>c \<in> set (csv_row i). no_cr c)"

lemma login_part_ok: "item_fields_ok (login_part i)"
  using extends_blank
  by (simp add: item_fields_ok_def login_part_def ITEM_TYPES_def)
    (simp add: blankCard_def blankIdentity_def)

lemma csvEscape_plain: "\<not> csv_special v \<Longrightarrow> csvEscape v = v"
  by (simp add: csvEscape_def)

lemma header_plain: "map csvEscape csv_header = csv_header"
  by (simp add: csv_header_def FIELDS_def csvEscape_def csv_special_def js_def jc_def)

lemma csvLine_item: "csvLine J (itemVal i) = Inr (join [44] (map csvEscape (csv_row i)))"
proof -
  have "csvEscape (js ''1'') = js ''1''" "csvEscape [] = []"
    by (simp_all add: csvEscape_def csv_special_def js_def jc_def)
  then show ?thesis
    by (simp add: csvLine_def csvCell_def FIELDS_def itemVal_def get_prop_opt_def own_props_def
        truthy_opt_def csv_row_def)
qed

lemma toCSV_text: "toCSV J (map itemVal items) = Inr (csv_text (csv_header # map csv_row items))"
proof -
  have "traverse (csvLine J) (map itemVal items) = Inr (map (\<lambda>i. join [44] (map csvEscape (csv_row i))) items)"
    by (rule traverse_map) (simp add: csvLine_item)
  then show ?thesis
    using header_plain by (simp add: toCSV_def csv_text_def csv_header_def comp_def)
qed

text \<open>The object built from a row, and the item it is coerced to.\<close>

lemma csv_columns: "map (csvColumn J) csv_header = map Some csv_header"
  by (simp add: csv_header_def FIELDS_def csvColumn_def entry_simps)

lemma csvObject_row:
  "csvObject (map Some csv_header) (csv_row i) [] = zip csv_header (map JStr (csv_row i))"
  by (simp add: csv_header_def FIELDS_def csv_row_def key_before_def)

lemma favorite_cell:
  "coerceFavorite J (Some (JStr (if b then js ''1'' else []))) = Inr b"
  by (simp add: coerceFavorite_def toLowerCase_def ascii_string_def js_def jc_def is_ascii_def
      ascii_lower_def is_upper_def)

lemma mapEntries_row:
  "mapEntries J (zip csv_header (map JStr (csv_row i))) [] = Inr (zip csv_header (map JStr (csv_row i)))"
  by (simp add: csv_header_def csv_row_def entry_simps)


lemma normalizeItemFields_row:
  "normalizeItemFields J (JObj (zip csv_header (map JStr (csv_row i)))) = Inr (itemVal (login_part i))"
proof -
  let ?kvs = "zip csv_header (map JStr (csv_row i))"
  have fav: "obj_get ?kvs (js ''favorite'') = Some (JStr (if it_favorite i then js ''1'' else []))"
    by (simp add: csv_header_def FIELDS_def csv_row_def)
  show ?thesis
    using favorite_cell [of J "it_favorite i"]
    by (simp add: normalizeItemFields_def own_props_def fav Let_def)
      (simp add: csv_header_def FIELDS_def csv_row_def blankFields_def key_before_def
        coerceType_def complete_def coerceFields_def TEXT_KEYS_def textOrBlank_def itemVal_def login_part_def)
qed

lemma normalize_row:
  "normalize J (JObj (csvObject (map Some csv_header) (csv_row i) [])) = Inr (itemVal (login_part i))"
proof -
  have "carryStructured (obj_get (zip csv_header (map JStr (csv_row i))))
      [''type'', ''card'', ''identity'', ''fields''] [] = []"
    by (simp add: csv_header_def FIELDS_def csv_row_def)
  then show ?thesis
    by (simp add: normalize_def csvObject_row own_props_def mapEntries_row normalizeItemFields_row
        del: carryStructured.simps)
qed

lemma blank_row_empty: "\<not> not_blank (csv_row i) \<Longrightarrow> \<not> nonEmpty (itemVal (login_part i))"
  by (simp add: not_blank_def csv_row_def nonEmpty_def itemVal_def login_part_def get_prop_opt_def
      own_props_def truthy_opt_def sub_prop_def blankCard_def blankIdentity_def)

lemma filter_blank_rows:
  "filter nonEmpty (map (\<lambda>i. itemVal (login_part i)) (filter (\<lambda>i. not_blank (csv_row i)) items))
     = filter nonEmpty (map (\<lambda>i. itemVal (login_part i)) items)"
  using blank_row_empty by (induction items) auto

lemma join_last: "xs \<noteq> [] \<Longrightarrow> last xs \<noteq> [] \<Longrightarrow> join sep xs \<noteq> [] \<and> last (join sep xs) = last (last xs)"
  by (induction sep xs rule: join.induct) auto

lemma csv_text_ends:
  "csv_text (csv_header # map csv_row items) \<noteq> []"
  "hd (csv_text (csv_header # map csv_row items)) = jc (CHR ''n'')"
  "\<not> is_space (last (csv_text (csv_header # map csv_row items)))"
proof -
  let ?line = "\<lambda>row. join [44] (map csvEscape row)" and ?t = "csv_text (csv_header # map csv_row items)"
  have start: "\<exists>r. ?line csv_header @ s = jc (CHR ''n'') # r" for s
    unfolding header_plain by (simp add: csv_header_def FIELDS_def js_Cons)
  have "\<exists>s. ?t = ?line csv_header @ s"
    by (cases items) (simp_all add: csv_text_def)
  with start show "?t \<noteq> []" "hd ?t = jc (CHR ''n'')"
    by (metis list.distinct(1), metis list.sel(1))
  have row: "?line (csv_row i) \<noteq> [] \<and> \<not> is_space (last (?line (csv_row i)))" for i
    by (simp add: csv_row_def csvEscape_def csv_special_def js_def jc_def is_space_def)
  have hdr: "?line csv_header \<noteq> [] \<and> \<not> is_space (last (?line csv_header))"
    unfolding header_plain by (simp add: csv_header_def FIELDS_def js_def jc_def is_space_def)
  have "last (map ?line (csv_header # map csv_row items)) \<noteq> []
      \<and> \<not> is_space (last (last (map ?line (csv_header # map csv_row items))))"
    using row hdr by (cases items rule: rev_cases) simp_all
  then show "\<not> is_space (last ?t)"
    using join_last [of "map ?line (csv_header # map csv_row items)" "[13, 10]"] by (simp add: csv_text_def)
qed

text \<open>C14: a CSV export carries the login part of every item: for items whose texts have no carriage
  return, reading the exported text back returns, in order, each item that has any login data, with
  its name, address, user name, password, one-time secret, notes, folder and favourite mark, as a login.\<close>

theorem csv_export_roundtrip:
  assumes "\<forall>i \<in> set items. csv_item_ok i"
  shows "\<exists>t. toCSV J (map itemVal items) = Inr t
    \<and> parseVaultImport J t = imported (map (\<lambda>i. itemVal (login_part i)) items)"
proof -
  let ?t = "csv_text (csv_header # map csv_row items)"
  let ?good = "filter (\<lambda>i. not_blank (csv_row i)) items"
  have trim: "trim ?t = ?t"
    using csv_text_ends [of items] by (intro trim_id) (simp add: jc_def is_space_def)
  have "\<forall>c \<in> set csv_header. no_cr c"
    by (simp add: csv_header_def FIELDS_def no_cr_def js_def jc_def)
  then have "csvRows ?t = filter not_blank (csv_header # map csv_row items)"
    using assms by (intro csv_roundtrip_lemma) (auto simp: csv_item_ok_def csv_header_def csv_row_def)
  also have "\<dots> = csv_header # map csv_row ?good"
    by (simp add: not_blank_def csv_header_def FIELDS_def filter_map comp_def)
  finally have "parseCSV J ?t = Inr (filter nonEmpty (map (\<lambda>i. itemVal (login_part i)) ?good))"
    using traverse_map [of ?good "\<lambda>cells. normalize J (JObj (csvObject (map Some csv_header) cells []))" csv_row
        "\<lambda>i. itemVal (login_part i)"]
    by (simp add: parseCSV_def csv_columns normalize_row)
  then have "parseVaultImport J ?t = imported (map (\<lambda>i. itemVal (login_part i)) items)"
    using csv_text_ends [of items] filter_blank_rows [of items]
    by (simp add: parseVaultImport_def trim imported_def Let_def jc_def)
  then show ?thesis
    using toCSV_text by blast
qed

theorem csv_export_roundtrip_witness:
  "\<exists>t. toCSV \<lparr>uc_lower = id, uc_upper = id, uc_nfkc = id, num_text = id\<rparr> [itemVal sample_item] = Inr t
    \<and> parseVaultImport \<lparr>uc_lower = id, uc_upper = id, uc_nfkc = id, num_text = id\<rparr> t
       = imported [itemVal (login_part sample_item)]"
proof -
  have "csv_item_ok sample_item"
    by (simp add: csv_item_ok_def csv_row_def sample_item_def no_cr_def js_def jc_def)
  then show ?thesis
    using csv_export_roundtrip [of "[sample_item]"] by simp
qed

text \<open>A foreign column named like a property every object inherits does reach the item, under the
  text of the inherited value.\<close>

lemma import_smuggles_inherited:
  "mapR (map (\<lambda>v. get_prop_opt v (js ''function Object() { [native code] }'')))
     (parseVaultImport \<lparr>uc_lower = id, uc_upper = id, uc_nfkc = id, num_text = id\<rparr>
       (js ''[{\"name\": \"n\", \"constructor\": \"x\"}]''))
   = Inr [Some (JStr (js ''x''))]"
  by code_simp

end
