(* ===== verification/Session.thy ===== *)
theory Session
  imports Api Portable
begin

text \<open>
  \<open>packages/api-client/src/session.ts\<close>: the client's operations on an account. Everything secret is
  encrypted and decrypted here; the transport sees ciphertexts, hashes and tokens. Tokens and
  other values taken from a reply are kept as the JSON they are; a cipher or share whose
  \<open>data\<close> is not a string is treated as one that does not decrypt.
\<close>

section \<open>Sessions\<close>

record Session =
  s_identifier :: jsstring
  s_accessToken :: "jsval option"
  s_refreshToken :: "jsval option"
  s_userKey :: bytes
  s_protectedPrivateKey :: jsval

definition newAccountId :: "('y world_scheme, jsstring) act" where
  "newAccountId = generateAccountId 12"

text \<open>\<open>"twoFactorRequired" in res && res.twoFactorRequired\<close>: the operator \<open>in\<close> wants an object.\<close>

definition secondFactor :: "jsval \<Rightarrow> bool result" where
  "secondFactor res =
     (if is_objectlike res then Inr (truthy_opt (get_prop_opt res (js ''twoFactorRequired''))) else Inl EType)"

text \<open>The enrolled factors: the texts of the array in the reply.\<close>

definition methodsOf :: "jsval option \<Rightarrow> jsstring list" where
  "methodsOf ov =
     (case ov of Some (JArr vs) \<Rightarrow> List.map_filter (\<lambda>v. case v of JStr s \<Rightarrow> Some s | _ \<Rightarrow> None) vs | _ \<Rightarrow> [])"

definition registerAccount ::
  "('n, 'z) service_scheme \<Rightarrow> jsstring \<Rightarrow> jsstring \<Rightarrow> (('n, 'y) networld_scheme, Session) act" where
  "registerAccount P identifier masterPassword =
     bindA (buildRegistration P identifier masterPassword (Some DEFAULT_KDF)) (\<lambda>(bundle, userKey).
     bindA (register P bundle) (\<lambda>_.
     bindA (login P (rb_identifier bundle) (rb_masterPasswordHash bundle) None) (\<lambda>res.
     bindA (liftA (secondFactor res)) (\<lambda>tf.
     if tf then throwA EUnexpectedTwoFactor
     else returnA
       \<lparr>s_identifier = rb_identifier bundle,
        s_accessToken = get_prop_opt res (js ''accessToken''),
        s_refreshToken = get_prop_opt res (js ''refreshToken''),
        s_userKey = userKey,
        s_protectedPrivateKey = JStr (rb_protectedPrivateKey bundle)\<rparr>))))"

text \<open>The session a login reply opens, for a user key already unwrapped.\<close>

definition sessionOf :: "jsstring \<Rightarrow> jsval \<Rightarrow> bytes \<Rightarrow> Session" where
  "sessionOf identifier res userKey =
     \<lparr>s_identifier = identifier,
      s_accessToken = get_prop_opt res (js ''accessToken''),
      s_refreshToken = get_prop_opt res (js ''refreshToken''),
      s_userKey = userKey,
      s_protectedPrivateKey = nullish (get_prop_opt res (js ''protectedPrivateKey'')) (JStr [])\<rparr>"

definition loginAccount ::
  "('n, 'z) service_scheme \<Rightarrow> jsstring \<Rightarrow> jsstring \<Rightarrow> jsstring option
   \<Rightarrow> (('n, 'y) networld_scheme, Session) act" where
  "loginAccount P identifier masterPassword totpCode =
     bindA (prelogin P identifier) (\<lambda>pre.
     bindA (liftA (get_prop pre (js ''kdf''))) (\<lambda>kdf.
     bindA (liftA (deriveMasterKey P masterPassword identifier kdf)) (\<lambda>masterKey.
     bindA (liftA (deriveMasterPasswordHash P masterKey masterPassword)) (\<lambda>masterPasswordHash.
     bindA (login P identifier masterPasswordHash totpCode) (\<lambda>res.
     bindA (liftA (secondFactor res)) (\<lambda>tf.
     if tf then throwA (ETwoFactorRequired (methodsOf (get_prop_opt res (js ''methods''))))
     else
       bindA (liftA (stretchMasterKey P masterKey)) (\<lambda>stretched.
       bindA (liftA (unwrapUserKey P stretched (get_prop_opt res (js ''protectedUserKey'')))) (\<lambda>userKey.
       returnA (sessionOf identifier res userKey)))))))))"

definition loginWithPasskey ::
  "('n, 'z) service_scheme \<Rightarrow> jsstring \<Rightarrow> jsstring \<Rightarrow> (('n, 'y) networld_scheme, Session) act" where
  "loginWithPasskey P identifier masterPassword =
     bindA (prelogin P identifier) (\<lambda>pre.
     bindA (liftA (get_prop pre (js ''kdf''))) (\<lambda>kdf.
     bindA (liftA (deriveMasterKey P masterPassword identifier kdf)) (\<lambda>masterKey.
     bindA (liftA (deriveMasterPasswordHash P masterKey masterPassword)) (\<lambda>masterPasswordHash.
     bindA (webauthnLoginBegin P identifier masterPasswordHash) (\<lambda>b.
     bindA (liftA (get_prop b (js ''sessionId''))) (\<lambda>sessionId.
     bindA (liftA (bindR (get_prop b (js ''options'')) (\<lambda>o1. get_prop (nullish o1 JNull) (js ''publicKey'')))) (\<lambda>options.
     bindA (outside (wa_get P options)) (\<lambda>assertion.
     bindA (webauthnLoginFinish P identifier masterPasswordHash sessionId assertion) (\<lambda>res.
     bindA (liftA (stretchMasterKey P masterKey)) (\<lambda>stretched.
     bindA (liftA (bindR (get_prop res (js ''protectedUserKey'')) (unwrapUserKey P stretched))) (\<lambda>userKey.
     returnA (sessionOf identifier res userKey))))))))))))"

section \<open>Two-factor and recovery settings\<close>

definition getTwoFactorStatus where
  "getTwoFactorStatus P s = twoFactorStatus P (s_accessToken s)"

text \<open>\<open>URLSearchParams.toString\<close>: the form encoding of a value.\<close>

definition form_byte :: "byte \<Rightarrow> jsstring" where
  "form_byte b =
     (let c = ucast b :: u16 in
      if c = 32 then [43]
      else if is_lower c \<or> is_upper c \<or> is_digit c \<or> c \<in> jc ` set ''*-._'' then [c]
      else percent_byte b)"

definition form_encode :: "jsstring \<Rightarrow> jsstring" where
  "form_encode s = concat (map form_byte (utf8 s))"

definition buildOtpauthUri :: "jsstring \<Rightarrow> jsstring \<Rightarrow> jsstring result" where
  "buildOtpauthUri identifier secret =
     bindR (encodeURIComponent (js ''passwd:'' @ identifier)) (\<lambda>label.
     Inr (js ''otpauth://totp/'' @ label @ js ''?'' @
       join (js ''&'') (map (\<lambda>(k, v). form_encode (js k) @ js ''='' @ form_encode v)
         [(''secret'', secret), (''issuer'', js ''passwd''), (''algorithm'', js ''SHA1''),
          (''digits'', js ''6''), (''period'', js ''30'')])))"

definition setupTwoFactor ::
  "('n, 'z) service_scheme \<Rightarrow> Session \<Rightarrow> (('n, 'y) networld_scheme, jsstring \<times> jsstring) act" where
  "setupTwoFactor P s =
     bindA (twoFactorSetup P (s_accessToken s)) (\<lambda>res.
     bindA (liftA (bindR (get_prop res (js ''secret'')) (valText P))) (\<lambda>secret.
     bindA (liftA (buildOtpauthUri (s_identifier s) secret)) (\<lambda>uri.
     returnA (secret, uri))))"

definition enableTwoFactor where
  "enableTwoFactor P s code = twoFactorEnable P (s_accessToken s) code"

definition disableTwoFactor where
  "disableTwoFactor P s code = twoFactorDisable P (s_accessToken s) code"

definition getRecoveryStatus where
  "getRecoveryStatus P s = recoveryStatus P (s_accessToken s)"

definition enableRecovery ::
  "('n, 'z) service_scheme \<Rightarrow> Session \<Rightarrow> (('n, 'y) networld_scheme, jsstring) act" where
  "enableRecovery P s =
     bindA (enrollRecovery P (s_userKey s)) (\<lambda>en.
     bindA (recoveryEnable P (s_accessToken s) (re_recoveryProtectedUserKey en) (re_recoveryAuthHash en)) (\<lambda>_.
     returnA (re_recoveryCode en)))"

definition disableRecovery where
  "disableRecovery P s = recoveryDisable P (s_accessToken s)"

definition recoverAccount ::
  "('n, 'z) service_scheme \<Rightarrow> jsstring \<Rightarrow> jsstring \<Rightarrow> jsstring \<Rightarrow> (('n, 'y) networld_scheme, Session) act" where
  "recoverAccount P identifier recoveryCode newMasterPassword =
     bindA (recoveryChallenge P identifier) (\<lambda>ch.
     bindA (liftA (get_prop ch (js ''recoveryProtectedUserKey''))) (\<lambda>wrapped.
     bindA (liftA (get_prop ch (js ''kdf''))) (\<lambda>kdf.
     bindA (case wrapped of
              Some (JStr t) \<Rightarrow> completeRecovery P recoveryCode t identifier newMasterPassword kdf
            | _ \<Rightarrow> throwA EType) (\<lambda>reset.
     bindA (recoveryComplete P identifier reset) (\<lambda>res.
     if res = JNull then throwA EType
     else returnA (sessionOf identifier res (rr_userKey reset)))))))"

text \<open>Replies that are one property of the object sent back.\<close>

definition getActivity where
  "getActivity P s = bindA (auditLog P (s_accessToken s)) (\<lambda>r. liftA (get_prop r (js ''events'')))"

definition getSessions where
  "getSessions P s = bindA (listSessions P (s_accessToken s)) (\<lambda>r. liftA (get_prop r (js ''sessions'')))"

definition signOutEverywhere where
  "signOutEverywhere P s = logoutAll P (s_accessToken s)"

definition deleteAccount where
  "deleteAccount P s = deleteAccountReq P (s_accessToken s)"

definition listPasskeys where
  "listPasskeys P s = bindA (webauthnCredentials P (s_accessToken s)) (\<lambda>r. liftA (get_prop r (js ''credentials'')))"

definition removePasskey where
  "removePasskey P s cid = webauthnDeleteCredential P (s_accessToken s) cid"

definition enrollPasskey ::
  "('n, 'z) service_scheme \<Rightarrow> Session \<Rightarrow> jsstring \<Rightarrow> (('n, 'y) networld_scheme, jsval) act" where
  "enrollPasskey P s nm =
     bindA (webauthnRegisterBegin P (s_accessToken s)) (\<lambda>b.
     bindA (liftA (get_prop b (js ''sessionId''))) (\<lambda>sessionId.
     bindA (liftA (bindR (get_prop b (js ''options'')) (\<lambda>o1. get_prop (nullish o1 JNull) (js ''publicKey'')))) (\<lambda>options.
     bindA (outside (wa_create P options)) (\<lambda>attestation.
     webauthnRegisterFinish P (s_accessToken s) sessionId nm attestation))))"

section \<open>Items\<close>

text \<open>\<open>const { id, ...fields } = item\<close> and \<open>{ id, ...fields }\<close>.\<close>

definition withoutId :: "jsval \<Rightarrow> jsval" where
  "withoutId item = JObj (filter (\<lambda>(k, v). k \<noteq> js ''id'') (own_props item))"

definition withId :: "props \<Rightarrow> jsval \<Rightarrow> jsval" where
  "withId ids flds = JObj (obj_assign ids (own_props flds))"

text \<open>The elements a \<open>for ... of\<close> loop visits.\<close>

definition iterate :: "jsval option \<Rightarrow> jsval list result" where
  "iterate ov =
     (case ov of
        Some (JArr vs) \<Rightarrow> Inr vs
      | Some (JStr s) \<Rightarrow> Inr (map (\<lambda>c. JStr [c]) s)
      | _ \<Rightarrow> Inl EType)"

text \<open>A loop that skips the elements whose body throws.\<close>

definition keepOk :: "('a \<Rightarrow> 'b result) \<Rightarrow> 'a list \<Rightarrow> 'b list" where
  "keepOk f xs = List.map_filter (\<lambda>x. case f x of Inl _ \<Rightarrow> None | Inr y \<Rightarrow> Some y) xs"

definition cipherItem :: "'z platform_scheme \<Rightarrow> bytes \<Rightarrow> jsval \<Rightarrow> jsval result" where
  "cipherItem P userKey c =
     bindR (get_prop c (js ''data'')) (\<lambda>dat.
     bindR (case dat of Some (JStr t) \<Rightarrow> decryptItemKeyed P userKey t | _ \<Rightarrow> Inl EType) (\<lambda>plaintext.
     bindR (JSON_parse plaintext) (\<lambda>flds.
     bindR (normalizeItemFields P flds) (\<lambda>n.
     bindR (get_prop c (js ''id'')) (\<lambda>cid.
     Inr (withId (opt_member ''id'' cid) n))))))"

definition loadVault ::
  "('n, 'z) service_scheme \<Rightarrow> Session \<Rightarrow> (('n, 'y) networld_scheme, jsval list) act" where
  "loadVault P s =
     bindA (sync P (s_accessToken s)) (\<lambda>res.
     bindA (liftA (bindR (get_prop res (js ''ciphers'')) iterate)) (\<lambda>ciphers.
     returnA (keepOk (cipherItem P (s_userKey s)) ciphers)))"

definition addItem ::
  "('n, 'z) service_scheme \<Rightarrow> Session \<Rightarrow> jsval \<Rightarrow> (('n, 'y) networld_scheme, jsval) act" where
  "addItem P s flds =
     bindA (encryptItemKeyed P (s_userKey s) (JSON_stringify P 0 flds)) (\<lambda>dat.
     bindA (createCipher P (s_accessToken s) dat) (\<lambda>c.
     bindA (liftA (get_prop c (js ''id''))) (\<lambda>cid.
     returnA (withId (opt_member ''id'' cid) flds))))"

definition saveItem ::
  "('n, 'z) service_scheme \<Rightarrow> Session \<Rightarrow> jsval \<Rightarrow> (('n, 'y) networld_scheme, unit) act" where
  "saveItem P s item =
     bindA (encryptItemKeyed P (s_userKey s) (JSON_stringify P 0 (withoutId item))) (\<lambda>dat.
     bindA (liftA (valText P (get_prop_opt item (js ''id'')))) (\<lambda>cid.
     bindA (updateCipher P (s_accessToken s) cid dat) (\<lambda>_. returnA ())))"

definition removeItem ::
  "('n, 'z) service_scheme \<Rightarrow> Session \<Rightarrow> jsstring \<Rightarrow> (('n, 'y) networld_scheme, unit) act" where
  "removeItem P s cid = bindA (deleteCipher P (s_accessToken s) cid) (\<lambda>_. returnA ())"

text \<open>The bulk import; the progress callback is the caller's.\<close>

fun importItems ::
  "('n, 'z) service_scheme \<Rightarrow> Session \<Rightarrow> jsval list \<Rightarrow> nat \<Rightarrow> nat
   \<Rightarrow> (('n, 'y) networld_scheme, nat \<times> nat) act" where
  "importItems P s [] added failed w = (Inr (added, failed), w)"
| "importItems P s (i # items) added failed w =
     (case addItem P s i w of
        (Inr _, w') \<Rightarrow> importItems P s items (added + 1) failed w'
      | (Inl _, w') \<Rightarrow> importItems P s items added (failed + 1) w')"

section \<open>Sharing\<close>

definition shareItem ::
  "('n, 'z) service_scheme \<Rightarrow> Session \<Rightarrow> jsstring \<Rightarrow> jsval \<Rightarrow> (('n, 'y) networld_scheme, unit) act" where
  "shareItem P s recipientIdentifier item =
     bindA (lookupPublicKey P (s_accessToken s) recipientIdentifier) (\<lambda>res.
     bindA (liftA (bindR (get_prop res (js ''publicKey'')) (valText P))) (\<lambda>publicKey.
     bindA (createShare P publicKey (JSON_stringify P 0 (withoutId item))) (\<lambda>envelope.
     bindA (createShareReq P (s_accessToken s) recipientIdentifier (wrappedKey envelope) (share_data envelope)) (\<lambda>_.
     returnA ()))))"

definition sharedItem :: "'z platform_scheme \<Rightarrow> Session \<Rightarrow> jsval \<Rightarrow> jsval result" where
  "sharedItem P s sh =
     bindR (bindR (get_prop sh (js ''wrappedKey'')) (valText P)) (\<lambda>wk.
     bindR (get_prop sh (js ''data'')) (\<lambda>dat.
     bindR (case (s_protectedPrivateKey s, dat) of
              (JStr prot, Some (JStr d)) \<Rightarrow>
                openShare P (s_userKey s) prot \<lparr>wrappedKey = wk, share_data = d\<rparr>
            | _ \<Rightarrow> Inl EType) (\<lambda>plaintext.
     bindR (JSON_parse plaintext) (\<lambda>flds.
     bindR (normalizeItemFields P flds) (\<lambda>n.
     bindR (get_prop sh (js ''id'')) (\<lambda>sid.
     Inr (withId (opt_member ''id'' sid @ opt_member ''shareId'' sid) n)))))))"

definition listSharedWithMe ::
  "('n, 'z) service_scheme \<Rightarrow> Session \<Rightarrow> (('n, 'y) networld_scheme, jsval list) act" where
  "listSharedWithMe P s =
     bindA (listShares P (s_accessToken s)) (\<lambda>res.
     bindA (liftA (bindR (get_prop res (js ''shares'')) iterate)) (\<lambda>shares.
     returnA (keepOk (sharedItem P s) shares)))"

definition removeSharedItem where
  "removeSharedItem P s shareId = deleteShare P (s_accessToken s) shareId"


section \<open>Logging in\<close>

definition login_request :: "'z jsenv_scheme \<Rightarrow> jsstring \<Rightarrow> jsstring \<Rightarrow> jsstring \<Rightarrow> jsstring option \<Rightarrow> request" where
  "login_request J base identifier h code =
     \<lparr>rq_method = js ''POST'', rq_url = base @ js ''/api/auth/login'',
      rq_headers = [(js ''content-type'', js ''application/json'')],
      rq_body = Some (JSON_stringify J 0 (JObj
        ([(js ''identifier'', JStr identifier), (js ''masterPasswordHash'', JStr h)]
         @ (case code of None \<Rightarrow> [] | Some c \<Rightarrow> [(js ''totpCode'', JStr c)]))))\<rparr>"

definition prelogin_request :: "'z jsenv_scheme \<Rightarrow> jsstring \<Rightarrow> jsstring \<Rightarrow> request" where
  "prelogin_request J base identifier =
     request_of J base ''POST'' (js ''/api/accounts/prelogin'') (Some (obj [(''identifier'', JStr identifier)])) None"

text \<open>A reply with status 2xx that is a JSON object.\<close>

definition replies :: "('n, 'z) service_scheme \<Rightarrow> request \<Rightarrow> 'n \<Rightarrow> props \<Rightarrow> 'n \<Rightarrow> bool" where
  "replies P rq n kvs n' \<longleftrightarrow>
     (\<exists>r. fetch P rq n = (Inr r, n') \<and> rs_ok r \<and> rs_text r \<noteq> [] \<and> JSON_parse (rs_text r) = Inr (JObj kvs))"

lemma call_replies:
  assumes "token_text P token t" "replies P (request_of P (baseUrl w) meth path body t) (net w) kvs n'"
  shows "call P meth path body token w = (Inr (JObj kvs), w\<lparr>net := n'\<rparr>)"
  using assms call_ok unfolding replies_def by metis

lemma prelogin_replies:
  "replies P (prelogin_request P (baseUrl w) identifier) (net w) kvs n' \<Longrightarrow>
   prelogin P identifier w = (Inr (JObj kvs), w\<lparr>net := n'\<rparr>)"
  unfolding prelogin_def prelogin_request_def
  by (rule call_replies [where t = None]) (simp_all add: token_text_def truthy_opt_def)

lemma login_replies:
  "replies P (login_request P (baseUrl w) identifier h code) (net w) kvs n' \<Longrightarrow>
   login P identifier h code w = (Inr (JObj kvs), w\<lparr>net := n'\<rparr>)"
  by (auto simp: replies_def login_request_def login_def outside_def bindA_def returnA_def Let_def)

lemma unlock_steps:
  assumes "unlock P identifier pw kdf prot = Inr (userKey, h)"
  obtains mk st where "deriveMasterKey P pw identifier kdf = Inr mk" "stretchMasterKey P mk = Inr st"
    "unwrapUserKey P st (Some (JStr prot)) = Inr userKey" "deriveMasterPasswordHash P mk pw = Inr h"
  using assms by (auto simp: unlock_def)

lemma get_prop_JObj [simp]: "get_prop (JObj kvs) k = Inr (obj_get kvs k)"
  and get_prop_opt_JObj [simp]: "get_prop_opt (JObj kvs) k = obj_get kvs k"
  by (simp_all add: get_prop_def get_prop_opt_def own_props_def)

text \<open>Logging in computes what \<open>unlock\<close> computes from the server's replies.\<close>

lemma loginAccount_unlocks:
  assumes u: "unlock P identifier pw (obj_get kv1 (js ''kdf'')) prot = Inr (userKey, h)"
    and r1: "replies P (prelogin_request P (baseUrl w) identifier) (net w) kv1 n1"
    and r2: "replies P (login_request P (baseUrl w) identifier h code) n1 kv2 n2"
    and ok: "\<not> truthy_opt (obj_get kv2 (js ''twoFactorRequired''))"
      "obj_get kv2 (js ''protectedUserKey'') = Some (JStr prot)"
  shows "loginAccount P identifier pw code w = (Inr (sessionOf identifier (JObj kv2) userKey), w\<lparr>net := n2\<rparr>)"
proof -
  obtain mk st where m: "deriveMasterKey P pw identifier (obj_get kv1 (js ''kdf'')) = Inr mk"
      "stretchMasterKey P mk = Inr st" "unwrapUserKey P st (Some (JStr prot)) = Inr userKey"
      "deriveMasterPasswordHash P mk pw = Inr h"
    using unlock_steps [OF u] by blast
  have "login P identifier h code (w\<lparr>net := n1\<rparr>) = (Inr (JObj kv2), w\<lparr>net := n2\<rparr>)"
    using login_replies [where w = "w\<lparr>net := n1\<rparr>" and P = P] r2 by simp
  then show ?thesis
    using m ok prelogin_replies [OF r1]
    by (simp add: loginAccount_def secondFactor_def act_simps)
qed

lemma registerAccount_replies:
  assumes b: "buildRegistration P identifier pw (Some DEFAULT_KDF) w = (Inr (b, userKey), w\<lparr>drawn := d\<rparr>)"
    and r1: "replies P (request_of P (baseUrl w) ''POST'' (js ''/api/accounts/register'') (Some (bundleVal b)) None)
      (net w) kv0 n1"
    and r2: "replies P (login_request P (baseUrl w) (rb_identifier b) (rb_masterPasswordHash b) None) n1 kv n2"
    and ok: "\<not> truthy_opt (obj_get kv (js ''twoFactorRequired''))"
  shows "registerAccount P identifier pw w =
    (Inr \<lparr>s_identifier = rb_identifier b, s_accessToken = obj_get kv (js ''accessToken''),
          s_refreshToken = obj_get kv (js ''refreshToken''), s_userKey = userKey,
          s_protectedPrivateKey = JStr (rb_protectedPrivateKey b)\<rparr>, w\<lparr>drawn := d, net := n2\<rparr>)"
proof -
  have r: "register P b (w\<lparr>drawn := d\<rparr>) = (Inr (JObj kv0), w\<lparr>drawn := d, net := n1\<rparr>)"
    unfolding register_def using r1
    by (subst call_replies [where t = None]) (simp_all add: token_text_def truthy_opt_def)
  have l: "login P (rb_identifier b) (rb_masterPasswordHash b) None (w\<lparr>drawn := d, net := n1\<rparr>)
      = (Inr (JObj kv), w\<lparr>drawn := d, net := n2\<rparr>)"
    using login_replies [where w = "w\<lparr>drawn := d, net := n1\<rparr>" and P = P] r2 by simp
  show ?thesis
    using b r l ok by (simp add: registerAccount_def secondFactor_def act_simps)
qed

text \<open>C4: an account that registers can log in again, from any device and in any later state of the world.
  For a password and an identifier the derivation accepts, there are one registration bundle and one
  user key such that: when the server accepts the bundle and the first login, registering fulfils
  with a session for that key; and whenever the server answers an identifier with the same canonical form
  with the parameters and the wrapped key of the bundle, to a login that carries
  the password hash of the bundle, logging in with the password fulfils with a session for the same key.\<close>

theorem registered_account_logs_in:
  assumes P: "webcrypto_ok P" and l: "login_ok P identifier pw (Some DEFAULT_KDF)"
    and same: "normalizeIdentifier P identifier' = normalizeIdentifier P identifier"
  shows "\<exists>b userKey. length userKey = 64 \<and> rb_identifier b = normalizeIdentifier P identifier
    \<and> rb_kdf b = Some DEFAULT_KDF
    \<and> (\<forall>kv0 kv n1 n2.
        replies P (request_of P (baseUrl w) ''POST'' (js ''/api/accounts/register'') (Some (bundleVal b)) None)
          (net w) kv0 n1 \<and>
        replies P (login_request P (baseUrl w) (rb_identifier b) (rb_masterPasswordHash b) None) n1 kv n2 \<and>
        \<not> truthy_opt (obj_get kv (js ''twoFactorRequired'')) \<longrightarrow>
        (\<exists>s w'. registerAccount P identifier pw w = (Inr s, w') \<and> s_userKey s = userKey))
    \<and> (\<forall>w2 code kv1 kv2 n1 n2.
        replies P (prelogin_request P (baseUrl w2) identifier') (net w2) kv1 n1 \<and>
        obj_get kv1 (js ''kdf'') = rb_kdf b \<and>
        replies P (login_request P (baseUrl w2) identifier' (rb_masterPasswordHash b) code) n1 kv2 n2 \<and>
        \<not> truthy_opt (obj_get kv2 (js ''twoFactorRequired'')) \<and>
        obj_get kv2 (js ''protectedUserKey'') = Some (JStr (rb_protectedUserKey b)) \<longrightarrow>
        loginAccount P identifier' pw code w2
          = (Inr (sessionOf identifier' (JObj kv2) userKey), w2\<lparr>net := n2\<rparr>))"
proof -
  obtain b userKey where b: "buildRegistration P identifier pw (Some DEFAULT_KDF) w
        = (Inr (b, userKey), w\<lparr>drawn := drawn w + 120\<rparr>)"
      "length userKey = 64" "rb_identifier b = normalizeIdentifier P identifier" "rb_kdf b = Some DEFAULT_KDF"
      "unlock P identifier' pw (Some DEFAULT_KDF) (rb_protectedUserKey b) = Inr (userKey, rb_masterPasswordHash b)"
    using buildRegistration_ok [OF P l same, of w] by blast
  show ?thesis
  proof (intro exI [of _ b] exI [of _ userKey] conjI allI impI, goal_cases)
    case (4 kv0 kv n1 n2)
    then show ?case
      using registerAccount_replies [OF b(1), of kv0 n1 kv n2] by simp
  next
    case (5 w2 code kv1 kv2 n1 n2)
    then have "unlock P identifier' pw (obj_get kv1 (js ''kdf'')) (rb_protectedUserKey b)
        = Inr (userKey, rb_masterPasswordHash b)"
      using b(4,5) by simp
    with 5 show ?case
      by (elim conjE) (rule loginAccount_unlocks; assumption)
  qed (simp_all add: b)
qed

text \<open>C21: an account with a second factor is never unlocked without it: when the server answers the
  login with its 401 challenge, logging in rejects with the enrolled factors, after these two requests
  and before the key is unwrapped.\<close>

theorem loginAccount_second_factor:
  assumes "deriveMasterKey P pw identifier (obj_get kv1 (js ''kdf'')) = Inr mk"
    and "deriveMasterPasswordHash P mk pw = Inr h"
    and r1: "replies P (prelogin_request P (baseUrl w) identifier) (net w) kv1 n1"
    and r2: "fetch P (login_request P (baseUrl w) identifier h None) n1 = (Inr r, n2)"
    and r: "rs_status r = 401" "JSON_parse (rs_text r) = Inr (JObj kv2)"
      "obj_get kv2 (js ''twoFactorRequired'') = Some (JBool True)"
      "obj_get kv2 (js ''methods'') = Some (JArr (map JStr ms))"
  shows "loginAccount P identifier pw None w = (Inl (ETwoFactorRequired ms), w\<lparr>net := n2\<rparr>)"
proof -
  have "List.map_filter (\<lambda>v. case v of JStr s \<Rightarrow> Some s | _ \<Rightarrow> None) (map JStr ms) = ms"
    by (induction ms) (simp_all add: List.map_filter_simps)
  then have ms: "methodsOf (Some (JArr (map JStr ms))) = ms"
    by (simp add: methodsOf_def)
  have "\<not> rs_ok r"
    using r(1) by (simp add: rs_ok_def)
  then have "login P identifier h None (w\<lparr>net := n1\<rparr>) =
      (Inr (JObj [(js ''twoFactorRequired'', JBool True), (js ''methods'', JArr (map JStr ms))]), w\<lparr>net := n2\<rparr>)"
    using r2 r by (simp add: login_def login_request_def outside_def bindA_def liftA_def truthy_opt_def
        nullish_def)
  then show ?thesis
    using assms(1,2) prelogin_replies [OF r1] ms
    by (simp add: loginAccount_def secondFactor_def truthy_opt_def throwA_def act_simps)
qed

section \<open>A service for the witnesses\<close>

text \<open>A server whose replies are queued in the state of the outside: the next one answers the next request.\<close>

definition sample_fetch :: "request \<Rightarrow> (int \<times> jsval) list \<Rightarrow> response result \<times> (int \<times> jsval) list" where
  "sample_fetch rq n =
     (case n of [] \<Rightarrow> (Inl ENetwork, [])
      | (st, v) # n' \<Rightarrow> (Inr \<lparr>rs_status = st, rs_text = JSON_stringify sample_platform 0 v\<rparr>, n'))"

definition sample_service :: "(int \<times> jsval) list service" where
  "sample_service = platform.extend sample_platform
     (service.fields sample_fetch (\<lambda>o1 n. (Inr (JObj []), n)) (\<lambda>o1 n. (Inr (JObj []), n)))"

definition sample_net :: "(int \<times> jsval) list \<Rightarrow> (int \<times> jsval) list networld" where
  "sample_net n = world.extend sample_world (networld.fields n (js ''https://vault.example''))"

lemmas sample_service_defs = sample_service_def platform.defs service.defs sample_platform_def

lemma sample_service_ok: "aes_ok sample_service" "mac_ok sample_service" "kdf_ok sample_service" "rsa_ok sample_service"
  using sample_ok
  by (simp_all add: aes_ok_def mac_ok_def kdf_ok_def rsa_ok_def sample_service_defs)

lemma sample_service_webcrypto: "webcrypto_ok sample_service"
  by (simp add: webcrypto_ok_def sample_service_ok)

lemma sample_replies:
  assumes "plain (JObj kvs)"
  shows "replies sample_service rq ((200, JObj kvs) # n) kvs n"
proof -
  have "JSON_stringify sample_platform 0 (JObj kvs) \<noteq> []"
    by (simp add: JSON_stringify_def)
  then show ?thesis
    using json.dec_enc [OF assms]
    by (simp add: replies_def sample_service_defs sample_fetch_def rs_ok_def)
qed

lemma sample_net_simps [simp]:
  "net (sample_net n) = n" "baseUrl (sample_net n) = js ''https://vault.example''"
  "(sample_net n)\<lparr>net := n'\<rparr> = sample_net n'" "drawn (sample_net n) = 0"
  by (simp_all add: sample_net_def world.defs networld.defs sample_world_def)

lemma sample_login_ok:
  "login_ok sample_service (js ''Me@Example.org'') (js ''correct horse'') (Some DEFAULT_KDF)"
  using sample_credentials(1) unicode_only(2) [of sample_service sample_platform] by (simp add: sample_service_defs)

theorem registered_account_logs_in_witness:
  "\<exists>reply s1 s2 w1 w2. registerAccount sample_service (js ''Me@Example.org'') (js ''correct horse'')
      (sample_net [(200, JObj []), (200, obj [(''accessToken'', JStr (js ''t''))])]) = (Inr s1, w1)
    \<and> loginAccount sample_service (js '' me@example.ORG'') (js ''correct horse'') None
      (sample_net [(200, obj [(''kdf'', DEFAULT_KDF)]), (200, obj [(''protectedUserKey'', JStr reply)])]) = (Inr s2, w2)
    \<and> s_userKey s1 = s_userKey s2"
proof -
  let ?P = sample_service and ?i = "js ''Me@Example.org''" and ?j = "js '' me@example.ORG''"
    and ?pw = "js ''correct horse''" and ?n1 = "[(200, JObj []), (200, obj [(''accessToken'', JStr (js ''t''))])]"
  have n: "normalizeIdentifier ?P ?j = normalizeIdentifier ?P ?i"
    using sample_credentials(2) unicode_only(1) [of ?P sample_platform] by (simp add: sample_service_defs)
  obtain b userKey where b: "rb_kdf b = Some DEFAULT_KDF"
    and reg: "\<forall>kv0 kv n1 n2.
        replies ?P (request_of ?P (baseUrl (sample_net ?n1)) ''POST'' (js ''/api/accounts/register'') (Some (bundleVal b)) None)
          (net (sample_net ?n1)) kv0 n1 \<and>
        replies ?P (login_request ?P (baseUrl (sample_net ?n1)) (rb_identifier b) (rb_masterPasswordHash b) None) n1 kv n2 \<and>
        \<not> truthy_opt (obj_get kv (js ''twoFactorRequired'')) \<longrightarrow>
        (\<exists>s w'. registerAccount ?P ?i ?pw (sample_net ?n1) = (Inr s, w') \<and> s_userKey s = userKey)"
    and log: "\<forall>(w2 :: (int \<times> jsval) list networld) code kv1 kv2 n1 n2.
        replies ?P (prelogin_request ?P (baseUrl w2) ?j) (net w2) kv1 n1 \<and>
        obj_get kv1 (js ''kdf'') = rb_kdf b \<and>
        replies ?P (login_request ?P (baseUrl w2) ?j (rb_masterPasswordHash b) code) n1 kv2 n2 \<and>
        \<not> truthy_opt (obj_get kv2 (js ''twoFactorRequired'')) \<and>
        obj_get kv2 (js ''protectedUserKey'') = Some (JStr (rb_protectedUserKey b)) \<longrightarrow>
        loginAccount ?P ?j ?pw code w2 = (Inr (sessionOf ?j (JObj kv2) userKey), w2\<lparr>net := n2\<rparr>)"
    using registered_account_logs_in [OF sample_service_webcrypto sample_login_ok n, of "sample_net ?n1"] by blast
  let ?r = "obj [(''protectedUserKey'', JStr (rb_protectedUserKey b))]"
    and ?w2 = "sample_net [(200, obj [(''kdf'', DEFAULT_KDF)]),
      (200, obj [(''protectedUserKey'', JStr (rb_protectedUserKey b))])]"
  have p: "plain (JObj [])" "plain (obj [(''accessToken'', JStr (js ''t''))])" "plain (obj [(''kdf'', DEFAULT_KDF)])"
    by code_simp+
  have q: "plain ?r"
    by (simp add: obj_of_id not_index_js)
  obtain s1 w1 where "registerAccount ?P ?i ?pw (sample_net ?n1) = (Inr s1, w1)" "s_userKey s1 = userKey"
    using reg [rule_format, of "[]" "[(200, obj [(''accessToken'', JStr (js ''t''))])]"
        "map (\<lambda>(k, v). (js k, v)) [(''accessToken'', JStr (js ''t''))]" "[]"]
      sample_replies [OF p(1)] sample_replies [OF p(2)]
    by (force simp: truthy_opt_def)
  moreover have "loginAccount ?P ?j ?pw None ?w2 = (Inr (sessionOf ?j ?r userKey), ?w2\<lparr>net := []\<rparr>)"
    using log [rule_format, of ?w2 "map (\<lambda>(k, v). (js k, v)) [(''kdf'', DEFAULT_KDF)]"
        "[(200, ?r)]" None "map (\<lambda>(k, v). (js k, v)) [(''protectedUserKey'', JStr (rb_protectedUserKey b))]" "[]"]
      sample_replies [OF p(3)] sample_replies [OF q] b
    by (simp add: truthy_opt_def)
  ultimately show ?thesis
    by (intro exI [of _ "rb_protectedUserKey b"] exI [of _ s1] exI [of _ "sessionOf ?j ?r userKey"]
        exI [of _ w1] exI [of _ "?w2\<lparr>net := []\<rparr>"]) (simp add: sessionOf_def)
qed

theorem loginAccount_second_factor_witness:
  "\<exists>w'. loginAccount sample_service (js ''Me@Example.org'') (js ''correct horse'') None
      (sample_net [(200, obj [(''kdf'', DEFAULT_KDF)]),
        (401, obj [(''twoFactorRequired'', JBool True), (''methods'', JArr (map JStr [js ''totp'', js ''webauthn'']))])])
    = (Inl (ETwoFactorRequired [js ''totp'', js ''webauthn'']), w')"
proof -
  let ?P = sample_service and ?i = "js ''Me@Example.org''" and ?pw = "js ''correct horse''"
    and ?kv = "[(js ''twoFactorRequired'', JBool True),
      (js ''methods'', JArr (map JStr [js ''totp'', js ''webauthn'']))]"
  let ?w = "sample_net [(200, obj [(''kdf'', DEFAULT_KDF)]), (401, JObj ?kv)]"
  obtain mk st h where m: "deriveMasterKey ?P ?pw ?i (Some DEFAULT_KDF) = Inr mk"
      "deriveMasterPasswordHash ?P mk ?pw = Inr h"
    using master_chain [OF sample_service_webcrypto sample_login_ok] by blast
  have p: "plain (obj [(''kdf'', DEFAULT_KDF)])" "plain (JObj ?kv)"
    by code_simp+
  have "loginAccount ?P ?i ?pw None ?w
      = (Inl (ETwoFactorRequired [js ''totp'', js ''webauthn'']), ?w\<lparr>net := []\<rparr>)"
    by (rule loginAccount_second_factor [where ?kv1.0 = "[(js ''kdf'', DEFAULT_KDF)]" and ?kv2.0 = ?kv
          and ?n1.0 = "[(401, JObj ?kv)]" and mk = mk and h = h
          and r = "\<lparr>rs_status = 401, rs_text = JSON_stringify sample_platform 0 (JObj ?kv)\<rparr>"])
      (use m sample_replies [OF p(1)] in
        \<open>simp_all add: json.dec_enc [OF p(2), simplified] sample_service_defs sample_fetch_def\<close>)
  then show ?thesis
    by (intro exI) simp
qed

section \<open>Storing and loading items\<close>

text \<open>An item as it is stored: full, without loss as JSON, its id kept outside.\<close>

definition storable :: "jsval \<Rightarrow> bool" where
  "storable v \<longleftrightarrow> item_wf v \<and> plain v \<and> obj_get (own_props v) (js ''id'') = None"

lemma seal_item:
  assumes "aes_ok P" "32 \<le> length uk" "plain v"
  shows "\<exists>d. encryptItemKeyed P uk (JSON_stringify P 0 v) w = (Inr d, w\<lparr>drawn := drawn w + 56\<rparr>)
    \<and> decryptItemKeyed P uk d = Inr (JSON_stringify P 0 v)"
  using keyed.seal_ok [of "(P, uk)" "JSON_stringify P 0 v" w] assms plain_text_stringify
  by (auto simp: item_ok_def)

lemma cipherItem_sealed:
  assumes "decryptItemKeyed P uk d = Inr (JSON_stringify P 0 v)" "item_wf v" "plain v"
  shows "cipherItem P uk (JObj [(js ''id'', JStr cid), (js ''data'', JStr d)]) = Inr (withId [(js ''id'', JStr cid)] v)"
  using assms by (simp add: cipherItem_def json.dec_enc normalizeItemFields_same opt_member_def)

lemma keepOk_in: "x \<in> set xs \<Longrightarrow> f x = Inr y \<Longrightarrow> y \<in> set (keepOk f xs)"
  by (force simp: keepOk_def List.map_filter_def)

lemma loadVault_replies:
  assumes "token_text P (s_accessToken s) t"
    and "replies P (request_of P (baseUrl w) ''GET'' (js ''/api/sync'') None t) (net w)
      [(js ''ciphers'', JArr cs)] n'"
  shows "loadVault P s w = (Inr (keepOk (cipherItem P (s_userKey s)) cs), w\<lparr>net := n'\<rparr>)"
  using call_replies [OF assms] by (simp add: loadVault_def sync_def iterate_def act_simps)

lemma loadVault_lists:
  assumes "token_text P (s_accessToken s) t"
    and "replies P (request_of P (baseUrl w) ''GET'' (js ''/api/sync'') None t) (net w)
      [(js ''ciphers'', JArr cs)] n'"
    and "c \<in> set cs" "cipherItem P (s_userKey s) c = Inr i"
  shows "\<exists>items. loadVault P s w = (Inr items, w\<lparr>net := n'\<rparr>) \<and> i \<in> set items"
  by (intro exI conjI, rule loadVault_replies [OF assms(1,2)], rule keepOk_in [where f = "cipherItem P (s_userKey s)", OF assms(3,4)])

text \<open>An item added is an item loaded. There is one text that adding an item uploads; when the server
  accepts it under an id, adding fulfils with the item and that id, and whenever, in whatever state
  of the world, the server lists a cipher with that id and text, loading the vault returns the item
  with that id, whatever else the list holds.\<close>

theorem added_item_loads:
  assumes P: "aes_ok P" "32 \<le> length (s_userKey s)" and v: "storable v"
    and t: "token_text P (s_accessToken s) t"
  shows "\<exists>d. (\<forall>cid n'. replies P (request_of P (baseUrl w) ''POST'' (js ''/api/ciphers'')
            (Some (obj [(''data'', JStr d)])) t) (net w) [(js ''id'', JStr cid)] n' \<longrightarrow>
          addItem P s v w = (Inr (withId [(js ''id'', JStr cid)] v), w\<lparr>drawn := drawn w + 56, net := n'\<rparr>))
    \<and> (\<forall>cid cs w2 n2. JObj [(js ''id'', JStr cid), (js ''data'', JStr d)] \<in> set cs \<and>
          replies P (request_of P (baseUrl w2) ''GET'' (js ''/api/sync'') None t) (net w2)
            [(js ''ciphers'', JArr cs)] n2 \<longrightarrow>
          (\<exists>items. loadVault P s w2 = (Inr items, w2\<lparr>net := n2\<rparr>)
            \<and> withId [(js ''id'', JStr cid)] v \<in> set items))"
proof -
  have wf: "item_wf v" "plain v"
    using v by (simp_all add: storable_def)
  obtain d where d: "encryptItemKeyed P (s_userKey s) (JSON_stringify P 0 v) w = (Inr d, w\<lparr>drawn := drawn w + 56\<rparr>)"
      "decryptItemKeyed P (s_userKey s) d = Inr (JSON_stringify P 0 v)"
    using seal_item [OF P wf(2)] by blast
  have add: "addItem P s v w = (Inr (withId [(js ''id'', JStr cid)] v), w\<lparr>drawn := drawn w + 56, net := n'\<rparr>)"
    if "replies P (request_of P (baseUrl w) ''POST'' (js ''/api/ciphers'')
        (Some (obj [(''data'', JStr d)])) t) (net w) [(js ''id'', JStr cid)] n'" for cid n'
  proof -
    have "createCipher P (s_accessToken s) d (w\<lparr>drawn := drawn w + 56\<rparr>)
        = (Inr (JObj [(js ''id'', JStr cid)]), w\<lparr>drawn := drawn w + 56, net := n'\<rparr>)"
      using call_replies [OF t, where w = "w\<lparr>drawn := drawn w + 56\<rparr>" and meth = "''POST''"
          and path = "js ''/api/ciphers''" and body = "Some (obj [(''data'', JStr d)])"
          and kvs = "[(js ''id'', JStr cid)]" and n' = n'] that
      unfolding createCipher_def by simp
    then show ?thesis
      using d(1) by (simp add: addItem_def opt_member_def act_simps)
  qed
  have load: "\<exists>items. loadVault P s w2 = (Inr items, w2\<lparr>net := n2\<rparr>) \<and> withId [(js ''id'', JStr cid)] v \<in> set items"
    if "JObj [(js ''id'', JStr cid), (js ''data'', JStr d)] \<in> set cs"
      "replies P (request_of P (baseUrl w2) ''GET'' (js ''/api/sync'') None t) (net w2)
        [(js ''ciphers'', JArr cs)] n2" for cid cs w2 n2
    by (rule loadVault_lists [OF t that(2) that(1) cipherItem_sealed [OF d(2) wf]])
  show ?thesis
    by (rule exI [of _ d], rule conjI)
      (intro allI impI, erule add, intro allI impI, elim conjE, erule (1) load)
qed

lemma sample_item_storable: "storable (itemVal sample_item)"
  using itemVal_wf [OF sample_item_ok] itemVal_plain [OF sample_item_ok]
  by (simp add: storable_def itemVal_def own_props_def)

definition sample_session :: Session where
  "sample_session = \<lparr>s_identifier = js ''me'', s_accessToken = None, s_refreshToken = None,
     s_userKey = replicate 64 7, s_protectedPrivateKey = JStr []\<rparr>"

lemma sample_token: "token_text P (s_accessToken sample_session) None"
  by (simp add: token_text_def sample_session_def truthy_opt_def)

theorem added_item_loads_witness:
  "\<exists>d items w1 w2. addItem sample_service sample_session (itemVal sample_item)
        (sample_net [(200, obj [(''id'', JStr (js ''a''))])])
      = (Inr (withId [(js ''id'', JStr (js ''a''))] (itemVal sample_item)), w1)
    \<and> loadVault sample_service sample_session
        (sample_net [(200, obj [(''ciphers'', JArr [obj [(''id'', JStr (js ''a'')), (''data'', JStr d)]])])])
      = (Inr items, w2)
    \<and> withId [(js ''id'', JStr (js ''a''))] (itemVal sample_item) \<in> set items"
proof -
  let ?P = sample_service and ?s = sample_session and ?v = "itemVal sample_item"
    and ?c = "[(js ''id'', JStr (js ''a''))]"
  let ?w = "sample_net [(200, JObj ?c)]"
  let ?cs = "\<lambda>d. [JObj [(js ''id'', JStr (js ''a'')), (js ''data'', JStr d)]]"
  have k: "32 \<le> length (s_userKey ?s)"
    by (simp add: sample_session_def)
  obtain d where
    add: "\<forall>cid n'. replies ?P (request_of ?P (baseUrl ?w) ''POST'' (js ''/api/ciphers'')
            (Some (obj [(''data'', JStr d)])) None) (net ?w) [(js ''id'', JStr cid)] n' \<longrightarrow>
          addItem ?P ?s ?v ?w = (Inr (withId [(js ''id'', JStr cid)] ?v), ?w\<lparr>drawn := drawn ?w + 56, net := n'\<rparr>)"
    and load: "\<forall>cid cs (w2 :: (int \<times> jsval) list networld) n2.
          JObj [(js ''id'', JStr cid), (js ''data'', JStr d)] \<in> set cs \<and>
          replies ?P (request_of ?P (baseUrl w2) ''GET'' (js ''/api/sync'') None None) (net w2)
            [(js ''ciphers'', JArr cs)] n2 \<longrightarrow>
          (\<exists>items. loadVault ?P ?s w2 = (Inr items, w2\<lparr>net := n2\<rparr>)
            \<and> withId [(js ''id'', JStr cid)] ?v \<in> set items)"
    using added_item_loads [OF sample_service_ok(1) k sample_item_storable sample_token, of ?w] by blast
  have p: "plain (JObj ?c)" "plain (JObj [(js ''ciphers'', JArr (?cs d))])"
    by (simp_all add: obj_of_id)
  have a: "addItem ?P ?s ?v ?w = (Inr (withId ?c ?v), ?w\<lparr>drawn := drawn ?w + 56, net := []\<rparr>)"
    by (rule add [rule_format]) (simp add: sample_replies [OF p(1)])
  obtain items where "loadVault ?P ?s (sample_net [(200, JObj [(js ''ciphers'', JArr (?cs d))])])
        = (Inr items, sample_net [])" "withId ?c ?v \<in> set items"
    using load [rule_format, of "js ''a''" "?cs d" "sample_net [(200, JObj [(js ''ciphers'', JArr (?cs d))])]" "[]"]
      sample_replies [OF p(2)] by auto
  with a show ?thesis
    by (intro exI [of _ d] exI [of _ items]) auto
qed

section \<open>Sharing\<close>

lemma net_after_drawn: "w\<lparr>net := n, drawn := d\<rparr> = w\<lparr>drawn := d, net := n\<rparr>"
  by (cases w) simp

lemma sharedItem_opened:
  assumes "openShare P (s_userKey s) prot env = Inr (JSON_stringify P 0 v)" "item_wf v" "plain v"
    and "s_protectedPrivateKey s = JStr prot"
  shows "sharedItem P s (JObj [(js ''id'', JStr sid), (js ''wrappedKey'', JStr (wrappedKey env)), (js ''data'', JStr (share_data env))])
    = Inr (withId [(js ''id'', JStr sid), (js ''shareId'', JStr sid)] v)"
  using assms
  by (cases env) (simp add: sharedItem_def json.dec_enc normalizeItemFields_same opt_member_def valText_def toText.simps)

lemma listShares_lists:
  assumes "token_text P (s_accessToken s) t"
    and "replies P (request_of P (baseUrl w) ''GET'' (js ''/api/shares'') None t) (net w)
      [(js ''shares'', JArr shs)] n'"
    and "sh \<in> set shs" "sharedItem P s sh = Inr i"
  shows "\<exists>items. listSharedWithMe P s w = (Inr items, w\<lparr>net := n'\<rparr>) \<and> i \<in> set items"
proof (intro exI conjI)
  show "listSharedWithMe P s w = (Inr (keepOk (sharedItem P s) shs), w\<lparr>net := n'\<rparr>)"
    using call_replies [OF assms(1,2)]
    by (simp add: listSharedWithMe_def listShares_def iterate_def act_simps)
  show "i \<in> set (keepOk (sharedItem P s) shs)"
    by (rule keepOk_in [where f = "sharedItem P s", OF assms(3,4)])
qed

text \<open>C20: an item shared is an item received. When the server answers the lookup of the recipient with a public
  key whose private half the recipient holds, there is one envelope such that: when the server accepts
  it, sharing fulfils; and whenever the server lists that envelope under an id, the recipient's list of
  shared items holds the item, under that id.\<close>

theorem shared_item_received:
  assumes P: "aes_ok P" and v: "storable v" "withoutId item = v"
    and kp: "keypair_ok P (s_userKey r) pub prot" "s_protectedPrivateKey r = JStr prot"
    and t: "token_text P (s_accessToken s) t" "token_text P (s_accessToken r) u"
    and who: "encodeURIComponent recipient = Inr q"
    and look: "replies P (request_of P (baseUrl w) ''GET'' (js ''/api/users/public-key?identifier='' @ q) None t)
      (net w) [(js ''publicKey'', JStr pub)] n1"
  shows "\<exists>env :: ShareEnvelope. (\<forall>kvs n2. replies P (request_of P (baseUrl w) ''POST'' (js ''/api/shares'')
            (Some (obj [(''recipientIdentifier'', JStr recipient), (''wrappedKey'', JStr (wrappedKey env)),
              (''data'', JStr (share_data env))])) t) n1 kvs n2 \<longrightarrow>
          shareItem P s recipient item w = (Inr (), w\<lparr>drawn := drawn w + 76, net := n2\<rparr>))
    \<and> (\<forall>sid shs w2 n2. JObj [(js ''id'', JStr sid), (js ''wrappedKey'', JStr (wrappedKey env)),
            (js ''data'', JStr (share_data env))] \<in> set shs \<and>
          replies P (request_of P (baseUrl w2) ''GET'' (js ''/api/shares'') None u) (net w2)
            [(js ''shares'', JArr shs)] n2 \<longrightarrow>
          (\<exists>items. listSharedWithMe P r w2 = (Inr items, w2\<lparr>net := n2\<rparr>)
            \<and> withId [(js ''id'', JStr sid), (js ''shareId'', JStr sid)] v \<in> set items))"
proof -
  have wf: "item_wf v" "plain v"
    using v(1) by (simp_all add: storable_def)
  have l: "lookupPublicKey P (s_accessToken s) recipient w = (Inr (JObj [(js ''publicKey'', JStr pub)]), w\<lparr>net := n1\<rparr>)"
    using call_replies [OF t(1) look] who by (simp add: lookupPublicKey_def act_simps)
  obtain env where env: "createShare P pub (JSON_stringify P 0 v) (w\<lparr>net := n1\<rparr>)
        = (Inr env, w\<lparr>drawn := drawn w + 76, net := n1\<rparr>)"
      "openShare P (s_userKey r) prot env = Inr (JSON_stringify P 0 v)"
    using createShare_open [OF P kp(1) plain_text_stringify [OF wf(2)], where w = "w\<lparr>net := n1\<rparr>"]
    by (auto simp: net_after_drawn)
  have share: "shareItem P s recipient item w = (Inr (), w\<lparr>drawn := drawn w + 76, net := n2\<rparr>)"
    if "replies P (request_of P (baseUrl w) ''POST'' (js ''/api/shares'')
            (Some (obj [(''recipientIdentifier'', JStr recipient), (''wrappedKey'', JStr (wrappedKey env)),
              (''data'', JStr (share_data env))])) t) n1 kvs n2" for kvs n2
  proof -
    have "createShareReq P (s_accessToken s) recipient (wrappedKey env) (share_data env)
        (w\<lparr>drawn := drawn w + 76, net := n1\<rparr>) = (Inr (JObj kvs), w\<lparr>drawn := drawn w + 76, net := n2\<rparr>)"
      unfolding createShareReq_def by (subst call_replies [OF t(1)]) (use that in simp_all)
    then show ?thesis
      using l env(1) v(2) by (simp add: shareItem_def valText_def toText.simps act_simps)
  qed
  have list: "\<exists>items. listSharedWithMe P r w2 = (Inr items, w2\<lparr>net := n2\<rparr>)
      \<and> withId [(js ''id'', JStr sid), (js ''shareId'', JStr sid)] v \<in> set items"
    if "JObj [(js ''id'', JStr sid), (js ''wrappedKey'', JStr (wrappedKey env)),
        (js ''data'', JStr (share_data env))] \<in> set shs"
      "replies P (request_of P (baseUrl w2) ''GET'' (js ''/api/shares'') None u) (net w2)
        [(js ''shares'', JArr shs)] n2" for sid shs w2 n2
    by (rule listShares_lists [OF t(2) that(2) that(1) sharedItem_opened [OF env(2) wf kp(2)]])
  show ?thesis
    by (rule exI [of _ env], rule conjI)
      (intro allI impI, erule share, intro allI impI, elim conjE, erule (1) list)
qed

theorem shared_item_received_witness:
  "\<exists>prot (env :: ShareEnvelope) items w1 w2 kp w0. generateUserKeypair sample_service (replicate 64 7) (sample_net []) = (Inr kp, w0)
    \<and> shareItem sample_service sample_session (js ''bob'') (itemVal sample_item)
        (sample_net [(200, obj [(''publicKey'', JStr (kp_publicKey kp))]), (200, JObj [])]) = (Inr (), w1)
    \<and> listSharedWithMe sample_service (sample_session\<lparr>s_protectedPrivateKey := JStr prot\<rparr>)
        (sample_net [(200, obj [(''shares'', JArr [obj [(''id'', JStr (js ''a'')),
          (''wrappedKey'', JStr (wrappedKey env)), (''data'', JStr (share_data env))]])])]) = (Inr items, w2)
    \<and> withId [(js ''id'', JStr (js ''a'')), (js ''shareId'', JStr (js ''a''))] (itemVal sample_item) \<in> set items"
proof -
  let ?P = sample_service and ?s = sample_session and ?v = "itemVal sample_item"
  obtain kp where kp: "generateUserKeypair ?P (replicate 64 7) (sample_net []) =
        (Inr kp, (sample_net [])\<lparr>drawn := drawn (sample_net []) + 44\<rparr>)"
      "keypair_ok ?P (replicate 64 7) (kp_publicKey kp) (kp_protectedPrivateKey kp)"
    by (rule generateUserKeypair_ok [OF sample_service_ok(1,4), of "replicate 64 7" "sample_net []"])
      (simp, rule that, simp_all)
  let ?r = "?s\<lparr>s_protectedPrivateKey := JStr (kp_protectedPrivateKey kp)\<rparr>"
    and ?k = "[(js ''publicKey'', JStr (kp_publicKey kp))]"
    and ?sh = "\<lambda>env. JObj [(js ''id'', JStr (js ''a'')), (js ''wrappedKey'', JStr (wrappedKey env)),
      (js ''data'', JStr (share_data env))]"
  let ?w = "sample_net [(200, JObj ?k), (200, JObj [])]"
  have v: "withoutId ?v = ?v"
    by (simp add: withoutId_def itemVal_def own_props_def)
  have r: "keypair_ok ?P (s_userKey ?r) (kp_publicKey kp) (kp_protectedPrivateKey kp)"
      "s_protectedPrivateKey ?r = JStr (kp_protectedPrivateKey kp)"
      "token_text ?P (s_accessToken ?r) None"
    using kp(2) sample_token by (simp_all add: sample_session_def)
  have q: "encodeURIComponent (js ''bob'') = Inr (js ''bob'')"
    by code_simp
  have k: "plain (JObj ?k)" "plain (JObj [])"
    by (simp_all add: obj_of_id)
  have look: "replies ?P (request_of ?P (baseUrl ?w) ''GET'' (js ''/api/users/public-key?identifier='' @ js ''bob'') None None)
      (net ?w) ?k [(200, JObj [])]"
    using sample_replies [OF k(1)] by simp
  obtain env :: ShareEnvelope where share: "\<forall>kvs n2. replies ?P (request_of ?P (baseUrl ?w) ''POST'' (js ''/api/shares'')
            (Some (obj [(''recipientIdentifier'', JStr (js ''bob'')), (''wrappedKey'', JStr (wrappedKey env)),
              (''data'', JStr (share_data env))])) None) [(200, JObj [])] kvs n2 \<longrightarrow>
          shareItem ?P ?s (js ''bob'') ?v ?w = (Inr (), ?w\<lparr>drawn := drawn ?w + 76, net := n2\<rparr>)"
    and list: "\<forall>sid shs (w2 :: (int \<times> jsval) list networld) n2. JObj [(js ''id'', JStr sid),
            (js ''wrappedKey'', JStr (wrappedKey env)), (js ''data'', JStr (share_data env))] \<in> set shs \<and>
          replies ?P (request_of ?P (baseUrl w2) ''GET'' (js ''/api/shares'') None None) (net w2)
            [(js ''shares'', JArr shs)] n2 \<longrightarrow>
          (\<exists>items. listSharedWithMe ?P ?r w2 = (Inr items, w2\<lparr>net := n2\<rparr>)
            \<and> withId [(js ''id'', JStr sid), (js ''shareId'', JStr sid)] ?v \<in> set items)"
    using shared_item_received [OF sample_service_ok(1) sample_item_storable v r(1,2) sample_token r(3) q look] by blast
  have p: "plain (JObj [(js ''shares'', JArr [?sh env])])"
    by (simp add: obj_of_id)
  have "shareItem ?P ?s (js ''bob'') ?v ?w = (Inr (), ?w\<lparr>drawn := drawn ?w + 76, net := []\<rparr>)"
    by (rule share [rule_format]) (rule sample_replies [OF k(2)])
  moreover obtain items where "listSharedWithMe ?P ?r (sample_net [(200, JObj [(js ''shares'', JArr [?sh env])])])
      = (Inr items, sample_net [])"
      "withId [(js ''id'', JStr (js ''a'')), (js ''shareId'', JStr (js ''a''))] ?v \<in> set items"
    using list [rule_format, of "js ''a''" "[?sh env]" "sample_net [(200, JObj [(js ''shares'', JArr [?sh env])])]" "[]"]
      sample_replies [OF p] by auto
  ultimately show ?thesis
    using kp(1) unfolding list.map prod.case by blast
qed

text \<open>A payload may name its own \<open>id\<close>: the decrypted fields are spread after the server's id and win, so
  an item another user shares can take an id of its sender's choice.\<close>

lemma payload_id_wins:
  assumes "obj_get (own_props v) (js ''id'') = Some x" "distinct (map fst (own_props v))"
  shows "obj_get (own_props (withId ids v)) (js ''id'') = Some x"
  using assms by (simp add: withId_def own_props_def obj_get_assign_distinct)

section \<open>Importing\<close>

lemma importItems_total:
  "\<exists>a f w'. importItems P s items added failed w = (Inr (a, f), w') \<and> a + f = added + failed + length items"
proof (induction P s items added failed w rule: importItems.induct)
  case (2 P s i items added failed w)
  show ?case
  proof (cases "addItem P s i w")
    case (Pair r w')
    then show ?thesis
      using 2 by (cases r) force+
  qed
qed simp

text \<open>A bulk import never aborts: whatever fails on the way, it fulfils, and every item is
  counted exactly once, as added or as failed.\<close>

theorem importItems_counts:
  "\<exists>a f w'. importItems P s items 0 0 w = (Inr (a, f), w') \<and> a + f = length items"
  using importItems_total [of P s items 0 0 w] by simp

end
