(* ===== verification/Protocol.thy ===== *)
theory Protocol
  imports EncString Sample "HOL-Library.Sublist"
begin

text \<open>
  \<open>apps/extension/utils/protocol.ts\<close>: the messages between the popup, the background worker and the
  content script, and the comparison of an item's address with the host of a page.
\<close>

section \<open>Messages\<close>

record PendingSave =
  ps_url :: jsstring
  ps_username :: jsstring
  ps_password :: jsstring

datatype BgRequest =
    GetState
  | Unlock jsstring jsstring "jsstring option" \<comment> \<open>identifier, master password, TOTP code\<close>
  | Lock
  | GetItems
  | AddItem jsval
  | UpdateItem jsval
  | DeleteItem jsstring
  | GetPending
  | DismissPending
  | CaptureLogin jsstring jsstring jsstring \<comment> \<open>url, username, password\<close>

text \<open>The union of the response interfaces; the text of an \<open>error\<close> is that of the exception it reports.\<close>

datatype BgResponse =
    RState "jsstring option" \<comment> \<open>\<open>{ locked: false, identifier }\<close>, or \<open>None\<close> for \<open>{ locked: true }\<close>\<close>
  | RLocked
  | ROk
  | RItems "jsval list"
  | RItem jsval
  | RTwoFactor "jsstring list"
  | RError jserror
  | RPending "PendingSave option"
  | RNone \<comment> \<open>a listener that replies nothing\<close>

record FillMessage =
  fm_username :: jsstring
  fm_password :: jsstring

section \<open>Matching an item to a page\<close>

definition safeHost :: "'z platform_scheme \<Rightarrow> jsstring \<Rightarrow> jsstring" where
  "safeHost P url =
     (case url_hostname P (if str_includes url (js ''://'') then url else js ''https://'' @ url) of
        None \<Rightarrow> [] | Some h \<Rightarrow> toLowerCase P h)"

text \<open>\<open>.replace(/^www\./, "")\<close>.\<close>

definition stripWww :: "jsstring \<Rightarrow> jsstring" where
  "stripWww h = (if startsWith h (js ''www.'') then drop 4 h else h)"

definition hostMatches :: "'z platform_scheme \<Rightarrow> jsstring \<Rightarrow> jsstring \<Rightarrow> bool" where
  "hostMatches P itemUrl pageHost =
     (let itemHost = safeHost P itemUrl
      in if itemHost = [] \<or> pageHost = [] then False
         else let a = stripWww itemHost; b = stripWww pageHost
              in a = b \<or> endsWith a (js ''.'' @ b) \<or> endsWith b (js ''.'' @ a))"

text \<open>The labels of a host, most specific first.\<close>

definition labels :: "jsstring \<Rightarrow> jsstring list" where
  "labels h = split_on (jc (CHR ''.'')) h"

lemma split_by_Cons_append: "P c \<Longrightarrow> split_by P (x @ c # y) = split_by P x @ split_by P y"
  by (induction x) (auto simp: split_by_not_Nil split: list.split)

lemma join_split_on: "join [c] (split_on c s) = s"
proof (induction s)
  case (Cons x s)
  then show ?case
    by (cases "split_on c s"; cases "tl (split_on c s)") (auto simp: split_by_not_Nil)
qed simp

lemma join_append: "xs \<noteq> [] \<Longrightarrow> ys \<noteq> [] \<Longrightarrow> join sep (xs @ ys) = join sep xs @ sep @ join sep ys"
  by (induction xs rule: list_nonempty_induct) (simp_all add: join_Cons)

lemma labels_inject: "labels a = labels b \<longleftrightarrow> a = b"
  unfolding labels_def by (metis join_split_on)

lemma labels_not_Nil: "labels h \<noteq> []"
  by (simp add: labels_def split_by_not_Nil)

lemma endsWith_append: "endsWith a b \<longleftrightarrow> (\<exists>x. a = x @ b)"
proof
  assume "endsWith a b"
  then have "a = take (length a - length b) a @ b"
    unfolding endsWith_def by (metis append_take_drop_id)
  then show "\<exists>x. a = x @ b" ..
qed (auto simp: endsWith_def)

lemma labels_dot: "labels (x @ js ''.'' @ b) = labels x @ labels b"
  by (simp add: labels_def js_Cons split_by_Cons_append)

lemma labels_suffix: "suffix (labels b) (labels a) \<longleftrightarrow> a = b \<or> endsWith a (js ''.'' @ b)"
proof
  assume "suffix (labels b) (labels a)"
  then obtain ls where ls: "labels a = ls @ labels b"
    by (auto simp: suffix_def)
  show "a = b \<or> endsWith a (js ''.'' @ b)"
  proof (cases "ls = []")
    case True
    with ls show ?thesis
      by (simp add: labels_inject)
  next
    case False
    have "a = join (js ''.'') (labels a)" "b = join (js ''.'') (labels b)"
      using join_split_on by (simp_all add: labels_def js_Cons)
    then have "a = join (js ''.'') ls @ js ''.'' @ b"
      unfolding ls using False labels_not_Nil join_append by metis
    then show ?thesis
      by (auto simp: endsWith_append)
  qed
qed (auto simp: endsWith_append labels_dot suffix_def)

text \<open>The labels without a leading \<open>www\<close>.\<close>

definition bareLabels :: "jsstring \<Rightarrow> jsstring list" where
  "bareLabels h = (case labels h of [] \<Rightarrow> [] | l # ls \<Rightarrow> if l = js ''www'' \<and> ls \<noteq> [] then ls else l # ls)"

lemma stripWww_labels: "labels (stripWww h) = bareLabels h"
proof (cases "startsWith h (js ''www.'')")
  case True
  then obtain r where r: "h = js ''www'' @ js ''.'' @ r"
  proof -
    have "take 4 h = js ''www'' @ js ''.''"
      using True by (simp add: startsWith_def js_Cons numeral_eq_Suc)
    then have "h = js ''www'' @ js ''.'' @ drop 4 h"
      using append_take_drop_id [of 4 h] by simp
    then show thesis
      by (rule that)
  qed
  then have "stripWww h = r"
    using True by (simp add: stripWww_def js_Cons)
  moreover have "labels h = [js ''www''] @ labels r"
    unfolding r labels_dot by (simp add: labels_def js_Cons)
  ultimately show ?thesis
    by (simp add: bareLabels_def labels_not_Nil)
next
  case False
  have j: "join [jc (CHR ''.'')] (labels h) = h"
    unfolding labels_def by (rule join_split_on)
  have "labels h \<noteq> js ''www'' # l # ls" for l ls
  proof
    assume h: "labels h = js ''www'' # l # ls"
    from j have "startsWith h (js ''www.'')"
      unfolding h by (auto simp: startsWith_def js_Cons)
    with False show False ..
  qed
  then have "bareLabels h = labels h"
    by (cases "labels h"; cases "tl (labels h)") (auto simp: bareLabels_def)
  then show ?thesis
    using False by (simp add: stripWww_def)
qed

text \<open>The registrable domain of a host, over a set of public suffixes: its longest public suffix and one label more. A public
  suffix has none.\<close>

fun registrable :: "jsstring list set \<Rightarrow> jsstring list \<Rightarrow> jsstring list option" where
  "registrable S [] = None"
| "registrable S (l # ls) = (if l # ls \<in> S then None else if ls \<in> S then Some (l # ls) else registrable S ls)"

definition between :: "jsstring list set \<Rightarrow> jsstring list \<Rightarrow> jsstring list \<Rightarrow> bool" where
  "between S k l \<longleftrightarrow> (\<exists>c \<in> S. suffix k c \<and> suffix c l)"

lemma registrable_suffix: "registrable S l = Some d \<Longrightarrow> suffix d l"
  by (induction S l rule: registrable.induct) (auto split: if_splits intro: suffix_ConsI)

lemma registrable_public: "l \<in> S \<Longrightarrow> registrable S l = None"
  by (cases l) simp_all

lemma registrable_above:
  assumes "registrable S l = Some d" "c \<in> S" "suffix c l"
  shows "length c < length d"
  using assms
proof (induction S l rule: registrable.induct)
  case (2 S x ls)
  then show ?case
    by (auto simp: suffix_Cons split: if_splits dest: suffix_length_le)
qed simp

lemma registrable_same: "\<not> between S k (xs @ k) \<Longrightarrow> registrable S (xs @ k) = registrable S k"
proof (induction xs)
  case (Cons x xs)
  have n: "c \<notin> S" if "suffix k c" "suffix c (x # xs @ k)" for c
    using Cons.prems that by (auto simp: between_def)
  have "\<not> between S k (xs @ k)"
    using Cons.prems by (auto simp: between_def intro: suffix_ConsI)
  moreover have "x # xs @ k \<notin> S" "xs @ k \<notin> S"
    using n [of "x # xs @ k"] n [of "xs @ k"] by (simp_all add: suffix_def)
  ultimately show ?case
    using Cons.IH by simp
qed simp

lemma registrable_crossed:
  assumes "suffix k l" "registrable S l \<noteq> None"
  shows "registrable S k = registrable S l \<longleftrightarrow> \<not> between S k l"
proof
  assume e: "registrable S k = registrable S l"
  show "\<not> between S k l"
  proof
    assume "between S k l"
    then obtain c where c: "c \<in> S" "suffix k c" "suffix c l"
      by (auto simp: between_def)
    obtain d where "registrable S l = Some d"
      using assms(2) by blast
    then have "length c < length d" "length d \<le> length k"
      using e registrable_above c registrable_suffix [of S k d] by (auto dest: suffix_length_le)
    then show False
      using suffix_length_le [OF c(2)] by simp
  qed
next
  assume "\<not> between S k l"
  with assms(1) registrable_same show "registrable S k = registrable S l"
    by (metis suffix_def)
qed

text \<open>C25: an item is offered on a page exactly when, of the two hosts less a leading \<open>www.\<close>, the labels of
  one are the last labels of the other. Matching is by whole labels: no host that merely ends with, contains or
  resembles the text of the item's host is offered its password. This is not the same as sharing a registrable domain: for any set of
  public suffixes, if the longer of the two has a registrable domain, then a match stays within it exactly when no public
  suffix is the shorter one or lies between the two. The code looks up no suffixes, so that
  other matches are made too (\<open>hostMatches_public_suffix\<close>).\<close>

theorem hostMatches_labels:
  "(hostMatches P itemUrl pageHost \<longleftrightarrow> safeHost P itemUrl \<noteq> [] \<and> pageHost \<noteq> []
     \<and> (suffix (bareLabels (safeHost P itemUrl)) (bareLabels pageHost)
        \<or> suffix (bareLabels pageHost) (bareLabels (safeHost P itemUrl))))
   \<and> (\<forall>S k l. hostMatches P itemUrl pageHost \<and> {k, l} = {bareLabels (safeHost P itemUrl), bareLabels pageHost}
        \<and> length k \<le> length l \<and> registrable S l \<noteq> None \<longrightarrow>
      (registrable S k = registrable S l \<longleftrightarrow> \<not> (\<exists>c \<in> S. suffix k c \<and> suffix c l)))"
proof -
  have m: "hostMatches P itemUrl pageHost \<longleftrightarrow> safeHost P itemUrl \<noteq> [] \<and> pageHost \<noteq> []
     \<and> (suffix (bareLabels (safeHost P itemUrl)) (bareLabels pageHost)
        \<or> suffix (bareLabels pageHost) (bareLabels (safeHost P itemUrl)))"
    unfolding stripWww_labels [symmetric] labels_suffix by (auto simp: hostMatches_def Let_def)
  have "registrable S k = registrable S l \<longleftrightarrow> \<not> between S k l"
    if h: "hostMatches P itemUrl pageHost" "{k, l} = {bareLabels (safeHost P itemUrl), bareLabels pageHost}"
      "length k \<le> length l" "registrable S l \<noteq> None" for S k l
  proof (rule registrable_crossed [OF _ h(4)])
    have "suffix k l \<or> suffix l k"
      using h(1,2) m by (auto simp: doubleton_eq_iff)
    then show "suffix k l"
      using h(3) by (auto simp: suffix_def)
  qed
  with m show ?thesis
    unfolding between_def by blast
qed

text \<open>A host below the item's is of its registrable domain; a host of another user of a public suffix is not, and matches
  an item saved for the suffix.\<close>

theorem hostMatches_labels_witness:
  "hostMatches sample_platform (js ''https://www.example.org/login'') (js ''id.example.org'')
    \<and> registrable {[js ''org'']} [js ''id'', js ''example'', js ''org''] = registrable {[js ''org'']} [js ''example'', js ''org'']
    \<and> hostMatches sample_platform (js ''github.io'') (js ''evil.github.io'')
    \<and> registrable {[js ''io''], [js ''github'', js ''io'']} [js ''evil'', js ''github'', js ''io'']
      \<noteq> registrable {[js ''io''], [js ''github'', js ''io'']} [js ''github'', js ''io'']"
proof -
  have m: "hostMatches sample_platform (js ''https://www.example.org/login'') (js ''id.example.org'')"
    "hostMatches sample_platform (js ''github.io'') (js ''evil.github.io'')"
    by code_simp+
  have l: "bareLabels (safeHost sample_platform (js ''https://www.example.org/login'')) = [js ''example'', js ''org'']"
    "bareLabels (js ''id.example.org'') = [js ''id'', js ''example'', js ''org'']"
    "bareLabels (safeHost sample_platform (js ''github.io'')) = [js ''github'', js ''io'']"
    "bareLabels (js ''evil.github.io'') = [js ''evil'', js ''github'', js ''io'']"
    by code_simp+
  have "registrable {[js ''org'']} [js ''example'', js ''org''] = registrable {[js ''org'']} [js ''id'', js ''example'', js ''org'']"
    using hostMatches_labels [THEN conjunct2, rule_format, OF conjI [OF m(1)], of "[js ''example'', js ''org'']"
        "[js ''id'', js ''example'', js ''org'']" "{[js ''org'']}"] l(1,2)
    by (simp add: js_Cons suffix_def Cons_eq_append_conv append_eq_Cons_conv)
  moreover have "registrable {[js ''io''], [js ''github'', js ''io'']} [js ''github'', js ''io'']
      \<noteq> registrable {[js ''io''], [js ''github'', js ''io'']} [js ''evil'', js ''github'', js ''io'']"
    using hostMatches_labels [THEN conjunct2, rule_format, OF conjI [OF m(2)], of "[js ''github'', js ''io'']"
        "[js ''evil'', js ''github'', js ''io'']" "{[js ''io''], [js ''github'', js ''io'']}"] l(3,4)
    by (simp add: js_Cons suffix_def Cons_eq_append_conv append_eq_Cons_conv)
  ultimately show ?thesis
    using m by simp
qed

text \<open>The stripping of \<open>www.\<close> also applies where the rest is a public suffix, and a public suffix is not told
  from a registrable domain: an item saved for \<open>www.com\<close> is offered on every \<open>.com\<close> page, and one saved for
  \<open>github.io\<close> on every page hosted there.\<close>

lemma hostMatches_public_suffix:
  "hostMatches sample_platform (js ''https://www.com/login'') (js ''evil.com'')"
  "hostMatches sample_platform (js ''github.io'') (js ''evil.github.io'')"
  by code_simp+

end
