(* ===== verification/Task.thy ===== *)
theory Task
  imports Prelude
begin

text \<open>
  \<open>async\<close> code that shares state with other \<open>async\<close> code. A task runs to its next \<open>await\<close> and is
  resumed later; between two of its steps the steps of other tasks, and the passing of time, may change the
  world. Handlers of an event loop are tasks; \<open>finish\<close> runs one without interruption, \<open>pool_step\<close> interleaves
  any number of them.
\<close>

section \<open>Tasks\<close>

datatype ('w, 'a) task = Ret 'a | Await "'w \<Rightarrow> 'w \<times> ('w, 'a) task"

primrec bindT :: "('w, 'a) task \<Rightarrow> ('a \<Rightarrow> ('w, 'b) task) \<Rightarrow> ('w, 'b) task" where
  "bindT (Ret a) f = f a"
| "bindT (Await g) f = Await (map_prod id (\<lambda>t. bindT t f) \<circ> g)"

text \<open>One call of a platform API, and the synchronous code around it.\<close>

definition atom :: "('w \<Rightarrow> 'a \<times> 'w) \<Rightarrow> ('w, 'a) task" where
  "atom f = Await (\<lambda>w. case f w of (a, w') \<Rightarrow> (w', Ret a))"

text \<open>Synchronous code that reads the world and goes on to its first call without a pause.\<close>

definition syncT :: "('w \<Rightarrow> ('w, 'a) task) \<Rightarrow> ('w, 'a) task" where
  "syncT f = Await (\<lambda>w. case f w of Ret a \<Rightarrow> (w, Ret a) | Await g \<Rightarrow> g w)"

primrec finish :: "('w, 'a) task \<Rightarrow> 'w \<Rightarrow> 'a \<times> 'w" where
  "finish (Ret a) = Pair a"
| "finish (Await g) = (\<lambda>w. case (map_prod id finish \<circ> g) w of (w', r) \<Rightarrow> r w')"

lemma task_induct [case_names Ret Await]:
  assumes "\<And>a. P (Ret a)" "\<And>g. (\<And>w. P (snd (g w))) \<Longrightarrow> P (Await g)"
  shows "P t"
proof (induction t)
  case (Await g)
  have "P (snd (g w))" for w
    by (rule Await [OF rangeI Basic_BNFs.snds.intros])
  then show ?case
    by (rule assms(2))
qed (rule assms(1))

lemma finish_Await: "finish (Await g) w = finish (snd (g w)) (fst (g w))"
  by (simp add: split_beta)

lemma finish_bindT: "finish (bindT t f) w = (case finish t w of (a, w') \<Rightarrow> finish (f a) w')"
proof (induction t arbitrary: w rule: task_induct)
  case (Await g)
  then show ?case
    by (simp add: split_beta)
qed simp

lemma finish_atom [simp]: "finish (atom f) w = f w"
  by (simp add: atom_def split: prod.splits)

lemma finish_syncT [simp]: "finish (syncT f) w = finish (f w) w"
  by (cases "f w") (simp_all add: syncT_def split_beta)

section \<open>Invariants of a task\<close>

text \<open>Every step of the task, from any state in which \<open>I\<close> holds, keeps \<open>I\<close>, whatever happened in between as long as
  it kept \<open>I\<close> too, and the task ends with a value in \<open>Q\<close>.\<close>

primrec keeps :: "('w \<Rightarrow> bool) \<Rightarrow> ('a \<Rightarrow> bool) \<Rightarrow> ('w, 'a) task \<Rightarrow> bool" where
  "keeps I Q (Ret a) = Q a"
| "keeps I Q (Await g) =
     (\<forall>w. I w \<longrightarrow> (case (map_prod id (keeps I Q) \<circ> g) w of (w', ok) \<Rightarrow> I w' \<and> ok))"

text \<open>The same, when the first step is taken in the state \<open>w\<close>.\<close>

definition keeps_at :: "('w \<Rightarrow> bool) \<Rightarrow> ('a \<Rightarrow> bool) \<Rightarrow> 'w \<Rightarrow> ('w, 'a) task \<Rightarrow> bool" where
  "keeps_at I Q w t = (case t of Ret a \<Rightarrow> Q a | Await g \<Rightarrow> I (fst (g w)) \<and> keeps I Q (snd (g w)))"

lemma keeps_Await: "keeps I Q (Await g) \<longleftrightarrow> (\<forall>w. I w \<longrightarrow> I (fst (g w)) \<and> keeps I Q (snd (g w)))"
  by (simp add: split_beta)

lemma keeps_atom [simp]: "keeps I Q (atom f) \<longleftrightarrow> (\<forall>w. I w \<longrightarrow> I (snd (f w)) \<and> Q (fst (f w)))"
  by (simp add: atom_def split_beta)

lemma keeps_syncT: "(\<And>w. I w \<Longrightarrow> keeps_at I Q w (f w)) \<Longrightarrow> keeps I Q (syncT f)"
  unfolding syncT_def keeps_Await
proof (intro allI impI)
  fix w
  assume "\<And>w. I w \<Longrightarrow> keeps_at I Q w (f w)" "I w"
  then show "I (fst (case f w of Ret a \<Rightarrow> (w, Ret a) | Await g \<Rightarrow> g w))
      \<and> keeps I Q (snd (case f w of Ret a \<Rightarrow> (w, Ret a) | Await g \<Rightarrow> g w))"
    unfolding keeps_at_def by (cases "f w") force+
qed

lemma keeps_at_keeps: "keeps I Q t \<Longrightarrow> I w \<Longrightarrow> keeps_at I Q w t"
  by (cases t) (auto simp: keeps_at_def split_beta)

lemma keeps_at_bindT_atom [simp]:
  "keeps_at I Q w (bindT (atom h) f) \<longleftrightarrow> I (snd (h w)) \<and> keeps I Q (f (fst (h w)))"
  by (simp add: keeps_at_def atom_def split_beta)

lemma keeps_at_Ret [simp]: "keeps_at I Q w (Ret a) \<longleftrightarrow> Q a"
  by (simp add: keeps_at_def)

lemma keeps_bindT:
  "keeps I Q t \<Longrightarrow> (\<And>a. Q a \<Longrightarrow> keeps I R (f a)) \<Longrightarrow> keeps I R (bindT t f)"
  by (induction t rule: task_induct) (simp_all add: split_beta)

lemma keeps_finish: "keeps I Q t \<Longrightarrow> I w \<Longrightarrow> I (snd (finish t w)) \<and> Q (fst (finish t w))"
  by (induction t arbitrary: w rule: task_induct) (simp_all add: split_beta)

lemma keeps_mono: "keeps I Q t \<Longrightarrow> (\<And>a. Q a \<Longrightarrow> R a) \<Longrightarrow> keeps I R t"
  by (induction t rule: task_induct) (simp_all add: split_beta)

text \<open>No step of the task breaks \<open>I\<close>, in whatever state it is taken: the same for a task of which some steps have been taken
  already, in states in which \<open>I\<close> need not have held.\<close>

primrec never_breaks :: "('w \<Rightarrow> bool) \<Rightarrow> ('w, 'a) task \<Rightarrow> bool" where
  "never_breaks I (Ret a) = True"
| "never_breaks I (Await g) =
     (\<forall>w. case (map_prod id (never_breaks I) \<circ> g) w of (w', ok) \<Rightarrow> (I w \<longrightarrow> I w') \<and> ok)"

lemma never_breaks_Await: "never_breaks I (Await g) \<longleftrightarrow> (\<forall>w. (I w \<longrightarrow> I (fst (g w))) \<and> never_breaks I (snd (g w)))"
  by (simp add: split_beta)

lemma never_breaks_atom [simp]: "never_breaks I (atom f) \<longleftrightarrow> (\<forall>w. I w \<longrightarrow> I (snd (f w)))"
  by (simp add: atom_def split_beta)

lemma never_breaks_bindT: "never_breaks I t \<Longrightarrow> (\<And>a. never_breaks I (f a)) \<Longrightarrow> never_breaks I (bindT t f)"
  by (induction t rule: task_induct) (simp_all add: split_beta)

lemma never_breaks_syncT: "(\<And>w. never_breaks I (f w)) \<Longrightarrow> never_breaks I (syncT f)"
  unfolding syncT_def never_breaks_Await
proof
  fix w
  assume "\<And>w. never_breaks I (f w)"
  then show "(I w \<longrightarrow> I (fst (case f w of Ret a \<Rightarrow> (w, Ret a) | Await g \<Rightarrow> g w)))
      \<and> never_breaks I (snd (case f w of Ret a \<Rightarrow> (w, Ret a) | Await g \<Rightarrow> g w))"
    by (cases "f w") (simp, metis never_breaks_Await task.simps(6))
qed

lemma never_breaks_keeps: "never_breaks I t \<Longrightarrow> keeps I (\<lambda>_. True) t"
  by (induction t rule: task_induct) (simp_all add: split_beta)

section \<open>An event loop\<close>

text \<open>A message starts the task of its handler; any task that waits is resumed; a task that ended replies; and the
  environment moves. A pool holds the tasks in flight with the messages they answer.\<close>

datatype ('m, 'r) event = Start 'm | Resume | Reply 'm 'r | Elapse

type_synonym ('w, 'm, 'r) pool = "('m \<times> ('w, 'r) task) list"

inductive pool_step ::
  "('m \<Rightarrow> ('w, 'r) task) \<Rightarrow> ('w \<Rightarrow> 'm \<Rightarrow> bool) \<Rightarrow> ('w \<Rightarrow> 'w \<Rightarrow> bool)
   \<Rightarrow> 'w \<times> ('w, 'm, 'r) pool \<Rightarrow> ('m, 'r) event \<Rightarrow> 'w \<times> ('w, 'm, 'r) pool \<Rightarrow> bool"
  for handler enabled env where
  start: "enabled w m \<Longrightarrow> pool_step handler enabled env (w, ts) (Start m) (w, ts @ [(m, handler m)])"
| resume: "g w = (w', t) \<Longrightarrow>
    pool_step handler enabled env (w, ts @ (m, Await g) # us) Resume (w', ts @ (m, t) # us)"
| reply: "pool_step handler enabled env (w, ts @ (m, Ret r) # us) (Reply m r) (w, ts @ us)"
| elapse: "env w w' \<Longrightarrow> pool_step handler enabled env (w, ts) Elapse (w', ts)"

inductive run :: "('s \<Rightarrow> 'e \<Rightarrow> 's \<Rightarrow> bool) \<Rightarrow> 's \<Rightarrow> 'e list \<Rightarrow> 's \<Rightarrow> bool" for step where
  run_nil: "run step s [] s"
| run_snoc: "run step s es t \<Longrightarrow> step t e u \<Longrightarrow> run step s (es @ [e]) u"

inductive_cases pool_stepE: "pool_step handler enabled env s e t"

definition pool_ok :: "('w \<Rightarrow> bool) \<Rightarrow> ('m \<Rightarrow> 'r \<Rightarrow> bool) \<Rightarrow> ('w, 'm, 'r) pool \<Rightarrow> bool" where
  "pool_ok I promise ts \<longleftrightarrow> (\<forall>(m, t) \<in> set ts. keeps I (promise m) t)"

text \<open>An invariant of every interleaving: one that the environment and each task started keep. Then every reply
  is one its handler promises.\<close>

locale pool_invariant =
  fixes handler :: "'m \<Rightarrow> ('w, 'r) task" and enabled :: "'w \<Rightarrow> 'm \<Rightarrow> bool" and env :: "'w \<Rightarrow> 'w \<Rightarrow> bool"
    and allowed :: "'m \<Rightarrow> bool" and I :: "'w \<Rightarrow> bool" and promise :: "'m \<Rightarrow> 'r \<Rightarrow> bool"
  assumes env_inv: "I w \<Longrightarrow> env w w' \<Longrightarrow> I w'"
    and handler_inv: "allowed m \<Longrightarrow> keeps I (promise m) (handler m)"
begin

lemma step_inv:
  assumes "pool_step handler enabled env (w, ts) e (w', ts')" "I w" "pool_ok I promise ts" "\<And>m. e = Start m \<Longrightarrow> allowed m"
  shows "I w' \<and> pool_ok I promise ts' \<and> (\<forall>m r. e = Reply m r \<longrightarrow> promise m r)"
  using assms
proof (cases rule: pool_step.cases)
  case (resume g t ts1 m us)
  then have "keeps I (promise m) (Await g)"
    using assms(3) by (simp add: pool_ok_def)
  then have "I (fst (g w)) \<and> keeps I (promise m) (snd (g w))"
    using assms(2) by (simp only: keeps_Await)
  then show ?thesis
    using resume assms(3) by (auto simp: pool_ok_def)
qed (auto simp: pool_ok_def env_inv handler_inv)

lemma run_inv:
  assumes "run (pool_step handler enabled env) s es s'" "I (fst s)" "pool_ok I promise (snd s)" "\<forall>m. Start m \<in> set es \<longrightarrow> allowed m"
  shows "I (fst s') \<and> pool_ok I promise (snd s') \<and> (\<forall>m r. Reply m r \<in> set es \<longrightarrow> promise m r)"
  using assms
proof (induction rule: run.induct)
  case (run_snoc s es t e u)
  then show ?case
    using step_inv [of "fst t" "snd t" e "fst u" "snd u"] by auto
qed simp

end

text \<open>A property of tasks that starting gives and steps keep holds of every task in flight.\<close>

lemma run_pool:
  assumes "run (pool_step handler enabled env) (w0, []) es (w, ts)"
    and "\<And>m. Q m (handler m)" "\<And>m g w. Q m (Await g) \<Longrightarrow> Q m (snd (g w))"
  shows "\<forall>(m, t) \<in> set ts. Q m t"
proof -
  have "run (pool_step handler enabled env) s es u \<Longrightarrow> snd s = [] \<Longrightarrow> \<forall>(m, t) \<in> set (snd u). Q m t" for s u
  proof (induction rule: run.induct)
    case (run_snoc s es t e u)
    from run_snoc.hyps(2) run_snoc.IH [OF run_snoc.prems] show ?case
    proof (cases rule: pool_step.cases)
      case (resume g w w' t' ts m us)
      then have "Q m t'"
        using run_snoc.IH [OF run_snoc.prems] assms(3) [of m g w] by simp
      with resume run_snoc.IH [OF run_snoc.prems] show ?thesis
        by auto
    qed (auto simp: assms(2))
  qed simp
  from this [OF assms(1)] show ?thesis
    by simp
qed

text \<open>A handler that is not interrupted.\<close>

lemma run_append: "run step t fs u \<Longrightarrow> run step s es t \<Longrightarrow> run step s (es @ fs) u"
  by (induction rule: run.induct) (simp_all add: run.run_snoc flip: append_assoc)

lemma finish_runs:
  "finish t w = (r, w') \<Longrightarrow> \<exists>n. run (pool_step handler enabled env) (w, [(m, t)]) (replicate n Resume) (w', [(m, Ret r)])"
proof (induction t arbitrary: w rule: task_induct)
  case (Ret a)
  then show ?case
    using run.run_nil by (intro exI [of _ 0]) auto
next
  case (Await g)
  obtain v u where g: "g w = (v, u)"
    by (cases "g w")
  then obtain n where "run (pool_step handler enabled env) (v, [(m, u)]) (replicate n Resume) (w', [(m, Ret r)])"
    using Await.IH [of w v] Await.prems by auto
  moreover have "run (pool_step handler enabled env) (w, [(m, Await g)]) ([] @ [Resume]) (v, [(m, u)])"
    using pool_step.resume [where g = g and w = w and ts = "[]" and m = m and us = "[]"] g by (intro run.run_snoc [OF run.run_nil]) simp
  ultimately have "run (pool_step handler enabled env) (w, [(m, Await g)]) (([] @ [Resume]) @ replicate n Resume) (w', [(m, Ret r)])"
    by (rule run_append)
  then show ?case
    by (intro exI [of _ "Suc n"]) simp
qed

lemma finish_served:
  assumes "finish (handler m) w = (r, w')" "enabled w m"
  shows "\<exists>n. run (pool_step handler enabled env) (w, []) ([Start m] @ replicate n Resume @ [Reply m r]) (w', [])"
proof -
  obtain n where n: "run (pool_step handler enabled env) (w, [(m, handler m)]) (replicate n Resume) (w', [(m, Ret r)])"
    using finish_runs [OF assms(1), where handler = handler and enabled = enabled and env = env and m = m] by blast
  have "run (pool_step handler enabled env) (w, []) ([] @ [Start m]) (w, [(m, handler m)])"
    using pool_step.start [of enabled w m handler env "[]"] assms(2) by (intro run.run_snoc [OF run.run_nil]) simp
  then have "run (pool_step handler enabled env) (w, []) (([] @ [Start m]) @ replicate n Resume) (w', [(m, Ret r)])"
    by (rule run_append [OF n])
  moreover have "pool_step handler enabled env (w', [(m, Ret r)]) (Reply m r) (w', [])"
    using pool_step.reply [of handler enabled env w' "[]" m r "[]"] by simp
  ultimately have "run (pool_step handler enabled env) (w, []) ((([] @ [Start m]) @ replicate n Resume) @ [Reply m r]) (w', [])"
    by (rule run.run_snoc)
  then show ?thesis
    by auto
qed

section \<open>Schedules\<close>

text \<open>A schedule fixes one interleaving: launch a handler, or advance the task at a position of the pool. It computes a
  run.\<close>

datatype 'm move = Launch 'm | Advance nat

fun advance :: "('m \<Rightarrow> ('w, 'r) task) \<Rightarrow> 'm move \<Rightarrow> 'w \<times> ('w, 'm, 'r) pool \<Rightarrow> ('m, 'r) event \<times> 'w \<times> ('w, 'm, 'r) pool" where
  "advance h (Launch m) (w, ts) = (Start m, w, ts @ [(m, h m)])"
| "advance h (Advance i) (w, ts) =
     (if i < length ts
      then case ts ! i of
          (m, Ret r) \<Rightarrow> (Reply m r, w, take i ts @ drop (Suc i) ts)
        | (m, Await g) \<Rightarrow> (case g w of (w', t) \<Rightarrow> (Resume, w', take i ts @ (m, t) # drop (Suc i) ts))
      else (Elapse, w, ts))"

fun schedule :: "('m \<Rightarrow> ('w, 'r) task) \<Rightarrow> 'm move list \<Rightarrow> 'w \<times> ('w, 'm, 'r) pool \<Rightarrow> ('m, 'r) event list \<times> 'w \<times> ('w, 'm, 'r) pool" where
  "schedule h [] s = ([], s)"
| "schedule h (c # cs) s = (case advance h c s of (e, t) \<Rightarrow> case schedule h cs t of (es, u) \<Rightarrow> (e # es, u))"

lemma run_Cons: "run step t es u \<Longrightarrow> step s e t \<Longrightarrow> run step s (e # es) u"
proof (induction rule: run.induct)
  case (run_nil t)
  then show ?case
    using run.run_snoc [OF run.run_nil, of step s e t] by simp
next
  case (run_snoc t es v e' u)
  then show ?case
    using run.run_snoc [of step s "e # es" v e' u] by simp
qed

lemma advance_step:
  assumes "\<And>w. env w w" "\<And>m w. c = Launch m \<Longrightarrow> enabled w m" "advance h c s = (e, t)"
  shows "pool_step h enabled env s e t"
proof (cases c)
  case (Launch m)
  then show ?thesis
    using assms by (cases s) (auto intro: pool_step.start)
next
  case (Advance i)
  obtain w ts where s: "s = (w, ts)"
    by (cases s)
  show ?thesis
  proof (cases "i < length ts")
    case True
    then have "ts = take i ts @ ts ! i # drop (Suc i) ts"
      by (rule id_take_nth_drop)
    moreover obtain m u where "ts ! i = (m, u)"
      by (cases "ts ! i")
    ultimately have ts: "ts = take i ts @ (m, u) # drop (Suc i) ts"
      by simp
    show ?thesis
    proof (cases u)
      case (Ret r)
      then have "pool_step h enabled env (w, ts) (Reply m r) (w, take i ts @ drop (Suc i) ts)"
        by (subst (1) ts) (simp add: pool_step.reply)
      with Ret True \<open>ts ! i = (m, u)\<close> Advance s assms(3) show ?thesis
        by auto
    next
      case (Await g)
      obtain w' v where g: "g w = (w', v)"
        by (cases "g w")
      with Await have "pool_step h enabled env (w, ts) Resume (w', take i ts @ (m, v) # drop (Suc i) ts)"
        by (subst (1) ts) (simp add: pool_step.resume)
      with Await True g \<open>ts ! i = (m, u)\<close> Advance s assms(3) show ?thesis
        by auto
    qed
  next
    case False
    with Advance s assms(1,3) show ?thesis
      by (auto intro: pool_step.elapse)
  qed
qed

lemma schedule_run:
  assumes "\<And>w. env w w" "\<And>m w. Launch m \<in> set cs \<Longrightarrow> enabled w m" "schedule h cs s = (es, t)"
  shows "run (pool_step h enabled env) s es t"
  using assms(2,3)
proof (induction cs arbitrary: s es)
  case (Cons c cs)
  obtain e u where c: "advance h c s = (e, u)"
    by (cases "advance h c s")
  obtain es' where es: "es = e # es'" "schedule h cs u = (es', t)"
    using Cons.prems(2) c by (auto split: prod.splits)
  have "pool_step h enabled env s e u"
    by (rule advance_step [OF assms(1) _ c]) (use Cons.prems(1) in auto)
  moreover have "run (pool_step h enabled env) u es' t"
    by (rule Cons.IH [OF _ es(2)]) (use Cons.prems(1) in auto)
  ultimately show ?case
    unfolding es(1) by (rule run_Cons [rotated])
qed (simp add: run_nil)

end
