(* ===== verification/Background.thy ===== *)
theory Background
  imports Session Protocol Task
begin

text \<open>
  \<open>apps/extension/entrypoints/background.ts\<close>: the background worker that owns the unlocked session. Its state is
  \<open>storage.session\<close> (the keys \<open>session\<close> and \<open>pending\<close>) and the idle alarm; its handlers are tasks over
  that state, interleaved by the event loop. A vault or login request is one step: it touches neither the storage
  nor the alarm, but the clock may move.
\<close>

section \<open>State\<close>

record StoredSession =
  ss_identifier :: jsstring
  ss_accessToken :: "jsval option"
  ss_refreshToken :: "jsval option"
  ss_userKeyB64 :: jsstring
  ss_lockAt :: int

record StoredPending = PendingSave +
  sp_capturedAt :: int

record 'n bgworld = "'n networld" +
  st_session :: "StoredSession option"
  st_pending :: "StoredPending option"
  st_alarm :: "int option"

record 'n bgplatform = "'n service" +
  now :: "'n \<Rightarrow> int" \<comment> \<open>\<open>Date.now()\<close>, in milliseconds\<close>

type_synonym ('n, 'a) bgtask = "('n bgworld, 'a) task"

definition IDLE_MS :: int where
  "IDLE_MS = 15 * 60 * 1000"

definition PENDING_TTL_MS :: int where
  "PENDING_TTL_MS = 5 * 60 * 1000"

definition b64encode :: "bytes \<Rightarrow> jsstring" where
  "b64encode u = btoa u"

definition b64decode :: "jsstring \<Rightarrow> bytes result" where
  "b64decode s = atob s"

section \<open>The stored session\<close>

definition clearStored :: "('n, unit) bgtask" where
  "clearStored =
     bindT (atom (\<lambda>w. ((), w\<lparr>st_session := None\<rparr>))) (\<lambda>_.
     atom (\<lambda>w. ((), w\<lparr>st_alarm := None\<rparr>)))"

definition readStored :: "('n, 'z) bgplatform_scheme \<Rightarrow> ('n, StoredSession option) bgtask" where
  "readStored P =
     bindT (atom (\<lambda>w. (st_session w, w))) (\<lambda>got.
     case got of
       None \<Rightarrow> Ret None
     | Some s \<Rightarrow> syncT (\<lambda>w.
         if now P (net w) > ss_lockAt s then bindT clearStored (\<lambda>_. Ret None) else Ret (Some s)))"

definition writeStored :: "StoredSession \<Rightarrow> ('n, unit) bgtask" where
  "writeStored s =
     bindT (atom (\<lambda>w. ((), w\<lparr>st_session := Some s\<rparr>))) (\<lambda>_.
     atom (\<lambda>w. ((), w\<lparr>st_alarm := Some (ss_lockAt s)\<rparr>)))"

definition toSession :: "StoredSession \<Rightarrow> Session result" where
  "toSession s =
     mapR (\<lambda>k. \<lparr>s_identifier = ss_identifier s, s_accessToken = ss_accessToken s,
       s_refreshToken = ss_refreshToken s, s_userKey = k, s_protectedPrivateKey = JStr []\<rparr>)
       (b64decode (ss_userKeyB64 s))"

definition touch :: "('n, 'z) bgplatform_scheme \<Rightarrow> StoredSession \<Rightarrow> ('n, unit) bgtask" where
  "touch P s = syncT (\<lambda>w. writeStored (s\<lparr>ss_lockAt := now P (net w) + IDLE_MS\<rparr>))"

section \<open>The captured login\<close>

definition readPending :: "('n, 'z) bgplatform_scheme \<Rightarrow> ('n, PendingSave option) bgtask" where
  "readPending P =
     bindT (atom (\<lambda>w. (st_pending w, w))) (\<lambda>got.
     case got of
       None \<Rightarrow> Ret None
     | Some p \<Rightarrow> syncT (\<lambda>w.
         if now P (net w) - sp_capturedAt p > PENDING_TTL_MS
         then bindT (atom (\<lambda>w. ((), w\<lparr>st_pending := None\<rparr>))) (\<lambda>_. Ret None)
         else Ret (Some \<lparr>ps_url = ps_url p, ps_username = ps_username p, ps_password = ps_password p\<rparr>)))"

section \<open>The message listener\<close>

text \<open>\<open>try { ... } catch (e) { return { error: e.message } }\<close> around a request.\<close>

definition replying :: "('n bgworld, 'a) act \<Rightarrow> ('a \<Rightarrow> BgResponse) \<Rightarrow> ('n, BgResponse) bgtask" where
  "replying m f = atom (\<lambda>w. case m w of (Inl e, w') \<Rightarrow> (RError e, w') | (Inr a, w') \<Rightarrow> (f a, w'))"

text \<open>What the four vault requests share: the session is read, and on success its deadline extended.\<close>

definition withSession ::
  "('n, 'z) bgplatform_scheme \<Rightarrow> (Session \<Rightarrow> ('n bgworld, 'a) act) \<Rightarrow> ('a \<Rightarrow> BgResponse)
   \<Rightarrow> ('n, BgResponse) bgtask" where
  "withSession P m f =
     bindT (readStored P) (\<lambda>got.
     case got of
       None \<Rightarrow> Ret RLocked
     | Some s \<Rightarrow> bindT (touch P s) (\<lambda>_. replying (bindA (liftA (toSession s)) m) f))"

fun handle :: "('n, 'z) bgplatform_scheme \<Rightarrow> BgRequest \<Rightarrow> ('n, BgResponse) bgtask" where
  "handle P GetState =
     bindT (readStored P) (\<lambda>got. Ret (RState (map_option ss_identifier got)))"
| "handle P (Unlock identifier masterPassword totpCode) =
     bindT (atom (loginAccount P identifier masterPassword totpCode)) (\<lambda>r.
     case r of
       Inr sess \<Rightarrow> bindT (syncT (\<lambda>w. writeStored
           \<lparr>ss_identifier = s_identifier sess, ss_accessToken = s_accessToken sess,
            ss_refreshToken = s_refreshToken sess, ss_userKeyB64 = b64encode (s_userKey sess),
            ss_lockAt = now P (net w) + IDLE_MS\<rparr>)) (\<lambda>_. Ret ROk)
     | Inl (ETwoFactorRequired ms) \<Rightarrow> Ret (RTwoFactor ms)
     | Inl e \<Rightarrow> Ret (RError e))"
| "handle P Lock = bindT clearStored (\<lambda>_. Ret ROk)"
| "handle P GetItems = withSession P (loadVault P) RItems"
| "handle P (AddItem flds) = withSession P (\<lambda>s. addItem P s flds) RItem"
| "handle P (UpdateItem item) = withSession P (\<lambda>s. saveItem P s item) (\<lambda>_. ROk)"
| "handle P (DeleteItem cid) = withSession P (\<lambda>s. removeItem P s cid) (\<lambda>_. ROk)"
| "handle P (CaptureLogin url username password) =
     (if password \<noteq> []
      then syncT (\<lambda>w. bindT (atom (\<lambda>w'. ((), w'\<lparr>st_pending := Some
          \<lparr>ps_url = url, ps_username = username, ps_password = password, sp_capturedAt = now P (net w)\<rparr>\<rparr>)))
        (\<lambda>_. Ret ROk))
      else Ret ROk)"
| "handle P GetPending = bindT (readPending P) (\<lambda>p. Ret (RPending p))"
| "handle P DismissPending = bindT (atom (\<lambda>w. ((), w\<lparr>st_pending := None\<rparr>))) (\<lambda>_. Ret ROk)"

text \<open>The two listeners, and the platform around them: the alarm fires once its time has come, and time passes.\<close>

datatype bg_event = Message BgRequest | AlarmFires

fun listener :: "('n, 'z) bgplatform_scheme \<Rightarrow> bg_event \<Rightarrow> ('n, BgResponse) bgtask" where
  "listener P (Message m) = handle P m"
| "listener P AlarmFires = bindT clearStored (\<lambda>_. Ret RNone)"

definition bg_enabled :: "('n, 'z) bgplatform_scheme \<Rightarrow> 'n bgworld \<Rightarrow> bg_event \<Rightarrow> bool" where
  "bg_enabled P w e \<longleftrightarrow>
     (case e of Message _ \<Rightarrow> True
      | AlarmFires \<Rightarrow> (case st_alarm w of None \<Rightarrow> False | Some t \<Rightarrow> t \<le> now P (net w)))"

definition bg_env :: "('n, 'z) bgplatform_scheme \<Rightarrow> 'n bgworld \<Rightarrow> 'n bgworld \<Rightarrow> bool" where
  "bg_env P w w' \<longleftrightarrow> (\<exists>n. now P (net w) \<le> now P n \<and> w' = w\<lparr>net := n\<rparr>)"

section \<open>Uninterrupted handlers\<close>

definition live :: "('n, 'z) bgplatform_scheme \<Rightarrow> 'n bgworld \<Rightarrow> StoredSession option" where
  "live P w = (case st_session w of None \<Rightarrow> None | Some s \<Rightarrow> if ss_lockAt s < now P (net w) then None else Some s)"

lemma finish_clearStored [simp]: "finish clearStored w = ((), w\<lparr>st_session := None, st_alarm := None\<rparr>)"
  by (simp add: clearStored_def finish_bindT)

lemma finish_writeStored [simp]:
  "finish (writeStored s) w = ((), w\<lparr>st_session := Some s, st_alarm := Some (ss_lockAt s)\<rparr>)"
  by (simp add: writeStored_def finish_bindT)

lemma finish_touch [simp]: "finish (touch P s) w =
    finish (writeStored (s\<lparr>ss_lockAt := now P (net w) + IDLE_MS\<rparr>)) w"
  by (simp add: touch_def)

lemma finish_readStored:
  "finish (readStored P) w =
     (live P w, if st_session w \<noteq> None \<and> live P w = None
                then w\<lparr>st_session := None, st_alarm := None\<rparr> else w)"
  by (simp add: readStored_def live_def finish_bindT split: option.split)

lemma finish_readPending:
  "finish (readPending P) w =
     (case st_pending w of
        None \<Rightarrow> (None, w)
      | Some p \<Rightarrow> if PENDING_TTL_MS < now P (net w) - sp_capturedAt p
          then (None, w\<lparr>st_pending := None\<rparr>)
          else (Some \<lparr>ps_url = ps_url p, ps_username = ps_username p, ps_password = ps_password p\<rparr>, w))"
  by (simp add: readPending_def finish_bindT split: option.split)

lemma finish_replying:
  "finish (replying m f) w = (case m w of (Inl e, w') \<Rightarrow> (RError e, w') | (Inr a, w') \<Rightarrow> (f a, w'))"
  by (simp add: replying_def)

lemma finish_withSession_locked:
  "live P w = None \<Longrightarrow> finish (withSession P m f) w =
     (RLocked, if st_session w = None then w else w\<lparr>st_session := None, st_alarm := None\<rparr>)"
  by (simp add: withSession_def finish_bindT finish_readStored)

lemma finish_withSession:
  assumes "live P w = Some s" "toSession s = Inr sess"
    and "w' = w\<lparr>st_session := Some (s\<lparr>ss_lockAt := now P (net w) + IDLE_MS\<rparr>),
      st_alarm := Some (now P (net w) + IDLE_MS)\<rparr>"
  shows "finish (withSession P m f) w =
    (case m sess w' of (Inl e, v) \<Rightarrow> (RError e, v) | (Inr a, v) \<Rightarrow> (f a, v))"
  using assms
  by (simp add: withSession_def finish_bindT finish_readStored finish_replying act_simps)

section \<open>A locked vault stays locked\<close>

fun locked_answer :: "bg_event \<Rightarrow> BgResponse \<Rightarrow> bool" where
  "locked_answer (Message GetState) r = (r = RState None)"
| "locked_answer (Message GetItems) r = (r = RLocked)"
| "locked_answer (Message (AddItem _)) r = (r = RLocked)"
| "locked_answer (Message (UpdateItem _)) r = (r = RLocked)"
| "locked_answer (Message (DeleteItem _)) r = (r = RLocked)"
| "locked_answer _ r = True"

fun unlocking :: "bg_event \<Rightarrow> bool" where
  "unlocking (Message (Unlock _ _ _)) = True"
| "unlocking _ = False"

abbreviation no_session :: "'n bgworld \<Rightarrow> bool" where
  "no_session w \<equiv> st_session w = None"

lemma keeps_clearStored: "(\<And>w. I w \<Longrightarrow> I (w\<lparr>st_session := None\<rparr>)) \<Longrightarrow> (\<And>w. I w \<Longrightarrow> I (w\<lparr>st_alarm := None\<rparr>))
    \<Longrightarrow> keeps I (\<lambda>_. True) clearStored"
  unfolding clearStored_def by (rule keeps_bindT [where Q = "\<lambda>_. True"]) simp_all

lemma keeps_readStored_locked: "keeps no_session (\<lambda>got. got = None) (readStored P)"
  unfolding readStored_def by (rule keeps_bindT [where Q = "\<lambda>got. got = None"]) simp_all

lemma keeps_withSession_locked: "keeps no_session (\<lambda>r. r = RLocked) (withSession P m f)"
  unfolding withSession_def by (rule keeps_bindT [OF keeps_readStored_locked]) simp

lemma keeps_readPending:
  assumes "\<And>w. I w \<Longrightarrow> I (w\<lparr>st_pending := None\<rparr>)"
  shows "keeps I (\<lambda>_. True) (readPending P)"
  unfolding readPending_def
  by (rule keeps_bindT [where Q = "\<lambda>_. True"])
    (auto split: option.split intro!: keeps_syncT simp: assms)

lemma listener_locked: "\<not> unlocking e \<Longrightarrow> keeps no_session (locked_answer e) (listener P e)"
proof (cases e)
  case (Message m)
  have clear: "keeps no_session (\<lambda>_. True) (clearStored :: ('n, unit) bgtask)"
    by (rule keeps_clearStored) simp_all
  assume "\<not> unlocking e"
  with Message show ?thesis
  proof (cases m)
    case GetState
    with Message show ?thesis
      by (auto intro!: keeps_bindT [OF keeps_readStored_locked])
  next
    case Lock
    with Message show ?thesis
      by (auto intro!: keeps_bindT [OF clear])
  next
    case GetPending
    with Message show ?thesis
      by (auto intro!: keeps_bindT [OF keeps_readPending])
  next
    case (CaptureLogin u n p)
    with Message show ?thesis
      by (auto intro!: keeps_syncT)
  next
    case DismissPending
    with Message show ?thesis
      by (auto intro!: keeps_bindT [where Q = "\<lambda>_. True"])
  qed (auto intro: keeps_mono [OF keeps_withSession_locked])
qed (simp add: keeps_bindT [OF keeps_clearStored])

text \<open>\<open>before\<close>: what was in flight when the session went may answer as it likes.\<close>

interpretation locked: pool_invariant "listener P" "bg_enabled P" "bg_env P"
    "\<lambda>e. \<not> unlocking e" no_session "\<lambda>e r. e \<in> before \<or> locked_answer e r" for P :: "('n, 'z) bgplatform_scheme" and before
  by unfold_locales (auto simp: bg_env_def intro: keeps_mono [OF listener_locked])

definition vault_request :: "BgRequest \<Rightarrow> bool" where
  "vault_request m \<longleftrightarrow> (case m of GetItems \<Rightarrow> True | AddItem _ \<Rightarrow> True | UpdateItem _ \<Rightarrow> True | DeleteItem _ \<Rightarrow> True
     | _ \<Rightarrow> False)"

fun vault_event :: "bg_event \<Rightarrow> bool" where
  "vault_event (Message m) \<longleftrightarrow> vault_request m"
| "vault_event AlarmFires \<longleftrightarrow> False"

text \<open>The handlers that never store a session, wherever they have got to.\<close>

lemma never_stores:
  "never_breaks no_session clearStored" "never_breaks no_session (readStored P)"
  "never_breaks no_session (readPending P)"
proof -
  show c: "never_breaks no_session clearStored"
    unfolding clearStored_def by (rule never_breaks_bindT) simp_all
  have "never_breaks no_session (bindT clearStored (\<lambda>_. Ret None))"
    by (rule never_breaks_bindT [OF c]) simp
  then show "never_breaks no_session (readStored P)"
    unfolding readStored_def by (intro never_breaks_bindT) (auto split: option.split intro!: never_breaks_syncT)
  have "never_breaks no_session (bindT (atom (\<lambda>w. ((), w\<lparr>st_pending := None\<rparr>))) (\<lambda>_. Ret None))"
    by (rule never_breaks_bindT) simp_all
  then show "never_breaks no_session (readPending P)"
    unfolding readPending_def by (intro never_breaks_bindT) (auto split: option.split intro!: never_breaks_syncT)
qed

lemma listener_never_stores:
  assumes "\<not> unlocking e" "\<not> vault_event e"
  shows "never_breaks no_session (listener P e)"
proof (cases e)
  case (Message m)
  then show ?thesis
    using assms by (cases m) (auto simp: vault_request_def never_stores intro!: never_breaks_bindT never_breaks_syncT)
qed (simp add: never_stores never_breaks_bindT)

text \<open>A request in flight that can bring the session back: an unlock, or a vault request that has begun (and so may have
  read the session) and has not ended.\<close>

definition holds_session :: "('n, 'z) bgplatform_scheme \<Rightarrow> bg_event \<Rightarrow> ('n, BgResponse) bgtask \<Rightarrow> bool" where
  "holds_session P e t \<longleftrightarrow> (\<exists>g. t = Await g) \<and> (unlocking e \<or> vault_event e \<and> t \<noteq> listener P e)"

text \<open>C7: once the session is gone, only two things bring it back. Handling \<open>lock\<close> removes the session. Whatever the worker
  has done before and whatever is in flight when the session is gone, and then whatever messages other than \<open>unlock\<close> come, however the
  handlers interleave, whenever the alarm fires and however time passes: either no session is stored and every request
  that comes after is answered as locked; or, when the session went, an unlock was in flight, or a vault request that had already begun (which
  may have read the session and then writes it back: \<open>lock_undone_by_request_in_flight\<close> shows that it does).\<close>

theorem lock_locks:
  assumes "run (pool_step (listener P) (bg_enabled P) (bg_env P)) (w0, []) es1 (w1, ts1)" "st_session w1 = None"
    and "run (pool_step (listener P) (bg_enabled P) (bg_env P)) (w1, ts1) es2 (w2, ts2)"
    and "\<forall>e. Start e \<in> set es2 \<longrightarrow> \<not> unlocking e"
  shows "(\<forall>w. \<exists>w'. finish (handle P Lock) w = (ROk, w') \<and> st_session w' = None)
    \<and> (st_session w2 = None \<and> (\<forall>e r. Reply e r \<in> set es2 \<and> e \<notin> fst ` set ts1 \<longrightarrow> locked_answer e r)
        \<or> (\<exists>(e, t) \<in> set ts1. holds_session P e t))"
proof -
  have "st_session w2 = None \<and> (\<forall>e r. Reply e r \<in> set es2 \<and> e \<notin> fst ` set ts1 \<longrightarrow> locked_answer e r)"
    if h: "\<not> (\<exists>(e, t) \<in> set ts1. holds_session P e t)"
  proof -
    have n: "\<forall>(e, t) \<in> set ts1. \<not> unlocking e \<and> \<not> vault_event e \<longrightarrow> never_breaks no_session t"
      by (rule run_pool [OF assms(1)]) (auto simp: listener_never_stores never_breaks_Await simp del: never_breaks.simps(2))
    have "keeps no_session (\<lambda>_. True) t" if t: "(e, t) \<in> set ts1" for e t
    proof (cases t)
      case (Await g)
      with h t have "\<not> unlocking e" "\<not> vault_event e \<or> t = listener P e"
        by (auto simp: holds_session_def)
      then show ?thesis
        using n t by (auto intro: never_breaks_keeps keeps_mono [OF listener_locked])
    qed simp
    then have "pool_ok no_session (\<lambda>e r. e \<in> fst ` set ts1 \<or> locked_answer e r) ts1"
      unfolding pool_ok_def by (force intro: keeps_mono)
    with locked.run_inv [OF assms(3), of "fst ` set ts1"] assms(2,4) show ?thesis
      by auto
  qed
  then show ?thesis
    by (auto simp: finish_bindT)
qed

section \<open>Requests leave the storage alone\<close>

named_theorems quiets \<open>requests that change nothing but the outside and the random source\<close>

definition quiet :: "('n, 'z) bgplatform_scheme \<Rightarrow> ('n bgworld, 'a) act \<Rightarrow> bool" where
  "quiet P m \<longleftrightarrow> (\<forall>w. \<exists>d n. snd (m w) = w\<lparr>drawn := d, net := n\<rparr> \<and> now P (net w) \<le> now P n)"

text \<open>A request takes time, and time does not run backwards.\<close>

definition clock_ok :: "('n, 'z) bgplatform_scheme \<Rightarrow> bool" where
  "clock_ok P \<longleftrightarrow> (\<forall>rq n. now P n \<le> now P (snd (fetch P rq n)))"

lemma quiet_pure: "(\<And>w. snd (m w) = w) \<Longrightarrow> quiet P m"
  unfolding quiet_def
proof (intro allI)
  fix w
  assume m: "\<And>w. snd (m w) = w"
  show "\<exists>d n. snd (m w) = w\<lparr>drawn := d, net := n\<rparr> \<and> now P (net w) \<le> now P n"
    by (rule exI [of _ "drawn w"], rule exI [of _ "net w"]) (simp add: m)
qed

lemma quiet_simple [quiets]: "quiet P (liftA r)" "quiet P (returnA a)" "quiet P (throwA e)"
  by (rule quiet_pure, simp add: act_simps)+

lemma quiet_bindA [quiets]:
  assumes "quiet P m" "\<And>a. quiet P (f a)"
  shows "quiet P (bindA m f)"
  unfolding quiet_def
proof
  fix w
  obtain d n where m: "snd (m w) = w\<lparr>drawn := d, net := n\<rparr>" "now P (net w) \<le> now P n"
    using assms(1) unfolding quiet_def by blast
  show "\<exists>d n. snd (bindA m f w) = w\<lparr>drawn := d, net := n\<rparr> \<and> now P (net w) \<le> now P n"
  proof (cases "fst (m w)")
    case (Inl e)
    then have "bindA m f w = (Inl e, w\<lparr>drawn := d, net := n\<rparr>)"
      using m(1) by (intro bindA_Inl) (simp add: prod_eq_iff)
    with m(2) show ?thesis
      by auto
  next
    case (Inr a)
    then have b: "bindA m f w = f a (w\<lparr>drawn := d, net := n\<rparr>)"
      using m(1) by (intro bindA_Inr) (simp add: prod_eq_iff)
    obtain d' n' where f: "snd (f a (w\<lparr>drawn := d, net := n\<rparr>)) = w\<lparr>drawn := d, net := n\<rparr>\<lparr>drawn := d', net := n'\<rparr>"
        "now P n \<le> now P n'"
      using assms(2) [of a] unfolding quiet_def by fastforce
    have "w\<lparr>drawn := d, net := n\<rparr>\<lparr>drawn := d', net := n'\<rparr> = w\<lparr>drawn := d', net := n'\<rparr>"
      by (cases w) simp
    with b f m(2) show ?thesis
      by (metis order_trans)
  qed
qed

lemma quiet_read: "(\<And>x. quiet P (g x)) \<Longrightarrow> quiet P (\<lambda>w. g w w)"
  by (simp add: quiet_def)

lemma quiet_randomBytes [quiets]: "quiet P (randomBytes n)"
  unfolding quiet_def
proof
  fix w
  show "\<exists>d n'. snd (randomBytes n w) = w\<lparr>drawn := d, net := n'\<rparr> \<and> now P (net w) \<le> now P n'"
    by (rule exI [of _ "drawn w + n"], rule exI [of _ "net w"]) (simp add: randomBytes_def)
qed

lemma quiet_fetch [quiets]:
  assumes "clock_ok P"
  shows "quiet P (outside (fetch P rq))"
  unfolding quiet_def
proof
  fix w
  show "\<exists>d n. snd (outside (fetch P rq) w) = w\<lparr>drawn := d, net := n\<rparr> \<and> now P (net w) \<le> now P n"
    using assms by (intro exI [of _ "drawn w"] exI [of _ "snd (fetch P rq (net w))"])
      (simp add: outside_def clock_ok_def split_beta)
qed

lemma quiet_if [quiets]: "quiet P m \<Longrightarrow> quiet P n \<Longrightarrow> quiet P (if b then m else n)"
  by simp

lemma quiet_call [quiets]: "clock_ok P \<Longrightarrow> quiet P (call P meth path body token)"
  unfolding call_def [abs_def] Let_def by (rule quiet_read) (intro quiets)

lemma quiet_login [quiets]: "clock_ok P \<Longrightarrow> quiet P (login P identifier h code)"
  unfolding login_def [abs_def] Let_def by (rule quiet_read) (intro quiets)

lemma quiet_encryptItemKeyed [quiets]: "quiet P (encryptItemKeyed P uk t)"
  unfolding encryptItemKeyed_def aesGcmEncryptFresh_def wrapItemKey_def by (intro quiets)

lemma quiet_requests [quiets]:
  assumes "clock_ok P"
  shows "quiet P (loginAccount P identifier pw code)" "quiet P (loadVault P s)" "quiet P (addItem P s flds)"
    "quiet P (saveItem P s item)" "quiet P (removeItem P s cid)"
  unfolding loginAccount_def loadVault_def addItem_def saveItem_def removeItem_def prelogin_def
    sync_def createCipher_def updateCipher_def deleteCipher_def
  by (intro quiets assms)+

section \<open>Deadlines\<close>

definition bg_inv :: "('n, 'z) bgplatform_scheme \<Rightarrow> 'n bgworld \<Rightarrow> bool" where
  "bg_inv P w \<longleftrightarrow> (clock_ok P \<longrightarrow>
     (\<forall>s. st_session w = Some s \<longrightarrow> ss_lockAt s \<le> now P (net w) + IDLE_MS) \<and>
     (\<forall>p. st_pending w = Some p \<longrightarrow> ps_password p \<noteq> [] \<and> sp_capturedAt p \<le> now P (net w)))"

lemma bg_inv_quiet: "bg_inv P w \<Longrightarrow> now P (net w) \<le> now P n \<Longrightarrow> bg_inv P (w\<lparr>drawn := d, net := n\<rparr>)"
  by (force simp: bg_inv_def)

lemma bg_inv_env: "bg_inv P w \<Longrightarrow> bg_env P w w' \<Longrightarrow> bg_inv P w'"
  by (force simp: bg_inv_def bg_env_def)

lemma bg_inv_clear:
  "bg_inv P w \<Longrightarrow> bg_inv P (w\<lparr>st_session := None\<rparr>)" "bg_inv P w \<Longrightarrow> bg_inv P (w\<lparr>st_pending := None\<rparr>)"
  "bg_inv P w \<Longrightarrow> bg_inv P (w\<lparr>st_alarm := a\<rparr>)"
  by (simp_all add: bg_inv_def)

lemma bg_inv_write:
  "bg_inv P w \<Longrightarrow> ss_lockAt s \<le> now P (net w) + IDLE_MS \<Longrightarrow> bg_inv P (w\<lparr>st_session := Some s\<rparr>)"
  by (simp add: bg_inv_def)

lemma keeps_at_writeStored:
  assumes "bg_inv P w" "ss_lockAt s \<le> now P (net w) + IDLE_MS"
  shows "keeps_at (bg_inv P) (\<lambda>_. True) w (writeStored s)"
  unfolding writeStored_def keeps_at_bindT_atom
  using assms by (simp add: bg_inv_write bg_inv_clear)

lemma keeps_touch: "keeps (bg_inv P) (\<lambda>_. True) (touch P s)"
  unfolding touch_def by (rule keeps_syncT, rule keeps_at_writeStored) simp_all

lemma keeps_clearStored_inv: "keeps (bg_inv P) (\<lambda>_. True) clearStored"
  by (rule keeps_clearStored) (simp_all add: bg_inv_clear)

lemma keeps_readStored: "keeps (bg_inv P) (\<lambda>_. True) (readStored P)"
  unfolding readStored_def
  by (rule keeps_bindT [where Q = "\<lambda>_. True"])
    (auto split: option.split intro!: keeps_syncT keeps_at_keeps [OF keeps_bindT [OF keeps_clearStored_inv]])

lemma keeps_quiet:
  assumes "clock_ok P \<Longrightarrow> quiet P m"
  shows "keeps (bg_inv P) (\<lambda>_. True) (atom m)"
  unfolding keeps_atom
proof (intro allI impI conjI)
  fix w
  assume w: "bg_inv P w"
  show "bg_inv P (snd (m w))"
  proof (cases "clock_ok P")
    case True
    then obtain d n where "snd (m w) = w\<lparr>drawn := d, net := n\<rparr>" "now P (net w) \<le> now P n"
      using assms unfolding quiet_def by blast
    with w show ?thesis
      by (simp add: bg_inv_quiet)
  qed (simp add: bg_inv_def)
qed simp

lemma keeps_replying:
  assumes "clock_ok P \<Longrightarrow> quiet P m"
  shows "keeps (bg_inv P) (\<lambda>_. True) (replying m f)"
proof -
  have "keeps (bg_inv P) (\<lambda>_. True) (atom m)"
    using assms by (rule keeps_quiet)
  then show ?thesis
    unfolding replying_def keeps_atom by (simp add: split_beta split: sum.split)
qed

lemma keeps_withSession:
  assumes "\<And>s. clock_ok P \<Longrightarrow> quiet P (m s)"
  shows "keeps (bg_inv P) (\<lambda>_. True) (withSession P m f)"
  unfolding withSession_def
proof (rule keeps_bindT [OF keeps_readStored])
  fix got
  show "keeps (bg_inv P) (\<lambda>_. True) (case got of None \<Rightarrow> Ret RLocked
      | Some s \<Rightarrow> bindT (touch P s) (\<lambda>_. replying (bindA (liftA (toSession s)) m) f))"
    by (cases got) (simp_all add: keeps_bindT [OF keeps_touch] keeps_replying quiets assms)
qed

lemma handle_inv: "keeps (bg_inv P) (\<lambda>_. True) (handle P m)"
proof (cases m)
  case (Unlock i pw c)
  have w: "keeps (bg_inv P) (\<lambda>_. True) (bindT (syncT (\<lambda>w. writeStored
      \<lparr>ss_identifier = i', ss_accessToken = a, ss_refreshToken = b, ss_userKeyB64 = k,
       ss_lockAt = now P (net w) + IDLE_MS\<rparr>)) (\<lambda>_. Ret ROk))" for i' a b k
    by (rule keeps_bindT [where Q = "\<lambda>_. True"], rule keeps_syncT, rule keeps_at_writeStored) simp_all
  show ?thesis
    unfolding Unlock handle.simps
  proof (rule keeps_bindT [OF keeps_quiet])
    fix r :: "jserror + Session"
    show "keeps (bg_inv P) (\<lambda>_. True) (case r of
        Inl (ETwoFactorRequired ms) \<Rightarrow> Ret (RTwoFactor ms) | Inl e \<Rightarrow> Ret (RError e)
      | Inr sess \<Rightarrow> bindT (syncT (\<lambda>w. writeStored
           \<lparr>ss_identifier = s_identifier sess, ss_accessToken = s_accessToken sess,
            ss_refreshToken = s_refreshToken sess, ss_userKeyB64 = b64encode (s_userKey sess),
            ss_lockAt = now P (net w) + IDLE_MS\<rparr>)) (\<lambda>_. Ret ROk))"
      by (cases r) (simp_all add: w split: jserror.split)
  qed (rule quiets)
next
  case (CaptureLogin u n p)
  then show ?thesis
    by (auto intro!: keeps_syncT simp: bg_inv_def)
qed (simp_all add: keeps_withSession quiets keeps_bindT [OF keeps_readStored] keeps_bindT [OF keeps_clearStored_inv]
  keeps_bindT [OF keeps_readPending] bg_inv_clear keeps_bindT [where Q = "\<lambda>_. True"])

lemma listener_inv: "keeps (bg_inv P) (\<lambda>_. True) (listener P e)"
  by (cases e) (simp_all add: handle_inv keeps_bindT [OF keeps_clearStored_inv])

interpretation deadlines: pool_invariant "listener P" "bg_enabled P" "bg_env P"
    "\<lambda>_. True" "bg_inv P" "\<lambda>_ _. True" for P :: "('n, 'z) bgplatform_scheme"
  by unfold_locales (rule bg_inv_env, assumption+, rule listener_inv)

text \<open>C22: fifteen minutes without activity lock the vault, alarm or not. Wherever the worker has got to from
  an empty storage, by any interleaving of requests: if more than fifteen minutes pass, the next vault request is
  answered as locked, makes no request to the server, and leaves no session and no alarm behind.\<close>

theorem idle_session_locks:
  assumes "clock_ok P" "st_session w0 = None" "st_pending w0 = None"
    and "run (pool_step (listener P) (bg_enabled P) (bg_env P)) (w0, []) es (w, ts)"
    and "now P (net w) + IDLE_MS < now P n" "vault_request m"
  shows "finish (handle P m) (w\<lparr>net := n\<rparr>) =
    (RLocked, if st_session w = None then w\<lparr>net := n\<rparr> else w\<lparr>net := n, st_session := None, st_alarm := None\<rparr>)"
proof -
  have "bg_inv P w"
    using deadlines.run_inv [OF assms(4)] assms(2,3) by (simp add: bg_inv_def pool_ok_def)
  then have l: "live P (w\<lparr>net := n\<rparr>) = None"
    using assms(1,5) by (fastforce simp: bg_inv_def live_def split: option.split)
  show ?thesis
    using assms(6) by (cases m) (simp_all add: vault_request_def finish_withSession_locked [OF l])
qed

section \<open>Unlocking, then asking for the items\<close>

lemma toSession_stored:
  "toSession \<lparr>ss_identifier = s_identifier sess, ss_accessToken = s_accessToken sess,
     ss_refreshToken = s_refreshToken sess, ss_userKeyB64 = b64encode (s_userKey sess), ss_lockAt = t\<rparr>
   = Inr (sess\<lparr>s_protectedPrivateKey := JStr []\<rparr>)"
  using fromBase64_toBase64 [of "s_userKey sess"]
  by (simp add: toSession_def b64decode_def b64encode_def toBase64_def fromBase64_def)

text \<open>C23: an unlock is a login, and what it stores is enough for fifteen minutes of work. When logging in
  succeeds, \<open>unlock\<close> replies \<open>ok\<close>, and a request for the items up to fifteen minutes later is the loading of the
  vault with the session of that login, its user key read back from the storage; the deadline
  moves to fifteen minutes after the request, in the storage and in the alarm.\<close>

theorem unlock_then_items:
  assumes login: "loginAccount P identifier pw code w = (Inr sess, w1)"
    and soon: "now P n \<le> now P (net w1) + IDLE_MS"
    and load: "loadVault P (sess\<lparr>s_protectedPrivateKey := JStr []\<rparr>) w3 = (r, w4)"
    and w3: "w3 = w1\<lparr>net := n, st_session := Some \<lparr>ss_identifier = s_identifier sess,
        ss_accessToken = s_accessToken sess, ss_refreshToken = s_refreshToken sess,
        ss_userKeyB64 = b64encode (s_userKey sess), ss_lockAt = now P n + IDLE_MS\<rparr>,
      st_alarm := Some (now P n + IDLE_MS)\<rparr>"
  shows "\<exists>w2. finish (handle P (Unlock identifier pw code)) w = (ROk, w2)
    \<and> finish (handle P GetItems) (w2\<lparr>net := n\<rparr>) = (case r of Inl e \<Rightarrow> RError e | Inr items \<Rightarrow> RItems items, w4)"
proof -
  let ?s = "\<lparr>ss_identifier = s_identifier sess, ss_accessToken = s_accessToken sess,
      ss_refreshToken = s_refreshToken sess, ss_userKeyB64 = b64encode (s_userKey sess),
      ss_lockAt = now P (net w1) + IDLE_MS\<rparr>"
  let ?w2 = "w1\<lparr>st_session := Some ?s, st_alarm := Some (now P (net w1) + IDLE_MS)\<rparr>"
  have u: "finish (handle P (Unlock identifier pw code)) w = (ROk, ?w2)"
    using login by (simp add: finish_bindT)
  have l: "live P (?w2\<lparr>net := n\<rparr>) = Some ?s"
    using soon by (simp add: live_def)
  have "finish (handle P GetItems) (?w2\<lparr>net := n\<rparr>)
      = (case loadVault P (sess\<lparr>s_protectedPrivateKey := JStr []\<rparr>) w3 of
           (Inl e, v) \<Rightarrow> (RError e, v) | (Inr a, v) \<Rightarrow> (RItems a, v))"
    unfolding handle.simps
    by (rule finish_withSession [OF l toSession_stored]) (simp add: w3)
  then show ?thesis
    using u load by (auto split: sum.split)
qed

section \<open>One request at a time\<close>

text \<open>A history of uninterrupted handlers: before each, time passes; the alarm is handled only when it is due. An
  event is the message, the time it was handled at and its reply.\<close>

inductive serve :: "('n, 'z) bgplatform_scheme \<Rightarrow> 'n bgworld \<Rightarrow> bg_event \<times> int \<times> BgResponse \<Rightarrow> 'n bgworld \<Rightarrow> bool"
  for P where
  serve: "now P (net w) \<le> now P n \<Longrightarrow> bg_enabled P (w\<lparr>net := n\<rparr>) e \<Longrightarrow>
    finish (listener P e) (w\<lparr>net := n\<rparr>) = (r, w') \<Longrightarrow> serve P w (e, now P n, r) w'"

inductive_cases serveE: "serve P w e w'"

text \<open>The login that is on offer after a history (latest event first), with the time it was captured.\<close>

fun on_offer :: "(bg_event \<times> int \<times> BgResponse) list \<Rightarrow> (PendingSave \<times> int) option" where
  "on_offer [] = None"
| "on_offer ((Message (CaptureLogin u n p), t, r) # es) =
     (if p \<noteq> [] then Some (\<lparr>ps_url = u, ps_username = n, ps_password = p\<rparr>, t) else on_offer es)"
| "on_offer ((Message DismissPending, t, r) # es) = None"
| "on_offer (e # es) = on_offer es"

definition offer_at :: "(bg_event \<times> int \<times> BgResponse) list \<Rightarrow> int \<Rightarrow> PendingSave option" where
  "offer_at es t = (case on_offer es of None \<Rightarrow> None | Some (p, c) \<Rightarrow> if t - c \<le> PENDING_TTL_MS then Some p else None)"

definition stored_pending :: "PendingSave \<times> int \<Rightarrow> StoredPending" where
  "stored_pending = (\<lambda>(p, c). \<lparr>ps_url = ps_url p, ps_username = ps_username p, ps_password = ps_password p, sp_capturedAt = c\<rparr>)"

text \<open>The storage refines the history: it holds the login on offer, or nothing once that has expired.\<close>

definition pending_refines :: "('n, 'z) bgplatform_scheme \<Rightarrow> (bg_event \<times> int \<times> BgResponse) list \<Rightarrow> 'n bgworld \<Rightarrow> bool" where
  "pending_refines P es w \<longleftrightarrow>
     (case on_offer es of
        None \<Rightarrow> st_pending w = None
      | Some (p, c) \<Rightarrow> st_pending w = Some (stored_pending (p, c))
          \<or> st_pending w = None \<and> PENDING_TTL_MS < now P (net w) - c)"

text \<open>Handlers that do not speak of the captured login keep it, and time goes on.\<close>

definition same_pending :: "('n, 'z) bgplatform_scheme \<Rightarrow> 'n bgworld \<Rightarrow> 'n bgworld \<Rightarrow> bool" where
  "same_pending P w v \<longleftrightarrow> st_pending v = st_pending w \<and> now P (net w) \<le> now P (net v)"

definition about_pending :: "bg_event \<Rightarrow> bool" where
  "about_pending e \<longleftrightarrow> e = Message GetPending \<or> e = Message DismissPending \<or> (\<exists>u n p. e = Message (CaptureLogin u n p))"

lemma same_pending_update [simp]:
  "same_pending P w (v\<lparr>st_session := s\<rparr>) = same_pending P w v"
  "same_pending P w (v\<lparr>st_alarm := a\<rparr>) = same_pending P w v"
  by (simp_all add: same_pending_def)

lemma pending_clearStored: "keeps (same_pending P w) (\<lambda>_. True) clearStored"
  by (rule keeps_clearStored) simp_all

lemma pending_readStored: "keeps (same_pending P w) (\<lambda>_. True) (readStored P)"
  unfolding readStored_def
  by (rule keeps_bindT [where Q = "\<lambda>_. True"])
    (auto split: option.split intro!: keeps_syncT keeps_at_keeps [OF keeps_bindT [OF pending_clearStored]])

lemma pending_writeStored: "keeps (same_pending P w) (\<lambda>_. True) (writeStored s)"
  unfolding writeStored_def by (rule keeps_bindT [where Q = "\<lambda>_. True"]) simp_all

lemma pending_quiet:
  assumes "quiet P m"
  shows "keeps (same_pending P w) (\<lambda>_. True) (atom m)"
  unfolding keeps_atom
proof (intro allI impI conjI)
  fix v
  assume v: "same_pending P w v"
  obtain d n where "snd (m v) = v\<lparr>drawn := d, net := n\<rparr>" "now P (net v) \<le> now P n"
    using assms unfolding quiet_def by blast
  with v show "same_pending P w (snd (m v))"
    by (simp add: same_pending_def)
qed simp

lemma pending_replying:
  assumes "quiet P m"
  shows "keeps (same_pending P w) (\<lambda>_. True) (replying m f)"
  using pending_quiet [OF assms, of w] unfolding replying_def keeps_atom
  by (simp add: split_beta split: sum.split)

lemma pending_withSession:
  assumes "\<And>s. quiet P (m s)"
  shows "keeps (same_pending P w) (\<lambda>_. True) (withSession P m f)"
  unfolding withSession_def
proof (rule keeps_bindT [OF pending_readStored])
  fix got
  have t: "keeps (same_pending P w) (\<lambda>_. True) (touch P s)" for s
    unfolding touch_def by (rule keeps_syncT, rule keeps_at_keeps [OF pending_writeStored])
  show "keeps (same_pending P w) (\<lambda>_. True) (case got of None \<Rightarrow> Ret RLocked
      | Some s \<Rightarrow> bindT (touch P s) (\<lambda>_. replying (bindA (liftA (toSession s)) m) f))"
    by (cases got) (simp_all add: keeps_bindT [OF t] pending_replying quiets assms)
qed

lemma listener_same_pending:
  assumes "clock_ok P" "\<not> about_pending e"
  shows "keeps (same_pending P w) (\<lambda>_. True) (listener P e)"
proof (cases e)
  case (Message m)
  show ?thesis
  proof (cases m)
    case (Unlock i pw c)
    have "keeps (same_pending P w) (\<lambda>_. True) (handle P m)"
      unfolding Unlock handle.simps
    proof (rule keeps_bindT [OF pending_quiet])
      fix r :: "jserror + Session"
      show "keeps (same_pending P w) (\<lambda>_. True) (case r of
          Inl (ETwoFactorRequired ms) \<Rightarrow> Ret (RTwoFactor ms) | Inl e \<Rightarrow> Ret (RError e)
        | Inr sess \<Rightarrow> bindT (syncT (\<lambda>w. writeStored
             \<lparr>ss_identifier = s_identifier sess, ss_accessToken = s_accessToken sess,
              ss_refreshToken = s_refreshToken sess, ss_userKeyB64 = b64encode (s_userKey sess),
              ss_lockAt = now P (net w) + IDLE_MS\<rparr>)) (\<lambda>_. Ret ROk))"
        by (cases r) (auto split: jserror.split intro!: keeps_bindT [OF keeps_syncT]
            keeps_at_keeps [OF pending_writeStored])
    qed (rule quiets, rule assms)
    with Message show ?thesis
      by simp
  qed (use Message assms in \<open>simp_all add: about_pending_def pending_withSession quiets
      keeps_bindT [OF pending_readStored] keeps_bindT [OF pending_clearStored]\<close>)
qed (simp add: keeps_bindT [OF pending_clearStored])

lemma on_offer_other: "\<not> about_pending e \<or> e = Message GetPending \<Longrightarrow> on_offer ((e, t, r) # es) = on_offer es"
  by (cases "((e, t, r) # es)" rule: on_offer.cases) (auto simp: about_pending_def)

lemma pending_refines_later:
  assumes "pending_refines P es w" "same_pending P w w'" "on_offer es' = on_offer es"
  shows "pending_refines P es' w'"
  using assms by (auto simp: pending_refines_def same_pending_def split: option.splits)

lemma serve_refines:
  assumes "clock_ok P" "pending_refines P es w" "serve P w (e, t, r) w'"
  shows "pending_refines P ((e, t, r) # es) w'"
  using assms(3)
proof (cases rule: serve.cases)
  case (serve n)
  let ?v = "w\<lparr>net := n\<rparr>"
  have v: "pending_refines P es ?v"
    by (rule pending_refines_later [OF assms(2)]) (use serve in \<open>simp_all add: same_pending_def\<close>)
  show ?thesis
  proof (cases "about_pending e")
    case False
    have "same_pending P ?v w'"
      using keeps_finish [OF listener_same_pending [OF assms(1) False, of ?v], of ?v] serve
      by (simp add: same_pending_def)
    with v False show ?thesis
      by (elim pending_refines_later) (simp_all add: on_offer_other)
  next
    case True
    then consider "e = Message GetPending" | "e = Message DismissPending"
      | u x p where "e = Message (CaptureLogin u x p)"
      by (auto simp: about_pending_def)
    then show ?thesis
    proof cases
      case 1
      with v serve show ?thesis
        by (auto simp: finish_bindT finish_readPending pending_refines_def stored_pending_def
            split: option.splits if_splits)
    next
      case 2
      with serve show ?thesis
        by (auto simp: finish_bindT pending_refines_def)
    next
      case 3
      with v serve show ?thesis
        by (auto simp: finish_bindT pending_refines_def stored_pending_def split: if_splits)
    qed
  qed
qed

lemma history_refines:
  assumes "run (serve P) w0 es w" "clock_ok P" "st_pending w0 = None"
  shows "pending_refines P (rev es) w"
  using assms
proof (induction rule: run.induct)
  case (run_snoc w0 es w e w')
  then show ?case
    by (cases e) (simp add: serve_refines)
qed (simp add: pending_refines_def)

text \<open>C24: the popup is offered the login captured last, for five minutes. After any history of requests and
  alarms, \<open>getPending\<close> replies with the latest capture that had a password, unless it was dismissed since or
  is more than five minutes old; unlocking, locking and vault requests in between change nothing.\<close>

theorem pending_offer:
  assumes "clock_ok P" "st_pending w0 = None" "run (serve P) w0 es w"
    and "serve P w (Message GetPending, t, r) w'"
  shows "r = RPending (offer_at (rev es) t)"
proof -
  obtain n where n: "now P (net w) \<le> now P n" "t = now P n"
      "finish (listener P (Message GetPending)) (w\<lparr>net := n\<rparr>) = (r, w')"
    using assms(4) by (auto elim: serveE)
  have "pending_refines P (rev es) w"
    using history_refines assms by blast
  with n show ?thesis
    by (auto simp: finish_bindT finish_readPending pending_refines_def stored_pending_def offer_at_def
        split: option.splits if_splits)
qed

section \<open>The alarm\<close>

definition alarm_set :: "'n bgworld \<Rightarrow> bool" where
  "alarm_set w \<longleftrightarrow> st_alarm w = map_option ss_lockAt (st_session w)"

lemma alarm_quiet: "quiet P m \<Longrightarrow> alarm_set w \<Longrightarrow> alarm_set (snd (m w))"
  unfolding quiet_def by (drule spec [of _ w]) (auto simp: alarm_set_def)

lemma alarm_withSession:
  assumes "\<And>s. quiet P (m s)" "alarm_set w"
  shows "alarm_set (snd (finish (withSession P m f) w))"
proof (cases "live P w")
  case None
  then show ?thesis
    using assms(2) by (simp add: finish_withSession_locked) (simp add: alarm_set_def)
next
  case (Some s)
  let ?v = "w\<lparr>st_session := Some (s\<lparr>ss_lockAt := now P (net w) + IDLE_MS\<rparr>),
      st_alarm := Some (now P (net w) + IDLE_MS)\<rparr>"
  have "quiet P (bindA (liftA (toSession s)) m)"
    by (intro quiets assms)
  then have "alarm_set (snd (bindA (liftA (toSession s)) m ?v))"
    by (rule alarm_quiet) (simp add: alarm_set_def)
  moreover have "snd (finish (withSession P m f) w) = snd (bindA (liftA (toSession s)) m ?v)"
    using Some by (simp add: withSession_def finish_bindT finish_readStored finish_replying
        split: prod.split sum.split)
  ultimately show ?thesis
    by simp
qed

lemma listener_alarm:
  assumes "clock_ok P" "alarm_set w"
  shows "alarm_set (snd (finish (listener P e) w))"
proof (cases e)
  case (Message m)
  show ?thesis
  proof (cases m)
    case (Unlock i pw c)
    have q: "alarm_set (snd (loginAccount P i pw c w))"
      by (rule alarm_quiet [OF quiet_requests(1)]) (rule assms)+
    obtain r v where "loginAccount P i pw c w = (r, v)"
      by (cases "loginAccount P i pw c w")
    with q Message Unlock show ?thesis
      by (cases r) (simp_all add: finish_bindT alarm_set_def split: jserror.split)
  next
    case GetState
    with Message assms(2) show ?thesis
      by (simp add: finish_bindT finish_readStored) (simp add: alarm_set_def)
  next
    case Lock
    with Message show ?thesis
      by (simp add: finish_bindT alarm_set_def)
  next
    case GetPending
    with Message assms(2) show ?thesis
      by (simp add: finish_bindT finish_readPending alarm_set_def split: option.split)
  next
    case (CaptureLogin u n p)
    with Message assms(2) show ?thesis
      by (simp add: finish_bindT alarm_set_def)
  next
    case DismissPending
    with Message assms(2) show ?thesis
      by (simp add: finish_bindT alarm_set_def)
  qed (use Message assms in \<open>simp_all add: alarm_withSession quiets\<close>)
qed (simp add: finish_bindT alarm_set_def)

lemma serve_alarm:
  assumes "clock_ok P" "serve P w e w'" "alarm_set w" "bg_inv P w"
  shows "alarm_set w' \<and> bg_inv P w'"
  using assms(2)
proof (cases rule: serve.cases)
  case (serve n e' r)
  have "alarm_set (w\<lparr>net := n\<rparr>)" "bg_inv P (w\<lparr>net := n\<rparr>)"
    using assms(3,4) serve(2) by (simp_all add: alarm_set_def) (force simp: bg_inv_def)
  with serve show ?thesis
    using listener_alarm [OF assms(1), of "w\<lparr>net := n\<rparr>" e'] keeps_finish [OF listener_inv, of P "w\<lparr>net := n\<rparr>" e']
    by simp
qed

lemma history_alarm:
  assumes "run (serve P) w0 es w" "clock_ok P" "alarm_set w0" "bg_inv P w0"
  shows "alarm_set w \<and> bg_inv P w"
  using assms by (induction rule: run.induct) (use serve_alarm in blast)+

text \<open>After any history of requests and alarms handled one by one, the alarm is set exactly when
  a session is stored, for its deadline, which is at most fifteen minutes away; when the alarm is handled the
  vault is locked.\<close>

theorem alarm_follows_session:
  assumes "clock_ok P" "st_session w0 = None" "st_pending w0 = None" "st_alarm w0 = None"
    and "run (serve P) w0 es w"
  shows "st_alarm w = map_option ss_lockAt (st_session w)
    \<and> (\<forall>s. st_session w = Some s \<longrightarrow> ss_lockAt s \<le> now P (net w) + IDLE_MS)
    \<and> (\<forall>t r w'. serve P w (AlarmFires, t, r) w' \<longrightarrow> st_session w' = None \<and> st_alarm w' = None)"
proof -
  have "alarm_set w \<and> bg_inv P w"
    using history_alarm [OF assms(5,1)] assms(2-4) by (simp add: alarm_set_def bg_inv_def)
  then show ?thesis
    using assms(1) by (auto simp: alarm_set_def bg_inv_def finish_bindT elim!: serveE)
qed

section \<open>A worker for the witnesses\<close>

text \<open>The queued server of the session witnesses; each reply it has sent has taken a thousand seconds.\<close>

definition sample_bg :: "(int \<times> jsval) list bgplatform" where
  "sample_bg = service.extend sample_service (bgplatform.fields (\<lambda>n. - 1000000 * int (length n)))"

definition sample_bgworld :: "(int \<times> jsval) list \<Rightarrow> (int \<times> jsval) list bgworld" where
  "sample_bgworld n = networld.extend (sample_net n) (bgworld.fields None None None)"

lemma sample_clock: "clock_ok sample_bg"
  by (simp add: clock_ok_def sample_bg_def sample_service_defs bgplatform.defs sample_fetch_def
      split: list.split)

lemma bg_env_refl: "bg_env P w w"
  unfolding bg_env_def by (rule exI [of _ "net w"]) simp

lemma message_enabled: "bg_enabled P w (Message m)"
  by (simp add: bg_enabled_def)

lemma schedule_messages:
  assumes "schedule (listener P) (map (\<lambda>c. case c of Inl m \<Rightarrow> Launch (Message m) | Inr i \<Rightarrow> Advance i) cs) s = (es, t)"
  shows "run (pool_step (listener P) (bg_enabled P) (bg_env P)) s es t"
  using assms by (rule schedule_run [rotated 2]) (auto simp: bg_env_refl message_enabled split: sum.splits)

lemma serve_message:
  "now P (net w) \<le> now P n \<Longrightarrow> finish (handle P m) (w\<lparr>net := n\<rparr>) = (r, w') \<Longrightarrow> serve P w (Message m, now P n, r) w'"
  by (rule serve.serve) (simp_all add: message_enabled)

theorem lock_locks_witness:
  "\<exists>es w. run (pool_step (listener sample_bg) (bg_enabled sample_bg) (bg_env sample_bg)) (w, [])
        [Start (Message GetItems), Resume, Reply (Message GetItems) RLocked] (w, [])
    \<and> run (pool_step (listener sample_bg) (bg_enabled sample_bg) (bg_env sample_bg)) (sample_bgworld [], []) es (w, [])
    \<and> Reply (Message Lock) ROk \<in> set es \<and> st_session w = None"
proof -
  obtain w1 where w1: "finish (handle sample_bg Lock) (sample_bgworld []) = (ROk, w1)" "st_session w1 = None"
    by (simp add: finish_bindT)
  have "finish (listener sample_bg (Message Lock)) (sample_bgworld []) = (ROk, w1)"
    by (subst listener.simps) (rule w1(1))
  then obtain n where r: "run (pool_step (listener sample_bg) (bg_enabled sample_bg) (bg_env sample_bg)) (sample_bgworld [], [])
      ([Start (Message Lock)] @ replicate n Resume @ [Reply (Message Lock) ROk]) (w1, [])"
    using finish_served [of "listener sample_bg" "Message Lock" "sample_bgworld []" ROk w1 "bg_enabled sample_bg" "bg_env sample_bg"]
      message_enabled by blast
  have "schedule (listener sample_bg) (map (\<lambda>c. case c of Inl m \<Rightarrow> Launch (Message m) | Inr i \<Rightarrow> Advance i)
      [Inl GetItems, Inr 0, Inr 0]) (w1, [])
    = ([Start (Message GetItems), Resume, Reply (Message GetItems) RLocked], w1, [])"
    using w1(2) by (simp add: withSession_def readStored_def atom_def)
  then have s: "run (pool_step (listener sample_bg) (bg_enabled sample_bg) (bg_env sample_bg)) (w1, [])
      [Start (Message GetItems), Resume, Reply (Message GetItems) RLocked] (w1, [])"
    by (rule schedule_messages)
  have "st_session w1 = None"
    using lock_locks [OF r w1(2) s] by auto
  with r s show ?thesis
    by (intro exI conjI) auto
qed

text \<open>The worker takes no care of requests in flight: a lock handled between the reading of the session and the
  extension of its deadline is undone, and the vault is open for another fifteen minutes.\<close>

lemma lock_undone_by_request_in_flight:
  assumes "st_session w = Some s" "now P (net w) \<le> ss_lockAt s"
  shows "\<exists>es w' t. run (pool_step (listener P) (bg_enabled P) (bg_env P)) (w, []) es (w', [(Message GetItems, t)])
    \<and> Reply (Message Lock) ROk \<in> set es \<and> (\<forall>e. Start e \<in> set es \<longrightarrow> \<not> unlocking e)
    \<and> st_session w' = Some (s\<lparr>ss_lockAt := now P (net w) + IDLE_MS\<rparr>)"
proof -
  obtain es w' t where "schedule (listener P) (map (\<lambda>c. case c of Inl m \<Rightarrow> Launch (Message m) | Inr i \<Rightarrow> Advance i)
      [Inl GetItems, Inr 0, Inl Lock, Inr 1, Inr 1, Inr 1, Inr 0, Inr 0]) (w, []) = (es, w', [(Message GetItems, t)])"
    "Reply (Message Lock) ROk \<in> set es" "\<forall>e. Start e \<in> set es \<longrightarrow> \<not> unlocking e"
    "st_session w' = Some (s\<lparr>ss_lockAt := now P (net w) + IDLE_MS\<rparr>)"
    using assms by (simp add: withSession_def readStored_def touch_def writeStored_def clearStored_def syncT_def atom_def)
  then show ?thesis
    using schedule_messages by blast
qed

theorem pending_offer_witness:
  "\<exists>w t r w'. run (serve sample_bg) (sample_bgworld []) [(Message (CaptureLogin (js ''u'') (js ''n'') (js ''p'')), 0, ROk)] w
    \<and> serve sample_bg w (Message GetPending, t, r) w'
    \<and> r = RPending (Some \<lparr>ps_url = js ''u'', ps_username = js ''n'', ps_password = js ''p''\<rparr>)"
proof -
  let ?m = "Message (CaptureLogin (js ''u'') (js ''n'') (js ''p''))" and ?w0 = "sample_bgworld []"
  have z: "now sample_bg (net ?w0) = 0" "net ?w0 = []" "now sample_bg [] = 0" "st_pending ?w0 = None"
    by code_simp+
  obtain w where w: "finish (listener sample_bg ?m) (?w0\<lparr>net := []\<rparr>) = (ROk, w)" "net w = []"
    by (simp add: finish_bindT js_Cons)
  have "serve sample_bg ?w0 (?m, now sample_bg [], ROk) w"
    using w(1) z by (intro serve_message) (simp_all del: handle.simps)
  then have h: "run (serve sample_bg) ?w0 [(?m, 0, ROk)] w"
    using run_snoc [OF run_nil, of "serve sample_bg" ?w0 "(?m, 0, ROk)" w] z by simp
  obtain r w' where "finish (listener sample_bg (Message GetPending)) (w\<lparr>net := []\<rparr>) = (r, w')"
    by (cases "finish (listener sample_bg (Message GetPending)) (w\<lparr>net := []\<rparr>)")
  then have g: "serve sample_bg w (Message GetPending, 0, r) w'"
    using serve_message [of sample_bg w "[]" GetPending r w'] w(2) z by simp
  have "r = RPending (offer_at (rev [(?m, 0, ROk)]) 0)"
    by (rule pending_offer [OF sample_clock _ h g]) (rule z)
  moreover have "offer_at (rev [(?m, 0, ROk)]) 0 = Some \<lparr>ps_url = js ''u'', ps_username = js ''n'', ps_password = js ''p''\<rparr>"
    by (simp add: offer_at_def PENDING_TTL_MS_def)
  ultimately show ?thesis
    using h g by blast
qed

lemma sample_bg_ok: "webcrypto_ok sample_bg"
  using sample_service_webcrypto
  by (simp add: webcrypto_ok_def aes_ok_def mac_ok_def kdf_ok_def rsa_ok_def sample_bg_def service.defs
      bgplatform.defs sample_service_defs)

lemma sample_bg_replies:
  assumes "plain (JObj kvs)"
  shows "replies sample_bg rq ((200, JObj kvs) # n) kvs n"
  using sample_replies [OF assms, of rq n]
  by (simp add: replies_def sample_bg_def service.defs bgplatform.defs)

lemma sample_bg_login:
  "\<exists>n sess. \<forall>m. loginAccount sample_bg (js ''Me@Example.org'') (js ''correct horse'') None (sample_bgworld (n @ m))
     = (Inr sess, (sample_bgworld (n @ m))\<lparr>net := m\<rparr>)"
proof -
  let ?i = "js ''Me@Example.org''" and ?pw = "js ''correct horse''"
  have l: "login_ok sample_bg ?i ?pw (Some DEFAULT_KDF)"
    using sample_credentials(1) unicode_only(2) [of sample_bg sample_platform]
    by (simp add: sample_bg_def sample_service_defs bgplatform.defs)
  obtain b :: RegistrationBundle and userKey where b: "unlock sample_bg ?i ?pw (Some DEFAULT_KDF) (rb_protectedUserKey b)
      = Inr (userKey, rb_masterPasswordHash b)"
    using buildRegistration_ok [OF sample_bg_ok l refl, of sample_world] by blast
  let ?kv1 = "[(js ''kdf'', DEFAULT_KDF)]" and ?kv2 = "[(js ''protectedUserKey'', JStr (rb_protectedUserKey b))]"
  let ?w = "\<lambda>m. sample_bgworld ([(200, JObj ?kv1), (200, JObj ?kv2)] @ m)"
  have p: "plain (obj [(''kdf'', DEFAULT_KDF)])" "plain (JObj ?kv2)"
    by code_simp (simp add: obj_of_id)
  have n: "net (?w m) = (200, JObj ?kv1) # (200, JObj ?kv2) # m" for m
    by (simp add: sample_bgworld_def sample_net_def networld.defs bgworld.defs world.defs)
  have "loginAccount sample_bg ?i ?pw None (?w m) = (Inr (sessionOf ?i (JObj ?kv2) userKey), (?w m)\<lparr>net := m\<rparr>)" for m
    by (rule loginAccount_unlocks [where ?kv1.0 = ?kv1 and ?n1.0 = "(200, JObj ?kv2) # m"])
      (use b p n sample_bg_replies in \<open>simp_all add: truthy_opt_def\<close>)
  then show ?thesis
    by blast
qed

text \<open>A session is stored by an unlock, and locked by fifteen minutes of nothing.\<close>

theorem idle_session_locks_witness:
  "\<exists>m w. finish (handle sample_bg (Unlock (js ''Me@Example.org'') (js ''correct horse'') None)) (sample_bgworld m) = (ROk, w)
    \<and> st_session w \<noteq> None
    \<and> (\<exists>w'. finish (handle sample_bg GetItems) (w\<lparr>net := []\<rparr>) = (RLocked, w') \<and> st_session w' = None \<and> st_alarm w' = None)"
proof -
  let ?late = "[(200, JObj [])]" and ?u = "Unlock (js ''Me@Example.org'') (js ''correct horse'') None"
  obtain n sess where l: "\<forall>m. loginAccount sample_bg (js ''Me@Example.org'') (js ''correct horse'') None (sample_bgworld (n @ m))
     = (Inr sess, (sample_bgworld (n @ m))\<lparr>net := m\<rparr>)"
    using sample_bg_login by blast
  let ?w0 = "sample_bgworld (n @ ?late)"
  obtain w where w: "finish (handle sample_bg ?u) ?w0 = (ROk, w)" "net w = ?late" "st_session w \<noteq> None"
    using l by (simp add: finish_bindT)
  have "finish (listener sample_bg (Message ?u)) ?w0 = (ROk, w)"
    by (subst listener.simps) (rule w(1))
  then obtain k where r: "run (pool_step (listener sample_bg) (bg_enabled sample_bg) (bg_env sample_bg)) (?w0, [])
      ([Start (Message ?u)] @ replicate k Resume @ [Reply (Message ?u) ROk]) (w, [])"
    using finish_served [of "listener sample_bg" "Message ?u" ?w0 ROk w "bg_enabled sample_bg" "bg_env sample_bg"]
      message_enabled by blast
  have "now sample_bg ?late + IDLE_MS < now sample_bg []"
    by code_simp
  then have "finish (handle sample_bg GetItems) (w\<lparr>net := []\<rparr>) =
    (RLocked, if st_session w = None then w\<lparr>net := []\<rparr> else w\<lparr>net := [], st_session := None, st_alarm := None\<rparr>)"
    using w(2) by (intro idle_session_locks [OF sample_clock _ _ r]) (simp_all add: vault_request_def sample_bgworld_def networld.defs bgworld.defs)
  with w show ?thesis
    by (intro exI [of _ "n @ ?late"] exI [of _ w]) (auto simp del: handle.simps)
qed

theorem unlock_then_items_witness:
  "\<exists>n w2 a w4. finish (handle sample_bg (Unlock (js ''Me@Example.org'') (js ''correct horse'') None)) (sample_bgworld n) = (ROk, w2)
    \<and> finish (handle sample_bg GetItems) (w2\<lparr>net := []\<rparr>) = (a, w4) \<and> a \<noteq> RLocked"
proof -
  obtain n sess where l: "loginAccount sample_bg (js ''Me@Example.org'') (js ''correct horse'') None (sample_bgworld n)
     = (Inr sess, (sample_bgworld n)\<lparr>net := []\<rparr>)"
    using sample_bg_login by (metis append_Nil2)
  let ?w3 = "(sample_bgworld n)\<lparr>net := []\<rparr>\<lparr>net := [], st_session := Some \<lparr>ss_identifier = s_identifier sess,
        ss_accessToken = s_accessToken sess, ss_refreshToken = s_refreshToken sess,
        ss_userKeyB64 = b64encode (s_userKey sess), ss_lockAt = now sample_bg [] + IDLE_MS\<rparr>,
      st_alarm := Some (now sample_bg [] + IDLE_MS)\<rparr>"
  obtain r w4 where v: "loadVault sample_bg (sess\<lparr>s_protectedPrivateKey := JStr []\<rparr>) ?w3 = (r, w4)"
    by fastforce
  have "now sample_bg [] \<le> now sample_bg (net ((sample_bgworld n)\<lparr>net := []\<rparr>)) + IDLE_MS"
    by (simp add: IDLE_MS_def)
  from unlock_then_items [OF l this v refl] show ?thesis
    by (cases r) auto
qed

theorem alarm_follows_session_witness:
  "\<exists>n w2. run (serve sample_bg) (sample_bgworld n)
      [(Message (Unlock (js ''Me@Example.org'') (js ''correct horse'') None), now sample_bg n, ROk)] w2
    \<and> st_session w2 \<noteq> None \<and> st_alarm w2 = map_option ss_lockAt (st_session w2)"
proof -
  let ?m = "Unlock (js ''Me@Example.org'') (js ''correct horse'') None"
  obtain n sess where l: "loginAccount sample_bg (js ''Me@Example.org'') (js ''correct horse'') None (sample_bgworld n)
     = (Inr sess, (sample_bgworld n)\<lparr>net := []\<rparr>)"
    using sample_bg_login by blast
  have n: "(sample_bgworld n)\<lparr>net := n\<rparr> = sample_bgworld n" "net (sample_bgworld n) = n"
    "st_session (sample_bgworld n) = None" "st_pending (sample_bgworld n) = None" "st_alarm (sample_bgworld n) = None"
    by (simp_all add: sample_bgworld_def sample_net_def networld.defs bgworld.defs world.defs)
  obtain w2 where w2: "finish (listener sample_bg (Message ?m)) (sample_bgworld n) = (ROk, w2)" "st_session w2 \<noteq> None"
    using l by (simp add: finish_bindT)
  have "serve sample_bg (sample_bgworld n) (Message ?m, now sample_bg n, ROk) w2"
    using w2(1) by (intro serve_message) (simp_all only: n listener.simps order.refl)
  then have h: "run (serve sample_bg) (sample_bgworld n) [(Message ?m, now sample_bg n, ROk)] w2"
    using run_snoc [OF run_nil, of "serve sample_bg"] by fastforce
  then have "st_alarm w2 = map_option ss_lockAt (st_session w2)"
    using alarm_follows_session [OF sample_clock n(3-5) h] by blast
  with h w2(2) show ?thesis
    by blast
qed

end
