(* ===== verification/Content.thy ===== *)
theory Content
  imports Protocol
begin

text \<open>
  \<open>apps/extension/entrypoints/content.ts\<close>: filling a login form and capturing a submitted one. The page is what
  the selectors of the script see of it: its \<open>input\<close> elements in document order, each with its attributes, its
  current text and the form around it, and what the browser makes of a text that a script sets. Scripts of the page that
  react to the events dispatched are not modelled.
\<close>

section \<open>The page\<close>

record input_el =
  el_type :: "jsstring option"
  el_autocomplete :: "jsstring option"
  el_name :: "jsstring option"
  el_id :: "jsstring option"
  el_multiple :: bool
  el_form :: "nat option" \<comment> \<open>\<open>closest("form")\<close>\<close>
  el_format :: "jsstring \<Rightarrow> jsstring" \<comment> \<open>how the browser corrects a number, a date, a range or a colour\<close>
  el_text :: jsstring \<comment> \<open>the property \<open>value\<close>\<close>

text \<open>Attribute selectors: \<open>[a="v"]\<close>, the same ignoring case (as for \<open>type\<close> in an HTML document), \<open>[a*="v" i]\<close>.\<close>

definition attr_is :: "jsstring option \<Rightarrow> string \<Rightarrow> bool" where
  "attr_is a v \<longleftrightarrow> a = Some (js v)"

definition attr_is_ci :: "jsstring option \<Rightarrow> string \<Rightarrow> bool" where
  "attr_is_ci a v \<longleftrightarrow> map_option (map ascii_lower) a = Some (js v)"

definition attr_has_ci :: "jsstring option \<Rightarrow> string \<Rightarrow> bool" where
  "attr_has_ci a v \<longleftrightarrow> (case a of None \<Rightarrow> False | Some s \<Rightarrow> str_includes (map ascii_lower s) (js v))"

definition password_input :: "'z input_el_scheme \<Rightarrow> bool" where
  "password_input e \<longleftrightarrow> attr_is_ci (el_type e) ''password''"

definition user_input :: "'z input_el_scheme \<Rightarrow> bool" where
  "user_input e \<longleftrightarrow> attr_is_ci (el_type e) ''email'' \<or> attr_is (el_autocomplete e) ''username''
     \<or> attr_has_ci (el_name e) ''user'' \<or> attr_has_ci (el_id e) ''user'' \<or> attr_has_ci (el_name e) ''email''
     \<or> attr_is_ci (el_type e) ''text''"

definition captured_user_input :: "'z input_el_scheme \<Rightarrow> bool" where
  "captured_user_input e \<longleftrightarrow> user_input e \<or> attr_is_ci (el_type e) ''tel''"

text \<open>\<open>querySelector\<close> of the document (\<open>None\<close>) or a form: the position of the first match.\<close>

definition in_scope :: "nat option \<Rightarrow> 'z input_el_scheme \<Rightarrow> bool" where
  "in_scope scope e \<longleftrightarrow> (case scope of None \<Rightarrow> True | Some f \<Rightarrow> el_form e = Some f)"

fun first_index :: "('a \<Rightarrow> bool) \<Rightarrow> 'a list \<Rightarrow> nat option" where
  "first_index p [] = None"
| "first_index p (x # xs) = (if p x then Some 0 else map_option Suc (first_index p xs))"

definition querySelector :: "(input_el \<Rightarrow> bool) \<Rightarrow> nat option \<Rightarrow> input_el list \<Rightarrow> nat option" where
  "querySelector sel scope page = first_index (\<lambda>e. in_scope scope e \<and> sel e) page"

section \<open>Setting a value\<close>

text \<open>The property \<open>value\<close> of an input element, as the HTML standard has its setter: what becomes of a text depends on
  the type of the element (any unknown type is \<open>text\<close>). Line breaks go; around an address and a URL white space goes; buttons,
  boxes and hidden elements take the text as it is; numbers, dates, ranges and colours are corrected; an element for
  files takes only the empty text and throws otherwise (\<open>None\<close>).\<close>

definition html_type :: "'z input_el_scheme \<Rightarrow> jsstring" where
  "html_type e = (case el_type e of None \<Rightarrow> js ''text'' | Some t \<Rightarrow> map ascii_lower t)"

definition html_space :: "u16 \<Rightarrow> bool" where
  "html_space c \<longleftrightarrow> c \<in> {9, 10, 12, 13, 32}"

definition stripNewlines :: "jsstring \<Rightarrow> jsstring" where
  "stripNewlines t = filter (\<lambda>c. c \<noteq> 10 \<and> c \<noteq> 13) t"

definition stripSpace :: "jsstring \<Rightarrow> jsstring" where
  "stripSpace t = rev (dropWhile html_space (rev (dropWhile html_space t)))"

definition valueSetter :: "'z input_el_scheme \<Rightarrow> jsstring \<Rightarrow> jsstring option" where
  "valueSetter e v =
     (let ty = html_type e
      in if ty \<in> set (map js [''hidden'', ''checkbox'', ''radio'', ''submit'', ''image'', ''reset'', ''button'']) then Some v
         else if ty = js ''file'' then (if v = [] then Some [] else None)
         else if ty \<in> set (map js [''date'', ''month'', ''week'', ''time'', ''datetime-local'', ''number'', ''range'', ''color''])
         then Some (el_format e v)
         else if ty = js ''email'' \<and> el_multiple e then Some (join [44] (map stripSpace (split_on 44 v)))
         else if ty = js ''email'' \<or> ty = js ''url'' then Some (stripSpace (stripNewlines v))
         else Some (stripNewlines v))"

definition withText :: "input_el list \<Rightarrow> nat \<Rightarrow> jsstring \<Rightarrow> input_el list" where
  "withText page i t = page[i := (page ! i)\<lparr>el_text := t\<rparr>]"

section \<open>The two operations\<close>

text \<open>The page afterwards, or \<open>None\<close> when the setter throws.\<close>

definition setValue :: "input_el list \<Rightarrow> nat \<Rightarrow> jsstring \<Rightarrow> input_el list option" where
  "setValue page i v = map_option (withText page i) (valueSetter (page ! i) v)"

definition captureFrom :: "jsstring \<Rightarrow> nat option \<Rightarrow> input_el list \<Rightarrow> BgRequest option" where
  "captureFrom href scope page =
     (case querySelector password_input scope page of
        None \<Rightarrow> None
      | Some i \<Rightarrow>
          if el_text (page ! i) = [] then None
          else Some (CaptureLogin href
            (case querySelector captured_user_input scope page of None \<Rightarrow> [] | Some j \<Rightarrow> el_text (page ! j))
            (el_text (page ! i))))"

text \<open>An error of the setter goes through. The name comes first, so that the page is as it was.\<close>

definition fillLoginForm :: "jsstring \<Rightarrow> jsstring \<Rightarrow> input_el list \<Rightarrow> (bool \<times> input_el list) option" where
  "fillLoginForm username password page =
     (case querySelector password_input None page of
        None \<Rightarrow> Some (False, page)
      | Some i \<Rightarrow>
          (case (case querySelector user_input (el_form (page ! i)) page of
                 None \<Rightarrow> Some page
               | Some j \<Rightarrow> if username \<noteq> [] then setValue page j username else Some page) of
             None \<Rightarrow> None
           | Some page' \<Rightarrow> map_option (Pair True) (setValue page' i password)))"

text \<open>The message listener answers \<open>fill\<close> only; \<open>None\<close> when it throws.\<close>

definition onFill :: "FillMessage option \<Rightarrow> input_el list \<Rightarrow> (bool option \<times> input_el list) option" where
  "onFill msg page =
     (case msg of
        None \<Rightarrow> Some (None, page)
      | Some m \<Rightarrow> map_option (\<lambda>(ok, page'). (Some ok, page')) (fillLoginForm (fm_username m) (fm_password m) page))"

section \<open>Filling and submitting\<close>

lemma first_index_Some: "first_index p xs = Some i \<Longrightarrow> i < length xs \<and> p (xs ! i) \<and> (\<forall>j < i. \<not> p (xs ! j))"
proof (induction xs arbitrary: i)
  case (Cons x xs)
  then show ?case
    by (cases i) (auto split: if_splits simp: nth_Cons split: nat.splits)
qed simp

lemma first_index_None: "first_index p xs = None \<longleftrightarrow> (\<forall>x \<in> set xs. \<not> p x)"
  by (induction xs) auto

lemma first_index_cong: "map p xs = map p ys \<Longrightarrow> first_index p xs = first_index p ys"
proof (induction xs arbitrary: ys)
  case (Cons x xs)
  then show ?case
    by (cases ys) auto
qed simp

text \<open>A selector reads attributes, so it finds the same elements after a value is set.\<close>

definition reads_attributes :: "(input_el \<Rightarrow> bool) \<Rightarrow> bool" where
  "reads_attributes sel \<longleftrightarrow> (\<forall>e v. sel (e\<lparr>el_text := v\<rparr>) = sel e)"

lemma selectors_read_attributes [simp]:
  "reads_attributes password_input" "reads_attributes user_input" "reads_attributes captured_user_input"
  by (simp_all add: reads_attributes_def password_input_def user_input_def captured_user_input_def)

lemma querySelector_withText [simp]:
  "reads_attributes sel \<Longrightarrow> querySelector sel scope (withText page i v) = querySelector sel scope page"
  unfolding querySelector_def withText_def reads_attributes_def
  by (cases "i < length page", intro first_index_cong nth_equalityI)
    (auto simp: in_scope_def nth_list_update list_update_beyond split: option.split)

lemma length_withText [simp]: "length (withText page i v) = length page"
  by (simp add: withText_def)

lemma withText_nth: "j < length page \<Longrightarrow> withText page i v ! j = (if i = j then (page ! i)\<lparr>el_text := v\<rparr> else page ! j)"
  by (simp add: withText_def nth_list_update)

lemma password_setter: "password_input e \<Longrightarrow> valueSetter e v = Some (stripNewlines v)"
proof -
  assume "password_input e"
  then have "html_type e = js ''password''"
    by (auto simp: html_type_def password_input_def attr_is_ci_def)
  then show ?thesis
    by (simp add: valueSetter_def Let_def js_def)
qed

text \<open>A text of one line, with no white space around it, is kept by the elements a user name is typed in.\<close>

definition single_line :: "jsstring \<Rightarrow> bool" where
  "single_line t \<longleftrightarrow> 10 \<notin> set t \<and> 13 \<notin> set t"

definition unpadded :: "jsstring \<Rightarrow> bool" where
  "unpadded t \<longleftrightarrow> t = [] \<or> \<not> html_space (hd t) \<and> \<not> html_space (last t)"

lemma stripNewlines_same: "single_line t \<Longrightarrow> stripNewlines t = t"
  by (auto simp: single_line_def stripNewlines_def filter_id_conv)

lemma dropWhile_same: "t = [] \<or> \<not> p (hd t) \<Longrightarrow> dropWhile p t = t"
  by (cases t) auto

lemma stripSpace_same: "unpadded t \<Longrightarrow> stripSpace t = t"
  by (auto simp: unpadded_def stripSpace_def dropWhile_same hd_rev)

lemma valueSetter_same:
  assumes "html_type e = js ''text'' \<or> html_type e = js ''email'' \<and> \<not> el_multiple e" "single_line v" "unpadded v"
  shows "valueSetter e v = Some v"
  using assms by (auto simp: valueSetter_def Let_def stripNewlines_same stripSpace_same js_def)

lemma querySelector_bound: "querySelector sel scope page = Some i \<Longrightarrow> i < length page \<and> sel (page ! i) \<and> in_scope scope (page ! i)"
  unfolding querySelector_def by (drule first_index_Some) simp

lemma querySelector_form:
  assumes "querySelector sel None page = Some i"
  shows "querySelector sel (el_form (page ! i)) page = Some i"
proof -
  have i: "i < length page" "sel (page ! i)" "\<forall>j < i. \<not> sel (page ! j)"
    using assms first_index_Some unfolding querySelector_def in_scope_def by fastforce+
  let ?p = "\<lambda>e. in_scope (el_form (page ! i)) e \<and> sel e"
  have "?p (page ! i)"
    using i by (simp add: in_scope_def split: option.split)
  then obtain k where k: "first_index ?p page = Some k"
    using i(1) first_index_None [of ?p page] by (cases "first_index ?p page") (auto dest: nth_mem)
  have "k < length page" "?p (page ! k)" "\<forall>j < k. \<not> ?p (page ! j)"
    using first_index_Some [OF k] by blast+
  then have "k = i"
    using i \<open>?p (page ! i)\<close> by (metis linorder_neqE_nat)
  with k show ?thesis
    by (simp add: querySelector_def)
qed

text \<open>The capturing script finds the field of the name that was filled, if no telephone field stands before it.\<close>

definition no_telephone_before :: "nat \<Rightarrow> nat option \<Rightarrow> input_el list \<Rightarrow> bool" where
  "no_telephone_before j scope page \<longleftrightarrow> (\<forall>k < j. in_scope scope (page ! k) \<longrightarrow> \<not> attr_is_ci (el_type (page ! k)) ''tel'')"

lemma first_index_eqI: "i < length xs \<Longrightarrow> p (xs ! i) \<Longrightarrow> \<forall>j < i. \<not> p (xs ! j) \<Longrightarrow> first_index p xs = Some i"
proof (induction xs arbitrary: i)
  case (Cons x xs)
  show ?case
  proof (cases i)
    case (Suc n)
    have "\<not> p x" "\<forall>j < n. \<not> p (xs ! j)"
      using Cons.prems(3) Suc by force+
    then show ?thesis
      using Cons Suc by simp
  qed (use Cons.prems in simp)
qed simp

lemma captured_field:
  assumes "querySelector user_input scope page = Some j" "no_telephone_before j scope page"
  shows "querySelector captured_user_input scope page = Some j"
proof -
  have "j < length page" "user_input (page ! j) \<and> in_scope scope (page ! j)"
    "\<forall>k < j. \<not> (in_scope scope (page ! k) \<and> user_input (page ! k))"
    using assms(1) first_index_Some unfolding querySelector_def by fastforce+
  then show ?thesis
    using assms(2) unfolding querySelector_def no_telephone_before_def
    by (intro first_index_eqI) (auto simp: captured_user_input_def)
qed

text \<open>What is filled is what is captured. Filling a page that has a password field changes no text but those
  of the first password field and of one username field of its form; and when no telephone field stands before that one,
  submitting the form captures the very credentials that are in the fields.\<close>

lemma filled_is_captured:
  assumes ne: "username \<noteq> []" "stripNewlines password \<noteq> []"
    and i: "querySelector password_input None page = Some i"
    and j: "querySelector user_input (el_form (page ! i)) page = Some j" "j \<noteq> i" "no_telephone_before j (el_form (page ! i)) page"
    and u: "valueSetter (page ! j) username = Some u"
  obtains page' where "fillLoginForm username password page = Some (True, page')"
    "captureFrom href (el_form (page ! i)) page' = Some (CaptureLogin href u (stripNewlines password))"
    "length page' = length page" "\<forall>k < length page. k \<noteq> i \<longrightarrow> k \<noteq> j \<longrightarrow> page' ! k = page ! k"
    "el_text (page' ! j) = u" "el_text (page' ! i) = stripNewlines password"
proof -
  let ?page' = "withText (withText page j u) i (stripNewlines password)"
  have b: "i < length page" "j < length page" "password_input (page ! i)"
    using querySelector_bound [OF i] querySelector_bound [OF j(1)] by simp_all
  have f: "querySelector password_input (el_form (page ! i)) page = Some i"
    by (rule querySelector_form [OF i])
  have "fillLoginForm username password page = Some (True, ?page')"
    using i j(1,2) ne u b by (simp add: fillLoginForm_def setValue_def withText_nth password_setter)
  then show thesis
    using b j(2) ne f captured_field [OF j(1,3)]
    by (intro that [of ?page']) (simp_all add: captureFrom_def withText_nth)
qed

lemma file_throws:
  assumes "username \<noteq> []" "querySelector password_input None page = Some i"
    and "querySelector user_input (el_form (page ! i)) page = Some j" "html_type (page ! j) = js ''file''"
  shows "fillLoginForm username password page = None"
  using assms by (simp add: fillLoginForm_def setValue_def valueSetter_def js_def)

definition sample_page :: "input_el list" where
  "sample_page =
     [\<lparr>el_type = Some (js ''search''), el_autocomplete = None, el_name = Some (js ''q''), el_id = None, el_multiple = False, el_form = Some 0, el_format = id, el_text = []\<rparr>,
      \<lparr>el_type = None, el_autocomplete = None, el_name = Some (js ''UserName''), el_id = None, el_multiple = False, el_form = Some 1, el_format = id, el_text = []\<rparr>,
      \<lparr>el_type = Some (js ''password''), el_autocomplete = None, el_name = None, el_id = None, el_multiple = False, el_form = Some 1, el_format = id, el_text = []\<rparr>]"

lemma sample_page_fields:
  "querySelector password_input None sample_page = Some 2" "el_form (sample_page ! 2) = Some 1"
  "querySelector user_input (Some 1) sample_page = Some 1"
  "querySelector captured_user_input (Some 1) sample_page = Some 1"
  by code_simp+

text \<open>The capturing script also takes a telephone field for the user name, the filling script does not: where one
  stands before the name, the name captured is the telephone number.\<close>

lemma capture_takes_telephone:
  "captureFrom (js ''h'') None
     [\<lparr>el_type = Some (js ''tel''), el_autocomplete = None, el_name = None, el_id = None, el_multiple = False, el_form = None, el_format = id, el_text = js ''555''\<rparr>,
      \<lparr>el_type = Some (js ''email''), el_autocomplete = None, el_name = None, el_id = None, el_multiple = False, el_form = None, el_format = id, el_text = js ''me''\<rparr>,
      \<lparr>el_type = Some (js ''password''), el_autocomplete = None, el_name = None, el_id = None, el_multiple = False, el_form = None, el_format = id, el_text = js ''p''\<rparr>]
   = Some (CaptureLogin (js ''h'') (js ''555'') (js ''p''))"
  by code_simp

end
