(* ===== verification/Desktop.thy ===== *)
theory Desktop
  imports Vault Items
begin

text \<open>
  \<open>apps/desktop/src/storage.ts\<close> and \<open>types.ts\<close>: the data layer of the desktop client. The native commands
  (\<open>src-tauri/src/lib.rs\<close>) read and write whole files; a failed write may leave anything in the file it
  was writing. The list of recent vaults is one more file, read unchecked.
\<close>

section \<open>The file system\<close>

type_synonym disk = "jsstring \<Rightarrow> jsstring option"

record dworld = world +
  disk :: disk
  recents :: "jsstring option"
  date :: int

record dplatform = platform +
  fs_write :: "jsstring \<Rightarrow> jsstring \<Rightarrow> disk \<Rightarrow> unit result \<times> disk" \<comment> \<open>path, contents\<close>
  fs_error :: "jsstring \<Rightarrow> jsstring" \<comment> \<open>the text of a failed read\<close>
  recents_dir :: "unit result" \<comment> \<open>whether the configuration directory can be created\<close>
  recents_write :: "unit result"

text \<open>What \<open>fs::write\<close> promises: success means the contents are there, and no other file changes.\<close>

definition fs_ok :: "'z dplatform_scheme \<Rightarrow> bool" where
  "fs_ok P \<longleftrightarrow> (\<forall>path c d r d'. fs_write P path c d = (r, d') \<longrightarrow>
     (\<forall>q. q \<noteq> path \<longrightarrow> d' q = d q) \<and> (\<forall>u. r = Inr u \<longrightarrow> d' path = Some c))"

definition read_vault :: "'z dplatform_scheme \<Rightarrow> jsstring \<Rightarrow> ('y dworld_scheme, jsstring) act" where
  "read_vault P path w = (case disk w path of None \<Rightarrow> Inl (EInvoke (fs_error P path)) | Some t \<Rightarrow> Inr t, w)"

definition write_vault :: "'z dplatform_scheme \<Rightarrow> jsstring \<Rightarrow> jsstring \<Rightarrow> ('y dworld_scheme, unit) act" where
  "write_vault P path contents w =
     (case fs_write P path contents (disk w) of (r, d) \<Rightarrow> (r, w\<lparr>disk := d\<rparr>))"

definition vaultExists :: "jsstring \<Rightarrow> ('y dworld_scheme, bool) act" where
  "vaultExists path w = (Inr (disk w path \<noteq> None), w)"

definition read_recents :: "'z dplatform_scheme \<Rightarrow> ('y dworld_scheme, jsstring) act" where
  "read_recents P w = (mapR (\<lambda>_. case recents w of None \<Rightarrow> js ''[]'' | Some t \<Rightarrow> t) (recents_dir P), w)"

definition write_recents :: "'z dplatform_scheme \<Rightarrow> jsstring \<Rightarrow> ('y dworld_scheme, unit) act" where
  "write_recents P contents w =
     (case bindR (recents_dir P) (\<lambda>_. recents_write P) of
        Inl e \<Rightarrow> (Inl e, w) | Inr u \<Rightarrow> (Inr u, w\<lparr>recents := Some contents\<rparr>))"

section \<open>The payload\<close>

definition PAYLOAD_VERSION :: int where
  "PAYLOAD_VERSION = 1"

definition encodePayload :: "'z jsenv_scheme \<Rightarrow> jsval list \<Rightarrow> jsstring" where
  "encodePayload J items =
     JSON_stringify J 0 (JObj [(js ''version'', JNum (NInt PAYLOAD_VERSION)), (js ''items'', JArr items)])"

definition decodePayload :: "jsstring \<Rightarrow> jsval list result" where
  "decodePayload payload =
     bindR (JSON_parse payload) (\<lambda>p.
     bindR (get_prop p (js ''items'')) (\<lambda>items.
     Inr (case items of Some (JArr vs) \<Rightarrow> vs | _ \<Rightarrow> [])))"

section \<open>Vault operations\<close>

record DesktopVault =
  dv_path :: jsstring
  dv_state :: VaultState
  dv_items :: "jsval list"

definition createNewVault ::
  "'z dplatform_scheme \<Rightarrow> jsstring \<Rightarrow> jsstring \<Rightarrow> ('y dworld_scheme, DesktopVault) act" where
  "createNewVault P path masterPassword =
     bindA (createVault P masterPassword (encodePayload P []) (Some DEFAULT_KDF)) (\<lambda>(file, state).
     bindA (write_vault P path file) (\<lambda>_.
     returnA \<lparr>dv_path = path, dv_state = state, dv_items = []\<rparr>))"

definition openExistingVault ::
  "'z dplatform_scheme \<Rightarrow> jsstring \<Rightarrow> jsstring \<Rightarrow> ('y dworld_scheme, DesktopVault) act" where
  "openExistingVault P path masterPassword =
     bindA (read_vault P path) (\<lambda>fileText.
     bindA (liftA (openVault P fileText masterPassword)) (\<lambda>(state, payload).
     bindA (liftA (decodePayload payload)) (\<lambda>items.
     returnA \<lparr>dv_path = path, dv_state = state, dv_items = items\<rparr>)))"

definition persist :: "'z dplatform_scheme \<Rightarrow> DesktopVault \<Rightarrow> ('y dworld_scheme, unit) act" where
  "persist P v =
     bindA (saveVault P (dv_state v) (encodePayload P (dv_items v))) (\<lambda>file.
     write_vault P (dv_path v) file)"

definition rekey :: "'z dplatform_scheme \<Rightarrow> DesktopVault \<Rightarrow> jsstring \<Rightarrow> ('y dworld_scheme, DesktopVault) act" where
  "rekey P v newPassword =
     bindA (changeMasterPassword P (dv_state v) newPassword (encodePayload P (dv_items v)) (Some DEFAULT_KDF)) (\<lambda>(file, state).
     bindA (write_vault P (dv_path v) file) (\<lambda>_.
     returnA (v\<lparr>dv_state := state\<rparr>)))"

section \<open>Recent vaults\<close>

definition RECENTS_MAX :: nat where
  "RECENTS_MAX = 8"

definition path_sep :: "u16 \<Rightarrow> bool" where
  "path_sep c \<longleftrightarrow> c = 92 \<or> c = 47"

definition basename :: "jsstring \<Rightarrow> jsstring" where
  "basename path = (let b = last (split_by path_sep path) in if b = [] then path else b)"

definition readRecents :: "'z dplatform_scheme \<Rightarrow> ('y dworld_scheme, jsval list) act" where
  "readRecents P =
     catchA
       (bindA (read_recents P) (\<lambda>raw.
        bindA (liftA (JSON_parse raw)) (\<lambda>list.
        returnA (case list of JArr vs \<Rightarrow> vs | _ \<Rightarrow> []))))
       (\<lambda>_. returnA [])"

text \<open>\<open>list.filter((r) => r.path !== path)\<close>: an element \<open>null\<close> is a \<open>TypeError\<close>.\<close>

fun otherPaths :: "jsstring \<Rightarrow> jsval list \<Rightarrow> jsval list result" where
  "otherPaths path [] = Inr []"
| "otherPaths path (r # rs) =
     bindR (get_prop r (js ''path'')) (\<lambda>p.
     mapR (\<lambda>rest. if p \<noteq> Some (JStr path) then r # rest else rest) (otherPaths path rs))"

definition recentVal :: "jsstring \<Rightarrow> int \<Rightarrow> jsval" where
  "recentVal path t = JObj [(js ''path'', JStr path), (js ''name'', JStr (basename path)), (js ''openedAt'', JNum (NInt t))]"

definition rememberRecent :: "'z dplatform_scheme \<Rightarrow> jsstring \<Rightarrow> ('y dworld_scheme, unit) act" where
  "rememberRecent P path =
     bindA (readRecents P) (\<lambda>list.
     bindA (\<lambda>w. (mapR (\<lambda>others. take RECENTS_MAX (recentVal path (date w) # others)) (otherPaths path list), w)) (\<lambda>next.
     write_recents P (JSON_stringify P 0 (JArr next))))"

definition clearRecents :: "'z dplatform_scheme \<Rightarrow> ('y dworld_scheme, unit) act" where
  "clearRecents P = write_recents P (js ''[]'')"

section \<open>Items\<close>

record DesktopItem =
  di_id :: jsstring
  di_name :: jsstring
  di_username :: jsstring
  di_password :: jsstring
  di_url :: jsstring
  di_notes :: jsstring

definition blankItem :: DesktopItem where
  "blankItem = \<lparr>di_id = [], di_name = [], di_username = [], di_password = [], di_url = [], di_notes = []\<rparr>"

text \<open>\<open>x.toString(16).padStart(2, "0")\<close> of a byte.\<close>

definition hex2 :: "byte \<Rightarrow> jsstring" where
  "hex2 x = padStart 2 48 ((if 16 \<le> x then [hex_char (unat x div 16)] else []) @ [hex_char (unat x mod 16)])"

definition newItemId :: "('y world_scheme, jsstring) act" where
  "newItemId = bindA (randomBytes 16) (\<lambda>b. returnA (concat (map hex2 b)))"

section \<open>The payload is a codec\<close>

definition items_plain :: "jsval list \<Rightarrow> bool" where
  "items_plain items \<longleftrightarrow> plain (JArr items)"

lemma payload_plain: "items_plain items \<Longrightarrow>
    plain (JObj [(js ''version'', JNum (NInt PAYLOAD_VERSION)), (js ''items'', JArr items)])"
  by (simp add: items_plain_def obj_of_id PAYLOAD_VERSION_def)

interpretation payload: codec items_plain "encodePayload J" decodePayload for J :: "'z jsenv_scheme"
proof
  fix items
  assume "items_plain items"
  then show "decodePayload (encodePayload J items) = Inr items"
    by (simp add: decodePayload_def encodePayload_def json.dec_enc [OF payload_plain] get_prop_def own_props_def)
qed

lemma payload_text: "items_plain items \<Longrightarrow> plain_text (encodePayload J items)"
  unfolding encodePayload_def by (intro plain_text_stringify payload_plain)

section \<open>The history of a desktop vault\<close>

text \<open>The vault at a path, by any sequence of the operations, each of which returned, of edits in memory, and of
  changes to other files. \<open>saved\<close> is what was last written.\<close>

inductive desktop_history ::
  "dplatform \<Rightarrow> jsstring \<Rightarrow> jsstring \<Rightarrow> bytes \<Rightarrow> jsval list \<Rightarrow> DesktopVault \<Rightarrow> dworld \<Rightarrow> bool" for P path where
  create: "secret_ok P pw DEFAULT_KDF \<Longrightarrow> createNewVault P path pw w = (Inr v, w') \<Longrightarrow>
    desktop_history P path pw (vs_userKey (dv_state v)) [] v w'"
| edit: "desktop_history P path pw uk saved v w \<Longrightarrow> desktop_history P path pw uk saved (v\<lparr>dv_items := items\<rparr>) w"
| save: "desktop_history P path pw uk saved v w \<Longrightarrow> items_plain (dv_items v) \<Longrightarrow> persist P v w = (Inr (), w') \<Longrightarrow>
    desktop_history P path pw uk (dv_items v) v w'"
| rekeyed: "desktop_history P path pw uk saved v w \<Longrightarrow> items_plain (dv_items v) \<Longrightarrow> secret_ok P pw' DEFAULT_KDF \<Longrightarrow>
    rekey P v pw' w = (Inr v', w') \<Longrightarrow> desktop_history P path pw' uk (dv_items v) v' w'"
| reopen: "desktop_history P path pw uk saved v w \<Longrightarrow> openExistingVault P path pw w = (Inr v', w') \<Longrightarrow>
    desktop_history P path pw uk saved v' w'"
| others: "desktop_history P path pw uk saved v w \<Longrightarrow> disk w' path = disk w path \<Longrightarrow>
    desktop_history P path pw uk saved v w'"

definition on_disk :: "dplatform \<Rightarrow> jsstring \<Rightarrow> jsstring \<Rightarrow> bytes \<Rightarrow> jsval list \<Rightarrow> dworld \<Rightarrow> bool" where
  "on_disk P path pw uk saved w \<longleftrightarrow> (\<exists>f st. disk w path = Some f \<and> isVaultFile f \<and> items_plain saved
     \<and> openVault P f pw = Inr (st, encodePayload P saved) \<and> vault_holds P pw st \<and> vs_userKey st = uk)"

definition in_memory :: "dplatform \<Rightarrow> jsstring \<Rightarrow> jsstring \<Rightarrow> bytes \<Rightarrow> DesktopVault \<Rightarrow> bool" where
  "in_memory P path pw uk v \<longleftrightarrow> dv_path v = path \<and> vault_holds P pw (dv_state v) \<and> vs_userKey (dv_state v) = uk"

lemma write_vault_disk:
  assumes "fs_ok P" "write_vault P path c w = (Inr u, w')"
  shows "disk w' path = Some c"
  using assms unfolding write_vault_def fs_ok_def by (auto split: prod.splits)

lemma on_disk_opens:
  assumes "on_disk P path pw uk saved w"
  shows "\<exists>st. openExistingVault P path pw w = (Inr \<lparr>dv_path = path, dv_state = st, dv_items = saved\<rparr>, w)
    \<and> vault_holds P pw st \<and> vs_userKey st = uk"
proof -
  obtain f st where f: "disk w path = Some f" "items_plain saved" "openVault P f pw = Inr (st, encodePayload P saved)"
      "vault_holds P pw st" "vs_userKey st = uk"
    using assms unfolding on_disk_def by blast
  have "read_vault P path w = (Inr f, w)"
    using f(1) by (simp add: read_vault_def)
  then show ?thesis
    using f payload.dec_enc [OF f(2), of P] by (intro exI [of _ st]) (simp add: openExistingVault_def act_simps)
qed

lemma created_ok:
  assumes P: "webcrypto_ok P" "fs_ok P" and s: "secret_ok P pw DEFAULT_KDF"
    and c: "createNewVault P path pw w = (Inr v, w')"
  shows "on_disk P path pw (vs_userKey (dv_state v)) [] w' \<and> in_memory P path pw (vs_userKey (dv_state v)) v"
proof -
  have e: "items_plain []"
    by (simp add: items_plain_def)
  obtain f st w1 where f: "createVault P pw (encodePayload P []) (Some DEFAULT_KDF) w = (Inr (f, st), w1)"
      "isVaultFile f" "vault_holds P pw st" "openVault P f pw = Inr (st, encodePayload P [])"
    using createVault_ok [OF P(1) s payload_text [OF e], of P w] by blast
  have "bindA (write_vault P path f) (\<lambda>_. returnA \<lparr>dv_path = path, dv_state = st, dv_items = []\<rparr>) w1 = (Inr v, w')"
    using c f(1) by (simp add: createNewVault_def)
  then obtain u where u: "write_vault P path f w1 = (Inr u, w')" "v = \<lparr>dv_path = path, dv_state = st, dv_items = []\<rparr>"
    by (auto simp: bindA_eq_Inr returnA_def)
  then show ?thesis
    using f e write_vault_disk [OF P(2) u(1)] by (auto simp: on_disk_def in_memory_def)
qed

lemma saved_ok:
  assumes P: "webcrypto_ok P" "fs_ok P" and v: "in_memory P path pw uk v" "items_plain (dv_items v)"
    and c: "persist P v w = (Inr u, w')"
  shows "on_disk P path pw uk (dv_items v) w'"
proof -
  obtain f w1 where f: "serialize P (dv_state v) (encodePayload P (dv_items v)) w = (Inr f, w1)"
      "isVaultFile f" "openVault P f pw = Inr (dv_state v, encodePayload P (dv_items v))"
    using serialize_ok [OF webcrypto_aes [OF P(1)] _ payload_text [OF v(2)], of pw "dv_state v" P w] v(1)
    by (auto simp: in_memory_def)
  then have "write_vault P path f w1 = (Inr u, w')"
    using c v(1) by (simp add: persist_def saveVault_def in_memory_def)
  then have "disk w' path = Some f"
    by (rule write_vault_disk [OF P(2)])
  then show ?thesis
    using f v by (auto simp: on_disk_def in_memory_def)
qed

lemma rekeyed_ok:
  assumes P: "webcrypto_ok P" "fs_ok P" and v: "in_memory P path pw uk v" "items_plain (dv_items v)"
    and s: "secret_ok P pw' DEFAULT_KDF" and c: "rekey P v pw' w = (Inr v', w')"
  shows "on_disk P path pw' uk (dv_items v) w' \<and> in_memory P path pw' uk v'"
proof -
  have k: "32 \<le> length (vs_userKey (dv_state v))"
    using v(1) vault_holds_key by (auto simp: in_memory_def)
  obtain f st w1 where f: "changeMasterPassword P (dv_state v) pw' (encodePayload P (dv_items v)) (Some DEFAULT_KDF) w
        = (Inr (f, st), w1)" "isVaultFile f" "vault_holds P pw' st"
      "openVault P f pw' = Inr (st, encodePayload P (dv_items v))" "vs_userKey st = vs_userKey (dv_state v)"
    using changeMasterPassword_ok [OF P(1) s payload_text [OF v(2)] k, of P w] by blast
  have "bindA (write_vault P (dv_path v) f) (\<lambda>_. returnA (v\<lparr>dv_state := st\<rparr>)) w1 = (Inr v', w')"
    using c f(1) by (simp add: rekey_def)
  then obtain u where u: "write_vault P path f w1 = (Inr u, w')" "v' = v\<lparr>dv_state := st\<rparr>"
    using v(1) by (auto simp: bindA_eq_Inr returnA_def in_memory_def)
  then show ?thesis
    using f v write_vault_disk [OF P(2) u(1)] by (auto simp: on_disk_def in_memory_def)
qed

lemma desktop_history_inv:
  assumes "webcrypto_ok P" "fs_ok P" "desktop_history P path pw uk saved v w"
  shows "on_disk P path pw uk saved w \<and> in_memory P path pw uk v"
  using assms(3)
proof induction
  case (create pw w v w')
  then show ?case
    using created_ok assms(1,2) by blast
next
  case (save pw uk saved v w w')
  then show ?case
    using saved_ok assms(1,2) by blast
next
  case (rekeyed pw uk saved v w pw' v' w')
  then show ?case
    using rekeyed_ok assms(1,2) by blast
next
  case (reopen pw uk saved v w v' w')
  then show ?case
    using on_disk_opens [of P path pw uk saved w] by (auto simp: in_memory_def)
qed (simp_all add: in_memory_def on_disk_def)

text \<open>C27: what the desktop client saves, it opens again. After any history of creating, editing, saving, changing the
  password and re-opening the vault of a file, the password last set opens the file to exactly the items last
  written, whatever is in memory, under the user key drawn at its creation; opening changes nothing.\<close>

theorem desktop_vault_contract:
  assumes "webcrypto_ok P" "fs_ok P" "desktop_history P path pw uk saved v w"
  shows "\<exists>v'. openExistingVault P path pw w = (Inr v', w) \<and> dv_items v' = saved \<and> dv_path v' = path
    \<and> vs_userKey (dv_state v') = uk"
  using on_disk_opens [of P path pw uk saved w] desktop_history_inv [OF assms] by auto

text \<open>C28: a write that fails loses nothing but the file. Whatever a failed save has left on the disk, the vault
  in memory can be saved once the disk works, and the file then opens with the password to the items in memory.\<close>

theorem failed_write_recovers:
  assumes P: "webcrypto_ok P" "fs_ok P" and h: "desktop_history P path pw uk saved v w" "items_plain (dv_items v)"
    and works: "\<And>c. fst (fs_write P path c d) = Inr ()"
  shows "\<exists>w''. persist P v (w\<lparr>disk := d\<rparr>) = (Inr (), w'')
    \<and> (\<exists>v'. openExistingVault P path pw w'' = (Inr v', w'') \<and> dv_items v' = dv_items v)"
proof -
  have v: "in_memory P path pw uk v"
    using desktop_history_inv [OF P h(1)] by blast
  obtain f where f: "serialize P (dv_state v) (encodePayload P (dv_items v)) (w\<lparr>disk := d\<rparr>)
      = (Inr f, w\<lparr>disk := d\<rparr>\<lparr>drawn := drawn (w\<lparr>disk := d\<rparr>) + 12\<rparr>)"
    using serialize_ok [OF webcrypto_aes [OF P(1)] _ payload_text [OF h(2)], of pw "dv_state v" P "w\<lparr>disk := d\<rparr>"] v
    by (auto simp: in_memory_def)
  obtain d' where d': "fs_write P path f d = (Inr (), d')"
    using works [of f] by (cases "fs_write P path f d") simp
  have "write_vault P path f (w\<lparr>disk := d\<rparr>\<lparr>drawn := drawn (w\<lparr>disk := d\<rparr>) + 12\<rparr>)
      = (Inr (), w\<lparr>disk := d\<rparr>\<lparr>drawn := drawn (w\<lparr>disk := d\<rparr>) + 12\<rparr>\<lparr>disk := d'\<rparr>)"
    using d' by (simp add: write_vault_def)
  then have p: "persist P v (w\<lparr>disk := d\<rparr>)
      = (Inr (), w\<lparr>disk := d\<rparr>\<lparr>drawn := drawn (w\<lparr>disk := d\<rparr>) + 12\<rparr>\<lparr>disk := d'\<rparr>)"
    using f v unfolding persist_def saveVault_def in_memory_def by simp
  show ?thesis
    using on_disk_opens [OF saved_ok [OF P v h(2) p]] p by auto
qed

section \<open>The list of recent vaults\<close>

definition pathOf :: "jsval \<Rightarrow> jsstring" where
  "pathOf r = (case get_prop_opt r (js ''path'') of Some (JStr p) \<Rightarrow> p | _ \<Rightarrow> [])"

definition recent_wf :: "jsval \<Rightarrow> bool" where
  "recent_wf r \<longleftrightarrow> plain r \<and> (\<exists>p. get_prop r (js ''path'') = Inr (Some (JStr p)))"

text \<open>What the client relies on: the stored text is a list of at most eight entries, their paths distinct.\<close>

definition recents_hold :: "'z dplatform_scheme \<Rightarrow> 'y dworld_scheme \<Rightarrow> jsval list \<Rightarrow> bool" where
  "recents_hold P w rs \<longleftrightarrow> readRecents P w = (Inr rs, w) \<and> (\<forall>r \<in> set rs. recent_wf r)
     \<and> distinct (map pathOf rs) \<and> length rs \<le> RECENTS_MAX"

text \<open>The abstract list: most recently used first, without repetitions, at most eight.\<close>

definition mru :: "'p \<Rightarrow> 'p list \<Rightarrow> 'p list" where
  "mru p ps = take RECENTS_MAX (p # filter (\<lambda>q. q \<noteq> p) ps)"

lemma get_prop_path: "get_prop r (js ''path'') = Inr (Some (JStr p)) \<Longrightarrow> pathOf r = p"
  by (auto simp: get_prop_def get_prop_opt_def pathOf_def split: if_splits)

lemma otherPaths_filter:
  "\<forall>r \<in> set rs. recent_wf r \<Longrightarrow> otherPaths path rs = Inr (filter (\<lambda>r. pathOf r \<noteq> path) rs)"
proof (induction rs)
  case (Cons r rs)
  then obtain p where "get_prop r (js ''path'') = Inr (Some (JStr p))"
    by (auto simp: recent_wf_def)
  with Cons show ?case
    by (simp add: get_prop_path)
qed simp

lemma recentVal_wf: "\<bar>t\<bar> \<le> 2 ^ 53 \<Longrightarrow> recent_wf (recentVal path t) \<and> pathOf (recentVal path t) = path"
  by (simp add: recent_wf_def recentVal_def obj_of_id get_prop_def own_props_def pathOf_def get_prop_opt_def)

lemma read_written:
  assumes "recents_dir P = Inr ()" "\<forall>r \<in> set rs. plain r"
  shows "readRecents P (w\<lparr>recents := Some (JSON_stringify P 0 (JArr rs))\<rparr>)
    = (Inr rs, w\<lparr>recents := Some (JSON_stringify P 0 (JArr rs))\<rparr>)"
  using assms json.dec_enc [of "JArr rs" P 0]
  by (simp add: readRecents_def read_recents_def act_simps catchA_def bindA_def liftA_def returnA_def)

lemma map_take_filter: "map pathOf (take n (filter (\<lambda>r. pathOf r \<noteq> p) rs)) = take n (filter (\<lambda>q. q \<noteq> p) (map pathOf rs))"
  by (simp add: take_map filter_map comp_def)

lemma mru_props: "distinct ps \<Longrightarrow> distinct (mru p ps) \<and> length (mru p ps) \<le> RECENTS_MAX \<and> hd (mru p ps) = p"
  by (auto simp: mru_def RECENTS_MAX_def take_Cons' distinct_take dest: in_set_takeD)

text \<open>The list of recent vaults refines the abstract list of most recently used paths. From any list the
  client stored, remembering a path succeeds, puts it first, drops its former entry and whatever is beyond the eighth,
  keeps the order of the rest, and leaves a list with the same guarantees, which is what is read back.\<close>

theorem rememberRecent_refines:
  assumes fs: "recents_dir P = Inr ()" "recents_write P = Inr ()"
    and w: "recents_hold P w rs" "\<bar>date w\<bar> \<le> 2 ^ 53"
  shows "\<exists>w' rs'. rememberRecent P path w = (Inr (), w') \<and> recents_hold P w' rs'
    \<and> map pathOf rs' = mru path (map pathOf rs) \<and> disk w' = disk w"
proof -
  let ?rs = "take RECENTS_MAX (recentVal path (date w) # filter (\<lambda>r. pathOf r \<noteq> path) rs)"
  let ?w = "w\<lparr>recents := Some (JSON_stringify P 0 (JArr ?rs))\<rparr>"
  have wf: "\<forall>r \<in> set rs. recent_wf r"
    using w(1) by (simp add: recents_hold_def)
  have r: "rememberRecent P path w = (Inr (), ?w)"
    using w(1) fs otherPaths_filter [OF wf]
    by (simp add: rememberRecent_def recents_hold_def bindA_def write_recents_def)
  have v: "recent_wf (recentVal path (date w))" "pathOf (recentVal path (date w)) = path"
    using recentVal_wf [OF w(2)] by simp_all
  have paths: "map pathOf ?rs = mru path (map pathOf rs)"
    by (simp add: mru_def RECENTS_MAX_def v(2) map_take_filter)
  have "\<forall>r \<in> set ?rs. recent_wf r"
    using wf v(1) by (auto dest!: in_set_takeD)
  then have "recents_hold P ?w ?rs"
    using read_written [OF fs(1), of ?rs w] w(1) mru_props [of "map pathOf rs" path]
    unfolding recents_hold_def paths by (auto simp: recent_wf_def RECENTS_MAX_def)
  with r paths show ?thesis
    by (intro exI [of _ ?w] exI [of _ ?rs]) simp
qed

section \<open>Item ids\<close>

lemma hex2_digits: "hex2 x = [hex_char (unat x div 16), hex_char (unat x mod 16)]"
proof (cases "16 \<le> x")
  case False
  then have "unat x < 16"
    by (simp add: word_le_nat_alt not_le)
  with False show ?thesis
    by (simp add: hex2_def padStart_def hex_char_def)
qed (simp add: hex2_def padStart_def)

lemma hex_char_inject: "a < 16 \<Longrightarrow> b < 16 \<Longrightarrow> hex_char a = hex_char b \<longleftrightarrow> a = b"
  by (metis option.inject radix_hex_char)

lemma hex2_inject: "hex2 x = hex2 y \<longleftrightarrow> x = y"
proof -
  have "unat x div 16 < 16" "unat y div 16 < 16"
    using unat_lt8 [of x] unat_lt8 [of y] by (simp_all add: less_mult_imp_div_less)
  then have "hex2 x = hex2 y \<longleftrightarrow> unat x div 16 = unat y div 16 \<and> unat x mod 16 = unat y mod 16"
    by (simp add: hex2_digits hex_char_inject)
  also have "\<dots> \<longleftrightarrow> unat x = unat y"
    by (metis div_mult_mod_eq)
  finally show ?thesis
    by (simp add: word_unat_eq_iff)
qed

lemma length_hex2: "length (hex2 x) = 2"
  by (simp add: hex2_digits)

lemma concat_hex2_inject: "length a = length b \<Longrightarrow> concat (map hex2 a) = concat (map hex2 b) \<longleftrightarrow> a = b"
  by (induction a b rule: list_induct2) (simp_all add: hex2_inject length_hex2)

text \<open>A new id is thirty-two characters that spell the sixteen bytes drawn: two ids are equal only if
  the same bytes were drawn for both.\<close>

theorem newItemId_spells_bytes:
  "\<exists>i. newItemId w = (Inr i, w\<lparr>drawn := drawn w + 16\<rparr>) \<and> length i = 32
    \<and> (\<forall>w' i' v. newItemId w' = (Inr i', v) \<longrightarrow> (i = i' \<longleftrightarrow> draw 16 w = draw 16 w'))"
proof -
  have "length (concat (map hex2 b)) = 2 * length b" for b
    by (induction b) (simp_all add: hex2_digits)
  then show ?thesis
    by (auto simp: newItemId_def act_simps concat_hex2_inject)
qed

section \<open>A desktop for the witnesses\<close>

definition sample_desktop :: dplatform where
  "sample_desktop = platform.extend sample_platform
     (dplatform.fields (\<lambda>path c d. (Inr (), d(path := Some c))) (\<lambda>path. js ''not found'') (Inr ()) (Inr ()))"

definition sample_dworld :: dworld where
  "sample_dworld = world.extend sample_world (dworld.fields (\<lambda>path. None) None 7)"

lemma sample_desktop_ok: "webcrypto_ok sample_desktop" "fs_ok sample_desktop"
  using sample_ok
  by (simp_all add: webcrypto_ok_def aes_ok_def mac_ok_def kdf_ok_def rsa_ok_def fs_ok_def sample_desktop_def
      platform.defs dplatform.defs sample_platform_def)

lemma sample_desktop_history:
  obtains v w where "desktop_history sample_desktop (js ''v'') (js ''first password'') (vs_userKey (dv_state v)) [] v w"
proof -
  have s: "secret_ok sample_desktop (js ''first password'') DEFAULT_KDF"
    by code_simp
  have e: "plain_text (encodePayload sample_desktop [])"
    by (rule payload_text) (simp add: items_plain_def)
  obtain f st w1 where "createVault sample_desktop (js ''first password'') (encodePayload sample_desktop [])
      (Some DEFAULT_KDF) sample_dworld = (Inr (f, st), w1)"
    using createVault_ok [OF sample_desktop_ok(1) s e, of sample_dworld] by blast
  then have "\<exists>v w. createNewVault sample_desktop (js ''v'') (js ''first password'') sample_dworld = (Inr v, w)"
    by (simp add: createNewVault_def write_vault_def sample_desktop_def platform.defs dplatform.defs act_simps bindA_def)
  then show ?thesis
    using desktop_history.create [OF s] that by blast
qed

theorem desktop_vault_contract_witness:
  "\<exists>v w v'. desktop_history sample_desktop (js ''v'') (js ''first password'') (vs_userKey (dv_state v)) [] v w
    \<and> openExistingVault sample_desktop (js ''v'') (js ''first password'') w = (Inr v', w) \<and> dv_items v' = []"
proof -
  obtain v w where h: "desktop_history sample_desktop (js ''v'') (js ''first password'') (vs_userKey (dv_state v)) [] v w"
    using sample_desktop_history by blast
  show ?thesis
    using h desktop_vault_contract [OF sample_desktop_ok h] by blast
qed

theorem failed_write_recovers_witness:
  "\<exists>v (w :: dworld) w'' v'. persist sample_desktop v (w\<lparr>disk := \<lambda>path. Some (js ''garbage'')\<rparr>) = (Inr (), w'')
    \<and> openExistingVault sample_desktop (js ''v'') (js ''first password'') w'' = (Inr v', w'') \<and> dv_items v' = [JNull]"
proof -
  obtain v w where "desktop_history sample_desktop (js ''v'') (js ''first password'') (vs_userKey (dv_state v)) [] v w"
    using sample_desktop_history by blast
  then have h: "desktop_history sample_desktop (js ''v'') (js ''first password'') (vs_userKey (dv_state v)) []
      (v\<lparr>dv_items := [JNull]\<rparr>) w"
    by (rule desktop_history.edit)
  have "fst (fs_write sample_desktop path c d) = Inr ()" for path c d
    by (simp add: sample_desktop_def platform.defs dplatform.defs)
  from failed_write_recovers [OF sample_desktop_ok h _ this, of "\<lambda>path. Some (js ''garbage'')"]
  obtain w'' v' where "persist sample_desktop (v\<lparr>dv_items := [JNull]\<rparr>) (w\<lparr>disk := \<lambda>path. Some (js ''garbage'')\<rparr>) = (Inr (), w'')"
      "openExistingVault sample_desktop (js ''v'') (js ''first password'') w'' = (Inr v', w'')" "dv_items v' = [JNull]"
    by (auto simp: items_plain_def)
  then show ?thesis
    by blast
qed

lemma JSON_parse_empty: "JSON_parse (js ''[]'') = Inr (JArr [])"
  by code_simp

theorem rememberRecent_refines_witness:
  "\<exists>w' rs'. rememberRecent sample_desktop (js ''/home/me/v.passwd'') sample_dworld = (Inr (), w')
    \<and> recents_hold sample_desktop w' rs' \<and> map pathOf rs' = [js ''/home/me/v.passwd'']"
proof -
  have "readRecents sample_desktop sample_dworld = (Inr [], sample_dworld)"
    using JSON_parse_empty
    by (simp add: readRecents_def read_recents_def sample_desktop_def platform.defs dplatform.defs sample_dworld_def
        world.defs dworld.defs catchA_def bindA_def liftA_def returnA_def)
  then have "recents_hold sample_desktop sample_dworld []"
    by (simp add: recents_hold_def)
  moreover have "recents_dir sample_desktop = Inr ()" "recents_write sample_desktop = Inr ()" "\<bar>date sample_dworld\<bar> \<le> 2 ^ 53"
    by (simp_all add: sample_desktop_def platform.defs dplatform.defs sample_dworld_def world.defs dworld.defs)
  ultimately show ?thesis
    using rememberRecent_refines [of sample_desktop sample_dworld "[]" "js ''/home/me/v.passwd''"]
    by (fastforce simp: mru_def RECENTS_MAX_def)
qed

end
