(* ===== verification/Health.thy ===== *)
theory Health
  imports Password Session Desktop "HOL-Library.AList"
begin

text \<open>
  \<open>apps/web/src/health.ts\<close>: weak, reused and breached passwords. Weakness and reuse are computed on the decrypted
  items; the breach check asks a public service for a range of hashes and compares locally. An insertion-ordered
  \<open>Map\<close> is an association list.
\<close>

section \<open>Weak and reused passwords\<close>

record VaultItem = ItemFields +
  vi_id :: jsstring

definition passwordWeakness :: "jsstring \<Rightarrow> jsstring option" where
  "passwordWeakness pw =
     (if pw = [] then None
      else if length pw < 10 then Some (js ''Short (under 10 characters)'')
      else let classes = length (filter (\<lambda>re. list_ex re pw) char_tests)
           in if length pw < 14 \<and> classes < 3 then Some (js ''Low complexity'') else None)"

text \<open>The ids under each password, in order of first use: the loop both checks start with.\<close>

fun groupIds :: "(jsstring \<times> jsstring list) list \<Rightarrow> VaultItem list \<Rightarrow> (jsstring \<times> jsstring list) list" where
  "groupIds m [] = m"
| "groupIds m (it # items) =
     (if it_password it = [] then groupIds m items
      else
        let ids = (case map_of m (it_password it) of None \<Rightarrow> [] | Some ids \<Rightarrow> ids)
        in groupIds (AList.update (it_password it) (ids @ [vi_id it]) m) items)"

definition reusedItemIds :: "VaultItem list \<Rightarrow> jsstring set" where
  "reusedItemIds items = (\<Union>(pw, ids) \<in> set (groupIds [] items). if 1 < length ids then set ids else {})"

section \<open>Breached passwords\<close>

definition sha1Hex :: "'z platform_scheme \<Rightarrow> jsstring \<Rightarrow> jsstring" where
  "sha1Hex P s = toUpperCase P (concat (map hex2 (wc_digest P SHA1 (utf8 s))))"

text \<open>\<open>parseInt(s, 10) || 0\<close>.\<close>

definition parseInt0 :: "jsstring \<Rightarrow> int" where
  "parseInt0 s =
     (let t = dropWhile is_space s;
          neg = (t \<noteq> [] \<and> hd t = 45);
          ds = takeWhile is_digit (if t \<noteq> [] \<and> (hd t = 45 \<or> hd t = 43) then tl t else t)
      in (if neg then -1 else 1) * int (digits_val ds))"

fun scanRange :: "jsstring \<Rightarrow> jsstring list \<Rightarrow> int" where
  "scanRange suffix [] = 0"
| "scanRange suffix (line # lines) =
     (case indexOf (jc (CHR '':'')) line of
        None \<Rightarrow> scanRange suffix lines
      | Some idx \<Rightarrow>
          if take idx line = suffix then parseInt0 (drop (idx + 1) line) else scanRange suffix lines)"

definition range_request :: "jsstring \<Rightarrow> (jsstring \<times> jsstring) list \<Rightarrow> request" where
  "range_request prefix headers =
     \<lparr>rq_method = js ''GET'', rq_url = js ''https://api.pwnedpasswords.com/range/'' @ prefix,
      rq_headers = headers, rq_body = None\<rparr>"

definition breachCount ::
  "('n, 'z) service_scheme \<Rightarrow> jsstring \<Rightarrow> (('n, 'y) networld_scheme, int) act" where
  "breachCount P pw =
     (let hash = sha1Hex P pw; prefix = take 5 hash; suffix = drop 5 hash
      in bindA (catchA (outside (fetch P (range_request prefix [(js ''Add-Padding'', js ''true'')])))
                  (\<lambda>_. outside (fetch P (range_request prefix [])))) (\<lambda>res.
         if \<not> rs_ok res then throwA (EBreachService (rs_status res))
         else returnA (scanRange suffix (split_on 10 (rs_text res)))))"

fun breachLoop ::
  "('n, 'z) service_scheme \<Rightarrow> (jsstring \<times> jsstring list) list \<Rightarrow> (jsstring \<times> int) list
   \<Rightarrow> (('n, 'y) networld_scheme, (jsstring \<times> int) list) act" where
  "breachLoop P [] out w = (Inr out, w)"
| "breachLoop P ((pw, ids) # rest) out w =
     (case breachCount P pw w of
        (Inr n, w') \<Rightarrow> breachLoop P rest (if n > 0 then fold (\<lambda>i. AList.update i n) ids out else out) w'
      | (Inl _, w') \<Rightarrow> breachLoop P rest out w')"

definition breachedItemIds ::
  "('n, 'z) service_scheme \<Rightarrow> VaultItem list \<Rightarrow> (('n, 'y) networld_scheme, (jsstring \<times> int) list) act" where
  "breachedItemIds P items = breachLoop P (groupIds [] items) []"

section \<open>Reuse is sharing a password with another item\<close>

lemma groupIds_lookup:
  "map_of (groupIds m items) p =
     (let new = map vi_id (filter (\<lambda>it. it_password it = p) items)
      in if p = [] \<or> new = [] then map_of m p
         else Some ((case map_of m p of None \<Rightarrow> [] | Some ids \<Rightarrow> ids) @ new))"
  by (induction m items rule: groupIds.induct)
    (auto simp: Let_def update_conv filter_empty_conv split: option.splits)

lemma groupIds_distinct: "distinct (map fst m) \<Longrightarrow> distinct (map fst (groupIds m items))"
  by (induction m items rule: groupIds.induct) (simp_all add: Let_def distinct_update)

lemma groupIds_set:
  "(p, ids) \<in> set (groupIds [] items) \<longleftrightarrow>
     p \<noteq> [] \<and> ids \<noteq> [] \<and> ids = map vi_id (filter (\<lambda>it. it_password it = p) items)"
proof -
  have "(p, ids) \<in> set (groupIds [] items) \<longleftrightarrow> map_of (groupIds [] items) p = Some ids"
    using groupIds_distinct [of "[]" items] by simp
  then show ?thesis
    by (auto simp: groupIds_lookup Let_def)
qed

lemma two_in_filter:
  assumes "i < length xs" "Q (xs ! i)"
  shows "1 < length (filter Q xs) \<longleftrightarrow> (\<exists>j < length xs. j \<noteq> i \<and> Q (xs ! j))"
proof -
  let ?S = "{j. j < length xs \<and> Q (xs ! j)}"
  have "length (filter Q xs) = card ?S"
    by (rule length_filter_conv_card)
  also have "\<dots> = Suc (card (?S - {i}))"
    using assms by (subst card.remove [of _ i]) simp_all
  finally show ?thesis
    by (auto simp: card_gt_0_iff)
qed

text \<open>The reuse report is exact: an id is reported if and only if an item with that id has a password, not empty,
  that another item of the vault has too.\<close>

lemma reusedItemIds_exact:
  "x \<in> reusedItemIds items \<longleftrightarrow>
     (\<exists>i < length items. vi_id (items ! i) = x \<and> it_password (items ! i) \<noteq> []
       \<and> (\<exists>j < length items. j \<noteq> i \<and> it_password (items ! j) = it_password (items ! i)))"
    (is "_ \<longleftrightarrow> ?spec")
proof
  assume "x \<in> reusedItemIds items"
  then obtain p ids where p: "(p, ids) \<in> set (groupIds [] items)" "1 < length ids" "x \<in> set ids"
    by (auto simp: reusedItemIds_def split: if_splits)
  then obtain i where i: "i < length items" "it_password (items ! i) = p" "vi_id (items ! i) = x"
    unfolding groupIds_set by (auto simp: in_set_conv_nth)
  with p two_in_filter [of i items "\<lambda>it. it_password it = p"] show ?spec
    unfolding groupIds_set by auto
next
  assume ?spec
  then obtain i j where i: "i < length items" "vi_id (items ! i) = x" "it_password (items ! i) \<noteq> []"
    "j < length items" "j \<noteq> i" "it_password (items ! j) = it_password (items ! i)"
    by blast
  let ?p = "it_password (items ! i)"
  let ?ids = "map vi_id (filter (\<lambda>it. it_password it = ?p) items)"
  have "1 < length ?ids" "x \<in> set ?ids"
    using i two_in_filter [of i items "\<lambda>it. it_password it = ?p"] by auto
  moreover from this have "(?p, ?ids) \<in> set (groupIds [] items)"
    using i by (auto simp: groupIds_set)
  ultimately show "x \<in> reusedItemIds items"
    unfolding reusedItemIds_def by (intro UN_I [of "(?p, ?ids)"]) simp_all
qed

section \<open>The breach check\<close>

text \<open>C29: the breach check is k-anonymous. What it does to the outside, on any network and in any state of it,
  depends on the password only through the first five characters of its hash: two passwords
  with the same prefix make the same requests.\<close>

theorem breachCount_k_anonymous:
  assumes "take 5 (sha1Hex P pw) = take 5 (sha1Hex P pw')"
  shows "snd (breachCount P pw w) = snd (breachCount P pw' w)"
  using assms
  by (simp add: breachCount_def Let_def bindA_def throwA_def returnA_def split: prod.splits sum.splits)

lemma parseInt0_nat: "parseInt0 (nat_str n @ [13]) = int n"
proof -
  obtain d ds where n: "nat_str n = d # ds"
    by (cases "nat_str n") simp_all
  have d: "\<forall>c \<in> set (nat_str n). is_digit c"
    using nat_str_digits by blast
  then have "is_digit d"
    by (simp add: n)
  then have h: "\<not> is_space d" "d \<noteq> 45" "d \<noteq> 43"
    by (auto simp: char_class_defs word_le_nat_alt)
  have "takeWhile is_digit (nat_str n @ [13]) = nat_str n"
    using d by (intro takeWhile_append_stop) (auto simp: is_digit_def)
  then show ?thesis
    using h n digits_val_nat_str [of n] by (simp add: parseInt0_def)
qed

definition range_line :: "jsstring \<times> nat \<Rightarrow> jsstring" where
  "range_line = (\<lambda>(suffix, n). suffix @ js '':'' @ nat_str n @ [13])"

lemma scanRange_lines:
  assumes "\<forall>(s, n) \<in> set entries. jc (CHR '':'') \<notin> set s"
  shows "scanRange suffix (map range_line entries @ [[]]) = (case map_of entries suffix of None \<Rightarrow> 0 | Some n \<Rightarrow> int n)"
  using assms
proof (induction entries)
  case (Cons e entries)
  obtain s n where e: "e = (s, n)"
    by (cases e)
  have "indexOf (jc (CHR '':'')) (range_line e) = Some (length s)"
    using Cons.prems e by (simp add: range_line_def js_Cons indexOf_append)
  then show ?case
    using Cons e parseInt0_nat by (simp add: range_line_def js_Cons)
qed simp

lemma split_lines:
  assumes "\<forall>l \<in> set ls. 10 \<notin> set l"
  shows "split_on 10 (concat (map (\<lambda>l. l @ [10]) ls)) = ls @ [[]]"
  using assms by (induction ls) (simp_all add: split_on_append)

lemma range_line_no_newline: "10 \<notin> set s \<Longrightarrow> 10 \<notin> set (range_line (s, n))"
  using nat_str_digits [of 10 n] by (auto simp: range_line_def js_def jc_def is_digit_def)

text \<open>The count reported is the service's. When the service answers the padded request with a list of hash endings
  and counts, one per line, the check returns the count listed first for the rest of the hash, and 0 when it is not
  listed; when the service is down for the padded request, the same holds of the plain one.\<close>

theorem breachCount_reads_range:
  assumes e: "\<forall>(s, n) \<in> set entries. jc (CHR '':'') \<notin> set s \<and> 10 \<notin> set s"
    and body: "rs_ok r" "rs_text r = concat (map (\<lambda>e. range_line e @ [10]) entries)"
    and f: "fetch P (range_request (take 5 (sha1Hex P pw)) [(js ''Add-Padding'', js ''true'')]) (net w) = (Inr r, n1)
      \<or> (\<exists>x n0. fetch P (range_request (take 5 (sha1Hex P pw)) [(js ''Add-Padding'', js ''true'')]) (net w) = (Inl x, n0)
          \<and> fetch P (range_request (take 5 (sha1Hex P pw)) []) n0 = (Inr r, n1))"
  shows "breachCount P pw w =
    (Inr (case map_of entries (drop 5 (sha1Hex P pw)) of None \<Rightarrow> 0 | Some n \<Rightarrow> int n), w\<lparr>net := n1\<rparr>)"
proof -
  have "\<forall>l \<in> set (map range_line entries). 10 \<notin> set l"
    using e range_line_no_newline by fastforce
  then have "split_on 10 (rs_text r) = map range_line entries @ [[]]"
    using split_lines [of "map range_line entries"] by (simp add: body(2) comp_def)
  moreover have "scanRange (drop 5 (sha1Hex P pw)) (map range_line entries @ [[]])
      = (case map_of entries (drop 5 (sha1Hex P pw)) of None \<Rightarrow> 0 | Some n \<Rightarrow> int n)"
    using e by (intro scanRange_lines) auto
  ultimately have s: "scanRange (drop 5 (sha1Hex P pw)) (split_on 10 (rs_text r))
      = (case map_of entries (drop 5 (sha1Hex P pw)) of None \<Rightarrow> 0 | Some n \<Rightarrow> int n)"
    by simp
  from f show ?thesis
  proof (elim disjE exE conjE, goal_cases)
    case 1
    then show ?case
      using s body(1) by (simp add: breachCount_def Let_def outside_def catchA_def bindA_def returnA_def)
  next
    case (2 x n0)
    then show ?case
      using s body(1) by (simp add: breachCount_def Let_def outside_def catchA_def bindA_def returnA_def)
  qed
qed

definition sample_range :: "nat service" where
  "sample_range = platform.extend sample_platform (service.fields
     (\<lambda>rq n. if rq_headers rq \<noteq> [] then (Inl ENetwork, n + 1)
       else (Inr \<lparr>rs_status = 200, rs_text = js ''AB:3'' @ [13, 10]\<rparr>, n + 1))
     (\<lambda>o1 n. (Inr (JObj []), n)) (\<lambda>o1 n. (Inr (JObj []), n)))"

theorem breachCount_k_anonymous_witness:
  "js ''ag'' \<noteq> js ''bb'' \<and> snd (breachCount sample_range (js ''ag'') (world.extend sample_world (networld.fields 0 [])))
     = snd (breachCount sample_range (js ''bb'') (world.extend sample_world (networld.fields 0 [])))"
proof -
  have "take 5 (sha1Hex sample_range (js ''ag'')) = take 5 (sha1Hex sample_range (js ''bb''))"
    by code_simp
  then show ?thesis
    using breachCount_k_anonymous by fastforce
qed

end
