(* ===== verification/Biometric.thy ===== *)
theory Biometric
  imports JSValue
begin

text \<open>
  \<open>apps/web/src/biometric.ts\<close>: biometric unlock in the mobile shell. Capacitor and the plugin that guards the
  keychain are the record \<open>native\<close>; \<open>'n\<close> is the state of the device.
\<close>

record 'n native =
  isNativePlatform :: bool
  nb_isAvailable :: "('n, jsval) act"
  nb_getCredentials :: "jsstring \<Rightarrow> ('n, jsval) act" \<comment> \<open>server\<close>
  nb_setCredentials :: "jsstring \<Rightarrow> jsstring \<Rightarrow> jsstring \<Rightarrow> ('n, unit) act" \<comment> \<open>username, password, server\<close>
  nb_verifyIdentity :: "jsstring \<Rightarrow> jsstring \<Rightarrow> jsstring \<Rightarrow> ('n, unit) act" \<comment> \<open>title, subtitle, reason\<close>
  nb_deleteCredentials :: "jsstring \<Rightarrow> ('n, unit) act" \<comment> \<open>server\<close>

definition SERVER :: jsstring where
  "SERVER = js ''app.passwd.vault''"

definition isNative :: "'n native \<Rightarrow> bool" where
  "isNative N = isNativePlatform N"

definition biometricAvailable :: "'n native \<Rightarrow> ('n, bool) act" where
  "biometricAvailable N =
     (if \<not> isNative N then returnA False
      else catchA
        (bindA (nb_isAvailable N) (\<lambda>r.
         bindA (liftA (get_prop r (js ''isAvailable''))) (\<lambda>a. returnA (truthy_opt a))))
        (\<lambda>_. returnA False))"

definition biometricEnrolled :: "'n native \<Rightarrow> ('n, bool) act" where
  "biometricEnrolled N =
     (if \<not> isNative N then returnA False
      else catchA
        (bindA (nb_getCredentials N SERVER) (\<lambda>c. returnA (truthy_opt (get_prop_opt c (js ''password'')))))
        (\<lambda>_. returnA False))"

definition enableBiometric :: "'n native \<Rightarrow> jsstring \<Rightarrow> jsstring \<Rightarrow> ('n, unit) act" where
  "enableBiometric N identifier masterPassword =
     (if \<not> isNative N then returnA () else nb_setCredentials N identifier masterPassword SERVER)"

text \<open>The stored credentials, as the plugin gives them: user name and password.\<close>

definition unlockWithBiometric :: "'n native \<Rightarrow> ('n, (jsval option \<times> jsval) option) act" where
  "unlockWithBiometric N =
     (if \<not> isNative N then returnA None
      else catchA
        (bindA (nb_verifyIdentity N (js ''Unlock passwd'') (js ''Confirm your identity'') (js ''Unlock your vault'')) (\<lambda>_.
         bindA (nb_getCredentials N SERVER) (\<lambda>c.
         case get_prop_opt c (js ''password'') of
           None \<Rightarrow> returnA None
         | Some p \<Rightarrow> if \<not> truthy p then returnA None
             else returnA (Some (get_prop_opt c (js ''username''), p)))))
        (\<lambda>_. returnA None))"

definition disableBiometric :: "'n native \<Rightarrow> ('n, unit) act" where
  "disableBiometric N =
     (if \<not> isNative N then returnA () else catchA (nb_deleteCredentials N SERVER) (\<lambda>_. returnA ()))"

text \<open>In a browser every operation is a no-op.\<close>

lemma browser_noop:
  assumes "\<not> isNativePlatform N"
  shows "biometricAvailable N n = (Inr False, n)" "biometricEnrolled N n = (Inr False, n)"
    "enableBiometric N i p n = (Inr (), n)" "unlockWithBiometric N n = (Inr None, n)"
    "disableBiometric N n = (Inr (), n)"
  using assms by (simp_all add: isNative_def biometricAvailable_def biometricEnrolled_def enableBiometric_def
      unlockWithBiometric_def disableBiometric_def returnA_def)

text \<open>The keychain: what was stored last under a server name is what is read, whatever is verified in between.\<close>

definition keychain_ok :: "'n native \<Rightarrow> bool" where
  "keychain_ok N \<longleftrightarrow> (\<forall>u p n n'. nb_setCredentials N u p SERVER n = (Inr (), n') \<longrightarrow>
     (\<forall>a b c m. nb_verifyIdentity N a b c n' = (Inr (), m) \<longrightarrow>
       (\<exists>m'. nb_getCredentials N SERVER m = (Inr (JObj [(js ''username'', JStr u), (js ''password'', JStr p)]), m'))))"

text \<open>The stored master password is released only after a biometric check. Unlocking never rejects; when it yields
  credentials the device has just verified the user, then read them; and what it yields after enabling
  is the identifier and password that were stored.\<close>

theorem biometric_gate:
  "(\<exists>r n'. unlockWithBiometric N n = (Inr r, n'))
   \<and> (\<forall>c n'. unlockWithBiometric N n = (Inr (Some c), n') \<longrightarrow>
        isNativePlatform N \<and> truthy (snd c)
        \<and> (\<exists>n1 v. nb_verifyIdentity N (js ''Unlock passwd'') (js ''Confirm your identity'') (js ''Unlock your vault'') n = (Inr (), n1)
             \<and> nb_getCredentials N SERVER n1 = (Inr v, n')))
   \<and> (\<forall>i p n0. isNativePlatform N \<and> keychain_ok N \<and> p \<noteq> [] \<and> enableBiometric N i p n0 = (Inr (), n)
        \<and> (\<exists>n1. nb_verifyIdentity N (js ''Unlock passwd'') (js ''Confirm your identity'') (js ''Unlock your vault'') n = (Inr (), n1)) \<longrightarrow>
        (\<exists>n'. unlockWithBiometric N n = (Inr (Some (Some (JStr i), JStr p)), n')))"
proof (intro conjI allI impI)
  show "\<exists>r n'. unlockWithBiometric N n = (Inr r, n')"
    by (simp add: unlockWithBiometric_def catchA_def returnA_def split: prod.split sum.split)
next
  fix c n'
  assume "unlockWithBiometric N n = (Inr (Some c), n')"
  then show "isNativePlatform N" "truthy (snd c)" "\<exists>n1 v. nb_verifyIdentity N (js ''Unlock passwd'')
      (js ''Confirm your identity'') (js ''Unlock your vault'') n = (Inr (), n1) \<and> nb_getCredentials N SERVER n1 = (Inr v, n')"
    by (auto simp: unlockWithBiometric_def isNative_def catchA_def bindA_def returnA_def
        split: prod.splits sum.splits if_splits option.splits)
next
  fix i p n0
  assume a: "isNativePlatform N \<and> keychain_ok N \<and> p \<noteq> [] \<and> enableBiometric N i p n0 = (Inr (), n)
    \<and> (\<exists>n1. nb_verifyIdentity N (js ''Unlock passwd'') (js ''Confirm your identity'') (js ''Unlock your vault'') n = (Inr (), n1))"
  then obtain n1 where v: "nb_verifyIdentity N (js ''Unlock passwd'') (js ''Confirm your identity'') (js ''Unlock your vault'') n = (Inr (), n1)"
    by blast
  moreover have "isNativePlatform N" "enableBiometric N i p n0 = (Inr (), n)"
    using a by blast+
  then have "nb_setCredentials N i p SERVER n0 = (Inr (), n)"
    by (simp add: enableBiometric_def isNative_def)
  ultimately obtain m' where "nb_getCredentials N SERVER n1 = (Inr (JObj [(js ''username'', JStr i), (js ''password'', JStr p)]), m')"
    using a unfolding keychain_ok_def by blast
  then show "\<exists>n'. unlockWithBiometric N n = (Inr (Some (Some (JStr i), JStr p)), n')"
    using a v by (simp add: unlockWithBiometric_def isNative_def get_prop_opt_def own_props_def returnA_def)
qed

definition sample_native :: "(jsstring \<times> jsstring) option native" where
  "sample_native = \<lparr>isNativePlatform = True, nb_isAvailable = returnA (JObj []),
     nb_getCredentials = (\<lambda>s n. (case n of None \<Rightarrow> Inl EPlatform
       | Some (u, p) \<Rightarrow> Inr (JObj [(js ''username'', JStr u), (js ''password'', JStr p)]), n)),
     nb_setCredentials = (\<lambda>u p s n. (Inr (), Some (u, p))),
     nb_verifyIdentity = (\<lambda>a b c n. (Inr (), n)),
     nb_deleteCredentials = (\<lambda>s n. (Inr (), None))\<rparr>"

theorem biometric_gate_witness:
  "\<exists>n'. unlockWithBiometric sample_native (Some (js ''me'', js ''pw'')) = (Inr (Some (Some (JStr (js ''me'')), JStr (js ''pw''))), n')"
proof -
  have "keychain_ok sample_native" "isNativePlatform sample_native" "js ''pw'' \<noteq> []"
    by (simp_all add: keychain_ok_def sample_native_def)
  moreover have "enableBiometric sample_native (js ''me'') (js ''pw'') None = (Inr (), Some (js ''me'', js ''pw''))"
    by (simp add: enableBiometric_def isNative_def sample_native_def)
  moreover have "\<exists>n1. nb_verifyIdentity sample_native (js ''Unlock passwd'') (js ''Confirm your identity'') (js ''Unlock your vault'')
      (Some (js ''me'', js ''pw'')) = (Inr (), n1)"
    by (simp add: sample_native_def)
  ultimately show ?thesis
    using biometric_gate [of sample_native "Some (js ''me'', js ''pw'')"] by blast
qed

end
