(* ===== verification/View.thy ===== *)
theory View
  imports Items "HOL-Library.Multiset"
begin

text \<open>
  What the screens of the clients share: reading the texts and flags of an item, and what a form shows. A screen's
  hooks are the fields of a record, its handlers functions on that record and the world; what it renders is a tree (Dom) that is a function of the record.
\<close>

definition textField :: "string \<Rightarrow> jsval \<Rightarrow> jsstring" where
  "textField k item = (case get_prop_opt item (js k) of Some (JStr s) \<Rightarrow> s | _ \<Rightarrow> [])"

definition boolField :: "string \<Rightarrow> jsval \<Rightarrow> bool" where
  "boolField k item = truthy_opt (get_prop_opt item (js k))"

definition subField :: "string \<Rightarrow> string \<Rightarrow> jsval \<Rightarrow> jsstring" where
  "subField outer k item = (case get_prop_opt item (js outer) of Some v \<Rightarrow> textField k v | None \<Rightarrow> [])"

text \<open>\<open>a || b\<close> on strings.\<close>

definition orElse :: "jsstring \<Rightarrow> jsstring \<Rightarrow> jsstring" where
  "orElse a b = (if a \<noteq> [] then a else b)"

text \<open>The line under the name of an item: the first line of a note, cut after \<open>n\<close> characters, the last digits of a card,
  the address of an identity, the user name or address of a login, or a text of its own for an item that has none of these.\<close>

definition bullets :: jsstring where
  "bullets = [0x2022, 0x2022, 0x2022, 0x2022]"

definition itemLine :: "nat \<Rightarrow> jsstring \<Rightarrow> jsval \<Rightarrow> jsstring" where
  "itemLine n fallback i =
     (let ty = textField ''type'' i
      in if ty = js ''note''
         then orElse (take n (hd (split_on 10 (textField ''notes'' i)))) (js ''secure note'')
         else if ty = js ''card''
         then (let digits = filter is_digit (subField ''card'' ''number'' i)
               in if digits \<noteq> [] then bullets @ [32] @ drop (length digits - 4) digits else js ''card'')
         else if ty = js ''identity''
         then orElse (subField ''identity'' ''email'' i) (orElse (subField ''identity'' ''fullName'' i) (js ''identity''))
         else orElse (textField ''username'' i) (orElse (textField ''url'' i) fallback))"

text \<open>\<open>{ ...v, k: x }\<close>, for any number of keys.\<close>

definition spread :: "jsval \<Rightarrow> props \<Rightarrow> jsval" where
  "spread v kvs = JObj (obj_assign (own_props v) kvs)"

text \<open>What an editor does with a text: \<open>setItem((p) => ({ ...p, [k]: v }))\<close>.\<close>

definition setText :: "string \<Rightarrow> jsstring \<Rightarrow> jsval \<Rightarrow> jsval" where
  "setText k t item = spread item [(js k, JStr t)]"

text \<open>A stable sort by a comparison function.\<close>

fun insertBy :: "('a \<Rightarrow> 'a \<Rightarrow> int) \<Rightarrow> 'a \<Rightarrow> 'a list \<Rightarrow> 'a list" where
  "insertBy cmp x [] = [x]"
| "insertBy cmp x (y # ys) = (if cmp x y \<le> 0 then x # y # ys else y # insertBy cmp x ys)"

definition sortBy :: "('a \<Rightarrow> 'a \<Rightarrow> int) \<Rightarrow> 'a list \<Rightarrow> 'a list" where
  "sortBy cmp xs = foldr (insertBy cmp) xs []"

lemma sortBy_mset: "mset (sortBy cmp xs) = mset xs"
proof -
  have "mset (insertBy cmp x ys) = add_mset x (mset ys)" for x and ys :: "'a list"
    by (induction ys) auto
  then show ?thesis
    by (induction xs) (simp_all add: sortBy_def)
qed

text \<open>What the editors refuse to save: an item without name, user name and address.\<close>

definition editorRefuses :: "jsval \<Rightarrow> bool" where
  "editorRefuses item \<longleftrightarrow> trim (textField ''name'' item) = [] \<and> trim (textField ''username'' item) = []
     \<and> trim (textField ''url'' item) = []"

text \<open>The message of a form: a text of its own, or that of a rejection.\<close>

datatype shown = Says jsstring | Failed jserror

lemma textField_JObj [simp]: "textField k (JObj kvs) = (case obj_get kvs (js k) of Some (JStr s) \<Rightarrow> s | _ \<Rightarrow> [])"
  by (simp add: textField_def get_prop_opt_def own_props_def)

lemma boolField_JObj [simp]: "boolField k (JObj kvs) = truthy_opt (obj_get kvs (js k))"
  by (simp add: boolField_def get_prop_opt_def own_props_def)

end
