(* ===== verification/Popup.thy ===== *)
theory Popup
  imports Background View "HOL-Library.Multiset"
begin

text \<open>
  \<open>apps/extension/entrypoints/popup/App.tsx\<close>: the popup. Its hooks are the fields of a record, its handlers
  are functions on that record and the world of the background worker, which answers each message before
  the handler goes on; PopupView has what is rendered. Items are the full items the worker sends, so their texts are
  strings.
\<close>

section \<open>The avatar and the line of an item\<close>

text \<open>The host of an address, for display; \<open>hostname\<close> alone, less a leading \<open>www.\<close>.\<close>

definition displayHost :: "'z platform_scheme \<Rightarrow> jsstring \<Rightarrow> jsstring" where
  "displayHost P url =
     (if url = [] then []
      else case url_hostname P (if str_includes url (js ''://'') then url else js ''https://'' @ url) of
        None \<Rightarrow> [] | Some h \<Rightarrow> stripWww h)"

text \<open>The colour of the monogram: \<open>h = (h * 31 + c) >>> 0\<close> over the characters, modulo 360. The key is iterated by
  code point; the first code unit of each is used.\<close>

fun first_units :: "jsstring \<Rightarrow> jsstring" where
  "first_units [] = []"
| "first_units [c] = [c]"
| "first_units (c # d # s) = (if high_surrogate c \<and> low_surrogate d then c # first_units s else c # first_units (d # s))"

definition avatarHash :: "jsstring \<Rightarrow> 32 word" where
  "avatarHash key = fold (\<lambda>c h. h * 31 + ucast c) (first_units key) 0"

definition avatarKey :: "'z platform_scheme \<Rightarrow> jsval \<Rightarrow> jsstring" where
  "avatarKey P item =
     toLowerCase P (orElse (displayHost P (textField ''url'' item)) (orElse (textField ''name'' item) (js ''?'')))"

definition avatarInitial :: "'z platform_scheme \<Rightarrow> jsval \<Rightarrow> jsstring" where
  "avatarInitial P item =
     orElse (toUpperCase P (take 1 (trim (orElse (textField ''name'' item)
       (orElse (displayHost P (textField ''url'' item)) (js ''?''))))))
       (js ''?'')"

definition avatarHue :: "'z platform_scheme \<Rightarrow> jsval \<Rightarrow> nat" where
  "avatarHue P item = unat (avatarHash (avatarKey P item)) mod 360"

definition itemSub :: "jsval \<Rightarrow> jsstring" where
  "itemSub i = itemLine 50 [] i"

section \<open>The list\<close>

definition onPage :: "'z platform_scheme \<Rightarrow> jsstring \<Rightarrow> jsval \<Rightarrow> bool" where
  "onPage P tabHost i \<longleftrightarrow> tabHost \<noteq> [] \<and> hostMatches P (textField ''url'' i) tabHost"

text \<open>The order of the comparison function: matches first, then favourites. \<open>Array.prototype.sort\<close> is stable.\<close>

definition rank :: "'z platform_scheme \<Rightarrow> jsstring \<Rightarrow> jsval \<Rightarrow> nat" where
  "rank P tabHost i = (if onPage P tabHost i then 0 else 2) + (if boolField ''favorite'' i then 0 else 1)"

definition sortedItems :: "'z platform_scheme \<Rightarrow> jsstring \<Rightarrow> jsval list \<Rightarrow> jsval list" where
  "sortedItems P tabHost items = sort_key (rank P tabHost) items"

definition filteredItems :: "'z platform_scheme \<Rightarrow> jsstring \<Rightarrow> jsval list \<Rightarrow> jsval list" where
  "filteredItems P query shown =
     filter (\<lambda>i. query = []
       \<or> str_includes (toLowerCase P (textField ''name'' i)) (toLowerCase P query)
       \<or> str_includes (toLowerCase P (textField ''username'' i)) (toLowerCase P query)
       \<or> str_includes (toLowerCase P (textField ''url'' i)) (toLowerCase P query)) shown"

section \<open>Hooks and handlers\<close>

record Popup =
  pp_locked :: bool
  pp_items :: "jsval list"
  pp_error :: "jserror option"
  pp_toast :: "jsstring option"
  pp_editing :: "jsval option"
  pp_fromPending :: bool
  pp_pending :: "PendingSave option"

type_synonym ('n, 'a) handler = "Popup \<Rightarrow> 'n bgworld \<Rightarrow> 'a \<times> Popup \<times> 'n bgworld"

definition sendBackground :: "('n, 'z) bgplatform_scheme \<Rightarrow> BgRequest \<Rightarrow> 'n bgworld \<Rightarrow> BgResponse \<times> 'n bgworld" where
  "sendBackground P m w = finish (handle P m) w"

definition reload :: "('n, 'z) bgplatform_scheme \<Rightarrow> ('n, unit) handler" where
  "reload P pp w =
     (case sendBackground P GetItems w of
        (RLocked, w') \<Rightarrow> ((), pp\<lparr>pp_locked := True\<rparr>, w')
      | (RError e, w') \<Rightarrow> ((), pp\<lparr>pp_error := Some e\<rparr>, w')
      | (RItems is, w') \<Rightarrow> ((), pp\<lparr>pp_items := is\<rparr>, w')
      | (_, w') \<Rightarrow> ((), pp\<lparr>pp_items := []\<rparr>, w'))"

definition loadPending :: "('n, 'z) bgplatform_scheme \<Rightarrow> ('n, unit) handler" where
  "loadPending P pp w =
     (case sendBackground P GetPending w of
        (RPending p, w') \<Rightarrow> ((), pp\<lparr>pp_pending := p\<rparr>, w')
      | (_, w') \<Rightarrow> ((), pp, w'))"

definition flash :: "jsstring \<Rightarrow> Popup \<Rightarrow> Popup" where
  "flash label pp = pp\<lparr>pp_toast := Some label\<rparr>"

definition lockPopup :: "('n, 'z) bgplatform_scheme \<Rightarrow> ('n, unit) handler" where
  "lockPopup P pp w = (case sendBackground P Lock w of (_, w') \<Rightarrow> ((), pp\<lparr>pp_locked := True\<rparr>, w'))"

definition startAdd :: "Popup \<Rightarrow> Popup" where
  "startAdd pp = pp\<lparr>pp_fromPending := False,
     pp_editing := Some (withId [(js ''id'', JStr [])] (JObj (blankFields (js ''login''))))\<rparr>"

definition pendingFields :: "'z platform_scheme \<Rightarrow> PendingSave \<Rightarrow> props" where
  "pendingFields P p = obj_assign (blankFields (js ''login''))
     [(js ''name'', JStr (orElse (displayHost P (ps_url p)) (js ''New login''))),
      (js ''username'', JStr (ps_username p)), (js ''password'', JStr (ps_password p)), (js ''url'', JStr (ps_url p))]"

definition pendingItem :: "'z platform_scheme \<Rightarrow> PendingSave \<Rightarrow> jsval" where
  "pendingItem P p = withId [(js ''id'', JStr [])] (JObj (pendingFields P p))"

definition reviewPending :: "'z platform_scheme \<Rightarrow> Popup \<Rightarrow> Popup" where
  "reviewPending P pp =
     (case pp_pending pp of
        None \<Rightarrow> pp
      | Some p \<Rightarrow> pp\<lparr>pp_fromPending := True, pp_editing := Some (pendingItem P p)\<rparr>)"

definition dismissPending :: "('n, 'z) bgplatform_scheme \<Rightarrow> ('n, unit) handler" where
  "dismissPending P pp w = (case sendBackground P DismissPending w of (_, w') \<Rightarrow> ((), pp\<lparr>pp_pending := None\<rparr>, w'))"

definition stripId :: "jsval \<Rightarrow> jsval" where
  "stripId item = withoutId item"

text \<open>Both return the error to show in the editor, if any.\<close>

definition saveEditing :: "('n, 'z) bgplatform_scheme \<Rightarrow> jsval \<Rightarrow> ('n, jserror option) handler" where
  "saveEditing P item pp w =
     (case sendBackground P (if textField ''id'' item \<noteq> [] then UpdateItem item else AddItem (stripId item)) w of
        (RLocked, w1) \<Rightarrow> (None, pp\<lparr>pp_locked := True\<rparr>, w1)
      | (RError e, w1) \<Rightarrow> (Some e, pp, w1)
      | (_, w1) \<Rightarrow>
          (case (if pp_fromPending pp then dismissPending P pp w1 else ((), pp, w1)) of
             (_, pp2, w2) \<Rightarrow>
               (case reload P (pp2\<lparr>pp_editing := None, pp_fromPending := False\<rparr>) w2 of
                  (_, pp3, w3) \<Rightarrow>
                    (None, flash (if textField ''id'' item \<noteq> [] then js ''Saved'' else js ''Added'') pp3, w3))))"

definition deleteEditing :: "('n, 'z) bgplatform_scheme \<Rightarrow> jsval \<Rightarrow> ('n, jserror option) handler" where
  "deleteEditing P item pp w =
     (case sendBackground P (DeleteItem (textField ''id'' item)) w of
        (RLocked, w1) \<Rightarrow> (None, pp\<lparr>pp_locked := True\<rparr>, w1)
      | (RError e, w1) \<Rightarrow> (Some e, pp, w1)
      | (_, w1) \<Rightarrow>
          (case reload P (pp\<lparr>pp_editing := None\<rparr>) w1 of
             (_, pp2, w2) \<Rightarrow> (None, flash (js ''Deleted'') pp2, w2)))"

section \<open>The unlock form\<close>

record UnlockForm =
  uf_identifier :: jsstring
  uf_password :: jsstring
  uf_totp :: jsstring
  uf_twoFactor :: "jsstring list option"
  uf_error :: "jserror option"

definition needTotp :: "UnlockForm \<Rightarrow> bool" where
  "needTotp f \<longleftrightarrow> (case uf_twoFactor f of None \<Rightarrow> False | Some ms \<Rightarrow> js ''totp'' \<in> set ms)"

definition passkeyOnly :: "UnlockForm \<Rightarrow> bool" where
  "passkeyOnly f \<longleftrightarrow> (case uf_twoFactor f of None \<Rightarrow> False | Some ms \<Rightarrow> js ''webauthn'' \<in> set ms) \<and> \<not> needTotp f"

definition submitUnlock :: "('n, 'z) bgplatform_scheme \<Rightarrow> UnlockForm \<Rightarrow> 'n bgworld \<Rightarrow> bool \<times> UnlockForm \<times> 'n bgworld" where
  "submitUnlock P f w =
     (case sendBackground P (Unlock (uf_identifier f) (uf_password f) (if needTotp f then Some (uf_totp f) else None)) w of
        (ROk, w') \<Rightarrow> (True, f\<lparr>uf_error := None\<rparr>, w')
      | (RTwoFactor ms, w') \<Rightarrow> (False, f\<lparr>uf_error := None, uf_twoFactor := Some ms\<rparr>, w')
      | (RError e, w') \<Rightarrow> (False, f\<lparr>uf_error := Some e\<rparr>, w')
      | (_, w') \<Rightarrow> (False, f\<lparr>uf_error := Some EPlatform\<rparr>, w'))"

section \<open>Facts about the list\<close>

lemma rank_cases: "rank P tabHost i = 0 \<or> rank P tabHost i = 1 \<or> rank P tabHost i = 2 \<or> rank P tabHost i = 3"
  by (simp add: rank_def)

lemma filter_below: "\<forall>y \<in> set xs. (k :: nat) \<le> f y \<Longrightarrow> j < k \<Longrightarrow> filter (\<lambda>y. f y = j) xs = []"
  by (auto simp: filter_empty_conv)

lemma sorted_by_rank:
  assumes "sorted (map f xs)" "\<forall>x \<in> set xs. f x = (0 :: nat) \<or> f x = 1 \<or> f x = 2 \<or> f x = 3"
  shows "xs = filter (\<lambda>x. f x = 0) xs @ filter (\<lambda>x. f x = 1) xs @ filter (\<lambda>x. f x = 2) xs @ filter (\<lambda>x. f x = 3) xs"
  using assms
proof (induction xs)
  case (Cons x xs)
  then have IH: "xs = filter (\<lambda>x. f x = 0) xs @ filter (\<lambda>x. f x = 1) xs @ filter (\<lambda>x. f x = 2) xs @ filter (\<lambda>x. f x = 3) xs"
    and le: "\<forall>y \<in> set xs. f x \<le> f y"
    by simp_all
  consider "f x = 0" | "f x = 1" | "f x = 2" | "f x = 3"
    using Cons.prems(2) by auto
  then show ?case
    using IH filter_below [OF le] by cases simp_all
qed simp

text \<open>The popup's list is the vault, reordered: first the favourites for this page, then its other items, then the
  other favourites, then the rest, each group in the order of the vault; nothing is lost or repeated.\<close>

theorem sortedItems_groups:
  "sortedItems P tabHost items =
     filter (\<lambda>i. onPage P tabHost i \<and> boolField ''favorite'' i) items
     @ filter (\<lambda>i. onPage P tabHost i \<and> \<not> boolField ''favorite'' i) items
     @ filter (\<lambda>i. \<not> onPage P tabHost i \<and> boolField ''favorite'' i) items
     @ filter (\<lambda>i. \<not> onPage P tabHost i \<and> \<not> boolField ''favorite'' i) items
   \<and> mset (sortedItems P tabHost items) = mset items"
proof -
  let ?f = "rank P tabHost" and ?s = "sortedItems P tabHost items"
  have k: "filter (\<lambda>i. ?f i = k) ?s = filter (\<lambda>i. ?f i = k) items" for k
    by (simp add: sortedItems_def sort_key_stable)
  have "?s = filter (\<lambda>i. ?f i = 0) ?s @ filter (\<lambda>i. ?f i = 1) ?s @ filter (\<lambda>i. ?f i = 2) ?s @ filter (\<lambda>i. ?f i = 3) ?s"
    using rank_cases [of P tabHost] by (intro sorted_by_rank) (simp add: sortedItems_def, blast)
  then have "?s = filter (\<lambda>i. ?f i = 0) items @ filter (\<lambda>i. ?f i = 1) items @ filter (\<lambda>i. ?f i = 2) items @ filter (\<lambda>i. ?f i = 3) items"
    unfolding k .
  moreover have "?f i = 0 \<longleftrightarrow> onPage P tabHost i \<and> boolField ''favorite'' i"
    "?f i = 1 \<longleftrightarrow> onPage P tabHost i \<and> \<not> boolField ''favorite'' i"
    "?f i = 2 \<longleftrightarrow> \<not> onPage P tabHost i \<and> boolField ''favorite'' i"
    "?f i = 3 \<longleftrightarrow> \<not> onPage P tabHost i \<and> \<not> boolField ''favorite'' i" for i
    by (simp_all add: rank_def)
  ultimately have "?s = filter (\<lambda>i. onPage P tabHost i \<and> boolField ''favorite'' i) items
     @ filter (\<lambda>i. onPage P tabHost i \<and> \<not> boolField ''favorite'' i) items
     @ filter (\<lambda>i. \<not> onPage P tabHost i \<and> boolField ''favorite'' i) items
     @ filter (\<lambda>i. \<not> onPage P tabHost i \<and> \<not> boolField ''favorite'' i) items"
    by simp
  moreover have "mset ?s = mset items"
    by (simp add: sortedItems_def)
  ultimately show ?thesis
    by blast
qed

section \<open>From the captured login to the vault\<close>

lemma pendingFields_value:
  "pendingFields P p = (js ''type'', JStr (js ''login'')) #
     (js ''name'', JStr (orElse (displayHost P (ps_url p)) (js ''New login''))) #
     (js ''username'', JStr (ps_username p)) # (js ''password'', JStr (ps_password p)) # (js ''url'', JStr (ps_url p)) #
     drop 5 (blankFields (js ''login''))"
  by (simp add: pendingFields_def blankFields_def key_before_def)

lemma pendingFields_keys:
  "distinct (map fst (pendingFields P p))" "\<forall>k \<in> fst ` set (pendingFields P p). \<not> index_key k"
  "js ''id'' \<notin> fst ` set (pendingFields P p)"
  by (simp_all add: pendingFields_value blankFields_def)

lemma pendingItem_id: "pendingItem P p = JObj ((js ''id'', JStr []) # pendingFields P p)"
  using obj_assign_append [OF pendingFields_keys(1), of "[(js ''id'', JStr [])]" P p] pendingFields_keys [of P p]
  by (simp add: pendingItem_def withId_def own_props_def)

lemma stripId_pendingItem: "stripId (pendingItem P p) = JObj (pendingFields P p)"
  using pendingFields_keys(3) [of P p]
  by (auto simp: stripId_def withoutId_def pendingItem_id own_props_def filter_id_conv image_iff)

lemma adding_keeps_state:
  fixes w :: "'n bgworld"
  assumes "clock_ok P" "addItem P sess flds w = (r, w1)"
  shows "st_session w1 = st_session w" "st_pending w1 = st_pending w" "now P (net w) \<le> now P (net w1)"
proof -
  obtain d n where "snd (addItem P sess flds w) = w\<lparr>drawn := d, net := n\<rparr>" "now P (net w) \<le> now P n"
    using quiet_requests(3) [OF assms(1), of sess flds] unfolding quiet_def by blast
  with assms(2) show "st_session w1 = st_session w" "st_pending w1 = st_pending w" "now P (net w) \<le> now P (net w1)"
    by simp_all
qed

lemma loading_keeps_pending:
  fixes w :: "'n bgworld"
  assumes "clock_ok P" "loadVault P sess w = (r, w1)"
  shows "st_pending w1 = st_pending w"
proof -
  obtain d n where "snd (loadVault P sess w) = w\<lparr>drawn := d, net := n\<rparr>"
    using quiet_requests(2) [OF assms(1), of sess] unfolding quiet_def by blast
  with assms(2) show ?thesis
    by simp
qed

lemma reload_keeps:
  "reload P pp w = ((), pp', w') \<Longrightarrow> pp_pending pp' = pp_pending pp \<and> pp_editing pp' = pp_editing pp
    \<and> pp_fromPending pp' = pp_fromPending pp"
  by (auto simp: reload_def split: prod.splits BgResponse.splits)

lemma finish_dismiss: "finish (handle P DismissPending) w = (ROk, w\<lparr>st_pending := None\<rparr>)"
  by (simp add: finish_bindT)

lemma toSession_deadline [simp]: "toSession (s\<lparr>ss_lockAt := t\<rparr>) = toSession s"
  by (simp add: toSession_def)

text \<open>Reading the list with a session that has not expired.\<close>

lemma reload_live:
  assumes "live P w = Some s" "toSession s = Inr sess"
  obtains w3 r w4 where "loadVault P sess w3 = (r, w4)" "st_pending w3 = st_pending w" "net w3 = net w" "baseUrl w3 = baseUrl w"
    "reload P pp w = (case r of Inl x \<Rightarrow> ((), pp\<lparr>pp_error := Some x\<rparr>, w4) | Inr items \<Rightarrow> ((), pp\<lparr>pp_items := items\<rparr>, w4))"
proof -
  let ?w3 = "w\<lparr>st_session := Some (s\<lparr>ss_lockAt := now P (net w) + IDLE_MS\<rparr>), st_alarm := Some (now P (net w) + IDLE_MS)\<rparr>"
  obtain r w4 where l: "loadVault P sess ?w3 = (r, w4)"
    by fastforce
  then have "finish (handle P GetItems) w = (case r of Inl x \<Rightarrow> RError x | Inr items \<Rightarrow> RItems items, w4)"
    using finish_withSession [OF assms refl, of "loadVault P" RItems] by (simp split: sum.split)
  then show thesis
    using l by (intro that [of ?w3 r w4]) (simp_all add: reload_def sendBackground_def split: sum.split)
qed

lemma pendingItem_new: "textField ''id'' (pendingItem P p) = []"
  by (simp add: pendingItem_id)

lemma reviewPending_opens:
  "pp_pending pp = Some p \<Longrightarrow> reviewPending P pp = pp\<lparr>pp_fromPending := True, pp_editing := Some (pendingItem P p)\<rparr>"
  by (simp add: reviewPending_def)

text \<open>What the worker answers to the save of a reviewed login, which has no id as long as it is not in the vault.\<close>

lemma pending_locked:
  assumes "pp_pending pp = Some p" "live P w = None" "textField ''id'' item = []"
    and "saveEditing P item (reviewPending P pp) w = (e, pp', w2)"
  shows "e = None \<and> pp_locked pp' \<and> pp_pending pp' = Some p \<and> st_pending w2 = st_pending w"
  using assms reviewPending_opens [OF assms(1), of P]
    finish_withSession_locked [OF assms(2), of "\<lambda>s. addItem P s (stripId item)" RItem]
  by (auto simp: saveEditing_def sendBackground_def split: if_splits)

lemma pending_asked:
  assumes "live P w = Some s" "toSession s = Inr sess"
    and "addItem P sess (stripId item) (w\<lparr>st_session := Some (s\<lparr>ss_lockAt := now P (net w) + IDLE_MS\<rparr>),
      st_alarm := Some (now P (net w) + IDLE_MS)\<rparr>) = (r, w1)"
  shows "sendBackground P (AddItem (stripId item)) w = (case r of Inl x \<Rightarrow> RError x | Inr v \<Rightarrow> RItem v, w1)"
  using finish_withSession [OF assms(1,2) refl, of "\<lambda>s. addItem P s (stripId item)" RItem] assms(3)
  by (simp add: sendBackground_def split: sum.split)

lemma pending_added:
  assumes "pp_pending pp = Some p" "textField ''id'' item = []" "sendBackground P (AddItem (stripId item)) w = (RItem v, w1)"
    and "saveEditing P item (reviewPending P pp) w = (e, pp', w2)"
  obtains pp3 where "reload P (pp\<lparr>pp_pending := None, pp_editing := None, pp_fromPending := False\<rparr>) (w1\<lparr>st_pending := None\<rparr>) = ((), pp3, w2)"
    "e = None" "pp' = flash (js ''Added'') pp3"
  using assms(2,3,4) reviewPending_opens [OF assms(1), of P]
  by (simp add: saveEditing_def sendBackground_def dismissPending_def finish_dismiss split: prod.splits del: handle.simps)

text \<open>The list that is read after the offer has been withdrawn.\<close>

lemma reload_after_offer:
  assumes "clock_ok P" "reload P pp (w\<lparr>st_pending := None\<rparr>) = ((), pp', w2)"
    and "live P (w\<lparr>st_pending := None\<rparr>) = Some s" "toSession s = Inr sess"
  shows "st_pending w2 = None \<and> (\<exists>items w3. loadVault P sess w3 = (Inr items, w2) \<and> pp_items pp' = items
    \<or> (\<exists>x. loadVault P sess w3 = (Inl x, w2) \<and> pp_error pp' = Some x))"
proof -
  obtain w3 r w4 where v: "loadVault P sess w3 = (r, w4)" "st_pending w3 = None"
      "reload P pp (w\<lparr>st_pending := None\<rparr>) = (case r of Inl x \<Rightarrow> ((), pp\<lparr>pp_error := Some x\<rparr>, w4)
        | Inr items \<Rightarrow> ((), pp\<lparr>pp_items := items\<rparr>, w4))"
    using reload_live [OF assms(3,4), of pp] by (simp del: One_nat_def) blast
  moreover have "st_pending w4 = None"
    using loading_keeps_pending [OF assms(1) v(1)] v(2) by simp
  ultimately show ?thesis
    using assms(2) by (cases r) auto
qed

text \<open>C30: one save of a login on offer. Reviewing it opens a new item, without an id, of its address, user name and
  password. When that item, with whatever edits, is saved, the worker is asked to add it. If the vault is locked, or
  adding fails, the login stays on offer in the worker and in the popup, and a failure leaves the form open; if it is
  added, the form closes and the popup offers it no more, and unless the session has expired meanwhile, neither does
  the worker, and the list is read again. (An offer also goes by \<open>Not now\<close> and after five minutes, without a
  save.)\<close>

theorem saveEditing_pending:
  assumes "pp_pending pp = Some p" "clock_ok P" "textField ''id'' item = []"
    and "saveEditing P item (reviewPending P pp) w = (e, pp', w2)"
  shows "pp_editing (reviewPending P pp) = Some (pendingItem P p) \<and> textField ''id'' (pendingItem P p) = []
    \<and> stripId (pendingItem P p) = JObj (pendingFields P p)
    \<and> obj_get (pendingFields P p) (js ''username'') = Some (JStr (ps_username p))
    \<and> obj_get (pendingFields P p) (js ''password'') = Some (JStr (ps_password p))
    \<and> obj_get (pendingFields P p) (js ''url'') = Some (JStr (ps_url p))
    \<and> (live P w = None \<longrightarrow> e = None \<and> pp_locked pp' \<and> pp_pending pp' = Some p \<and> st_pending w2 = st_pending w)
    \<and> (\<forall>s sess r w1. live P w = Some s \<and> toSession s = Inr sess
        \<and> addItem P sess (stripId item) (w\<lparr>st_session := Some (s\<lparr>ss_lockAt := now P (net w) + IDLE_MS\<rparr>),
            st_alarm := Some (now P (net w) + IDLE_MS)\<rparr>) = (r, w1) \<longrightarrow>
          (case r of
             Inl x \<Rightarrow> e = Some x \<and> pp' = reviewPending P pp \<and> st_pending w2 = st_pending w
           | Inr v \<Rightarrow> e = None \<and> pp_pending pp' = None \<and> pp_editing pp' = None \<and> \<not> pp_fromPending pp'
               \<and> (now P (net w1) \<le> now P (net w) + IDLE_MS \<longrightarrow> st_pending w2 = None
                    \<and> (\<exists>items w3. loadVault P sess w3 = (Inr items, w2) \<and> pp_items pp' = items
                         \<or> (\<exists>x. loadVault P sess w3 = (Inl x, w2) \<and> pp_error pp' = Some x)))))"
proof -
  have added: "case r of
      Inl x \<Rightarrow> e = Some x \<and> pp' = reviewPending P pp \<and> st_pending w2 = st_pending w
    | Inr v \<Rightarrow> e = None \<and> pp_pending pp' = None \<and> pp_editing pp' = None \<and> \<not> pp_fromPending pp'
        \<and> (now P (net w1) \<le> now P (net w) + IDLE_MS \<longrightarrow> st_pending w2 = None
             \<and> (\<exists>items w3. loadVault P sess w3 = (Inr items, w2) \<and> pp_items pp' = items
                  \<or> (\<exists>x. loadVault P sess w3 = (Inl x, w2) \<and> pp_error pp' = Some x)))"
    if s: "live P w = Some s" "toSession s = Inr sess"
      and a: "addItem P sess (stripId item) (w\<lparr>st_session := Some (s\<lparr>ss_lockAt := now P (net w) + IDLE_MS\<rparr>),
        st_alarm := Some (now P (net w) + IDLE_MS)\<rparr>) = (r, w1)"
    for s sess r w1
  proof (cases r)
    case (Inl x)
    then show ?thesis
      using pending_asked [OF s a] assms(3,4) adding_keeps_state(2) [OF assms(2) a] by (simp add: saveEditing_def)
  next
    case (Inr v)
    obtain pp3 where r: "reload P (pp\<lparr>pp_pending := None, pp_editing := None, pp_fromPending := False\<rparr>) (w1\<lparr>st_pending := None\<rparr>) = ((), pp3, w2)"
        "e = None" "pp' = flash (js ''Added'') pp3"
      by (rule pending_added [OF assms(1,3) _ assms(4)]) (use pending_asked [OF s a] Inr in simp)
    have "live P (w1\<lparr>st_pending := None\<rparr>) = Some (s\<lparr>ss_lockAt := now P (net w) + IDLE_MS\<rparr>)" if "now P (net w1) \<le> now P (net w) + IDLE_MS"
      using adding_keeps_state(1) [OF assms(2) a] that by (simp add: live_def)
    then show ?thesis
      using reload_after_offer [OF assms(2) r(1)] reload_keeps [OF r(1)] Inr r(2,3) s(2) by (simp add: flash_def)
  qed
  show ?thesis
    using added pending_locked [OF assms(1) _ assms(3,4)] reviewPending_opens [OF assms(1), of P]
    by (simp add: pendingFields_value pendingItem_new stripId_pendingItem)
qed

section \<open>A saved login\<close>

text \<open>The service of the worker's witnesses, with replies that take a second.\<close>

definition sample_popup :: "(int \<times> jsval) list bgplatform" where
  "sample_popup = sample_bg\<lparr>now := \<lambda>n. - 1000 * int (length n)\<rparr>"

lemma sample_popup_clock: "clock_ok sample_popup"
  by (simp add: clock_ok_def sample_popup_def sample_bg_def sample_service_defs bgplatform.defs sample_fetch_def
      split: list.split)

lemma sample_popup_aes: "aes_ok sample_popup"
  using sample_bg_ok by (simp add: webcrypto_ok_def aes_ok_def sample_popup_def)

lemma sample_popup_replies: "plain (JObj kvs) \<Longrightarrow> replies sample_popup rq ((200, JObj kvs) # n) kvs n"
  using sample_bg_replies [of kvs rq n] by (simp add: replies_def sample_popup_def)

theorem saveEditing_pending_witness:
  "\<exists>pp p w e pp' w2. saveEditing sample_popup (pendingItem sample_popup p) (reviewPending sample_popup pp) w = (e, pp', w2)
    \<and> st_pending w \<noteq> None \<and> pp_pending pp = Some p \<and> e = None \<and> pp_pending pp' = None \<and> st_pending w2 = None"
proof -
  let ?P = sample_popup
  let ?p = "\<lparr>ps_url = js ''https://example.org'', ps_username = js ''me'', ps_password = js ''secret''\<rparr>"
  let ?pp = "\<lparr>pp_locked = False, pp_items = [], pp_error = None, pp_toast = None, pp_editing = None,
      pp_fromPending = False, pp_pending = Some ?p\<rparr>"
  let ?sess = "\<lparr>s_identifier = js ''me'', s_accessToken = None, s_refreshToken = None, s_userKey = replicate 64 7,
      s_protectedPrivateKey = JStr []\<rparr>"
  let ?s = "\<lparr>ss_identifier = js ''me'', ss_accessToken = None, ss_refreshToken = None,
      ss_userKeyB64 = b64encode (replicate 64 7), ss_lockAt = 0\<rparr>"
  let ?c = "[(js ''id'', JStr (js ''a''))]"
  let ?w = "(sample_bgworld [(200, JObj ?c)])\<lparr>st_session := Some ?s, st_pending := Some (stored_pending (?p, 0))\<rparr>"
  let ?w' = "?w\<lparr>st_session := Some (?s\<lparr>ss_lockAt := now ?P (net ?w) + IDLE_MS\<rparr>), st_alarm := Some (now ?P (net ?w) + IDLE_MS)\<rparr>"
  have n: "net (sample_bgworld m) = m" "baseUrl (sample_bgworld m) = js ''https://vault.example''" for m
    by (simp_all add: sample_bgworld_def sample_net_def networld.defs bgworld.defs world.defs sample_world_def)
  have live: "live ?P ?w = Some ?s" "toSession ?s = Inr ?sess"
    using toSession_stored [of ?sess 0] by (simp_all add: live_def n sample_popup_def)
  have "plain (JObj (pendingFields ?P ?p))"
    using pendingFields_keys [of ?P ?p]
    by (simp add: obj_of_id) (simp add: pendingFields_value blankFields_def obj_of_id blankCard_def blankIdentity_def)
  then obtain d where d: "encryptItemKeyed ?P (replicate 64 7) (JSON_stringify ?P 0 (JObj (pendingFields ?P ?p))) ?w'
      = (Inr d, ?w'\<lparr>drawn := drawn ?w' + 56\<rparr>)"
    using seal_item [OF sample_popup_aes, of "replicate 64 7" "JObj (pendingFields ?P ?p)" ?w'] by auto
  have p: "plain (JObj ?c)"
    by (simp add: obj_of_id)
  have add: "addItem ?P ?sess (JObj (pendingFields ?P ?p)) ?w'
      = (Inr (withId ?c (JObj (pendingFields ?P ?p))), ?w'\<lparr>drawn := drawn ?w' + 56, net := []\<rparr>)"
    using d call_replies [of ?P None None "?w'\<lparr>drawn := drawn ?w' + 56\<rparr>" "''POST''" "js ''/api/ciphers''"
        "Some (obj [(''data'', JStr d)])" ?c "[]"] sample_popup_replies [OF p, of _ "[]"]
    by (simp add: addItem_def createCipher_def opt_member_def act_simps n token_text_def truthy_opt_def)
  obtain e pp' w2 where r: "saveEditing ?P (pendingItem ?P ?p) (reviewPending ?P ?pp) ?w = (e, pp', w2)"
    by (cases "saveEditing ?P (pendingItem ?P ?p) (reviewPending ?P ?pp) ?w") auto
  have "now ?P [] \<le> now ?P (net ?w) + IDLE_MS"
    by (simp add: n sample_popup_def IDLE_MS_def)
  then have "e = None \<and> pp_pending pp' = None \<and> st_pending w2 = None"
    using saveEditing_pending [OF _ sample_popup_clock pendingItem_new r, THEN conjunct2, THEN conjunct2, THEN conjunct2] live add
    by (fastforce simp: stripId_pendingItem)
  with r show ?thesis
    by (intro exI [of _ ?pp] exI [of _ ?p] exI [of _ ?w] exI [of _ e] exI [of _ pp'] exI [of _ w2]) simp
qed

end
