(* ===== verification/DesktopApp.thy ===== *)
theory DesktopApp
  imports Desktop Password View
begin

text \<open>
  \<open>apps/desktop/src/App.tsx\<close> and \<open>VaultScreen.tsx\<close>: the screens of the desktop client over its data layer. The vault
  screen is mounted while a vault is open; its hooks start anew each time.
\<close>

section \<open>State\<close>

datatype Screen = Boot | Start | UnlockAt jsstring | CreateAt jsstring

record DesktopUI =
  ui_vault :: "DesktopVault option"
  ui_screen :: Screen
  ui_selected :: "jsstring option"
  ui_editing :: "jsval option"
  ui_error :: "shown option"
  ui_toast :: "jsstring option"

definition initialUI :: DesktopUI where
  "initialUI = \<lparr>ui_vault = None, ui_screen = Boot, ui_selected = None, ui_editing = None, ui_error = None, ui_toast = None\<rparr>"

text \<open>A handler: what its promise settles with, and what it leaves.\<close>

type_synonym ('y, 'a) ui_handler =
  "DesktopUI \<Rightarrow> 'y dworld_scheme \<Rightarrow> 'a result \<times> DesktopUI \<times> 'y dworld_scheme"

definition showVault :: "DesktopVault \<Rightarrow> DesktopUI \<Rightarrow> DesktopUI" where
  "showVault v u = (if ui_vault u = None
     then u\<lparr>ui_vault := Some v, ui_selected := None, ui_editing := None, ui_error := None, ui_toast := None\<rparr>
     else u\<lparr>ui_vault := Some v\<rparr>)"

section \<open>Launch, open, create, lock\<close>

text \<open>The effect at launch: the first recent vault that still exists; a rejection leaves the boot screen. A path that
  is no string makes \<open>vaultExists\<close> answer \<open>false\<close>.\<close>

fun bootScreen :: "jsval list \<Rightarrow> ('y dworld_scheme, Screen) act" where
  "bootScreen [] = returnA Start"
| "bootScreen (r # rs) =
     bindA (liftA (get_prop r (js ''path''))) (\<lambda>p.
     case p of
       Some (JStr path) \<Rightarrow> bindA (vaultExists path) (\<lambda>b. if b then returnA (UnlockAt path) else bootScreen rs)
     | _ \<Rightarrow> bootScreen rs)"

definition launch :: "'z dplatform_scheme \<Rightarrow> ('y, unit) ui_handler" where
  "launch P u w =
     (case bindA (readRecents P) bootScreen w of
        (Inl e, w') \<Rightarrow> (Inl e, u, w')
      | (Inr s, w') \<Rightarrow> (Inr (), u\<lparr>ui_screen := s\<rparr>, w'))"

definition adopt :: "'z dplatform_scheme \<Rightarrow> DesktopVault \<Rightarrow> ('y, unit) ui_handler" where
  "adopt P v u w =
     (case rememberRecent P (dv_path v) w of
        (Inl e, w') \<Rightarrow> (Inl e, u, w')
      | (Inr _, w') \<Rightarrow> (Inr (), showVault v u, w'))"

text \<open>The unlock form: the error it shows. The form does not wait for \<open>adopt\<close>, whose rejection nobody handles.\<close>

definition submitOpen :: "'z dplatform_scheme \<Rightarrow> jsstring \<Rightarrow> jsstring \<Rightarrow> ('y, shown option) ui_handler" where
  "submitOpen P path password u w =
     (case openExistingVault P path password w of
        (Inl e, w') \<Rightarrow> (Inr (Some (Failed e)), u, w')
      | (Inr v, w') \<Rightarrow> (case adopt P v u w' of (_, u', w'') \<Rightarrow> (Inr None, u', w'')))"

definition submitCreate :: "'z dplatform_scheme \<Rightarrow> jsstring \<Rightarrow> jsstring \<Rightarrow> jsstring \<Rightarrow> ('y, shown option) ui_handler" where
  "submitCreate P path password confirm u w =
     (case masterPasswordIssue password of
        Some weak \<Rightarrow> (Inr (Some (Says weak)), u, w)
      | None \<Rightarrow>
          if password \<noteq> confirm then (Inr (Some (Says (js ''The master passwords don't match.''))), u, w)
          else (case createNewVault P path password w of
             (Inl e, w') \<Rightarrow> (Inr (Some (Failed e)), u, w')
           | (Inr v, w') \<Rightarrow> (case adopt P v u w' of (_, u', w'') \<Rightarrow> (Inr None, u', w''))))"

text \<open>The lock button, and the timer after ten minutes without activity.\<close>

definition IDLE_LOCK_MS :: int where
  "IDLE_LOCK_MS = 10 * 60 * 1000"

definition lockVault :: "DesktopUI \<Rightarrow> DesktopUI" where
  "lockVault u = (case ui_vault u of None \<Rightarrow> u
     | Some v \<Rightarrow> u\<lparr>ui_vault := None, ui_screen := UnlockAt (dv_path v)\<rparr>)"

section \<open>The vault screen\<close>

definition commit :: "'z dplatform_scheme \<Rightarrow> DesktopVault \<Rightarrow> jsval list \<Rightarrow> ('y dworld_scheme, DesktopVault) act" where
  "commit P v items =
     bindA (persist P (v\<lparr>dv_items := items\<rparr>)) (\<lambda>_. returnA (v\<lparr>dv_items := items\<rparr>))"

text \<open>Ids are compared by strict equality; they are primitive values. An item \<open>null\<close> is a \<open>TypeError\<close>.\<close>

fun anyId :: "jsval option \<Rightarrow> jsval list \<Rightarrow> bool result" where
  "anyId x [] = Inr False"
| "anyId x (i # is) = bindR (get_prop i (js ''id'')) (\<lambda>y. if y = x then Inr True else anyId x is)"

fun replaceId :: "jsval option \<Rightarrow> jsval \<Rightarrow> jsval list \<Rightarrow> jsval list result" where
  "replaceId x item [] = Inr []"
| "replaceId x item (i # is) =
     bindR (get_prop i (js ''id'')) (\<lambda>y. mapR (\<lambda>r. (if y = x then item else i) # r) (replaceId x item is))"

fun dropId :: "jsval option \<Rightarrow> jsval list \<Rightarrow> jsval list result" where
  "dropId x [] = Inr []"
| "dropId x (i # is) =
     bindR (get_prop i (js ''id'')) (\<lambda>y. mapR (\<lambda>r. if y \<noteq> x then i # r else r) (dropId x is))"

definition withItemId :: "jsval \<Rightarrow> ('y dworld_scheme, jsval) act" where
  "withItemId item =
     (if textField ''id'' item \<noteq> [] then returnA item
      else bindA newItemId (\<lambda>i. returnA (JObj (obj_assign (own_props item) [(js ''id'', JStr i)]))))"

definition saveItemUI :: "'z dplatform_scheme \<Rightarrow> jsval \<Rightarrow> ('y, shown option) ui_handler" where
  "saveItemUI P item u w =
     (case ui_vault u of
        None \<Rightarrow> (Inr None, u, w)
      | Some v \<Rightarrow>
          (case bindA (withItemId item) (\<lambda>withId.
             bindA (liftA (anyId (get_prop_opt withId (js ''id'')) (dv_items v))) (\<lambda>exists.
             bindA (liftA (if exists then replaceId (get_prop_opt withId (js ''id'')) withId (dv_items v)
               else Inr (dv_items v @ [withId]))) (\<lambda>items.
             returnA (withId, items)))) w of
             (Inl e, w') \<Rightarrow> (Inl e, u, w')
           | (Inr (withId, items), w') \<Rightarrow>
               (case commit P v items w' of
                  (Inl e, w'') \<Rightarrow> (Inr (Some (Failed e)), u, w'')
                | (Inr next, w'') \<Rightarrow>
                    (Inr None, (showVault next u)\<lparr>ui_editing := None, ui_selected := Some (textField ''id'' withId),
                       ui_toast := Some (if textField ''id'' item \<noteq> [] then js ''Saved'' else js ''Added'')\<rparr>, w''))))"

text \<open>The save button of the editor: \<open>Inr False\<close> when it shows an error.\<close>

definition editorSave :: "'z dplatform_scheme \<Rightarrow> jsval \<Rightarrow> ('y, shown option) ui_handler" where
  "editorSave P item u w =
     (if editorRefuses item then (Inr (Some (Says (js ''Give the item a name, username, or URL.''))), u, w)
      else saveItemUI P item u w)"

text \<open>\<open>confirmed\<close> is the answer of the user.\<close>

definition deleteItemUI :: "'z dplatform_scheme \<Rightarrow> bool \<Rightarrow> jsval \<Rightarrow> ('y, unit) ui_handler" where
  "deleteItemUI P confirmed item u w =
     (case ui_vault u of
        None \<Rightarrow> (Inr (), u, w)
      | Some v \<Rightarrow>
          if \<not> confirmed then (Inr (), u, w)
          else (case bindA (liftA (dropId (get_prop_opt item (js ''id'')) (dv_items v))) (commit P v) w of
             (Inl e, w') \<Rightarrow> (Inr (), u\<lparr>ui_error := Some (Failed e)\<rparr>, w')
           | (Inr next, w') \<Rightarrow>
               (Inr (), (showVault next u)\<lparr>ui_error := None, ui_toast := Some (js ''Deleted''),
                  ui_selected := (if ui_selected u = Some (textField ''id'' item) then None else ui_selected u)\<rparr>, w')))"

definition changePasswordUI :: "'z dplatform_scheme \<Rightarrow> jsstring \<Rightarrow> jsstring \<Rightarrow> ('y, shown option) ui_handler" where
  "changePasswordUI P pw confirm u w =
     (case ui_vault u of
        None \<Rightarrow> (Inr None, u, w)
      | Some v \<Rightarrow>
          (case masterPasswordIssue pw of
             Some weak \<Rightarrow> (Inr (Some (Says weak)), u, w)
           | None \<Rightarrow>
               if pw \<noteq> confirm then (Inr (Some (Says (js ''The passwords don't match.''))), u, w)
               else (case rekey P v pw w of
                  (Inl e, w') \<Rightarrow> (Inr (Some (Failed e)), u, w')
                | (Inr v', w') \<Rightarrow> (Inr None, (showVault v' u)\<lparr>ui_toast := Some (js ''Master password changed'')\<rparr>, w'))))"

text \<open>The list: what the search box leaves of the vault, in the order of the collation of the locale, a parameter.\<close>

definition foundItems :: "'z jsenv_scheme \<Rightarrow> jsstring \<Rightarrow> jsval list \<Rightarrow> jsval list" where
  "foundItems J query items =
     (let q = toLowerCase J query in
      filter (\<lambda>i. q = [] \<or> str_includes (toLowerCase J (textField ''name'' i)) q
        \<or> str_includes (toLowerCase J (textField ''username'' i)) q
        \<or> str_includes (toLowerCase J (textField ''url'' i)) q) items)"

definition listedItems :: "'z jsenv_scheme \<Rightarrow> (jsstring \<Rightarrow> jsstring \<Rightarrow> int) \<Rightarrow> jsstring \<Rightarrow> jsval list \<Rightarrow> jsval list" where
  "listedItems J collate query items =
     sortBy (\<lambda>a b. collate (View.orElse (textField ''name'' a) (textField ''url'' a)) (View.orElse (textField ''name'' b) (textField ''url'' b)))
       (foundItems J query items)"

text \<open>The item shown: the first with the selected id.\<close>

definition selectedItemUI :: "DesktopUI \<Rightarrow> jsval option" where
  "selectedItemUI u = (case ui_vault u of None \<Rightarrow> None
     | Some v \<Rightarrow> List.find (\<lambda>i. ui_selected u \<noteq> None \<and> get_prop_opt i (js ''id'') = map_option JStr (ui_selected u)) (dv_items v))"

section \<open>The other screens\<close>

text \<open>The answers of the file dialogs; a cancelled one answers \<open>null\<close>.\<close>

definition pickVaultToOpen :: "jsval \<Rightarrow> jsstring option" where
  "pickVaultToOpen answer = (case answer of JStr p \<Rightarrow> Some p | _ \<Rightarrow> None)"

definition pickVaultToCreate :: "jsstring option \<Rightarrow> jsstring option" where
  "pickVaultToCreate answer = answer"

definition navigateTo :: "(jsstring \<Rightarrow> Screen) \<Rightarrow> jsstring option \<Rightarrow> DesktopUI \<Rightarrow> DesktopUI" where
  "navigateTo scr path u = (case path of None \<Rightarrow> u | Some p \<Rightarrow> if p = [] then u else u\<lparr>ui_screen := scr p\<rparr>)"

definition openDialog :: "jsval \<Rightarrow> DesktopUI \<Rightarrow> DesktopUI" where
  "openDialog answer = navigateTo UnlockAt (pickVaultToOpen answer)"

definition newDialog :: "jsstring option \<Rightarrow> DesktopUI \<Rightarrow> DesktopUI" where
  "newDialog answer = navigateTo CreateAt (pickVaultToCreate answer)"

definition backToStart :: "DesktopUI \<Rightarrow> DesktopUI" where
  "backToStart u = u\<lparr>ui_screen := Start\<rparr>"

text \<open>The list of recent vaults on the start screen, and its button: the list is emptied when the disk has forgotten it.\<close>

definition clearRecentList :: "'z dplatform_scheme \<Rightarrow> jsval list \<Rightarrow> ('y dworld_scheme) \<Rightarrow> jsval list \<times> 'y dworld_scheme" where
  "clearRecentList P rs w = (case clearRecents P w of (Inr _, w') \<Rightarrow> ([], w') | (Inl _, w') \<Rightarrow> (rs, w'))"

text \<open>The editor's fields, and its generator button, which asks for twenty characters.\<close>

definition DESK_TEXTS :: "string list" where
  "DESK_TEXTS = [''name'', ''url'', ''username'', ''password'', ''notes'']"

fun deskEdits :: "(string \<times> jsstring) list \<Rightarrow> jsval \<Rightarrow> jsval" where
  "deskEdits [] item = item"
| "deskEdits ((k, t) # kts) item = deskEdits kts (setText k t item)"

definition generateInto :: "jsval \<Rightarrow> ('y dworld_scheme, jsval) act" where
  "generateInto item = bindA (generatePassword 20) (\<lambda>pw. returnA (setText ''password'' pw item))"

section \<open>What the user relies on\<close>

text \<open>The abstract client: a password, a list of items, and whether the vault is open. A new item gets an id.\<close>

definition desktopVal :: "DesktopItem \<Rightarrow> jsval" where
  "desktopVal d = JObj [(js ''id'', JStr (di_id d)), (js ''name'', JStr (di_name d)), (js ''username'', JStr (di_username d)),
     (js ''password'', JStr (di_password d)), (js ''url'', JStr (di_url d)), (js ''notes'', JStr (di_notes d))]"

record DeskSpec =
  sp_password :: jsstring
  sp_items :: "DesktopItem list"
  sp_open :: bool

datatype DeskAction =
    DoSave DesktopItem
  | DoDelete DesktopItem
  | DoChange jsstring jsstring \<comment> \<open>the new password, twice\<close>
  | DoLock
  | DoUnlock jsstring

definition upsert :: "DesktopItem \<Rightarrow> DesktopItem list \<Rightarrow> DesktopItem list" where
  "upsert d ds = (if di_id d \<in> di_id ` set ds then map (\<lambda>e. if di_id e = di_id d then d else e) ds else ds @ [d])"

definition nameless :: "DesktopItem \<Rightarrow> bool" where
  "nameless d \<longleftrightarrow> trim (di_name d) = [] \<and> trim (di_username d) = [] \<and> trim (di_url d) = []"

fun spec :: "jsstring \<Rightarrow> DeskAction \<Rightarrow> DeskSpec \<Rightarrow> DeskSpec" where
  "spec i (DoSave d) s =
     (if sp_open s \<and> \<not> nameless d then s\<lparr>sp_items := upsert (if di_id d = [] then d\<lparr>di_id := i\<rparr> else d) (sp_items s)\<rparr> else s)"
| "spec i (DoDelete d) s = (if sp_open s then s\<lparr>sp_items := filter (\<lambda>e. di_id e \<noteq> di_id d) (sp_items s)\<rparr> else s)"
| "spec i (DoChange pw confirm) s =
     (if sp_open s \<and> masterPasswordIssue pw = None \<and> pw = confirm then s\<lparr>sp_password := pw\<rparr> else s)"
| "spec i DoLock s = s\<lparr>sp_open := False\<rparr>"
| "spec i (DoUnlock pw) s = (if pw = sp_password s then s\<lparr>sp_open := True\<rparr> else s)"

text \<open>The client performing an action.\<close>

fun perform :: "'z dplatform_scheme \<Rightarrow> DeskAction \<Rightarrow> DesktopUI \<times> 'y dworld_scheme \<Rightarrow> DesktopUI \<times> 'y dworld_scheme" where
  "perform P (DoSave d) (u, w) = snd (editorSave P (desktopVal d) u w)"
| "perform P (DoDelete d) (u, w) = snd (deleteItemUI P True (desktopVal d) u w)"
| "perform P (DoChange pw confirm) (u, w) = snd (changePasswordUI P pw confirm u w)"
| "perform P DoLock (u, w) = (lockVault u, w)"
| "perform P (DoUnlock pw) (u, w) =
     (case (ui_vault u, ui_screen u) of (None, UnlockAt path) \<Rightarrow> snd (submitOpen P path pw u w) | _ \<Rightarrow> (u, w))"

text \<open>Actions within the contract: the password in force opens the vault, and new passwords are ones the KDF accepts.\<close>

fun allowed :: "'z dplatform_scheme \<Rightarrow> DeskAction \<Rightarrow> DeskSpec \<Rightarrow> bool" where
  "allowed P (DoUnlock pw) s = (pw = sp_password s)"
| "allowed P (DoChange pw confirm) s = (masterPasswordIssue pw = None \<longrightarrow> secret_ok P pw DEFAULT_KDF)"
| "allowed P a s = True"

fun permitted :: "'z dplatform_scheme \<Rightarrow> DeskAction list \<Rightarrow> DeskSpec \<Rightarrow> bool" where
  "permitted P [] s = True"
| "permitted P (a # as) s = (allowed P a s \<and> permitted P as (spec [] a s))"

fun spec_run :: "jsstring list \<Rightarrow> DeskAction list \<Rightarrow> DeskSpec \<Rightarrow> DeskSpec" where
  "spec_run (i # is) (a # as) s = spec_run is as (spec i a s)"
| "spec_run _ _ s = s"

definition simulates :: "dplatform \<Rightarrow> jsstring \<Rightarrow> bytes \<Rightarrow> DeskSpec \<Rightarrow> DesktopUI \<times> dworld \<Rightarrow> bool" where
  "simulates P path uk s = (\<lambda>(u, w).
     on_disk P path (sp_password s) uk (map desktopVal (sp_items s)) w
     \<and> (\<exists>rs. recents_hold P w rs) \<and> \<bar>date w\<bar> \<le> 2 ^ 53
     \<and> (case ui_vault u of
          None \<Rightarrow> \<not> sp_open s \<and> ui_screen u = UnlockAt path
        | Some v \<Rightarrow> sp_open s \<and> in_memory P path (sp_password s) uk v \<and> dv_items v = map desktopVal (sp_items s)))"

text \<open>The disk and the configuration directory can be written.\<close>

definition disk_works :: "dplatform \<Rightarrow> bool" where
  "disk_works P \<longleftrightarrow> fs_ok P \<and> (\<forall>path c d. fst (fs_write P path c d) = Inr ())
     \<and> recents_dir P = Inr () \<and> recents_write P = Inr ()"

section \<open>The data layer under the screens\<close>

lemma desktopVal_fields [simp]:
  "get_prop (desktopVal d) (js ''id'') = Inr (Some (JStr (di_id d)))"
  "get_prop_opt (desktopVal d) (js ''id'') = Some (JStr (di_id d))"
  "textField ''id'' (desktopVal d) = di_id d" "textField ''name'' (desktopVal d) = di_name d"
  "textField ''username'' (desktopVal d) = di_username d" "textField ''url'' (desktopVal d) = di_url d"
  by (simp_all add: desktopVal_def get_prop_def get_prop_opt_def own_props_def)

lemma editorRefuses_nameless [simp]: "editorRefuses (desktopVal d) = nameless d"
  by (simp add: editorRefuses_def nameless_def)

lemma desktopVal_plain: "items_plain (map desktopVal ds)"
  by (simp add: items_plain_def desktopVal_def obj_of_id)

lemma withItemId_typed:
  "\<exists>i n. withItemId (desktopVal d) w = (Inr (desktopVal (if di_id d = [] then d\<lparr>di_id := i\<rparr> else d)), w\<lparr>drawn := n\<rparr>)"
proof (cases "di_id d = []")
  case True
  obtain i n where "newItemId w = (Inr i, w\<lparr>drawn := n\<rparr>)"
    by (simp add: newItemId_def act_simps)
  then show ?thesis
    using True by (intro exI [of _ i] exI [of _ n])
      (simp add: withItemId_def returnA_def, simp add: desktopVal_def own_props_def)
next
  case False
  then show ?thesis
    by (intro exI [of _ "[]"] exI [of _ "drawn w"]) (simp add: withItemId_def returnA_def)
qed

lemma anyId_typed: "anyId (Some (JStr i)) (map desktopVal ds) = Inr (i \<in> di_id ` set ds)"
  by (induction ds) auto

lemma replaceId_typed:
  "replaceId (Some (JStr i)) (desktopVal d) (map desktopVal ds)
    = Inr (map desktopVal (map (\<lambda>e. if di_id e = i then d else e) ds))"
  by (induction ds) auto

lemma dropId_typed: "dropId (Some (JStr i)) (map desktopVal ds) = Inr (map desktopVal (filter (\<lambda>e. di_id e \<noteq> i) ds))"
  by (induction ds) auto

lemma recents_hold_update [simp]:
  "recents_hold P (w\<lparr>drawn := n\<rparr>) rs = recents_hold P w rs" "recents_hold P (w\<lparr>disk := d\<rparr>) rs = recents_hold P w rs"
proof -
  have "readRecents P v = (mapR (\<lambda>_. case readRecents P v of (Inr x, _) \<Rightarrow> x | _ \<Rightarrow> []) (Inr ()), v)" for v
    by (auto simp: readRecents_def read_recents_def catchA_def bindA_def liftA_def returnA_def split: sum.splits)
  moreover have "fst (readRecents P (w\<lparr>drawn := n\<rparr>)) = fst (readRecents P w)"
    "fst (readRecents P (w\<lparr>disk := d\<rparr>)) = fst (readRecents P w)"
    by (auto simp: readRecents_def read_recents_def catchA_def bindA_def liftA_def returnA_def split: sum.splits)
  ultimately show "recents_hold P (w\<lparr>drawn := n\<rparr>) rs = recents_hold P w rs"
      "recents_hold P (w\<lparr>disk := d\<rparr>) rs = recents_hold P w rs"
    unfolding recents_hold_def by (metis fst_conv)+
qed

lemma write_works:
  assumes "disk_works P"
  obtains d where "write_vault P path c w = (Inr (), w\<lparr>disk := d\<rparr>)"
proof -
  have "fst (fs_write P path c (disk w)) = Inr ()"
    using assms by (simp add: disk_works_def)
  then obtain d where "fs_write P path c (disk w) = (Inr (), d)"
    by (cases "fs_write P path c (disk w)") simp
  then show thesis
    by (intro that [of d]) (simp add: write_vault_def)
qed

lemma commit_works:
  fixes w :: dworld
  assumes P: "webcrypto_ok P" "disk_works P" and v: "in_memory P path pw uk v"
  obtains n d where "commit P v (map desktopVal ds) w = (Inr (v\<lparr>dv_items := map desktopVal ds\<rparr>), w\<lparr>drawn := n, disk := d\<rparr>)"
    "on_disk P path pw uk (map desktopVal ds) (w\<lparr>drawn := n, disk := d\<rparr>)"
proof -
  let ?v = "v\<lparr>dv_items := map desktopVal ds\<rparr>"
  have m: "in_memory P path pw uk ?v" "items_plain (dv_items ?v)"
    using v by (simp_all add: in_memory_def desktopVal_plain)
  obtain f where f: "serialize P (dv_state ?v) (encodePayload P (dv_items ?v)) w = (Inr f, w\<lparr>drawn := drawn w + 12\<rparr>)"
    using serialize_ok [OF webcrypto_aes [OF P(1)] _ payload_text [OF m(2)], of pw "dv_state ?v" P w] m(1)
    by (auto simp: in_memory_def)
  obtain d where d: "write_vault P path f (w\<lparr>drawn := drawn w + 12\<rparr>) = (Inr (), w\<lparr>drawn := drawn w + 12, disk := d\<rparr>)"
    by (rule write_works [OF P(2)])
  have p: "persist P ?v w = (Inr (), w\<lparr>drawn := drawn w + 12, disk := d\<rparr>)"
    using f d m(1) by (simp add: persist_def saveVault_def in_memory_def)
  then have "on_disk P path pw uk (map desktopVal ds) (w\<lparr>drawn := drawn w + 12, disk := d\<rparr>)"
    using saved_ok [OF P(1) _ m p] P(2) by (simp add: disk_works_def)
  with p show thesis
    by (intro that [where n = "drawn w + 12" and d = d]) (simp_all add: commit_def returnA_def)
qed

lemma rekey_works:
  fixes w :: dworld
  assumes P: "webcrypto_ok P" "disk_works P" and v: "in_memory P path pw uk v" "items_plain (dv_items v)"
    and s: "secret_ok P pw' DEFAULT_KDF"
  obtains st n d where "rekey P v pw' w = (Inr (v\<lparr>dv_state := st\<rparr>), w\<lparr>drawn := n, disk := d\<rparr>)"
    "on_disk P path pw' uk (dv_items v) (w\<lparr>drawn := n, disk := d\<rparr>)" "in_memory P path pw' uk (v\<lparr>dv_state := st\<rparr>)"
proof -
  have k: "32 \<le> length (vs_userKey (dv_state v))"
    using v(1) vault_holds_key by (auto simp: in_memory_def)
  obtain f st where f: "changeMasterPassword P (dv_state v) pw' (encodePayload P (dv_items v)) (Some DEFAULT_KDF) w
        = (Inr (f, st), w\<lparr>drawn := drawn w + 40\<rparr>)"
    using changeMasterPassword_ok [OF P(1) s payload_text [OF v(2)] k, of P w] by blast
  obtain d where "write_vault P path f (w\<lparr>drawn := drawn w + 40\<rparr>) = (Inr (), w\<lparr>drawn := drawn w + 40, disk := d\<rparr>)"
    by (rule write_works [OF P(2)])
  then have "rekey P v pw' w = (Inr (v\<lparr>dv_state := st\<rparr>), w\<lparr>drawn := drawn w + 40, disk := d\<rparr>)"
    using f v(1) by (simp add: rekey_def returnA_def in_memory_def)
  then show thesis
    using rekeyed_ok [OF P(1) _ v s] P(2) that unfolding disk_works_def by fastforce
qed

text \<open>The list of recent vaults after \<open>adopt\<close>.\<close>

lemma adopt_works:
  fixes w :: dworld
  assumes P: "disk_works P" and w: "recents_hold P w rs" "\<bar>date w\<bar> \<le> 2 ^ 53"
  obtains w' rs' where "adopt P v u w = (Inr (), showVault v u, w')" "recents_hold P w' rs'" "disk w' = disk w" "date w' = date w"
proof -
  obtain w' rs' where r: "rememberRecent P (dv_path v) w = (Inr (), w')" "recents_hold P w' rs'" "disk w' = disk w"
    using rememberRecent_refines [OF _ _ w] P unfolding disk_works_def by blast
  have "date w' = date w"
    using r(1) w(1) by (auto simp: rememberRecent_def recents_hold_def bindA_def write_recents_def split: sum.splits)
  then show thesis
    using r by (intro that [of w' rs']) (simp_all add: adopt_def)
qed

section \<open>Refinement\<close>

lemma simulates_closed:
  "ui_vault u = None \<Longrightarrow> simulates P path uk s (u, w) \<longleftrightarrow>
     on_disk P path (sp_password s) uk (map desktopVal (sp_items s)) w \<and> (\<exists>rs. recents_hold P w rs)
     \<and> \<bar>date w\<bar> \<le> 2 ^ 53 \<and> \<not> sp_open s \<and> ui_screen u = UnlockAt path"
  by (simp add: simulates_def)

lemma simulates_open:
  "ui_vault u = Some v \<Longrightarrow> simulates P path uk s (u, w) \<longleftrightarrow>
     on_disk P path (sp_password s) uk (map desktopVal (sp_items s)) w \<and> (\<exists>rs. recents_hold P w rs)
     \<and> \<bar>date w\<bar> \<le> 2 ^ 53 \<and> sp_open s \<and> in_memory P path (sp_password s) uk v \<and> dv_items v = map desktopVal (sp_items s)"
  by (simp add: simulates_def)

lemma showVault_vault [simp]: "ui_vault (showVault v u) = Some v"
  by (simp add: showVault_def)

lemma save_simulates:
  assumes P: "webcrypto_ok P" "disk_works P" and s: "simulates P path uk s (u, w)"
  shows "\<exists>i. simulates P path uk (spec i (DoSave d) s) (perform P (DoSave d) (u, w))"
proof (cases "ui_vault u")
  case None
  then show ?thesis
    using s by (simp add: simulates_closed editorSave_def saveItemUI_def)
next
  case (Some v)
  note o = s [unfolded simulates_open [OF Some]]
  show ?thesis
  proof (cases "nameless d")
    case True
    then show ?thesis
      using s by (simp add: editorSave_def)
  next
    case False
    obtain i n where i: "withItemId (desktopVal d) w
        = (Inr (desktopVal (if di_id d = [] then d\<lparr>di_id := i\<rparr> else d)), w\<lparr>drawn := n\<rparr>)"
      using withItemId_typed by blast
    let ?d = "if di_id d = [] then d\<lparr>di_id := i\<rparr> else d"
    let ?ds = "upsert ?d (sp_items s)"
    have items: "bindA (withItemId (desktopVal d)) (\<lambda>withId.
        bindA (liftA (anyId (get_prop_opt withId (js ''id'')) (dv_items v))) (\<lambda>exists.
        bindA (liftA (if exists then replaceId (get_prop_opt withId (js ''id'')) withId (dv_items v)
          else Inr (dv_items v @ [withId]))) (\<lambda>items.
        returnA (withId, items)))) w = (Inr (desktopVal ?d, map desktopVal ?ds), w\<lparr>drawn := n\<rparr>)"
      using o by (subst bindA_Inr [where m = "withItemId (desktopVal d)" and w = w, OF i]) (simp add: act_simps anyId_typed replaceId_typed upsert_def del: map_map)
    obtain n' d' where c: "commit P v (map desktopVal ?ds) (w\<lparr>drawn := n\<rparr>)
          = (Inr (v\<lparr>dv_items := map desktopVal ?ds\<rparr>), w\<lparr>drawn := n\<rparr>\<lparr>drawn := n', disk := d'\<rparr>)"
        "on_disk P path (sp_password s) uk (map desktopVal ?ds) (w\<lparr>drawn := n\<rparr>\<lparr>drawn := n', disk := d'\<rparr>)"
      using commit_works [OF P, of path "sp_password s" uk v ?ds "w\<lparr>drawn := n\<rparr>"] o by blast
    have "\<exists>u'. perform P (DoSave d) (u, w) = (u', w\<lparr>drawn := n', disk := d'\<rparr>)
        \<and> ui_vault u' = Some (v\<lparr>dv_items := map desktopVal ?ds\<rparr>)"
      using False Some items c(1) by (simp add: editorSave_def saveItemUI_def)
    then obtain u' where "perform P (DoSave d) (u, w) = (u', w\<lparr>drawn := n', disk := d'\<rparr>)"
        "ui_vault u' = Some (v\<lparr>dv_items := map desktopVal ?ds\<rparr>)"
      by blast
    then show ?thesis
      using o c(2) False by (intro exI [of _ i]) (simp add: simulates_open in_memory_def)
  qed
qed

lemma delete_simulates:
  assumes P: "webcrypto_ok P" "disk_works P" and s: "simulates P path uk s (u, w)"
  shows "simulates P path uk (spec i (DoDelete d) s) (perform P (DoDelete d) (u, w))"
proof (cases "ui_vault u")
  case None
  then show ?thesis
    using s by (simp add: simulates_closed deleteItemUI_def)
next
  case (Some v)
  note o = s [unfolded simulates_open [OF Some]]
  let ?ds = "filter (\<lambda>e. di_id e \<noteq> di_id d) (sp_items s)"
  obtain n d' where c: "commit P v (map desktopVal ?ds) w = (Inr (v\<lparr>dv_items := map desktopVal ?ds\<rparr>), w\<lparr>drawn := n, disk := d'\<rparr>)"
      "on_disk P path (sp_password s) uk (map desktopVal ?ds) (w\<lparr>drawn := n, disk := d'\<rparr>)"
    using commit_works [OF P, of path "sp_password s" uk v ?ds w] o by blast
  have "\<exists>u'. perform P (DoDelete d) (u, w) = (u', w\<lparr>drawn := n, disk := d'\<rparr>)
      \<and> ui_vault u' = Some (v\<lparr>dv_items := map desktopVal ?ds\<rparr>)"
    using Some o c(1) by (simp add: deleteItemUI_def dropId_typed act_simps del: map_map)
  then show ?thesis
    using o c(2) by (auto simp: simulates_open in_memory_def)
qed

lemma change_simulates:
  assumes P: "webcrypto_ok P" "disk_works P" and s: "simulates P path uk s (u, w)"
    and a: "masterPasswordIssue pw = None \<longrightarrow> secret_ok P pw DEFAULT_KDF"
  shows "simulates P path uk (spec i (DoChange pw confirm) s) (perform P (DoChange pw confirm) (u, w))"
proof (cases "ui_vault u")
  case None
  then show ?thesis
    using s by (simp add: simulates_closed changePasswordUI_def)
next
  case (Some v)
  note o = s [unfolded simulates_open [OF Some]]
  show ?thesis
  proof (cases "masterPasswordIssue pw = None \<and> pw = confirm")
    case False
    then show ?thesis
      using s Some o by (auto simp: changePasswordUI_def split: option.split)
  next
    case True
    obtain st n d where "rekey P v pw w = (Inr (v\<lparr>dv_state := st\<rparr>), w\<lparr>drawn := n, disk := d\<rparr>)"
        "on_disk P path pw uk (dv_items v) (w\<lparr>drawn := n, disk := d\<rparr>)" "in_memory P path pw uk (v\<lparr>dv_state := st\<rparr>)"
      using rekey_works [OF P, of path "sp_password s" uk v pw w] o a True desktopVal_plain by metis
    then show ?thesis
      using Some o True by (auto simp: changePasswordUI_def simulates_open)
  qed
qed

lemma unlock_simulates:
  assumes P: "webcrypto_ok P" "disk_works P" and s: "simulates P path uk s (u, w)" and a: "pw = sp_password s"
  shows "simulates P path uk (spec i (DoUnlock pw) s) (perform P (DoUnlock pw) (u, w))"
proof (cases "ui_vault u")
  case (Some v)
  then show ?thesis
    using s a by (simp add: simulates_open)
next
  case None
  note c = s [unfolded simulates_closed [OF None]]
  obtain rs where rs: "recents_hold P w rs"
    using c by blast
  obtain st where o: "openExistingVault P path pw w
      = (Inr \<lparr>dv_path = path, dv_state = st, dv_items = map desktopVal (sp_items s)\<rparr>, w)" "vault_holds P pw st" "vs_userKey st = uk"
    using on_disk_opens [of P path pw uk "map desktopVal (sp_items s)" w] c a by blast
  let ?v = "\<lparr>dv_path = path, dv_state = st, dv_items = map desktopVal (sp_items s)\<rparr>"
  obtain w' rs' where r: "adopt P ?v u w = (Inr (), showVault ?v u, w')" "recents_hold P w' rs'" "disk w' = disk w" "date w' = date w"
    using adopt_works [OF P(2) rs] c by blast
  have "perform P (DoUnlock pw) (u, w) = (showVault ?v u, w')"
    using None c o(1) r(1) by (simp add: submitOpen_def)
  then show ?thesis
    using c o r a by (auto simp: simulates_open in_memory_def on_disk_def)
qed

lemma perform_simulates:
  assumes P: "webcrypto_ok P" "disk_works P" and s: "simulates P path uk s (u, w)" and a: "allowed P a s"
  shows "\<exists>i. simulates P path uk (spec i a s) (perform P a (u, w))"
proof (cases a)
  case (DoSave d)
  then show ?thesis
    using save_simulates [OF P s] by simp
next
  case (DoDelete d)
  then show ?thesis
    using delete_simulates [OF P s] by blast
next
  case (DoChange pw confirm)
  then show ?thesis
    using change_simulates [OF P s] a by simp
next
  case DoLock
  then show ?thesis
    using s by (cases "ui_vault u") (auto simp: simulates_open simulates_closed lockVault_def in_memory_def)
next
  case (DoUnlock pw)
  then show ?thesis
    using unlock_simulates [OF P s] a by simp
qed

text \<open>The ids of new items do not matter for what is permitted.\<close>

lemma spec_password: "sp_password (spec i a s) = sp_password (spec j a s)" "sp_open (spec i a s) = sp_open (spec j a s)"
  by (cases a; simp)+

lemma spec_password_cong:
  "sp_password s = sp_password t \<Longrightarrow> sp_open s = sp_open t \<Longrightarrow>
     sp_password (spec i a s) = sp_password (spec i a t) \<and> sp_open (spec i a s) = sp_open (spec i a t)"
  by (cases a) auto

lemma permitted_cong:
  "sp_password s = sp_password t \<Longrightarrow> sp_open s = sp_open t \<Longrightarrow> permitted P as s = permitted P as t"
proof (induction as arbitrary: s t)
  case (Cons a as)
  have "allowed P a s = allowed P a t"
    using Cons.prems by (cases a) simp_all
  moreover have "permitted P as (spec [] a s) = permitted P as (spec [] a t)"
    by (rule Cons.IH) (use spec_password_cong [OF Cons.prems] in blast)+
  ultimately show ?case
    by (simp only: permitted.simps)
qed simp

lemma run_simulates:
  assumes P: "webcrypto_ok P" "disk_works P"
  shows "simulates P path uk s x \<Longrightarrow> permitted P as s \<Longrightarrow>
    \<exists>is. length is = length as \<and> simulates P path uk (spec_run is as s) (fold (perform P) as x)"
proof (induction as arbitrary: s x)
  case (Cons a as)
  obtain u w where x: "x = (u, w)"
    by (cases x)
  obtain i where i: "simulates P path uk (spec i a s) (perform P a x)"
    using perform_simulates [OF P, of path uk s u w a] Cons.prems x by auto
  have "permitted P as (spec i a s)"
    using Cons.prems(2) permitted_cong [OF spec_password(1) spec_password(2), of P as i a s "[]"] by simp
  then obtain "is" where "length is = length as" "simulates P path uk (spec_run is as (spec i a s)) (fold (perform P) as (perform P a x))"
    using Cons.IH [OF i] by blast
  then show ?case
    by (intro exI [of _ "i # is"]) simp
qed (intro exI [of _ "[]"], simp)

lemma created_simulates:
  fixes w :: dworld
  assumes P: "webcrypto_ok P" "disk_works P" and w: "recents_hold P w rs" "\<bar>date w\<bar> \<le> 2 ^ 53"
    and pw: "masterPasswordIssue pw = None" "secret_ok P pw DEFAULT_KDF" and u: "ui_vault u = None"
  shows "\<exists>uk u1 w1. submitCreate P path pw pw u w = (Inr None, u1, w1)
    \<and> simulates P path uk \<lparr>sp_password = pw, sp_items = [], sp_open = True\<rparr> (u1, w1)"
proof -
  have e: "plain_text (encodePayload P [])"
    by (rule payload_text) (simp add: items_plain_def)
  obtain f st where c: "createVault P pw (encodePayload P []) (Some DEFAULT_KDF) w = (Inr (f, st), w\<lparr>drawn := drawn w + 104\<rparr>)"
    using createVault_ok [OF P(1) pw(2) e, of w] by blast
  obtain d where d: "write_vault P path f (w\<lparr>drawn := drawn w + 104\<rparr>) = (Inr (), w\<lparr>drawn := drawn w + 104, disk := d\<rparr>)"
    by (rule write_works [OF P(2)])
  let ?v = "\<lparr>dv_path = path, dv_state = st, dv_items = []\<rparr>" and ?w = "w\<lparr>drawn := drawn w + 104, disk := d\<rparr>"
  have v: "createNewVault P path pw w = (Inr ?v, ?w)"
    using c d by (simp add: createNewVault_def returnA_def)
  have fs: "fs_ok P"
    using P(2) by (simp add: disk_works_def)
  have k: "on_disk P path pw (vs_userKey st) [] ?w" "in_memory P path pw (vs_userKey st) ?v"
    using created_ok [OF P(1) fs pw(2) v] by simp_all
  obtain w1 rs1 where r: "adopt P ?v u ?w = (Inr (), showVault ?v u, w1)" "recents_hold P w1 rs1" "disk w1 = disk ?w"
      "date w1 = date ?w"
    using adopt_works [OF P(2), of ?w rs ?v u] w by auto
  have "submitCreate P path pw pw u w = (Inr None, showVault ?v u, w1)"
    using pw(1) v r(1) by (simp add: submitCreate_def)
  moreover have "simulates P path (vs_userKey st) \<lparr>sp_password = pw, sp_items = [], sp_open = True\<rparr> (showVault ?v u, w1)"
    using k r w by (auto simp: simulates_open on_disk_def)
  ultimately show ?thesis
    by blast
qed

text \<open>Typing into the editor is editing the item.\<close>

definition putDesk :: "string \<Rightarrow> jsstring \<Rightarrow> DesktopItem \<Rightarrow> DesktopItem" where
  "putDesk k t d =
     (if k = ''name'' then d\<lparr>di_name := t\<rparr> else if k = ''username'' then d\<lparr>di_username := t\<rparr>
      else if k = ''password'' then d\<lparr>di_password := t\<rparr> else if k = ''url'' then d\<lparr>di_url := t\<rparr>
      else if k = ''notes'' then d\<lparr>di_notes := t\<rparr> else d)"

lemma deskEdits_item:
  "\<forall>(k, t) \<in> set kts. k \<in> set DESK_TEXTS \<Longrightarrow> deskEdits kts (desktopVal d) = desktopVal (fold (\<lambda>(k, t). putDesk k t) kts d)"
proof (induction kts arbitrary: d)
  case (Cons kt kts)
  obtain k t where kt: "kt = (k, t)"
    by (cases kt)
  have "setText k t (desktopVal d) = desktopVal (putDesk k t d)"
    using Cons.prems by (auto simp: kt DESK_TEXTS_def setText_def spread_def desktopVal_def putDesk_def own_props_def key_before_def)
  then show ?case
    using Cons by (simp add: kt)
qed simp

lemma editor_performs:
  assumes "\<forall>(k, t) \<in> set kts. k \<in> set DESK_TEXTS"
  shows "snd (editorSave P (deskEdits kts (desktopVal d)) u w)
    = perform P (DoSave (fold (\<lambda>(k, t). putDesk k t) kts d)) (u, w)"
  by (simp add: deskEdits_item [OF assms])

lemma listed_all: "mset (listedItems J collate query items) = mset (foundItems J query items)"
  by (simp add: listedItems_def sortBy_mset)

text \<open>C5: the desktop client is a list of items behind a password. From a vault created in it, by any sequence of saving
  and deleting items, changing the password, locking, and unlocking with the password in force, on a disk that
  works: the vault is open when it should be, what it shows is the abstract list, in which a saved item replaces the one
  with its id or comes last, and what the file opens to with the current password is that list, shown or not.\<close>

theorem desktop_refines:
  fixes w :: dworld
  assumes P: "webcrypto_ok P" "disk_works P" and w: "recents_hold P w rs" "\<bar>date w\<bar> \<le> 2 ^ 53"
    and pw: "masterPasswordIssue pw = None" "secret_ok P pw DEFAULT_KDF" and u: "ui_vault u = None"
    and as: "permitted P as \<lparr>sp_password = pw, sp_items = [], sp_open = True\<rparr>"
  shows "\<exists>u1 w1 is s u2 w2. submitCreate P path pw pw u w = (Inr None, u1, w1)
    \<and> length is = length as \<and> s = spec_run is as \<lparr>sp_password = pw, sp_items = [], sp_open = True\<rparr>
    \<and> fold (perform P) as (u1, w1) = (u2, w2)
    \<and> map_option dv_items (ui_vault u2) = (if sp_open s then Some (map desktopVal (sp_items s)) else None)
    \<and> (\<exists>v. openExistingVault P path (sp_password s) w2 = (Inr v, w2) \<and> dv_items v = map desktopVal (sp_items s))"
proof -
  obtain uk u1 w1 where c: "submitCreate P path pw pw u w = (Inr None, u1, w1)"
      "simulates P path uk \<lparr>sp_password = pw, sp_items = [], sp_open = True\<rparr> (u1, w1)"
    using created_simulates [OF P w pw u] by blast
  obtain "is" where i: "length is = length as"
      "simulates P path uk (spec_run is as \<lparr>sp_password = pw, sp_items = [], sp_open = True\<rparr>) (fold (perform P) as (u1, w1))"
    using run_simulates [OF P c(2) as] by blast
  let ?s = "spec_run is as \<lparr>sp_password = pw, sp_items = [], sp_open = True\<rparr>"
  obtain u2 w2 where x: "fold (perform P) as (u1, w1) = (u2, w2)"
    by fastforce
  have "map_option dv_items (ui_vault u2) = (if sp_open ?s then Some (map desktopVal (sp_items ?s)) else None)"
    using i(2) unfolding x by (auto simp: simulates_def split: option.splits)
  moreover have "on_disk P path (sp_password ?s) uk (map desktopVal (sp_items ?s)) w2"
    using i(2) unfolding x by (simp add: simulates_def)
  then have "\<exists>v. openExistingVault P path (sp_password ?s) w2 = (Inr v, w2) \<and> dv_items v = map desktopVal (sp_items ?s)"
    using on_disk_opens by fastforce
  ultimately show ?thesis
    using c(1) i(1) x by blast
qed

section \<open>Launching\<close>

text \<open>The client starts where it was left. From a list of recent vaults it wrote, launching never fails, changes
  nothing on the disk, and offers to unlock the first of the list that still exists, or the start screen when none does.\<close>

theorem launch_offers_recent:
  fixes w :: dworld
  assumes "recents_hold P w rs"
  shows "launch P initialUI w = (Inr (), initialUI\<lparr>ui_screen :=
      (case filter (\<lambda>p. disk w p \<noteq> None) (map pathOf rs) of [] \<Rightarrow> Start | p # _ \<Rightarrow> UnlockAt p)\<rparr>, w)"
proof -
  have "bootScreen qs w = (Inr (case filter (\<lambda>p. disk w p \<noteq> None) (map pathOf qs) of [] \<Rightarrow> Start | p # _ \<Rightarrow> UnlockAt p), w)"
    if "\<forall>r \<in> set qs. recent_wf r" for qs
    using that
  proof (induction qs)
    case (Cons r qs)
    then obtain p where p: "get_prop r (js ''path'') = Inr (Some (JStr p))"
      by (auto simp: recent_wf_def)
    show ?case
      using Cons by (auto simp: p get_prop_path [OF p] act_simps vaultExists_def bindA_def)
  qed (simp add: returnA_def)
  then show ?thesis
    using assms by (simp add: launch_def recents_hold_def bindA_def)
qed

text \<open>The list of recent vaults stands between a password and its vault. When remembering a path fails, which a list
  holding \<open>null\<close> makes it do, the unlock form reports success and the vault is not shown; and at launch such a list
  leaves the boot screen.\<close>

lemma failed_remembering_hides_vault:
  assumes "openExistingVault P path pw w = (Inr v, w)" "fst (rememberRecent P (dv_path v) w) = Inl e" "ui_vault u = None"
  shows "\<exists>w'. submitOpen P path pw u w = (Inr None, u, w')"
  using assms by (cases "rememberRecent P (dv_path v) w") (simp add: submitOpen_def adopt_def)

lemma null_recents:
  assumes "readRecents P w = (Inr (JNull # rs), w)"
  shows "rememberRecent P path w = (Inl EType, w)" "launch P initialUI w = (Inl EType, initialUI, w)"
  using assms by (simp_all add: rememberRecent_def launch_def get_prop_def act_simps bindA_def)

section \<open>A desktop in use\<close>

lemma sample_disk_works: "disk_works sample_desktop"
  using sample_desktop_ok by (simp add: disk_works_def sample_desktop_def platform.defs dplatform.defs)

lemma sample_recents: "recents_hold sample_desktop sample_dworld []" "\<bar>date sample_dworld\<bar> \<le> 2 ^ 53"
proof -
  have "readRecents sample_desktop sample_dworld = (Inr [], sample_dworld)"
    using JSON_parse_empty
    by (simp add: readRecents_def read_recents_def sample_desktop_def platform.defs dplatform.defs sample_dworld_def
        world.defs dworld.defs catchA_def bindA_def liftA_def returnA_def)
  then show "recents_hold sample_desktop sample_dworld []"
    by (simp add: recents_hold_def)
qed (simp add: sample_dworld_def world.defs dworld.defs)

abbreviation sample_deskItem :: DesktopItem where
  "sample_deskItem \<equiv> \<lparr>di_id = [], di_name = js ''mail'', di_username = js ''me'', di_password = js ''secret'',
     di_url = [], di_notes = []\<rparr>"

theorem desktop_refines_witness:
  "\<exists>u1 w1 u2 w2 i v. submitCreate sample_desktop (js ''v'') (js ''a first password'') (js ''a first password'') initialUI
        sample_dworld = (Inr None, u1, w1)
    \<and> fold (perform sample_desktop) [DoSave sample_deskItem, DoChange (js ''a second password'') (js ''a second password''), DoLock]
        (u1, w1) = (u2, w2)
    \<and> ui_vault u2 = None
    \<and> openExistingVault sample_desktop (js ''v'') (js ''a second password'') w2 = (Inr v, w2)
    \<and> dv_items v = [desktopVal (sample_deskItem\<lparr>di_id := i\<rparr>)]"
proof -
  let ?P = sample_desktop and ?pw = "js ''a first password''" and ?pw2 = "js ''a second password''"
  let ?as = "[DoSave sample_deskItem, DoChange ?pw2 ?pw2, DoLock]"
  have s: "secret_ok ?P ?pw DEFAULT_KDF" "secret_ok ?P ?pw2 DEFAULT_KDF" "masterPasswordIssue ?pw = None"
    "masterPasswordIssue ?pw2 = None" "trim (js ''mail'') \<noteq> []"
    by code_simp+
  have n: "\<not> nameless sample_deskItem"
    using s(5) by (simp add: nameless_def)
  have "permitted ?P ?as \<lparr>sp_password = ?pw, sp_items = [], sp_open = True\<rparr>"
    using s(2) by simp
  from desktop_refines [OF sample_desktop_ok(1) sample_disk_works sample_recents s(3,1) _ this, of initialUI "js ''v''"]
  obtain u1 w1 "is" t u2 w2 where c: "submitCreate ?P (js ''v'') ?pw ?pw initialUI sample_dworld = (Inr None, u1, w1)"
      "fold (perform ?P) ?as (u1, w1) = (u2, w2)" "length is = length ?as"
      "t = spec_run is ?as \<lparr>sp_password = ?pw, sp_items = [], sp_open = True\<rparr>"
      "map_option dv_items (ui_vault u2) = (if sp_open t then Some (map desktopVal (sp_items t)) else None)"
      "\<exists>v. openExistingVault ?P (js ''v'') (sp_password t) w2 = (Inr v, w2) \<and> dv_items v = map desktopVal (sp_items t)"
    by (auto simp: initialUI_def simp del: fold.simps fold_simps)
  obtain i j k where "is = [i, j, k]"
    using c(3) by (auto simp: length_Suc_conv)
  then have "t = \<lparr>sp_password = ?pw2, sp_items = [sample_deskItem\<lparr>di_id := i\<rparr>], sp_open = False\<rparr>"
    using c(4) n s(4) by (simp add: upsert_def)
  then have "ui_vault u2 = None" "\<exists>v. openExistingVault ?P (js ''v'') ?pw2 w2 = (Inr v, w2) \<and> dv_items v = [desktopVal (sample_deskItem\<lparr>di_id := i\<rparr>)]"
    using c(5,6) by simp_all
  with c(1,2) show ?thesis
    by blast
qed

theorem launch_offers_recent_witness:
  "launch sample_desktop initialUI sample_dworld = (Inr (), initialUI\<lparr>ui_screen := Start\<rparr>, sample_dworld)"
  using launch_offers_recent [OF sample_recents(1)] by simp

end
