(* ===== verification/ImportDialog.thy ===== *)
theory ImportDialog
  imports Session Backup View
begin

text \<open>
  \<open>apps/web/src/ImportExport.tsx\<close>: the import and export dialog of the web vault. A file handed to the browser for
  download is appended to the hook record, with its name; reading a chosen file gives its text.
\<close>

section \<open>The dialog\<close>

record ImportExport =
  ie_exportPass :: jsstring
  ie_exportErr :: "shown option"
  ie_encrypted :: "jsstring option"
  ie_importPass :: jsstring
  ie_parsed :: "jsval list option"
  ie_importErr :: "shown option"
  ie_outcome :: "jsstring option"
  ie_progress :: "(nat \<times> nat) option"
  ie_downloads :: "(jsstring \<times> jsstring) list"

definition openDialog :: ImportExport where
  "openDialog = \<lparr>ie_exportPass = [], ie_exportErr = None, ie_encrypted = None, ie_importPass = [], ie_parsed = None,
     ie_importErr = None, ie_outcome = None, ie_progress = None, ie_downloads = []\<rparr>"

definition resetImport :: "ImportExport \<Rightarrow> ImportExport" where
  "resetImport d = d\<lparr>ie_encrypted := None, ie_importPass := [], ie_parsed := None, ie_importErr := None,
     ie_outcome := None, ie_progress := None\<rparr>"

definition download :: "jsstring \<Rightarrow> jsstring \<Rightarrow> ImportExport \<Rightarrow> ImportExport" where
  "download filename t d = d\<lparr>ie_downloads := ie_downloads d @ [(filename, t)]\<rparr>"

text \<open>\<open>today\<close> is the date in ISO form.\<close>

definition exportPlain :: "'z jsenv_scheme \<Rightarrow> jsstring \<Rightarrow> jsval list \<Rightarrow> bool \<Rightarrow> ImportExport \<Rightarrow> ImportExport result" where
  "exportPlain J today items csv d =
     mapR (\<lambda>t. download (js ''passwd-export-'' @ today @ js (if csv then ''.csv'' else ''.json'')) t d)
       (if csv then toCSV J items else toPlaintextJSON J items)"

definition exportEncrypted ::
  "'z platform_scheme \<Rightarrow> jsstring \<Rightarrow> jsval list \<Rightarrow> ImportExport \<Rightarrow> 'y world_scheme
   \<Rightarrow> bool result \<times> ImportExport \<times> 'y world_scheme" where
  "exportEncrypted P today items d w =
     (if length (ie_exportPass d) < 8
      then (Inr False, d\<lparr>ie_exportErr := Some (Says (js ''Use a backup passphrase of at least 8 characters.''))\<rparr>, w)
      else (case bindA (liftA (toPlaintextJSON P items)) (\<lambda>t. encryptBackup P t (ie_exportPass d) (Some DEFAULT_KDF)) w of
          (Inl e, w') \<Rightarrow> (Inl e, d\<lparr>ie_exportErr := None\<rparr>, w')
        | (Inr f, w') \<Rightarrow>
            (Inr True, (download (js ''passwd-backup-'' @ today @ js ''.json'') f d)\<lparr>ie_exportErr := None, ie_exportPass := []\<rparr>, w')))"

definition tryParse :: "'z jsenv_scheme \<Rightarrow> jsstring \<Rightarrow> ImportExport \<Rightarrow> ImportExport" where
  "tryParse J t d =
     (case parseVaultImport J t of
        Inr items \<Rightarrow> d\<lparr>ie_parsed := Some items, ie_importErr := None\<rparr>
      | Inl e \<Rightarrow> d\<lparr>ie_parsed := None, ie_importErr := Some (Failed e)\<rparr>)"

definition onFile :: "'z jsenv_scheme \<Rightarrow> jsstring option \<Rightarrow> ImportExport \<Rightarrow> ImportExport" where
  "onFile J file d =
     (case file of
        None \<Rightarrow> resetImport d
      | Some t \<Rightarrow> if isBackupEnvelope t then (resetImport d)\<lparr>ie_encrypted := Some t\<rparr> else tryParse J t (resetImport d))"

definition decryptFile :: "'z platform_scheme \<Rightarrow> ImportExport \<Rightarrow> ImportExport" where
  "decryptFile P d =
     (case ie_encrypted d of
        None \<Rightarrow> d
      | Some f \<Rightarrow>
          (case decryptBackup P f (ie_importPass d) of
             Inl e \<Rightarrow> d\<lparr>ie_importErr := Some (Failed e)\<rparr>
           | Inr t \<Rightarrow> tryParse P t d))"

definition importedMessage :: "nat \<Rightarrow> nat \<Rightarrow> jsstring" where
  "importedMessage added failed =
     js ''Imported '' @ nat_str added @ js '' item'' @ (if added = 1 then [] else js ''s'')
     @ (if failed \<noteq> 0 then js '', '' @ nat_str failed @ js '' failed'' else []) @ js ''.''"

definition runImport ::
  "('n, 'z) service_scheme \<Rightarrow> Session \<Rightarrow> ImportExport \<Rightarrow> ('n, 'y) networld_scheme
   \<Rightarrow> ImportExport \<times> ('n, 'y) networld_scheme" where
  "runImport P s d w =
     (case ie_parsed d of
        None \<Rightarrow> (d, w)
      | Some items \<Rightarrow>
          (case importItems P s items 0 0 w of
             (Inr (a, f), w') \<Rightarrow> (d\<lparr>ie_progress := None, ie_parsed := None, ie_outcome := Some (importedMessage a f)\<rparr>, w')
           | (Inl _, w') \<Rightarrow> (d\<lparr>ie_progress := Some (0, length items)\<rparr>, w')))"

section \<open>Items of the vault\<close>

text \<open>An item as the vault holds it, and as its export writes it.\<close>

definition vaultVal :: "jsstring \<Rightarrow> ItemFields \<Rightarrow> jsval" where
  "vaultVal c i = withId [(js ''id'', JStr c)] (itemVal i)"

definition exportVal :: "jsstring \<Rightarrow> ItemFields \<Rightarrow> jsval" where
  "exportVal c i = JObj (own_props (itemVal i) @ [(js ''id'', JStr c)])"

lemma exportVal_wf:
  assumes "item_fields_ok i"
  shows "item_wf (exportVal c i)" "plain (exportVal c i)"
proof -
  let ?kvs = "own_props (exportVal c i)"
  have e: "exportVal c i = JObj ?kvs"
    by (simp add: exportVal_def own_props_def)
  have "extends_keys (blankFields (js ''login'')) ?kvs"
    by (simp add: extends_keys_def exportVal_def itemVal_def own_props_def blankFields_def)
  then have "item_wf (JObj ?kvs)"
    unfolding item_wf_def using assms
    by (intro exI [of _ ?kvs] exI [of _ "it_card i"] exI [of _ "it_identity i"] exI [of _ "it_fields i"]
        exI [of _ "it_favorite i"])
      (auto simp: exportVal_def itemVal_def own_props_def item_fields_ok_def text_at_def TEXT_KEYS_def)
  with e show "item_wf (exportVal c i)"
    by simp
  have "plain (itemVal i)"
    by (rule itemVal_plain [OF assms])
  then show "plain (exportVal c i)"
    by (simp add: exportVal_def itemVal_def own_props_def obj_of_id)
qed

lemma vaultVal_props: "vaultVal c i = JObj ((js ''id'', JStr c) # own_props (itemVal i))"
proof -
  have "obj_assign [(js ''id'', JStr c)] (own_props (itemVal i)) = [(js ''id'', JStr c)] @ own_props (itemVal i)"
    by (rule obj_assign_append) (simp_all add: itemVal_def own_props_def)
  then show ?thesis
    by (simp add: vaultVal_def withId_def)
qed

lemma normalize_vaultVal:
  assumes "item_fields_ok i"
  shows "normalizeItemFields J (vaultVal c i) = Inr (exportVal c i)"
  unfolding vaultVal_props exportVal_def
proof (rule normalizeItemFields_reorder)
  show "item_wf (JObj (own_props (itemVal i) @ [(js ''id'', JStr c)]))"
    using exportVal_wf(1) [OF assms] by (simp add: exportVal_def)
  show "obj_get ((js ''id'', JStr c) # own_props (itemVal i)) = obj_get (own_props (itemVal i) @ [(js ''id'', JStr c)])"
    by (auto simp: itemVal_def own_props_def fun_eq_iff)
  show "obj_assign (blankFields (js ''login'')) ((js ''id'', JStr c) # own_props (itemVal i))
      = own_props (itemVal i) @ [(js ''id'', JStr c)]"
    by (simp add: itemVal_def own_props_def blankFields_def key_before_def)
qed

lemma id_entry: "toLowerCase J (trim (js ''id'')) = js ''id''" "aliasOf (js ''id'') = None"
  by (rule key_lower, simp add: char_class_nat) (simp add: aliasOf_def ALIASES_def inherited_names_def)

lemma mapEntries_append:
  "mapEntries J (xs @ ys) flat = bindR (mapEntries J xs flat) (mapEntries J ys)"
proof (induction J xs flat rule: mapEntries.induct)
  case (2 J key v r flat)
  then show ?case
    by (auto simp: Let_def bindR_def split: option.split sum.split)
qed simp

lemma normalize_exportVal:
  assumes "item_fields_ok i"
  shows "normalize J (exportVal c i) = Inr (itemVal i)"
proof -
  have c: "carryStructured (obj_get (own_props (exportVal c i))) [''type'', ''card'', ''identity'', ''fields''] []
      = carryStructured (obj_get (own_props (itemVal i))) [''type'', ''card'', ''identity'', ''fields''] []"
    by (simp add: exportVal_def itemVal_def own_props_def)
  have p: "own_props (exportVal c i) = own_props (itemVal i) @ [(js ''id'', JStr c)]"
    by (simp add: exportVal_def own_props_def)
  have n: "itemVal i \<noteq> JNull" "exportVal c i \<noteq> JNull"
    by (simp_all add: exportVal_def itemVal_def)
  have "mapEntries J [(js ''id'', JStr c)] flat = Inr flat" for flat
    by (simp add: id_entry FAVORITE_KEYS_def FIELDS_def)
  then have "mapEntries J [(js ''id'', JStr c)] = Inr"
    by blast
  then have "mapEntries J (own_props (exportVal c i)) flat = mapEntries J (own_props (itemVal i)) flat" for flat
    unfolding p mapEntries_append by (cases "mapEntries J (own_props (itemVal i)) flat") simp_all
  then have "normalize J (exportVal c i) = normalize J (itemVal i)"
    by (simp only: normalize_def c n if_False)
  then show ?thesis
    by (simp add: normalize_itemVal [OF assms])
qed


section \<open>What is exported is imported\<close>

lemma exported_text:
  assumes "\<forall>(c, i) \<in> set items. item_fields_ok i"
  obtains t where "toPlaintextJSON J (map (\<lambda>(c, i). vaultVal c i) items) = Inr t"
    "parseVaultImport J t = imported (map (\<lambda>(c, i). itemVal i) items)" "\<not> isBackupEnvelope t" "plain_text t"
proof -
  let ?vs = "map (\<lambda>(c, i). exportVal c i) items"
  let ?kvs = "[(js ''format'', JStr EXPORT_FORMAT), (js ''version'', JNum (NInt EXPORT_VERSION)), (js ''items'', JArr ?vs)]"
  have "traverse (normalizeItemFields J) (map (\<lambda>(c, i). vaultVal c i) items) = Inr ?vs"
    using assms by (intro traverse_map) (fastforce simp: normalize_vaultVal)
  then have export: "toPlaintextJSON J (map (\<lambda>(c, i). vaultVal c i) items) = Inr (JSON_stringify J 2 (JObj ?kvs))"
    by (simp add: toPlaintextJSON_def)
  have plain: "plain (JObj ?kvs)"
    using assms exportVal_wf(2) by (auto simp: obj_of_id EXPORT_VERSION_def)
  then have parse: "JSON_parse (JSON_stringify J 2 (JObj ?kvs)) = Inr (JObj ?kvs)"
    by (rule json.dec_enc)
  have "traverse (normalize J) ?vs = Inr (map (\<lambda>(c, i). itemVal i) items)"
    using assms by (intro traverse_map) (fastforce simp: normalize_exportVal)
  then have "parseJSON J (JSON_stringify J 2 (JObj ?kvs)) = Inr (filter nonEmpty (map (\<lambda>(c, i). itemVal i) items))"
    by (simp add: parseJSON_def parse)
  then have "parseVaultImport J (JSON_stringify J 2 (JObj ?kvs)) = imported (map (\<lambda>(c, i). itemVal i) items)"
    using trim_object [of ?kvs J 2] by (simp add: parseVaultImport_def imported_def Let_def)
  moreover have "\<not> isBackupEnvelope (JSON_stringify J 2 (JObj ?kvs))"
    unfolding isBackupEnvelope_def parse by (simp add: EXPORT_FORMAT_def BACKUP_FORMAT_def)
  ultimately show thesis
    using that export plain_text_stringify [OF plain] by blast
qed

definition shownImport :: "jsval list result \<Rightarrow> ImportExport \<Rightarrow> bool" where
  "shownImport r d \<longleftrightarrow> (case r of
     Inr items \<Rightarrow> ie_parsed d = Some items \<and> ie_importErr d = None
   | Inl e \<Rightarrow> ie_parsed d = None \<and> ie_importErr d = Some (Failed e))"

lemma tryParse_shown: "shownImport (parseVaultImport J t) (tryParse J t d)"
  by (simp add: shownImport_def tryParse_def split: sum.split)

text \<open>C6: what one dialog exports another imports. The items of a vault, downloaded as plain JSON, are offered for import
  as soon as the file is chosen; downloaded as an encrypted backup, the chosen file is recognised and kept until
  its passphrase is given, and then the same items are offered: all that carry data, in order, under no id. Confirming
  then adds or counts as failed every one of them, and says so.\<close>

theorem export_then_import:
  fixes d d0 :: ImportExport
  assumes ok: "\<forall>(c, i) \<in> set items. item_fields_ok i" and P: "webcrypto_ok P"
    and pass: "8 \<le> length pass" "secret_ok P pass DEFAULT_KDF"
    and d: "ie_exportPass d = pass" "ie_downloads d = []"
  shows "(\<exists>name t. exportPlain P today (map (\<lambda>(c, i). vaultVal c i) items) False d = Inr (d\<lparr>ie_downloads := [(name, t)]\<rparr>)
      \<and> shownImport (imported (map (\<lambda>(c, i). itemVal i) items)) (onFile P (Some t) d0))
    \<and> (\<exists>d' w' name f. exportEncrypted P today (map (\<lambda>(c, i). vaultVal c i) items) d w = (Inr True, d', w')
      \<and> ie_downloads d' = [(name, f)]
      \<and> ie_encrypted (onFile P (Some f) d0) = Some f \<and> ie_parsed (onFile P (Some f) d0) = None
      \<and> shownImport (imported (map (\<lambda>(c, i). itemVal i) items)) (decryptFile P ((onFile P (Some f) d0)\<lparr>ie_importPass := pass\<rparr>)))
    \<and> (\<forall>(d1 :: ImportExport) found. ie_parsed d1 = Some found \<longrightarrow>
        (\<exists>a n w1. runImport Q s d1 v = (d1\<lparr>ie_progress := None, ie_parsed := None, ie_outcome := Some (importedMessage a n)\<rparr>, w1)
           \<and> a + n = length found))"
proof (intro conjI)
  obtain t where t: "toPlaintextJSON P (map (\<lambda>(c, i). vaultVal c i) items) = Inr t"
      "parseVaultImport P t = imported (map (\<lambda>(c, i). itemVal i) items)" "\<not> isBackupEnvelope t" "plain_text t"
    by (rule exported_text [OF ok])
  show "\<exists>name t. exportPlain P today (map (\<lambda>(c, i). vaultVal c i) items) False d = Inr (d\<lparr>ie_downloads := [(name, t)]\<rparr>)
      \<and> shownImport (imported (map (\<lambda>(c, i). itemVal i) items)) (onFile P (Some t) d0)"
    using t(1,3) d tryParse_shown [of P t "resetImport d0"] by (auto simp: exportPlain_def download_def onFile_def t(2))
  obtain f w' where f: "encryptBackup P t pass (Some DEFAULT_KDF) w = (Inr f, w')" "isBackupEnvelope f" "decryptBackup P f pass = Inr t"
    using backup_works [OF P pass(2) t(4), of w] by blast
  have e: "exportEncrypted P today (map (\<lambda>(c, i). vaultVal c i) items) d w
      = (Inr True, d\<lparr>ie_downloads := [(js ''passwd-backup-'' @ today @ js ''.json'', f)], ie_exportErr := None, ie_exportPass := []\<rparr>, w')"
    using t(1) f(1) pass d by (simp add: exportEncrypted_def download_def act_simps)
  show "\<exists>d' w' name f. exportEncrypted P today (map (\<lambda>(c, i). vaultVal c i) items) d w = (Inr True, d', w')
      \<and> ie_downloads d' = [(name, f)]
      \<and> ie_encrypted (onFile P (Some f) d0) = Some f \<and> ie_parsed (onFile P (Some f) d0) = None
      \<and> shownImport (imported (map (\<lambda>(c, i). itemVal i) items)) (decryptFile P ((onFile P (Some f) d0)\<lparr>ie_importPass := pass\<rparr>))"
    using e f(2,3) tryParse_shown [of P t "(resetImport d0)\<lparr>ie_encrypted := Some f, ie_importPass := pass\<rparr>"]
    by (intro exI [of _ "d\<lparr>ie_downloads := [(js ''passwd-backup-'' @ today @ js ''.json'', f)], ie_exportErr := None, ie_exportPass := []\<rparr>"]
        exI [of _ w'] exI [of _ "js ''passwd-backup-'' @ today @ js ''.json''"] exI [of _ f])
      (simp add: onFile_def resetImport_def decryptFile_def t(2))
  show "\<forall>(d1 :: ImportExport) found. ie_parsed d1 = Some found \<longrightarrow>
        (\<exists>a n w1. runImport Q s d1 v = (d1\<lparr>ie_progress := None, ie_parsed := None, ie_outcome := Some (importedMessage a n)\<rparr>, w1)
           \<and> a + n = length found)"
  proof (intro allI impI)
    fix d1 :: ImportExport and found
    assume p: "ie_parsed d1 = Some found"
    obtain a n w1 where "importItems Q s found 0 0 v = (Inr (a, n), w1)" "a + n = length found"
      using importItems_total [of Q s found 0 0 v] by auto
    with p show "\<exists>a n w1. runImport Q s d1 v = (d1\<lparr>ie_progress := None, ie_parsed := None,
        ie_outcome := Some (importedMessage a n)\<rparr>, w1) \<and> a + n = length found"
      by (auto simp: runImport_def)
  qed
qed

theorem export_then_import_witness:
  "\<exists>d w' name f. exportEncrypted sample_platform (js ''2025-01-01'') [vaultVal (js ''a'') sample_item]
        (openDialog\<lparr>ie_exportPass := js ''open sesame''\<rparr>) sample_world = (Inr True, d, w')
    \<and> ie_downloads d = [(name, f)]
    \<and> ie_parsed (decryptFile sample_platform ((onFile sample_platform (Some f) openDialog)\<lparr>ie_importPass := js ''open sesame''\<rparr>))
        = Some [itemVal sample_item]"
proof -
  have ok: "\<forall>(c, i) \<in> set [(js ''a'', sample_item)]. item_fields_ok i"
    by (simp add: sample_item_ok)
  have P: "webcrypto_ok sample_platform"
    by (simp add: webcrypto_ok_def sample_ok)
  have s: "secret_ok sample_platform (js ''open sesame'') DEFAULT_KDF"
    by code_simp
  have "nonEmpty (itemVal sample_item)"
    by (simp add: nonEmpty_def itemVal_def sample_item_def get_prop_opt_def own_props_def truthy_opt_def)
  then have i: "imported (map (\<lambda>(c, i). itemVal i) [(js ''a'', sample_item)]) = Inr [itemVal sample_item]"
    by (simp add: imported_def)
  from export_then_import [OF ok P _ s, of "openDialog\<lparr>ie_exportPass := js ''open sesame''\<rparr>" "js ''2025-01-01''" openDialog
      sample_world sample_service sample_session "sample_net []"]
  show ?thesis
    unfolding i by (auto simp: openDialog_def shownImport_def)
qed

end
