(* ===== verification/WebAuth.thy ===== *)
theory WebAuth
  imports Session Biometric Password View
begin

text \<open>
  \<open>apps/web/src/App.tsx\<close>: the web vault's shell and its sign-in screen. The sign-in screen is mounted while there is no
  session; locking discards the session, and the screen starts anew. The biometric plugin acts on the same world.
\<close>

section \<open>State\<close>

datatype Mode = Registering | SigningIn

record AuthForm =
  af_mode :: Mode
  af_identifier :: jsstring
  af_generated :: bool
  af_password :: jsstring
  af_confirm :: jsstring
  af_confirmId :: jsstring
  af_recover :: bool
  af_recoveryCode :: jsstring
  af_twoFactor :: "jsstring list option"
  af_totp :: jsstring
  af_error :: "shown option"
  af_bioAvailable :: bool
  af_bioEnrolled :: bool
  af_bioRemember :: bool

record WebApp =
  wa_session :: "Session option"
  wa_recovery :: "jsstring option"
  wa_lockAt :: "int option"
  wa_form :: AuthForm

definition blankForm :: AuthForm where
  "blankForm = \<lparr>af_mode = Registering, af_identifier = [], af_generated = False, af_password = [], af_confirm = [],
     af_confirmId = [], af_recover = False, af_recoveryCode = [], af_twoFactor = None, af_totp = [], af_error = None,
     af_bioAvailable = False, af_bioEnrolled = False, af_bioRemember = False\<rparr>"

definition IDLE_LOCK_WEB_MS :: int where
  "IDLE_LOCK_WEB_MS = 15 * 60 * 1000"

text \<open>Locking, by the button, the menu or the idle timer.\<close>

definition lockWeb :: "WebApp \<Rightarrow> WebApp" where
  "lockWeb a = a\<lparr>wa_recovery := None, wa_session := None, wa_lockAt := None, wa_form := blankForm\<rparr>"

text \<open>\<open>onAuthed\<close>: the session is set, and the effect of the new session starts the timer, at \<open>t\<close>. Any activity sets
  it again, and the timer fires when its time has come.\<close>

definition setSession :: "int \<Rightarrow> Session \<Rightarrow> WebApp \<Rightarrow> WebApp" where
  "setSession t s a = a\<lparr>wa_session := Some s, wa_lockAt := Some (t + IDLE_LOCK_WEB_MS)\<rparr>"

definition resetTimer :: "int \<Rightarrow> WebApp \<Rightarrow> WebApp" where
  "resetTimer t a = (if wa_session a = None then a else a\<lparr>wa_lockAt := Some (t + IDLE_LOCK_WEB_MS)\<rparr>)"

definition timerFires :: "int \<Rightarrow> WebApp \<Rightarrow> WebApp" where
  "timerFires t a = (case wa_lockAt a of None \<Rightarrow> a | Some l \<Rightarrow> if l \<le> t then lockWeb a else a)"

section \<open>The sign-in screen\<close>

definition formNeedsTotp :: "AuthForm \<Rightarrow> bool" where
  "formNeedsTotp f \<longleftrightarrow> (case af_twoFactor f of None \<Rightarrow> False | Some ms \<Rightarrow> js ''totp'' \<in> set ms)"

definition formCanPasskey :: "AuthForm \<Rightarrow> bool" where
  "formCanPasskey f \<longleftrightarrow> (case af_twoFactor f of None \<Rightarrow> False | Some ms \<Rightarrow> js ''webauthn'' \<in> set ms)"

type_synonym 'n authworld = "'n networld"
type_synonym 'n auth_handler = "WebApp \<Rightarrow> 'n networld \<Rightarrow> WebApp \<times> 'n networld"

definition showError :: "shown option \<Rightarrow> WebApp \<Rightarrow> WebApp" where
  "showError e a = a\<lparr>wa_form := (wa_form a)\<lparr>af_error := e\<rparr>\<rparr>"

text \<open>The two probes at mount never reject.\<close>

definition probeBiometric :: "'n networld native \<Rightarrow> 'n auth_handler" where
  "probeBiometric N a w =
     (case biometricAvailable N w of
        (Inr True, w') \<Rightarrow>
          (case biometricEnrolled N w' of
             (Inr b, w'') \<Rightarrow> (a\<lparr>wa_form := (wa_form a)\<lparr>af_bioAvailable := True, af_bioEnrolled := b\<rparr>\<rparr>, w'')
           | (Inl _, w'') \<Rightarrow> (a, w''))
      | (Inr False, w') \<Rightarrow> (a\<lparr>wa_form := (wa_form a)\<lparr>af_bioAvailable := False, af_bioEnrolled := False\<rparr>\<rparr>, w')
      | (Inl _, w') \<Rightarrow> (a, w'))"

definition afterAuth :: "'n networld native \<Rightarrow> int \<Rightarrow> Session \<Rightarrow> 'n auth_handler" where
  "afterAuth N t s a w =
     (let f = wa_form a in
      if af_bioRemember f \<and> trim (af_identifier f) \<noteq> [] \<and> af_password f \<noteq> []
      then (setSession t s a, snd (enableBiometric N (trim (af_identifier f)) (af_password f) w))
      else (setSession t s a, w))"

text \<open>The stored credentials are texts; anything else makes the login throw a \<open>TypeError\<close>.\<close>

definition unlockBio :: "('n, 'z) service_scheme \<Rightarrow> 'n networld native \<Rightarrow> int \<Rightarrow> 'n auth_handler" where
  "unlockBio P N t a w =
     (case unlockWithBiometric N w of
        (Inr (Some (Some (JStr i), JStr pw)), w') \<Rightarrow>
          (case loginAccount P i pw None w' of
             (Inr s, w'') \<Rightarrow> (setSession t s (showError None a), w'')
           | (Inl (ETwoFactorRequired ms), w'') \<Rightarrow>
               (a\<lparr>wa_form := (wa_form a)\<lparr>af_error := None, af_identifier := i, af_password := pw, af_mode := SigningIn,
                  af_twoFactor := Some ms\<rparr>\<rparr>, w'')
           | (Inl e, w'') \<Rightarrow> (showError (Some (Failed e)) a, w''))
      | (Inr (Some _), w') \<Rightarrow> (showError (Some (Failed EType)) a, w')
      | (_, w') \<Rightarrow> (showError None a, w'))"

definition generate :: "'n auth_handler" where
  "generate a w =
     (case newAccountId w of
        (Inr i, w') \<Rightarrow> (a\<lparr>wa_form := (wa_form a)\<lparr>af_identifier := i, af_generated := True, af_confirmId := []\<rparr>\<rparr>, w')
      | (Inl _, w') \<Rightarrow> (a, w'))"

definition typeIdentifier :: "jsstring \<Rightarrow> WebApp \<Rightarrow> WebApp" where
  "typeIdentifier i a = a\<lparr>wa_form := (wa_form a)\<lparr>af_identifier := i, af_generated := False\<rparr>\<rparr>"

definition switchMode :: "Mode \<Rightarrow> WebApp \<Rightarrow> WebApp" where
  "switchMode m a = a\<lparr>wa_form := (wa_form a)\<lparr>af_mode := m, af_error := None, af_twoFactor := None, af_totp := [],
     af_recover := False, af_recoveryCode := [], af_confirmId := []\<rparr>\<rparr>"

definition startRecovery :: "WebApp \<Rightarrow> WebApp" where
  "startRecovery a = a\<lparr>wa_form := (wa_form a)\<lparr>af_recover := True, af_error := None, af_confirm := []\<rparr>\<rparr>"

definition leaveRecovery :: "WebApp \<Rightarrow> WebApp" where
  "leaveRecovery a = a\<lparr>wa_form := (wa_form a)\<lparr>af_recover := False, af_error := None, af_recoveryCode := []\<rparr>\<rparr>"

text \<open>\<open>/^[^\s@]+@[^\s@]+\.[^\s@]+$/\<close>: the regular expression has one \<open>@\<close>, so the text is split there, and a dot with
  something on either side is looked for in the rest.\<close>

definition emailChar :: "u16 \<Rightarrow> bool" where
  "emailChar c \<longleftrightarrow> \<not> is_space c \<and> c \<noteq> 64"

definition looksLikeEmail :: "jsstring \<Rightarrow> bool" where
  "looksLikeEmail s =
     (let user = takeWhile emailChar s; rest = dropWhile emailChar s
      in user \<noteq> [] \<and> rest \<noteq> [] \<and> hd rest = 64
         \<and> (let host = tl rest in list_all emailChar host \<and> (\<exists>i \<in> set [1..<length host - 1]. host ! i = 46)))"

text \<open>What the form refuses before any request, and the message.\<close>

definition refusesNewPassword :: "AuthForm \<Rightarrow> jsstring option" where
  "refusesNewPassword f =
     (case masterPasswordIssue (af_password f) of
        Some weak \<Rightarrow> Some weak
      | None \<Rightarrow> if af_password f \<noteq> af_confirm f then Some (js ''The master passwords don't match.'') else None)"

definition refusesRecovery :: "AuthForm \<Rightarrow> jsstring option" where
  "refusesRecovery f =
     (if trim (af_identifier f) = [] \<or> trim (af_recoveryCode f) = [] then Some (js ''Enter your identifier and recovery code.'')
      else refusesNewPassword f)"

definition refusesEmail :: "'z jsenv_scheme \<Rightarrow> AuthForm \<Rightarrow> jsstring option" where
  "refusesEmail J f =
     (if \<not> af_generated f \<and> 64 \<in> set (af_identifier f)
      then if \<not> looksLikeEmail (trim (af_identifier f))
           then Some (js ''That doesn't look like a valid email. Check it, or roll the dice for a private passphrase.'')
           else if normalizeIdentifier J (af_identifier f) \<noteq> normalizeIdentifier J (af_confirmId f)
           then Some (js ''The email addresses don't match.'')
           else None
      else None)"

definition refusesSignIn :: "'z jsenv_scheme \<Rightarrow> AuthForm \<Rightarrow> jsstring option" where
  "refusesSignIn J f =
     (if trim (af_identifier f) = [] \<or> af_password f = []
      then Some (js ''Enter an account identifier and a master password.'')
      else if af_mode f = Registering
      then (case refusesEmail J f of Some m \<Rightarrow> Some m | None \<Rightarrow> refusesNewPassword f)
      else None)"

definition submitForm :: "('n, 'z) service_scheme \<Rightarrow> 'n networld native \<Rightarrow> int \<Rightarrow> 'n auth_handler" where
  "submitForm P N t a w =
     (let f = wa_form a; a0 = showError None a in
      if af_recover f
      then (case refusesRecovery f of
          Some m \<Rightarrow> (showError (Some (Says m)) a, w)
        | None \<Rightarrow>
            (case recoverAccount P (af_identifier f) (af_recoveryCode f) (af_password f) w of
               (Inr s, w') \<Rightarrow> afterAuth N t s a0 w'
             | (Inl _, w') \<Rightarrow>
                 (showError (Some (Says (js ''Recovery failed. Double-check your identifier and recovery code.''))) a, w')))
      else
        (case refusesSignIn P f of
           Some m \<Rightarrow> (showError (Some (Says m)) a, w)
         | None \<Rightarrow>
             (case (if af_mode f = Registering then registerAccount P (af_identifier f) (af_password f)
                    else loginAccount P (af_identifier f) (af_password f) (if formNeedsTotp f then Some (af_totp f) else None)) w of
                (Inr s, w') \<Rightarrow>
                  afterAuth N t s
                    (if af_mode f = Registering
                     then a0\<lparr>wa_recovery := if af_generated f then Some (toLowerCase P (trim (af_identifier f))) else None\<rparr>
                     else a0) w'
              | (Inl (ETwoFactorRequired ms), w') \<Rightarrow> (a\<lparr>wa_form := f\<lparr>af_error := None, af_twoFactor := Some ms\<rparr>\<rparr>, w')
              | (Inl e, w') \<Rightarrow> (showError (Some (Failed e)) a, w'))))"

definition usePasskey :: "('n, 'z) service_scheme \<Rightarrow> 'n networld native \<Rightarrow> int \<Rightarrow> 'n auth_handler" where
  "usePasskey P N t a w =
     (let f = wa_form a in
      if trim (af_identifier f) = [] \<or> af_password f = []
      then (showError (Some (Says (js ''Enter your identifier and master password first.''))) a, w)
      else (case loginWithPasskey P (af_identifier f) (af_password f) w of
          (Inr s, w') \<Rightarrow> afterAuth N t s (showError None a) w'
        | (Inl e, w') \<Rightarrow> (showError (Some (Failed e)) a, w')))"

section \<open>What the form lets through\<close>

lemma policy: "masterPasswordIssue s = None \<longleftrightarrow> 16 \<le> length s \<or> 12 \<le> length s \<and> 2 \<le> card (char_kind ` set s)"
  by (auto simp: masterPasswordIssue_def MIN_MASTER_PASSWORD_LENGTH_def classes_are_kinds Let_def)

lemma refusesNewPassword_None:
  "refusesNewPassword f = None \<longleftrightarrow> (16 \<le> length (af_password f) \<or> 12 \<le> length (af_password f)
     \<and> 2 \<le> card (char_kind ` set (af_password f))) \<and> af_confirm f = af_password f"
  by (auto simp: refusesNewPassword_def policy [symmetric] split: option.split if_splits)

definition plain_part :: "jsstring \<Rightarrow> bool" where
  "plain_part s \<longleftrightarrow> s \<noteq> [] \<and> list_all emailChar s"

text \<open>The shape of an address: a user, an at sign, and a host with a dot inside.\<close>

lemma looksLikeEmail_shape:
  "looksLikeEmail s \<longleftrightarrow> (\<exists>user host domain. s = user @ [64] @ host @ [46] @ domain
     \<and> plain_part user \<and> plain_part host \<and> plain_part domain)"
proof
  assume l: "looksLikeEmail s"
  let ?u = "takeWhile emailChar s" and ?h = "tl (dropWhile emailChar s)"
  obtain i where i: "i \<in> set [1..<length ?h - 1]" "?h ! i = 46"
    using l by (auto simp: looksLikeEmail_def Let_def)
  have h: "?u \<noteq> []" "dropWhile emailChar s \<noteq> []" "hd (dropWhile emailChar s) = 64" "list_all emailChar ?h"
    using l by (simp_all add: looksLikeEmail_def Let_def)
  have "s = ?u @ 64 # ?h"
    using h(2,3) by (metis list.collapse takeWhile_dropWhile_id)
  moreover have "?h = take i ?h @ 46 # drop (Suc i) ?h"
    using id_take_nth_drop [of i ?h] i by auto
  ultimately have "s = ?u @ [64] @ take i ?h @ [46] @ drop (Suc i) ?h"
    by simp
  moreover have "plain_part ?u"
    using h(1) by (auto simp: plain_part_def list_all_iff dest: set_takeWhileD)
  moreover have "list_all emailChar (take i ?h)" "list_all emailChar (drop (Suc i) ?h)"
    using h(4) by (auto simp: list_all_iff dest: in_set_takeD in_set_dropD)
  moreover have "take i ?h \<noteq> []" "drop (Suc i) ?h \<noteq> []"
    using i(1) by (auto simp del: length_tl)
  ultimately show "\<exists>user host domain. s = user @ [64] @ host @ [46] @ domain
     \<and> plain_part user \<and> plain_part host \<and> plain_part domain"
    unfolding plain_part_def by blast
next
  assume "\<exists>user host domain. s = user @ [64] @ host @ [46] @ domain
     \<and> plain_part user \<and> plain_part host \<and> plain_part domain"
  then obtain user host domain where s: "s = user @ [64] @ host @ [46] @ domain"
      "plain_part user" "plain_part host" "plain_part domain"
    by blast
  have at: "\<not> emailChar 64" and dot: "emailChar 46"
    by (simp_all add: emailChar_def is_space_def word_le_nat_alt)
  have parts: "takeWhile emailChar s = user" "dropWhile emailChar s = 64 # host @ [46] @ domain"
    using s(1,2) at by (auto simp: plain_part_def list_all_iff takeWhile_append2 dropWhile_append2)
  have inside: "\<exists>i \<in> set [1..<length (host @ [46] @ domain) - 1]. (host @ [46] @ domain) ! i = 46"
    using s(3,4) by (intro bexI [of _ "length host"]) (auto simp: plain_part_def Suc_le_eq)
  have "user \<noteq> []" "list_all emailChar (host @ [46] @ domain)"
    using s(2-4) dot by (simp_all add: plain_part_def)
  with inside show "looksLikeEmail s"
    unfolding looksLikeEmail_def Let_def parts by (simp only: list.sel list.distinct not_False_eq_True simp_thms)
qed

definition email_ok :: "'z jsenv_scheme \<Rightarrow> AuthForm \<Rightarrow> bool" where
  "email_ok J f \<longleftrightarrow> (\<exists>user host domain. trim (af_identifier f) = user @ [64] @ host @ [46] @ domain
       \<and> plain_part user \<and> plain_part host \<and> plain_part domain)
     \<and> normalizeIdentifier J (af_identifier f) = normalizeIdentifier J (af_confirmId f)"

lemma refusesEmail_None:
  "refusesEmail J f = None \<longleftrightarrow> (\<not> af_generated f \<and> 64 \<in> set (af_identifier f) \<longrightarrow> email_ok J f)"
  unfolding refusesEmail_def email_ok_def looksLikeEmail_shape [symmetric] by simp

text \<open>C31: nothing leaves the form before it is filled in properly. When submitting makes a request, draws a key or opens a
  session, there are an identifier and a password; a new account or a recovery has a password the policy
  accepts, typed twice, a recovery also a code; and an e-mail address typed for a new account has the shape of
  one and was typed twice, up to what identifiers ignore.\<close>

theorem submit_gate:
  assumes "submitForm P N t a w = (a', w')" "w' \<noteq> w \<or> wa_session a' \<noteq> wa_session a" "f = wa_form a"
  shows "trim (af_identifier f) \<noteq> [] \<and> af_password f \<noteq> []
    \<and> (af_recover f \<or> af_mode f = Registering \<longrightarrow> af_confirm f = af_password f
        \<and> (16 \<le> length (af_password f) \<or> 12 \<le> length (af_password f) \<and> 2 \<le> card (char_kind ` set (af_password f))))
    \<and> (af_recover f \<longrightarrow> trim (af_recoveryCode f) \<noteq> [])
    \<and> (\<not> af_recover f \<and> af_mode f = Registering \<and> \<not> af_generated f \<and> 64 \<in> set (af_identifier f) \<longrightarrow> email_ok P f)"
proof (cases "af_recover f")
  case True
  then have "refusesRecovery f = None"
    using assms by (cases "refusesRecovery f") (auto simp: submitForm_def Let_def showError_def)
  then show ?thesis
    using True by (auto simp: refusesRecovery_def refusesNewPassword_None split: if_splits)
next
  case False
  then have "refusesSignIn P f = None"
    using assms by (cases "refusesSignIn P f") (auto simp: submitForm_def Let_def showError_def)
  then show ?thesis
    using False by (auto simp: refusesSignIn_def refusesNewPassword_None refusesEmail_None split: if_splits option.splits)
qed

section \<open>Biometric unlocking\<close>

abbreviation verified :: "'n networld native \<Rightarrow> 'n networld \<Rightarrow> 'n networld \<Rightarrow> bool" where
  "verified N w w' \<equiv> nb_verifyIdentity N (js ''Unlock passwd'') (js ''Confirm your identity'') (js ''Unlock your vault'') w = (Inr (), w')"

text \<open>Remembering a sign-in is signing in again later. After signing in with the box ticked on a device whose keychain
  keeps what it is given, locking leaves no session, no identifier and no password in the page; unlocking by biometrics then is
  one login with the identifier, trimmed, and the password of before: what that login opens is the new session,
  and a second factor it asks for is asked in the form. When the check of the user fails, nothing is opened and no request is made.\<close>

theorem remembered_unlock:
  assumes k: "keychain_ok N" "isNativePlatform N"
    and f: "af_bioRemember (wa_form a)" "trim (af_identifier (wa_form a)) = i" "i \<noteq> []" "af_password (wa_form a) = pw" "pw \<noteq> []"
    and m: "af_mode (wa_form a) = SigningIn" "\<not> af_recover (wa_form a)"
    and login: "loginAccount P (af_identifier (wa_form a)) pw (if formNeedsTotp (wa_form a) then Some (af_totp (wa_form a)) else None) w
        = (Inr s, w1)"
    and set: "nb_setCredentials N i pw SERVER w1 = (Inr (), w2)"
  shows "\<exists>a1. submitForm P N t a w = (a1, w2) \<and> wa_session a1 = Some s
    \<and> wa_session (lockWeb a1) = None \<and> af_password (wa_form (lockWeb a1)) = [] \<and> af_identifier (wa_form (lockWeb a1)) = []
    \<and> (\<forall>w3. verified N w2 w3 \<longrightarrow> (\<exists>w4.
          (\<forall>s' w5. loginAccount P i pw None w4 = (Inr s', w5) \<longrightarrow>
             snd (unlockBio P N t' (lockWeb a1) w2) = w5 \<and> wa_session (fst (unlockBio P N t' (lockWeb a1) w2)) = Some s')
        \<and> (\<forall>ms w5. loginAccount P i pw None w4 = (Inl (ETwoFactorRequired ms), w5) \<longrightarrow>
             wa_session (fst (unlockBio P N t' (lockWeb a1) w2)) = None
             \<and> af_twoFactor (wa_form (fst (unlockBio P N t' (lockWeb a1) w2))) = Some ms
             \<and> af_identifier (wa_form (fst (unlockBio P N t' (lockWeb a1) w2))) = i)))
    \<and> (\<forall>e w3. nb_verifyIdentity N (js ''Unlock passwd'') (js ''Confirm your identity'') (js ''Unlock your vault'') w2 = (Inl e, w3) \<longrightarrow>
          unlockBio P N t' (lockWeb a1) w2 = (showError None (lockWeb a1), w3))"
proof -
  have r: "refusesSignIn P (wa_form a) = None"
    using f m by (simp add: refusesSignIn_def)
  let ?a1 = "setSession t s (showError None a)"
  have submit: "submitForm P N t a w = (?a1, w2)"
    using r f m login set k(2)
    by (simp add: submitForm_def Let_def afterAuth_def enableBiometric_def isNative_def showError_def)
  have creds: "\<exists>w4. unlockWithBiometric N w2 = (Inr (Some (Some (JStr i), JStr pw)), w4)" if v: "verified N w2 w3" for w3
  proof -
    obtain w4 where "nb_getCredentials N SERVER w3 = (Inr (JObj [(js ''username'', JStr i), (js ''password'', JStr pw)]), w4)"
      using k(1) set v unfolding keychain_ok_def by blast
    then show ?thesis
      using k(2) v f(5) by (simp add: unlockWithBiometric_def isNative_def returnA_def)
  qed
  have unlocked: "\<exists>w4. (\<forall>s' w5. loginAccount P i pw None w4 = (Inr s', w5) \<longrightarrow>
             snd (unlockBio P N t' (lockWeb ?a1) w2) = w5 \<and> wa_session (fst (unlockBio P N t' (lockWeb ?a1) w2)) = Some s')
        \<and> (\<forall>ms w5. loginAccount P i pw None w4 = (Inl (ETwoFactorRequired ms), w5) \<longrightarrow>
             wa_session (fst (unlockBio P N t' (lockWeb ?a1) w2)) = None
             \<and> af_twoFactor (wa_form (fst (unlockBio P N t' (lockWeb ?a1) w2))) = Some ms
             \<and> af_identifier (wa_form (fst (unlockBio P N t' (lockWeb ?a1) w2))) = i)"
    if v: "verified N w2 w3" for w3
  proof -
    obtain w4 where "unlockWithBiometric N w2 = (Inr (Some (Some (JStr i), JStr pw)), w4)"
      using creds [OF v] by blast
    then show ?thesis
      by (intro exI [of _ w4]) (simp add: unlockBio_def setSession_def lockWeb_def)
  qed
  have refused: "unlockBio P N t' (lockWeb ?a1) w2 = (showError None (lockWeb ?a1), w3)"
    if v: "nb_verifyIdentity N (js ''Unlock passwd'') (js ''Confirm your identity'') (js ''Unlock your vault'') w2 = (Inl e, w3)" for e w3
    using k(2) v by (simp add: unlockBio_def unlockWithBiometric_def isNative_def returnA_def)
  have "wa_session ?a1 = Some s" "wa_session (lockWeb ?a1) = None" "af_password (wa_form (lockWeb ?a1)) = []"
      "af_identifier (wa_form (lockWeb ?a1)) = []"
    by (simp_all add: setSession_def lockWeb_def blankForm_def)
  then show ?thesis
    using submit unlocked refused by blast
qed

section \<open>A sign-in for the witnesses\<close>

lemma sample_login:
  obtains n s where "loginAccount sample_service (js ''Me@Example.org'') (js ''correct horse'') None (sample_net n) = (Inr s, sample_net [])"
proof -
  let ?i = "js ''Me@Example.org''" and ?pw = "js ''correct horse''"
  obtain b :: RegistrationBundle and userKey where b: "unlock sample_service ?i ?pw (Some DEFAULT_KDF) (rb_protectedUserKey b)
      = Inr (userKey, rb_masterPasswordHash b)"
    using buildRegistration_ok [OF sample_service_webcrypto sample_login_ok refl, of sample_world] by blast
  let ?kv1 = "[(js ''kdf'', DEFAULT_KDF)]" and ?kv2 = "[(js ''protectedUserKey'', JStr (rb_protectedUserKey b))]"
  let ?w = "sample_net [(200, JObj ?kv1), (200, JObj ?kv2)]"
  have p: "plain (obj [(''kdf'', DEFAULT_KDF)])" "plain (JObj ?kv2)"
    by code_simp (simp add: obj_of_id)
  have "loginAccount sample_service ?i ?pw None ?w = (Inr (sessionOf ?i (JObj ?kv2) userKey), ?w\<lparr>net := []\<rparr>)"
    by (rule loginAccount_unlocks [where ?kv1.0 = ?kv1 and ?n1.0 = "[(200, JObj ?kv2)]"])
      (use b p sample_replies in \<open>simp_all add: truthy_opt_def\<close>)
  then show thesis
    by (simp add: that)
qed

text \<open>A device that keeps the credentials in the base address, of all places.\<close>

definition sample_device :: "(int \<times> jsval) list networld native" where
  "sample_device = \<lparr>isNativePlatform = True, nb_isAvailable = returnA (JObj []),
     nb_getCredentials = (\<lambda>s w. (Inr (JObj [(js ''username'', JStr (takeWhile (\<lambda>c. c \<noteq> 10) (baseUrl w))),
        (js ''password'', JStr (tl (dropWhile (\<lambda>c. c \<noteq> 10) (baseUrl w))))]), w)),
     nb_setCredentials = (\<lambda>u p s w. if 10 \<in> set u then (Inl EPlatform, w) else (Inr (), w\<lparr>baseUrl := u @ 10 # p\<rparr>)),
     nb_verifyIdentity = (\<lambda>a b c w. (Inr (), w)),
     nb_deleteCredentials = (\<lambda>s w. (Inr (), w))\<rparr>"

abbreviation sample_form :: AuthForm where
  "sample_form \<equiv> blankForm\<lparr>af_mode := SigningIn, af_identifier := js ''Me@Example.org'', af_password := js ''correct horse'',
     af_bioRemember := True\<rparr>"

abbreviation sample_webapp :: WebApp where
  "sample_webapp \<equiv> \<lparr>wa_session = None, wa_recovery = None, wa_lockAt = None, wa_form = sample_form\<rparr>"

lemma sample_device_ok: "keychain_ok sample_device" "isNativePlatform sample_device"
proof -
  have "takeWhile (\<lambda>c. c \<noteq> 10) (u @ 10 # p) = u \<and> tl (dropWhile (\<lambda>c. c \<noteq> 10) (u @ 10 # p)) = p" if "10 \<notin> set u" for u p :: jsstring
    using that by (induction u) auto
  then show "keychain_ok sample_device"
    by (auto simp: keychain_ok_def sample_device_def split: if_splits)
qed (simp add: sample_device_def)

lemma sample_identifier: "trim (js ''Me@Example.org'') = js ''Me@Example.org''" "10 \<notin> set (js ''Me@Example.org'')"
  by code_simp+

lemma sample_submit:
  obtains n s a w where "submitForm sample_service sample_device 0 sample_webapp (sample_net n) = (a, w)" "wa_session a = Some s"
    "loginAccount sample_service (js ''Me@Example.org'') (js ''correct horse'') None (sample_net n) = (Inr s, sample_net [])"
proof -
  obtain n s where l: "loginAccount sample_service (js ''Me@Example.org'') (js ''correct horse'') None (sample_net n) = (Inr s, sample_net [])"
    by (rule sample_login)
  have "refusesSignIn sample_service sample_form = None"
    using sample_identifier by (simp add: refusesSignIn_def blankForm_def)
  then have "wa_session (fst (submitForm sample_service sample_device 0 sample_webapp (sample_net n))) = Some s"
    using l sample_identifier
    by (simp add: submitForm_def Let_def blankForm_def formNeedsTotp_def afterAuth_def setSession_def)
  then show thesis
    using l that by (metis prod.collapse)
qed

theorem submit_gate_witness:
  "\<exists>n a w. submitForm sample_service sample_device 0 sample_webapp (sample_net n) = (a, w) \<and> wa_session a \<noteq> None
    \<and> af_password sample_form \<noteq> []"
proof -
  obtain n s a w where s: "submitForm sample_service sample_device 0 sample_webapp (sample_net n) = (a, w)" "wa_session a = Some s"
    by (rule sample_submit)
  then have "af_password sample_form \<noteq> []"
    using submit_gate [OF s(1) _ refl] by simp
  with s show ?thesis
    by blast
qed

theorem remembered_unlock_witness:
  "\<exists>n a w s. submitForm sample_service sample_device 0 sample_webapp (sample_net n) = (a, w) \<and> wa_session a = Some s
    \<and> (\<exists>v (w4 :: (int \<times> jsval) list networld). verified sample_device w v \<and> (\<forall>s' w5. loginAccount sample_service (js ''Me@Example.org'') (js ''correct horse'') None w4
        = (Inr s', w5) \<longrightarrow> wa_session (fst (unlockBio sample_service sample_device 1 (lockWeb a) w)) = Some s'))"
proof -
  let ?i = "js ''Me@Example.org''" and ?pw = "js ''correct horse''"
  obtain n s where l: "loginAccount sample_service ?i ?pw None (sample_net n) = (Inr s, sample_net [])"
    by (rule sample_login)
  let ?w2 = "(sample_net [])\<lparr>baseUrl := ?i @ 10 # ?pw\<rparr>"
  have set: "nb_setCredentials sample_device ?i ?pw SERVER (sample_net []) = (Inr (), ?w2)"
    using sample_identifier(2) by (simp add: sample_device_def)
  have f: "af_bioRemember (wa_form sample_webapp)" "trim (af_identifier (wa_form sample_webapp)) = ?i" "?i \<noteq> []"
      "af_password (wa_form sample_webapp) = ?pw" "?pw \<noteq> []" "af_mode (wa_form sample_webapp) = SigningIn"
      "\<not> af_recover (wa_form sample_webapp)"
    using sample_identifier by (simp_all add: blankForm_def)
  have l': "loginAccount sample_service (af_identifier (wa_form sample_webapp)) ?pw
      (if formNeedsTotp (wa_form sample_webapp) then Some (af_totp (wa_form sample_webapp)) else None) (sample_net n) = (Inr s, sample_net [])"
    using l by (simp add: blankForm_def formNeedsTotp_def)
  have v: "verified sample_device ?w2 ?w2"
    by (simp add: sample_device_def)
  note r = remembered_unlock [OF sample_device_ok f l' set, of 0 1]
  obtain a1 where a1: "submitForm sample_service sample_device 0 sample_webapp (sample_net n) = (a1, ?w2)" "wa_session a1 = Some s"
    and u: "\<exists>w4 :: (int \<times> jsval) list networld. \<forall>s' w5. loginAccount sample_service ?i ?pw None w4 = (Inr s', w5) \<longrightarrow>
         wa_session (fst (unlockBio sample_service sample_device 1 (lockWeb a1) ?w2)) = Some s'"
    using r v by blast
  show ?thesis
    using a1 u v by blast
qed

end
