(* ===== verification/Button.thy ===== *)
theory Button
  imports Prelude
begin

text \<open>
  \<open>components/AsyncButton.tsx\<close> of the web vault and the desktop application: a button for an asynchronous action; and the theme switch. The button's state
  is that of the hook, with the calls of the action that have not ended, the timers that run, and how often \<open>onSuccess\<close>
  has been called. A click is handled after the state set by the last one is shown, as React does for clicks.
\<close>

datatype ButtonState = Idle | Loading | Success

record Button =
  ab_state :: ButtonState
  ab_running :: nat
  ab_timers :: nat
  ab_succeeded :: nat

definition freshButton :: Button where
  "freshButton = \<lparr>ab_state = Idle, ab_running = 0, ab_timers = 0, ab_succeeded = 0\<rparr>"

text \<open>How the action ends: with \<open>false\<close> or a rejection, or with anything else.\<close>

datatype ButtonEvent = Click | Settle bool | TimerFires

definition clickButton :: "Button \<Rightarrow> Button" where
  "clickButton b = (if ab_state b \<noteq> Idle then b else b\<lparr>ab_state := Loading, ab_running := ab_running b + 1\<rparr>)"

definition settleButton :: "bool \<Rightarrow> Button \<Rightarrow> Button" where
  "settleButton ok b =
     (let b' = b\<lparr>ab_running := ab_running b - 1\<rparr>
      in if \<not> ok then b'\<lparr>ab_state := Idle\<rparr> else b'\<lparr>ab_state := Success, ab_timers := ab_timers b + 1\<rparr>)"

definition buttonTimer :: "Button \<Rightarrow> Button" where
  "buttonTimer b = b\<lparr>ab_state := Idle, ab_timers := ab_timers b - 1, ab_succeeded := ab_succeeded b + 1\<rparr>"

text \<open>Only a call that runs can end, and only a timer that runs can fire.\<close>

inductive button_step :: "Button \<Rightarrow> ButtonEvent \<Rightarrow> Button \<Rightarrow> bool" where
  click: "button_step b Click (clickButton b)"
| settle: "0 < ab_running b \<Longrightarrow> button_step b (Settle ok) (settleButton ok b)"
| fires: "0 < ab_timers b \<Longrightarrow> button_step b TimerFires (buttonTimer b)"

code_pred button_step .

inductive button_run :: "ButtonEvent list \<Rightarrow> Button \<Rightarrow> bool" where
  fresh: "button_run [] freshButton"
| step: "button_run es b \<Longrightarrow> button_step b e b' \<Longrightarrow> button_run (es @ [e]) b'"

inductive_simps button_step_simps: "button_step b Click b'" "button_step b (Settle ok) b'" "button_step b TimerFires b'"

text \<open>What the clicks and their ends amount to: the successes so far.\<close>

definition successes :: "ButtonEvent list \<Rightarrow> nat" where
  "successes es = count_list es (Settle True)"

definition button_inv :: "ButtonEvent list \<Rightarrow> Button \<Rightarrow> bool" where
  "button_inv es b \<longleftrightarrow> ab_running b = of_bool (ab_state b = Loading) \<and> ab_timers b = of_bool (ab_state b = Success)
     \<and> ab_succeeded b + ab_timers b = successes es \<and> ab_succeeded b = count_list es TimerFires"

lemma button_inv_step:
  assumes "button_inv es b" "button_step b e b'"
  shows "button_inv (es @ [e]) b'"
proof (cases e)
  case Click
  then show ?thesis
    using assms by (auto simp: button_step_simps button_inv_def clickButton_def successes_def)
next
  case (Settle ok)
  then show ?thesis
    using assms by (cases ok) (auto simp: button_step_simps button_inv_def settleButton_def successes_def split: if_splits)
next
  case TimerFires
  then show ?thesis
    using assms by (auto simp: button_step_simps button_inv_def buttonTimer_def successes_def split: if_splits)
qed

lemma button_run_inv: "button_run es b \<Longrightarrow> button_inv es b"
proof (induction rule: button_run.induct)
  case fresh
  show ?case
    by (simp add: button_inv_def freshButton_def successes_def)
next
  case (step es b e b')
  then show ?case
    by (blast intro: button_inv_step)
qed

text \<open>C35: however often it is clicked, the button never has two calls of its action running, and what \<open>onSuccess\<close> does
  (an editor closes) happens once for each call that succeeded, a second after it; between the click
  and that moment, and only then, further clicks do nothing.\<close>

theorem button_runs_once:
  assumes "button_run es b"
  shows "ab_running b \<le> 1 \<and> (ab_running b = 1 \<longleftrightarrow> ab_state b = Loading)
    \<and> ab_succeeded b \<le> successes es \<and> successes es \<le> ab_succeeded b + 1
    \<and> (ab_state b \<noteq> Success \<longrightarrow> ab_succeeded b = successes es)
    \<and> (clickButton b = b \<longleftrightarrow> ab_running b + ab_timers b = 1)"
proof -
  have "ab_state (clickButton b) = Loading" if "ab_state b = Idle"
    using that by (simp add: clickButton_def)
  then have "clickButton b = b \<longleftrightarrow> ab_state b \<noteq> Idle"
    by (cases "ab_state b") (fastforce, simp_all add: clickButton_def)
  then show ?thesis
    using button_run_inv [OF assms] by (cases "ab_state b") (auto simp: button_inv_def)
qed

theorem button_runs_once_witness:
  "\<exists>b. button_run [Click, Click, Settle True, Click, TimerFires] b \<and> ab_running b \<le> 1 \<and> ab_succeeded b = 1"
proof -
  let ?b1 = "clickButton freshButton"
  let ?b3 = "settleButton True (clickButton ?b1)"
  have "button_run ([] @ [Click]) ?b1"
    by (rule step [OF fresh click])
  from step [OF this click] have "button_run (([] @ [Click]) @ [Click]) (clickButton ?b1)" .
  moreover have "0 < ab_running (clickButton ?b1)"
    by (simp add: clickButton_def freshButton_def)
  ultimately have "button_run ((([] @ [Click]) @ [Click]) @ [Settle True]) ?b3"
    by (intro step [OF _ settle])
  from step [OF this click] have "button_run (((([] @ [Click]) @ [Click]) @ [Settle True]) @ [Click]) (clickButton ?b3)" .
  moreover have "0 < ab_timers (clickButton ?b3)"
    by (simp add: clickButton_def freshButton_def settleButton_def)
  ultimately have "button_run ((((([] @ [Click]) @ [Click]) @ [Settle True]) @ [Click]) @ [TimerFires]) (buttonTimer (clickButton ?b3))"
    by (intro step [OF _ fires])
  then have r: "button_run [Click, Click, Settle True, Click, TimerFires] (buttonTimer (clickButton ?b3))"
    by simp
  have "ab_succeeded (buttonTimer (clickButton ?b3)) = 1"
    by (simp add: buttonTimer_def clickButton_def settleButton_def freshButton_def)
  with r show ?thesis
    using button_runs_once [OF r] by blast
qed

section \<open>The theme switch\<close>

text \<open>\<open>components/ThemeToggle.tsx\<close>: the hook, the attribute of the page, and what is stored for the next load.\<close>

record Theme =
  th_dark :: bool
  th_attribute :: "jsstring option"
  th_stored :: "jsstring option"

definition mountTheme :: "jsstring option \<Rightarrow> jsstring option \<Rightarrow> Theme" where
  "mountTheme attribute stored =
     \<lparr>th_dark = (attribute = Some (js ''dark'')), th_attribute = attribute, th_stored = stored\<rparr>"

definition toggleTheme :: "Theme \<Rightarrow> Theme" where
  "toggleTheme t =
     (let dark = \<not> th_dark t
      in t\<lparr>th_dark := dark, th_attribute := (if dark then Some (js ''dark'') else None),
           th_stored := Some (if dark then js ''dark'' else js ''light'')\<rparr>)"

lemma theme_agrees:
  "th_dark (toggleTheme t) \<longleftrightarrow> th_attribute (toggleTheme t) = Some (js ''dark'')"
  "th_stored (toggleTheme t) = Some (if th_dark (toggleTheme t) then js ''dark'' else js ''light'')"
  "th_dark (toggleTheme (toggleTheme t)) = th_dark t"
  by (simp_all add: toggleTheme_def Let_def)

end
