(* ===== verification/Editor.thy ===== *)
theory Editor
  imports ImportDialog
begin

text \<open>
  \<open>ItemEditor\<close> of \<open>apps/web/src/VaultScreen.tsx\<close>: the form an item is edited in. Every control is an operation on
  the item the form holds, offered as long as the form shows the control. The specification edits a typed item; what
  the form holds is that item, up to a mark of the custom fields that the next load of the vault drops.
\<close>

section \<open>The controls\<close>

definition subObject :: "string \<Rightarrow> jsval \<Rightarrow> jsval" where
  "subObject k item = nullish (get_prop_opt item (js k)) JNull"

definition fieldsOf :: "jsval \<Rightarrow> jsval list" where
  "fieldsOf item = (case get_prop_opt item (js ''fields'') of Some (JArr fs) \<Rightarrow> fs | _ \<Rightarrow> [])"

definition setCard :: "string \<Rightarrow> jsstring \<Rightarrow> jsval \<Rightarrow> jsval" where
  "setCard k t item = spread item [(js ''card'', spread (subObject ''card'' item) [(js k, JStr t)])]"

definition setIdentity :: "string \<Rightarrow> jsstring \<Rightarrow> jsval \<Rightarrow> jsval" where
  "setIdentity k t item = spread item [(js ''identity'', spread (subObject ''identity'' item) [(js k, JStr t)])]"

definition setField :: "nat \<Rightarrow> props \<Rightarrow> jsval \<Rightarrow> jsval" where
  "setField i patch item = spread item [(js ''fields'',
     JArr (map (\<lambda>(j, f). if j = i then spread f patch else f) (enumerate 0 (fieldsOf item))))]"

definition removeField :: "nat \<Rightarrow> jsval \<Rightarrow> jsval" where
  "removeField i item = spread item [(js ''fields'',
     JArr (map snd (filter (\<lambda>(j, f). j \<noteq> i) (enumerate 0 (fieldsOf item)))))]"

definition addField :: "jsval \<Rightarrow> jsval" where
  "addField item = spread item [(js ''fields'', JArr (fieldsOf item @ [obj [(''label'', JStr []), (''value'', JStr [])]]))]"

definition fieldHidden :: "nat \<Rightarrow> jsval \<Rightarrow> bool" where
  "fieldHidden i item \<longleftrightarrow> i < length (fieldsOf item) \<and> boolField ''hidden'' (fieldsOf item ! i)"

datatype EditOp = SetText string jsstring | SetType jsstring | SetCard string jsstring | SetIdentity string jsstring
  | FieldLabel nat jsstring | FieldValue nat jsstring | FieldMask nat | RemoveField nat | AddField | SetFavorite bool

fun edit :: "EditOp \<Rightarrow> jsval \<Rightarrow> jsval" where
  "edit (SetText k t) item = setText k t item"
| "edit (SetType t) item = spread item [(js ''type'', JStr t)]"
| "edit (SetCard k t) item = setCard k t item"
| "edit (SetIdentity k t) item = setIdentity k t item"
| "edit (FieldLabel i t) item = setField i [(js ''label'', JStr t)] item"
| "edit (FieldValue i t) item = setField i [(js ''value'', JStr t)] item"
| "edit (FieldMask i) item = setField i [(js ''hidden'', JBool (\<not> fieldHidden i item))] item"
| "edit (RemoveField i) item = removeField i item"
| "edit AddField item = addField item"
| "edit (SetFavorite b) item = spread item [(js ''favorite'', JBool b)]"

text \<open>Which controls the form shows: the type is chosen at creation, and the type decides on the fields. The button of the
  password generator sets the password.\<close>

fun offered :: "EditOp \<Rightarrow> jsval \<Rightarrow> bool" where
  "offered (SetText k t) item \<longleftrightarrow> k \<in> {''name'', ''notes'', ''folder''}
     \<or> textField ''type'' item = js ''login'' \<and> k \<in> {''url'', ''username'', ''password'', ''totp''}"
| "offered (SetType t) item \<longleftrightarrow> \<not> truthy_opt (get_prop_opt item (js ''id'')) \<and> t \<in> set ITEM_TYPES"
| "offered (SetCard k t) item \<longleftrightarrow> textField ''type'' item = js ''card''
     \<and> k \<in> {''cardholder'', ''number'', ''expMonth'', ''expYear'', ''cvv''}"
| "offered (SetIdentity k t) item \<longleftrightarrow> textField ''type'' item = js ''identity''
     \<and> k \<in> {''fullName'', ''email'', ''phone'', ''address'', ''company''}"
| "offered (FieldLabel i t) item \<longleftrightarrow> i < length (fieldsOf item)"
| "offered (FieldValue i t) item \<longleftrightarrow> i < length (fieldsOf item)"
| "offered (FieldMask i) item \<longleftrightarrow> i < length (fieldsOf item)"
| "offered (RemoveField i) item \<longleftrightarrow> i < length (fieldsOf item)"
| "offered AddField item \<longleftrightarrow> True"
| "offered (SetFavorite b) item \<longleftrightarrow> True"

fun edits :: "EditOp list \<Rightarrow> jsval \<Rightarrow> jsval" where
  "edits [] item = item"
| "edits (op # ops) item = edits ops (edit op item)"

fun allOffered :: "EditOp list \<Rightarrow> jsval \<Rightarrow> bool" where
  "allOffered [] item \<longleftrightarrow> True"
| "allOffered (op # ops) item \<longleftrightarrow> offered op item \<and> allOffered ops (edit op item)"

section \<open>Specification\<close>

record CustomField =
  cf_label :: jsstring
  cf_value :: jsstring
  cf_hidden :: bool

definition fieldVal :: "CustomField \<Rightarrow> jsval" where
  "fieldVal f = JObj ([(js ''label'', JStr (cf_label f)), (js ''value'', JStr (cf_value f))]
     @ (if cf_hidden f then [(js ''hidden'', JBool True)] else []))"

text \<open>The custom fields of a draft stand beside the item.\<close>

type_synonym Draft = "ItemFields \<times> CustomField list"

definition draftItem :: "Draft \<Rightarrow> ItemFields" where
  "draftItem = (\<lambda>(i, fs). i\<lparr>it_fields := map fieldVal fs\<rparr>)"

definition putText :: "string \<Rightarrow> jsstring \<Rightarrow> ItemFields \<Rightarrow> ItemFields" where
  "putText k t i =
     (if k = ''name'' then i\<lparr>it_name := t\<rparr> else if k = ''username'' then i\<lparr>it_username := t\<rparr>
      else if k = ''password'' then i\<lparr>it_password := t\<rparr> else if k = ''url'' then i\<lparr>it_url := t\<rparr>
      else if k = ''totp'' then i\<lparr>it_totp := t\<rparr> else if k = ''notes'' then i\<lparr>it_notes := t\<rparr>
      else if k = ''folder'' then i\<lparr>it_folder := t\<rparr> else i)"

fun specEdit :: "EditOp \<Rightarrow> Draft \<Rightarrow> Draft" where
  "specEdit (SetText k t) (i, fs) = (putText k t i, fs)"
| "specEdit (SetType t) (i, fs) = (i\<lparr>it_type := t\<rparr>, fs)"
| "specEdit (SetCard k t) (i, fs) = (i\<lparr>it_card := obj_put (js k) (JStr t) (it_card i)\<rparr>, fs)"
| "specEdit (SetIdentity k t) (i, fs) = (i\<lparr>it_identity := obj_put (js k) (JStr t) (it_identity i)\<rparr>, fs)"
| "specEdit (FieldLabel j t) (i, fs) = (i, fs[j := (fs ! j)\<lparr>cf_label := t\<rparr>])"
| "specEdit (FieldValue j t) (i, fs) = (i, fs[j := (fs ! j)\<lparr>cf_value := t\<rparr>])"
| "specEdit (FieldMask j) (i, fs) = (i, fs[j := (fs ! j)\<lparr>cf_hidden := \<not> cf_hidden (fs ! j)\<rparr>])"
| "specEdit (RemoveField j) (i, fs) = (i, take j fs @ drop (Suc j) fs)"
| "specEdit AddField (i, fs) = (i, fs @ [\<lparr>cf_label = [], cf_value = [], cf_hidden = False\<rparr>])"
| "specEdit (SetFavorite b) (i, fs) = (i\<lparr>it_favorite := b\<rparr>, fs)"

fun specEdits :: "EditOp list \<Rightarrow> Draft \<Rightarrow> Draft" where
  "specEdits [] d = d"
| "specEdits (op # ops) d = specEdits ops (specEdit op d)"

section \<open>The form holds the draft\<close>

text \<open>A field that was shown in the clear again keeps the key \<open>hidden\<close>, with \<open>false\<close>.\<close>

definition shows_field :: "CustomField \<Rightarrow> jsval \<Rightarrow> bool" where
  "shows_field c f \<longleftrightarrow> f = fieldVal c \<or> \<not> cf_hidden c
     \<and> f = JObj [(js ''label'', JStr (cf_label c)), (js ''value'', JStr (cf_value c)), (js ''hidden'', JBool False)]"

definition holds_draft :: "jsstring \<Rightarrow> Draft \<Rightarrow> jsval \<Rightarrow> bool" where
  "holds_draft c d item \<longleftrightarrow> (\<exists>fs. item = vaultVal c ((fst d)\<lparr>it_fields := fs\<rparr>) \<and> list_all2 shows_field (snd d) fs)"


lemma enumerate_update:
  "map (\<lambda>(j, f). if j = i then g f else f) (enumerate 0 fs) = (if i < length fs then fs[i := g (fs ! i)] else fs)"
  by (rule nth_equalityI) (auto simp: nth_list_update nth_enumerate_eq)

lemma enumerate_remove_from:
  "map snd (filter (\<lambda>(j, f). j \<noteq> n + i) (enumerate n fs)) = take i fs @ drop (Suc i) fs"
proof (induction fs arbitrary: n i)
  case (Cons f fs)
  show ?case
  proof (cases i)
    case 0
    have "filter (\<lambda>(j, f). j \<noteq> n) (enumerate (Suc n) fs) = enumerate (Suc n) fs"
      by (auto simp: filter_id_conv in_set_enumerate_eq)
    then show ?thesis
      using 0 by simp
  next
    case (Suc k)
    then show ?thesis
      using Cons.IH [of "Suc n" k] by simp
  qed
qed simp

lemma vaultVal_reads [simp]:
  "get_prop_opt (vaultVal c i) (js ''id'') = Some (JStr c)"
  "textField ''type'' (vaultVal c i) = it_type i"
  "fieldsOf (vaultVal c i) = it_fields i"
  "subObject ''card'' (vaultVal c i) = JObj (it_card i)"
  "subObject ''identity'' (vaultVal c i) = JObj (it_identity i)"
  "withoutId (vaultVal c i) = itemVal i"
  by (simp_all add: vaultVal_props itemVal_def own_props_def fieldsOf_def subObject_def nullish_def withoutId_def)

lemma spread_vaultVal:
  "spread (vaultVal c i) [(js ''type'', JStr t)] = vaultVal c (i\<lparr>it_type := t\<rparr>)"
  "spread (vaultVal c i) [(js ''card'', JObj p)] = vaultVal c (i\<lparr>it_card := p\<rparr>)"
  "spread (vaultVal c i) [(js ''identity'', JObj p)] = vaultVal c (i\<lparr>it_identity := p\<rparr>)"
  "spread (vaultVal c i) [(js ''fields'', JArr fs)] = vaultVal c (i\<lparr>it_fields := fs\<rparr>)"
  "spread (vaultVal c i) [(js ''favorite'', JBool b)] = vaultVal c (i\<lparr>it_favorite := b\<rparr>)"
  by (simp_all add: spread_def vaultVal_props itemVal_def own_props_def key_before_def)

lemma setText_vaultVal:
  "k \<in> {''name'', ''notes'', ''folder'', ''url'', ''username'', ''password'', ''totp''} \<Longrightarrow>
   setText k t (vaultVal c i) = vaultVal c (putText k t i)"
  by (auto simp: setText_def putText_def spread_def vaultVal_props itemVal_def own_props_def key_before_def)

lemma putText_fields: "putText k t (i\<lparr>it_fields := fs\<rparr>) = (putText k t i)\<lparr>it_fields := fs\<rparr>"
  by (simp add: putText_def)

lemma shows_field_label: "shows_field c f \<Longrightarrow> shows_field (c\<lparr>cf_label := t\<rparr>) (spread f [(js ''label'', JStr t)])"
  and shows_field_value: "shows_field c f \<Longrightarrow> shows_field (c\<lparr>cf_value := t\<rparr>) (spread f [(js ''value'', JStr t)])"
  and shows_field_hidden: "shows_field c f \<Longrightarrow> boolField ''hidden'' f \<longleftrightarrow> cf_hidden c"
  and shows_field_mask: "shows_field c f \<Longrightarrow>
    shows_field (c\<lparr>cf_hidden := \<not> cf_hidden c\<rparr>) (spread f [(js ''hidden'', JBool (\<not> cf_hidden c))])"
  by (auto simp: shows_field_def fieldVal_def spread_def own_props_def key_before_def truthy_opt_def split: if_splits)

lemma shows_field_coerce: "shows_field c f \<Longrightarrow> truthy f \<and> is_objectlike f \<and> coerceField J f = Inr (fieldVal c) \<and> plain f"
  by (auto simp: shows_field_def fieldVal_def coerceField_def textOrBlank_def get_prop_opt_def own_props_def
      truthy_opt_def obj_of_id split: if_splits)

lemma coerceFieldList_shows: "list_all2 shows_field cs fs \<Longrightarrow> coerceFieldList J fs = Inr (map fieldVal cs)"
  by (induction rule: list_all2_induct) (simp_all add: shows_field_coerce)

lemma edit_holds:
  assumes "holds_draft c d item" "offered op item"
  shows "holds_draft c (specEdit op d) (edit op item)"
proof -
  obtain i cs fs where d: "d = (i, cs)" and item: "item = vaultVal c (i\<lparr>it_fields := fs\<rparr>)" and f: "list_all2 shows_field cs fs"
    using assms(1) by (cases d) (auto simp: holds_draft_def)
  have l: "length cs = length fs"
    using f by (rule list_all2_lengthD)
  have n: "j < length fs \<Longrightarrow> shows_field (cs ! j) (fs ! j)" for j
    using f l by (simp add: list_all2_nthD)
  have holds: "holds_draft c (i', cs') (vaultVal c (i'\<lparr>it_fields := fs'\<rparr>))" if "list_all2 shows_field cs' fs'" for i' cs' fs'
    unfolding holds_draft_def using that by auto
  have upd: "setField j patch item = vaultVal c (i\<lparr>it_fields := fs[j := spread (fs ! j) patch]\<rparr>)" if "j < length fs" for j patch
    using that by (simp add: setField_def item enumerate_update spread_vaultVal)
  show ?thesis
  proof (cases op)
    case (SetText k t)
    then have "edit op item = vaultVal c ((putText k t i)\<lparr>it_fields := fs\<rparr>)"
      using assms(2) by (auto simp: item setText_vaultVal putText_fields)
    then show ?thesis
      using holds f by (simp add: SetText d)
  next
    case (SetType t)
    then show ?thesis
      using holds [OF f, of "i\<lparr>it_type := t\<rparr>"] by (cases i) (simp add: d item spread_vaultVal)
  next
    case (SetCard k t)
    then show ?thesis
      using holds [OF f, of "i\<lparr>it_card := obj_put (js k) (JStr t) (it_card i)\<rparr>"]
      by (cases i) (simp add: d item setCard_def spread_vaultVal spread_def [of "JObj _"] own_props_def)
  next
    case (SetIdentity k t)
    then show ?thesis
      using holds [OF f, of "i\<lparr>it_identity := obj_put (js k) (JStr t) (it_identity i)\<rparr>"]
      by (cases i) (simp add: d item setIdentity_def spread_vaultVal spread_def [of "JObj _"] own_props_def)
  next
    case (FieldLabel j t)
    then show ?thesis
      using assms(2) upd [of j] n [of j] f by (auto simp: d item intro!: holds list_all2_update_cong shows_field_label)
  next
    case (FieldValue j t)
    then show ?thesis
      using assms(2) upd [of j] n [of j] f by (auto simp: d item intro!: holds list_all2_update_cong shows_field_value)
  next
    case (FieldMask j)
    then have "fieldHidden j item \<longleftrightarrow> cf_hidden (cs ! j)"
      using assms(2) n [of j] by (simp add: fieldHidden_def item shows_field_hidden)
    then show ?thesis
      using FieldMask assms(2) upd [of j] n [of j] f by (auto simp: d item intro!: holds list_all2_update_cong shows_field_mask)
  next
    case (RemoveField j)
    have "edit op item = vaultVal c (i\<lparr>it_fields := take j fs @ drop (Suc j) fs\<rparr>)"
      using enumerate_remove_from [of 0 j fs] by (simp add: RemoveField removeField_def item spread_vaultVal)
    moreover have "list_all2 shows_field (take j cs @ drop (Suc j) cs) (take j fs @ drop (Suc j) fs)"
      using f by (intro list_all2_appendI list_all2_takeI list_all2_dropI)
    ultimately show ?thesis
      using holds by (simp add: RemoveField d)
  next
    case AddField
    have "list_all2 shows_field (cs @ [\<lparr>cf_label = [], cf_value = [], cf_hidden = False\<rparr>])
        (fs @ [obj [(''label'', JStr []), (''value'', JStr [])]])"
      using f by (intro list_all2_appendI) (simp_all add: shows_field_def fieldVal_def)
    then show ?thesis
      using holds by (simp add: AddField addField_def d item spread_vaultVal)
  next
    case (SetFavorite b)
    then show ?thesis
      using holds [OF f, of "i\<lparr>it_favorite := b\<rparr>"] by (cases i) (simp add: d item spread_vaultVal)
  qed
qed

section \<open>The draft stays an item\<close>

lemma set_obj_put: "kv \<in> set (obj_put k v kvs) \<Longrightarrow> kv = (k, v) \<or> kv \<in> set kvs"
  by (induction k v kvs rule: obj_put.induct) (auto split: if_splits)

lemma put_part_ok:
  assumes "extends_keys base kvs" "\<forall>kv \<in> set kvs. plain (snd kv)" "\<not> index_key (js k)"
  shows "extends_keys base (obj_put (js k) (JStr t) kvs)" "\<forall>kv \<in> set (obj_put (js k) (JStr t) kvs). plain (snd kv)"
  using assms by (auto simp: extends_put dest: set_obj_put)

lemma fieldVal_wf: "field_wf (fieldVal f)"
  by (auto simp: field_wf_def fieldVal_def)

lemma specEdit_ok:
  assumes "item_fields_ok (draftItem d)" "offered op item"
  shows "item_fields_ok (draftItem (specEdit op d))"
proof -
  obtain i cs where d: "d = (i, cs)"
    by (cases d)
  have ok: "it_type i \<in> set ITEM_TYPES" "extends_keys blankCard (it_card i)" "\<forall>kv \<in> set (it_card i). plain (snd kv)"
      "extends_keys blankIdentity (it_identity i)" "\<forall>kv \<in> set (it_identity i). plain (snd kv)"
    using assms(1) by (simp_all add: d draftItem_def item_fields_ok_def)
  have f: "\<forall>f \<in> set (map fieldVal cs'). field_wf f" for cs'
    by (auto simp: fieldVal_wf)
  show ?thesis
  proof (cases op)
    case (SetCard k t)
    then have "\<not> index_key (js k)"
      using assms(2) by auto
    then show ?thesis
      using SetCard ok f put_part_ok [OF ok(2,3)] by (simp add: d draftItem_def item_fields_ok_def)
  next
    case (SetIdentity k t)
    then have "\<not> index_key (js k)"
      using assms(2) by auto
    then show ?thesis
      using SetIdentity ok f put_part_ok [OF ok(4,5)] by (simp add: d draftItem_def item_fields_ok_def)
  qed (use assms(2) ok f in \<open>auto simp: d draftItem_def item_fields_ok_def putText_def fieldVal_wf\<close>)
qed

lemma holds_normal:
  assumes "holds_draft c d item" "item_fields_ok (draftItem d)"
  shows "normalizeItemFields J (withoutId item) = Inr (itemVal (draftItem d))" "plain (withoutId item)"
    "get_prop_opt item (js ''id'') = Some (JStr c)"
proof -
  obtain i cs fs where d: "d = (i, cs)" and item: "item = vaultVal c (i\<lparr>it_fields := fs\<rparr>)" and f: "list_all2 shows_field cs fs"
    using assms(1) by (cases d) (auto simp: holds_draft_def)
  have "coerceFieldList J (map fieldVal cs) = Inr (map fieldVal cs)"
    by (rule coerceFieldList_same) (auto simp: fieldVal_wf)
  then have "normalizeItemFields J (itemVal (i\<lparr>it_fields := fs\<rparr>)) = normalizeItemFields J (itemVal (draftItem d))"
    using coerceFieldList_shows [OF f, of J]
    by (simp add: normalizeItemFields_def itemVal_def own_props_def d draftItem_def blankFields_def key_before_def coerceFields_def
        TEXT_KEYS_def textOrBlank_def)
  then show "normalizeItemFields J (withoutId item) = Inr (itemVal (draftItem d))"
    using normalizeItemFields_same [OF itemVal_wf [OF assms(2)]] by (simp add: item)
  have "list_all plain fs"
    using f by (induction rule: list_all2_induct) (simp_all add: shows_field_coerce)
  then show "plain (withoutId item)"
    using itemVal_plain [OF assms(2)] by (simp add: item d draftItem_def itemVal_def obj_of_id list_all_iff)
  show "get_prop_opt item (js ''id'') = Some (JStr c)"
    by (simp add: item)
qed

lemma edits_hold:
  assumes "holds_draft c d item" "item_fields_ok (draftItem d)" "allOffered ops item"
  shows "holds_draft c (specEdits ops d) (edits ops item) \<and> item_fields_ok (draftItem (specEdits ops d))"
  using assms
proof (induction ops arbitrary: d item)
  case (Cons op ops)
  then show ?case
    using edit_holds [of c d item op] specEdit_ok [of d op item] by simp
qed simp

end
