(* ===== verification/Store.thy ===== *)
theory Store
  imports Editor
begin

text \<open>
  A server that stores items, as the screens see it: what it takes to change an item and find it in the list again. It is
  shared by the web vault and the popup of the extension.
\<close>

section \<open>A change that the server takes\<close>

text \<open>The server takes a change: it answers the request that stores the text \<open>d\<close>, as a new cipher or under the id \<open>c\<close>,
  and lists it under \<open>cid\<close> when asked for the vault next, among whatever else.\<close>

definition server_takes ::
  "('n, 'z) service_scheme \<Rightarrow> jsstring option \<Rightarrow> ('n, 'y) networld_scheme \<Rightarrow> jsstring \<Rightarrow> jsstring \<Rightarrow> jsstring \<Rightarrow> 'n \<Rightarrow> bool" where
  "server_takes P t w c d cid n2 \<longleftrightarrow>
     (\<exists>kvs n1 cs. replies P (request_of P (baseUrl w) (if c = [] then ''POST'' else ''PUT'')
          (if c = [] then js ''/api/ciphers'' else js ''/api/ciphers/'' @ c) (Some (obj [(''data'', JStr d)])) t) (net w) kvs n1
        \<and> (c \<noteq> [] \<longrightarrow> cid = c)
        \<and> replies P (request_of P (baseUrl w) ''GET'' (js ''/api/sync'') None t) n1 [(js ''ciphers'', JArr cs)] n2
        \<and> JObj [(js ''id'', JStr cid), (js ''data'', JStr d)] \<in> set cs)"

text \<open>The text a change of an item uploads, and what it comes back as.\<close>

lemma sealed_item:
  fixes w :: "('n, 'y) networld_scheme"
  assumes P: "aes_ok P" "32 \<le> length (s_userKey s)" and t: "token_text P (s_accessToken s) t"
    and item: "plain (withoutId item)" "normalizeItemFields P (withoutId item) = Inr (itemVal f)"
      "get_prop_opt item (js ''id'') = Some (JStr c)"
  obtains d where
    "\<And>kvs n1. replies P (request_of P (baseUrl w) ''PUT'' (js ''/api/ciphers/'' @ c) (Some (obj [(''data'', JStr d)])) t) (net w) kvs n1 \<Longrightarrow>
       saveItem P s item w = (Inr (), w\<lparr>drawn := drawn w + 56, net := n1\<rparr>)"
    "\<And>kvs n1. replies P (request_of P (baseUrl w) ''POST'' (js ''/api/ciphers'') (Some (obj [(''data'', JStr d)])) t) (net w) kvs n1 \<Longrightarrow>
       fst (addItem P s (withoutId item) w) \<in> range Inr \<and> snd (addItem P s (withoutId item) w) = w\<lparr>drawn := drawn w + 56, net := n1\<rparr>"
    "\<And>cid. cipherItem P (s_userKey s) (JObj [(js ''id'', JStr cid), (js ''data'', JStr d)]) = Inr (vaultVal cid f)"
proof -
  let ?w = "w\<lparr>drawn := drawn w + 56\<rparr>"
  obtain d where d: "encryptItemKeyed P (s_userKey s) (JSON_stringify P 0 (withoutId item)) w = (Inr d, ?w)"
      "decryptItemKeyed P (s_userKey s) d = Inr (JSON_stringify P 0 (withoutId item))"
    using seal_item [OF P item(1), of w] by blast
  show thesis
  proof (rule that [of d])
    fix kvs n1
    assume "replies P (request_of P (baseUrl w) ''PUT'' (js ''/api/ciphers/'' @ c) (Some (obj [(''data'', JStr d)])) t) (net w) kvs n1"
    then show "saveItem P s item w = (Inr (), w\<lparr>drawn := drawn w + 56, net := n1\<rparr>)"
      using d(1) item(3) call_replies [OF t, of ?w "''PUT''" "js ''/api/ciphers/'' @ c" "Some (obj [(''data'', JStr d)])" kvs n1]
      by (simp add: saveItem_def updateCipher_def valText_def toText.simps act_simps)
  next
    fix kvs n1
    assume "replies P (request_of P (baseUrl w) ''POST'' (js ''/api/ciphers'') (Some (obj [(''data'', JStr d)])) t) (net w) kvs n1"
    then show "fst (addItem P s (withoutId item) w) \<in> range Inr
        \<and> snd (addItem P s (withoutId item) w) = w\<lparr>drawn := drawn w + 56, net := n1\<rparr>"
      using d(1) call_replies [OF t, of ?w "''POST''" "js ''/api/ciphers''" "Some (obj [(''data'', JStr d)])" kvs n1]
      by (simp add: addItem_def createCipher_def act_simps)
  next
    show "cipherItem P (s_userKey s) (JObj [(js ''id'', JStr cid), (js ''data'', JStr d)]) = Inr (vaultVal cid f)" for cid
      using d(2) item(1,2) by (simp add: cipherItem_def json.dec_enc opt_member_def vaultVal_def)
  qed
qed

lemma sealed_update:
  fixes w :: "('n, 'y) networld_scheme"
  assumes "aes_ok P" "32 \<le> length (s_userKey s)" "token_text P (s_accessToken s) t"
    and "plain (withoutId item)" "normalizeItemFields P (withoutId item) = Inr (itemVal f)"
      "get_prop_opt item (js ''id'') = Some (JStr c)"
  obtains d where
    "\<forall>kvs n1. replies P (request_of P (baseUrl w) ''PUT'' (js ''/api/ciphers/'' @ c) (Some (obj [(''data'', JStr d)])) t) (net w) kvs n1 \<longrightarrow>
       saveItem P s item w = (Inr (), w\<lparr>drawn := drawn w + 56, net := n1\<rparr>)"
    "\<forall>cid. cipherItem P (s_userKey s) (JObj [(js ''id'', JStr cid), (js ''data'', JStr d)]) = Inr (vaultVal cid f)"
proof (rule sealed_item [OF assms, where w = w], goal_cases)
  case (1 d)
  show thesis
    by (rule that [of d]) (use 1 in blast)+
qed

section \<open>Such a server\<close>

text \<open>A server that keeps one cipher, under the id \<open>a\<close>.\<close>

definition store_fetch :: "request \<Rightarrow> jsstring \<Rightarrow> response result \<times> jsstring" where
  "store_fetch rq n =
     (case rq_body rq of
        None \<Rightarrow> (Inr \<lparr>rs_status = 200, rs_text = JSON_stringify sample_platform 0
          (obj [(''ciphers'', JArr [obj [(''id'', JStr (js ''a'')), (''data'', JStr n)]])])\<rparr>, n)
      | Some t \<Rightarrow>
          (Inr \<lparr>rs_status = 200, rs_text = JSON_stringify sample_platform 0 (obj [(''id'', JStr (js ''a''))])\<rparr>,
           case JSON_parse t of Inr v \<Rightarrow> textField ''data'' v | Inl _ \<Rightarrow> n))"

lemma stringify_ne: "JSON_stringify J 0 (JObj kvs) \<noteq> []"
  by (simp add: JSON_stringify_def)

lemma store_texts:
  "JSON_parse (JSON_stringify J 0 (JObj [(js ''data'', JStr d)])) = Inr (JObj [(js ''data'', JStr d)])"
  "JSON_parse (JSON_stringify J 0 (JObj [(js ''id'', JStr (js ''a''))])) = Inr (JObj [(js ''id'', JStr (js ''a''))])"
  "JSON_parse (JSON_stringify J 0 (JObj [(js ''ciphers'', JArr [JObj [(js ''id'', JStr (js ''a'')), (js ''data'', JStr d)]])]))
    = Inr (JObj [(js ''ciphers'', JArr [JObj [(js ''id'', JStr (js ''a'')), (js ''data'', JStr d)]])])"
  by (rule json.dec_enc, simp add: obj_of_id)+

lemma store_takes:
  assumes f: "fetch P = store_fetch" and c: "c = [] \<or> c = js ''a''"
  shows "server_takes P t w c d (js ''a'') d"
proof -
  have "replies P (request_of P (baseUrl w) m path (Some (obj [(''data'', JStr d)])) t) n
      [(js ''id'', JStr (js ''a''))] d" for m path n
    by (simp add: store_texts replies_def f store_fetch_def request_of_def rs_ok_def stringify_ne)
  moreover have "replies P (request_of P (baseUrl w) ''GET'' (js ''/api/sync'') None t) d
      [(js ''ciphers'', JArr [JObj [(js ''id'', JStr (js ''a'')), (js ''data'', JStr d)]])] d"
    by (simp add: store_texts replies_def f store_fetch_def request_of_def rs_ok_def stringify_ne)
  ultimately show ?thesis
    unfolding server_takes_def using c by fastforce
qed

end
