(* ===== verification/Dates.thy ===== *)
theory Dates
  imports JSNumber
begin

text \<open>
  \<open>new Date(s).getTime()\<close> on the date-times the server writes (RFC 3339 with seconds, in UTC or at an offset): milliseconds
  since 1970 by the proleptic Gregorian calendar of ECMAScript.
\<close>

definition leap_year :: "int \<Rightarrow> bool" where
  "leap_year y \<longleftrightarrow> y mod 4 = 0 \<and> (y mod 100 \<noteq> 0 \<or> y mod 400 = 0)"

definition month_length :: "int \<Rightarrow> nat \<Rightarrow> int" where
  "month_length y m = (if m = 2 then (if leap_year y then 29 else 28) else if m \<in> {4, 6, 9, 11} then 30 else 31)"

definition days_to_year :: "int \<Rightarrow> int" where
  "days_to_year y = 365 * (y - 1970) + (y - 1969) div 4 - (y - 1901) div 100 + (y - 1601) div 400"

definition days_from_civil :: "int \<Rightarrow> nat \<Rightarrow> nat \<Rightarrow> int" where
  "days_from_civil y m d = days_to_year y + sum_list (map (month_length y) [1..<m]) + int d - 1"

definition number_at :: "jsstring \<Rightarrow> nat \<Rightarrow> nat \<Rightarrow> nat" where
  "number_at s i n = digits_val (take n (drop i s))"

text \<open>The offset behind the seconds, in minutes: \<open>Z\<close>, or a sign, hours and minutes.\<close>

definition iso_offset :: "jsstring \<Rightarrow> int option" where
  "iso_offset z =
     (if z = js ''Z'' then Some 0
      else if length z = 6 \<and> hd z \<in> set (js ''+-'') \<and> z ! 3 = jc (CHR '':'')
        \<and> list_all is_digit (take 2 (drop 1 z) @ drop 4 z) \<and> number_at z 1 2 < 24 \<and> number_at z 4 2 < 60
      then Some ((if hd z = jc (CHR ''-'') then -1 else 1) * int (60 * number_at z 1 2 + number_at z 4 2))
      else None)"

definition iso_shape :: "jsstring \<Rightarrow> bool" where
  "iso_shape s \<longleftrightarrow> 19 < length s \<and> map ((!) s) [4, 7, 10, 13, 16] = js ''--T::''
     \<and> list_all (\<lambda>i. is_digit (s ! i)) [0, 1, 2, 3, 5, 6, 8, 9, 11, 12, 14, 15, 17, 18]"

definition isoMs :: "jsstring \<Rightarrow> int option" where
  "isoMs s =
     (if \<not> iso_shape s then None
      else
        let y = int (number_at s 0 4); m = number_at s 5 2; d = number_at s 8 2;
            h = number_at s 11 2; mi = number_at s 14 2; sec = number_at s 17 2
        in if 1 \<le> m \<and> m \<le> 12 \<and> 1 \<le> d \<and> int d \<le> month_length y m \<and> h < 24 \<and> mi < 60 \<and> sec < 60
           then map_option (\<lambda>z. 1000 * (86400 * days_from_civil y m d + int (3600 * h + 60 * mi + sec) - 60 * z))
             (iso_offset (drop 19 s))
           else None)"

lemma isoMs_seconds: "isoMs s = Some t \<Longrightarrow> 1000 dvd t"
  by (auto simp: isoMs_def Let_def split: if_splits)

text \<open>The calendar of the formula: a year begins where the year before it ends.\<close>

lemma next_multiple: "0 < n \<Longrightarrow> (x + 1) div n = x div n + (if (x + 1) mod n = 0 then 1 else (0 :: int))"
proof -
  assume n: "0 < n"
  have x: "x = n * (x div n) + x mod n" by simp
  show ?thesis
  proof (cases "(x + 1) mod n = 0")
    case True
    then obtain k where k: "x + 1 = n * k" by fastforce
    then have "x = n * (k - 1) + (n - 1)" by (simp add: algebra_simps)
    then have "x div n = k - 1" using n by simp
    then show ?thesis using k n True by simp
  next
    case False
    have "x mod n \<noteq> n - 1"
    proof
      assume "x mod n = n - 1"
      then have "x + 1 = n * (x div n) + n" using x by linarith
      then have "x + 1 = n * (x div n + 1)" by (simp add: distrib_left)
      then show False using False by (metis mod_mult_self1_is_0)
    qed
    then have "0 \<le> x mod n + 1" "x mod n + 1 < n" using n pos_mod_bound [OF n, of x] pos_mod_sign [OF n, of x] by linarith+
    moreover have "x + 1 = n * (x div n) + (x mod n + 1)" by simp
    ultimately have "(x + 1) div n = x div n" using n by (metis div_mult_self4 div_pos_pos_trivial add.right_neutral less_irrefl)
    then show ?thesis using False by simp
  qed
qed

lemma days_to_next_year: "days_to_year (y + 1) = days_to_year y + (if leap_year y then 366 else 365)"
proof -
  have m: "(y - 1968) mod 4 = y mod 4" "(y - 1900) mod 100 = y mod 100" "(y - 1600) mod 400 = y mod 400"
    using mod_diff_right_eq [of y 1968 4] mod_diff_right_eq [of y 1900 100] mod_diff_right_eq [of y 1600 400] by simp_all
  have x: "y - 1969 + 1 = y - 1968" "y - 1901 + 1 = y - 1900" "y - 1601 + 1 = y - 1600"
    by simp_all
  have q: "(y - 1968) div 4 = (y - 1969) div 4 + (if y mod 4 = 0 then 1 else 0)"
    "(y - 1900) div 100 = (y - 1901) div 100 + (if y mod 100 = 0 then 1 else 0)"
    "(y - 1600) div 400 = (y - 1601) div 400 + (if y mod 400 = 0 then 1 else 0)"
    by (rule next_multiple [of 4 "y - 1969", unfolded x m], simp)
      (rule next_multiple [of 100 "y - 1901", unfolded x m], simp,
        rule next_multiple [of 400 "y - 1601", unfolded x m], simp)
  have x1: "y + 1 - 1969 = y - 1968" "y + 1 - 1901 = y - 1900" "y + 1 - 1601 = y - 1600"
    by simp_all
  have arith: "365 * (y + 1 - 1970) + (a + i) - (b + j) + (c + k) = 365 * (y - 1970) + a - b + c + 365 + i - j + k"
    for a b c i j k :: int
    by simp
  have d: "days_to_year (y + 1) = days_to_year y + 365 + (if y mod 4 = 0 then 1 else 0)
      - (if y mod 100 = 0 then 1 else 0) + (if y mod 400 = 0 then 1 else 0)"
    by (simp only: days_to_year_def x1 q arith)
  have "y mod 4 = 0" if "y mod 100 = 0"
    using that mod_mod_cancel [of 4 100 y] by simp
  moreover have "y mod 100 = 0" if "y mod 400 = 0"
    using that mod_mod_cancel [of 100 400 y] by simp
  ultimately show ?thesis
    unfolding d leap_year_def
    by (cases "y mod 4 = 0"; cases "y mod 100 = 0"; cases "y mod 400 = 0"; simp only: if_True if_False simp_thms)
qed

lemma epoch: "isoMs (js ''1970-01-01T00:00:00Z'') = Some 0" "isoMs (js ''2024-02-29T12:00:00+02:00'') = Some 1709200800000"
  by code_simp+

end
