(* ===== verification/WebVault.thy ===== *)
theory WebVault
  imports Store Health Dates
begin

text \<open>
  The signed-in screen of \<open>apps/web/src/VaultScreen.tsx\<close>: its hooks are the fields of a record, its handlers functions on
  that record and the world, which here has the \<open>localStorage\<close> of the page. Handlers run to their end one after the other;
  WebView has what is rendered. A failing \<open>localStorage\<close> is not modelled.
\<close>

section \<open>World and platform\<close>

record 'n webworld = "'n networld" +
  localStorage :: "jsstring \<Rightarrow> jsstring option"

text \<open>What the screen takes from the browser beyond the service: dates that are not in the form the server writes, the
  clock, the collation, and the comparison of a date with a stored text that is a number other than a safe integer.\<close>

record 'n webplatform = "'n service" +
  otherDate :: "jsval option \<Rightarrow> int option"
  dateNow :: "'n \<Rightarrow> int"
  localeCompare :: "jsstring \<Rightarrow> jsstring \<Rightarrow> int"
  above_literal :: "int \<Rightarrow> jsstring \<Rightarrow> bool"

text \<open>\<open>new Date(v).getTime()\<close>; \<open>None\<close> is \<open>NaN\<close>.\<close>

definition dateMs :: "('n, 'z) webplatform_scheme \<Rightarrow> jsval option \<Rightarrow> int option" where
  "dateMs P ov = (case ov of
     Some (JStr t) \<Rightarrow> (case isoMs t of Some m \<Rightarrow> Some m | None \<Rightarrow> otherDate P ov)
   | _ \<Rightarrow> otherDate P ov)"

definition later :: "('n, 'z) webplatform_scheme \<Rightarrow> int option \<Rightarrow> jsnum option \<Rightarrow> bool" where
  "later P t n = (case (t, n) of
     (Some i, Some (NInt k)) \<Rightarrow> k < i
   | (Some i, Some (NLit l)) \<Rightarrow> above_literal P i l
   | _ \<Rightarrow> False)"

section \<open>Hooks\<close>

datatype Panel = TwoFactorPanel | PasskeysPanel | RecoveryPanel | ActivityPanel | SecurityPanel | SharedPanel | DataPanel

record WebVault =
  wv_items :: "jsval list"
  wv_loading :: bool
  wv_error :: "shown option"
  wv_editing :: "jsval option"
  wv_query :: jsstring
  wv_panels :: "Panel set"
  wv_sharing :: "jsval option"
  wv_toast :: "jsstring option"
  wv_selected :: "jsval option" \<comment> \<open>\<open>Some JNull\<close> at first; \<open>None\<close> is \<open>undefined\<close>\<close>
  wv_filter :: jsstring
  wv_accountOpen :: bool
  wv_alert :: "jsstring option"
  wv_menuOpen :: bool

definition initialVault :: WebVault where
  "initialVault = \<lparr>wv_items = [], wv_loading = True, wv_error = None, wv_editing = None, wv_query = [], wv_panels = {},
     wv_sharing = None, wv_toast = None, wv_selected = Some JNull, wv_filter = js ''all'', wv_accountOpen = False,
     wv_alert = None, wv_menuOpen = False\<rparr>"

type_synonym ('n, 'a) webhandler = "WebVault \<Rightarrow> 'n webworld \<Rightarrow> 'a \<times> WebVault \<times> 'n webworld"

definition flashed :: "jsstring \<Rightarrow> WebVault \<Rightarrow> WebVault" where
  "flashed msg v = v\<lparr>wv_toast := Some msg\<rparr>"

definition failed :: "jserror \<Rightarrow> WebVault \<Rightarrow> WebVault" where
  "failed e v = v\<lparr>wv_error := Some (Failed e)\<rparr>"

section \<open>Items\<close>

definition reloadVault :: "('n, 'z) webplatform_scheme \<Rightarrow> Session \<Rightarrow> ('n, unit) webhandler" where
  "reloadVault P s v w =
     (let v1 = v\<lparr>wv_loading := True, wv_error := None\<rparr>
      in case loadVault P s w of
           (Inr items, w') \<Rightarrow> ((), v1\<lparr>wv_items := items, wv_loading := False\<rparr>, w')
         | (Inl e, w') \<Rightarrow> ((), (failed e v1)\<lparr>wv_loading := False\<rparr>, w'))"

text \<open>The steps all changes of items share: the request, then the list anew and a message.\<close>

definition changing ::
  "('n, 'z) webplatform_scheme \<Rightarrow> Session \<Rightarrow> ('n webworld, 'a) act \<Rightarrow> (WebVault \<Rightarrow> WebVault) \<Rightarrow> (WebVault \<Rightarrow> WebVault)
   \<Rightarrow> ('n, bool) webhandler" where
  "changing P s m before after v w =
     (case m w of
        (Inl e, w') \<Rightarrow> (False, failed e v, w')
      | (Inr _, w') \<Rightarrow> (case reloadVault P s (before v) w' of (_, v', w'') \<Rightarrow> (True, after v', w'')))"

definition handleSave :: "('n, 'z) webplatform_scheme \<Rightarrow> Session \<Rightarrow> jsval \<Rightarrow> ('n, bool) webhandler" where
  "handleSave P s item =
     changing P s
       (if truthy_opt (get_prop_opt item (js ''id'')) then saveItem P s item
        else bindA (addItem P s (withoutId item)) (\<lambda>_. returnA ()))
       id (flashed (js ''Saved''))"

definition saveNotes :: "('n, 'z) webplatform_scheme \<Rightarrow> Session \<Rightarrow> jsval \<Rightarrow> jsstring \<Rightarrow> ('n, unit) webhandler" where
  "saveNotes P s item notes v w =
     (if get_prop_opt item (js ''notes'') = Some (JStr notes) then ((), v, w)
      else case changing P s (saveItem P s (spread item [(js ''notes'', JStr notes)])) id (flashed (js ''Notes saved'')) v w of
             (_, r) \<Rightarrow> ((), r))"

definition toggleFavorite :: "('n, 'z) webplatform_scheme \<Rightarrow> Session \<Rightarrow> jsval \<Rightarrow> ('n, unit) webhandler" where
  "toggleFavorite P s item v w =
     (case changing P s (saveItem P s (spread item [(js ''favorite'', JBool (\<not> boolField ''favorite'' item))])) id id v w of
        (_, r) \<Rightarrow> ((), r))"

text \<open>\<open>confirmed\<close> is the answer to the question of the browser.\<close>

definition handleDelete :: "('n, 'z) webplatform_scheme \<Rightarrow> Session \<Rightarrow> bool \<Rightarrow> jsval \<Rightarrow> ('n, unit) webhandler" where
  "handleDelete P s confirmed item v w =
     (if \<not> confirmed then ((), v, w)
      else case changing P s
             (bindA (liftA (valText P (get_prop_opt item (js ''id'')))) (removeItem P s))
             (\<lambda>v. if wv_selected v = get_prop_opt item (js ''id'') then v\<lparr>wv_selected := Some JNull\<rparr> else v)
             (flashed (js ''Deleted'')) v w of
             (_, r) \<Rightarrow> ((), r))"

section \<open>The list\<close>

fun firsts :: "'a list \<Rightarrow> 'a list" where
  "firsts [] = []"
| "firsts (x # xs) = x # filter (\<lambda>y. y \<noteq> x) (firsts xs)"

definition folders :: "('n, 'z) webplatform_scheme \<Rightarrow> jsval list \<Rightarrow> jsstring list" where
  "folders P items = sortBy (localeCompare P) (firsts (filter (\<lambda>f. f \<noteq> []) (map (textField ''folder'') items)))"

definition inFilter :: "jsstring \<Rightarrow> jsval \<Rightarrow> bool" where
  "inFilter flt i =
     (if flt = js ''all'' then True
      else if flt = js ''favorites'' then boolField ''favorite'' i
      else textField ''folder'' i = drop (length ''folder:'') flt)"

definition searchHaystack :: "'z jsenv_scheme \<Rightarrow> jsval \<Rightarrow> jsstring" where
  "searchHaystack J i = toLowerCase J (join [10]
     [textField ''name'' i, textField ''username'' i, textField ''url'' i, textField ''folder'' i,
      subField ''identity'' ''fullName'' i, subField ''identity'' ''email'' i, subField ''card'' ''cardholder'' i])"

definition filteredVault :: "'z jsenv_scheme \<Rightarrow> WebVault \<Rightarrow> jsval list" where
  "filteredVault J v =
     sortBy (\<lambda>a b. of_bool (boolField ''favorite'' b) - of_bool (boolField ''favorite'' a))
       (filter (\<lambda>i. inFilter (wv_filter v) i
          \<and> (wv_query v = [] \<or> str_includes (searchHaystack J i) (toLowerCase J (wv_query v)))) (wv_items v))"

definition itemSubtitle :: "jsval \<Rightarrow> jsstring" where
  "itemSubtitle i = itemLine 80 (js ''no details'') i"

text \<open>The item shown in the detail pane, and whether a phone shows the detail pane.\<close>

definition selectedItem :: "WebVault \<Rightarrow> jsval option" where
  "selectedItem v = find (\<lambda>i. get_prop_opt i (js ''id'') = wv_selected v) (wv_items v)"

definition detailOpen :: "jsstring option \<Rightarrow> WebVault \<Rightarrow> bool" where
  "detailOpen recovery v \<longleftrightarrow> wv_accountOpen v \<or> selectedItem v \<noteq> None \<or> recovery \<noteq> None"

definition closeDetail :: "WebVault \<Rightarrow> WebVault" where
  "closeDetail v = v\<lparr>wv_selected := Some JNull, wv_accountOpen := False\<rparr>"

definition selectItem :: "jsval \<Rightarrow> WebVault \<Rightarrow> WebVault" where
  "selectItem item v = v\<lparr>wv_accountOpen := False, wv_selected := get_prop_opt item (js ''id'')\<rparr>"

definition openAccount :: "WebVault \<Rightarrow> WebVault" where
  "openAccount v = v\<lparr>wv_accountOpen := True, wv_selected := Some JNull\<rparr>"

definition newItem :: jsval where
  "newItem = withId [(js ''id'', JStr [])] (JObj (blankFields (js ''login'')))"

section \<open>Login awareness\<close>

definition lastSeenKey :: "'z platform_scheme \<Rightarrow> jsstring \<Rightarrow> jsstring" where
  "lastSeenKey P identifier =
     js ''passwd:lastSeenActivity:'' @ concat (map hex2 (wc_digest P SHA256 (utf8 (normalizeIdentifier P identifier))))"

definition buildLoginAlert :: "nat \<Rightarrow> bool \<Rightarrow> jsstring" where
  "buildLoginAlert failures reuse =
     js ''Since your last visit: '' @ join (js '' and '')
       ((if 0 < failures then [nat_str failures @ js '' failed sign-in attempt'' @ (if failures = 1 then [] else js ''s'')] else [])
        @ (if reuse then [js ''session token reuse''] else []))
     @ js ''. If that wasn'' @ [39] @ js ''t you, review your activity.''"

definition isEvent :: "string \<Rightarrow> jsval \<Rightarrow> bool" where
  "isEvent k e \<longleftrightarrow> get_prop_opt e (js ''event'') = Some (JStr (js k))"

fun sinceEvents :: "('n, 'z) webplatform_scheme \<Rightarrow> jsnum option \<Rightarrow> jsval list \<Rightarrow> jsval list result" where
  "sinceEvents P n [] = Inr []"
| "sinceEvents P n (e # es) =
     bindR (get_prop e (js ''createdAt'')) (\<lambda>c.
     bindR (sinceEvents P n es) (\<lambda>r.
     Inr (if later P (dateMs P c) n \<and> (isEvent ''login.failure'' e \<or> isEvent ''token.reuse_detected'' e) then e # r else r)))"

text \<open>The alert, when there was an earlier visit. Only an array has a \<open>filter\<close>.\<close>

definition alertSince :: "('n, 'z) webplatform_scheme \<Rightarrow> jsstring option \<Rightarrow> jsval option \<Rightarrow> jsstring option result" where
  "alertSince P lastSeenRaw events =
     (case lastSeenRaw of
        None \<Rightarrow> Inr None
      | Some t \<Rightarrow>
          (case events of
             Some (JArr es) \<Rightarrow>
               mapR (\<lambda>since.
                 let failures = length (filter (isEvent ''login.failure'') since);
                     reuse = list_ex (isEvent ''token.reuse_detected'') since
                 in if 0 < failures \<or> reuse then Some (buildLoginAlert failures reuse) else None)
               (sinceEvents P (toNumber t) es)
           | _ \<Rightarrow> Inl EType))"

definition newestSeen :: "('n, 'z) webplatform_scheme \<Rightarrow> jsval option \<Rightarrow> 'n \<Rightarrow> int option result" where
  "newestSeen P events n =
     (case events of
        None \<Rightarrow> Inl EType
      | Some JNull \<Rightarrow> Inl EType
      | Some (JArr []) \<Rightarrow> Inr (Some (dateNow P n))
      | Some (JArr (e # es)) \<Rightarrow> mapR (dateMs P) (get_prop e (js ''createdAt''))
      | Some (JStr t) \<Rightarrow> Inr (if t = [] then Some (dateNow P n) else dateMs P None)
      | Some v \<Rightarrow>
          (if truthy_opt (get_prop_opt v (js ''length''))
           then mapR (dateMs P) (get_prop (nullish (get_prop_opt v (js ''0'')) JNull) (js ''createdAt''))
           else Inr (Some (dateNow P n))))"

text \<open>The effect of a session: \<open>gone\<close> and \<open>goneLater\<close> say whether the screen has been left when the log arrives and
  when the alert is set.\<close>

definition checkActivity ::
  "('n, 'z) webplatform_scheme \<Rightarrow> Session \<Rightarrow> bool \<Rightarrow> bool \<Rightarrow> WebVault \<Rightarrow> 'n webworld \<Rightarrow> WebVault \<times> 'n webworld" where
  "checkActivity P s gone goneLater v w =
     (case getActivity P s w of
        (Inl _, w1) \<Rightarrow> (v, w1)
      | (Inr events, w1) \<Rightarrow>
          if gone then (v, w1)
          else
            let key = lastSeenKey P (s_identifier s)
            in case alertSince P (localStorage w1 key) events of
                 Inl _ \<Rightarrow> (v, w1)
               | Inr al \<Rightarrow>
                   let v' = (if al \<noteq> None \<and> \<not> goneLater then v\<lparr>wv_alert := al\<rparr> else v)
                   in case newestSeen P events (net w1) of
                        Inl _ \<Rightarrow> (v', w1)
                      | Inr t \<Rightarrow> (v', w1\<lparr>localStorage := (localStorage w1)
                          (key \<mapsto> (case t of None \<Rightarrow> js ''NaN'' | Some m \<Rightarrow> int_str m))\<rparr>))"

definition reviewAlert :: "WebVault \<Rightarrow> WebVault" where
  "reviewAlert v = v\<lparr>wv_panels := insert ActivityPanel (wv_panels v), wv_alert := None\<rparr>"

definition dismissAlert :: "WebVault \<Rightarrow> WebVault" where
  "dismissAlert v = v\<lparr>wv_alert := None\<rparr>"


section \<open>Saving what the form holds\<close>

lemma reloadVault_lists:
  assumes "token_text P (s_accessToken s) t"
    and "replies P (request_of P (baseUrl w) ''GET'' (js ''/api/sync'') None t) (net w) [(js ''ciphers'', JArr cs)] n2"
    and "c \<in> set cs" "cipherItem P (s_userKey s) c = Inr i"
  shows "\<exists>items. reloadVault P s v w = ((), v\<lparr>wv_loading := False, wv_error := None, wv_items := items\<rparr>, w\<lparr>net := n2\<rparr>)
    \<and> i \<in> set items"
proof -
  obtain items where "loadVault P s w = (Inr items, w\<lparr>net := n2\<rparr>)" "i \<in> set items"
    using loadVault_lists [OF assms] by blast
  then show ?thesis
    by (intro exI [of _ items]) (simp add: reloadVault_def)
qed

lemma changing_done:
  assumes "m w = (Inr a, w1)" "reloadVault P s (before v) w1 = ((), v1, w2)"
  shows "changing P s m before after v w = (True, after v1, w2)"
  using assms by (simp add: changing_def)

abbreviation saving where
  "saving P s item \<equiv> (if truthy_opt (get_prop_opt item (js ''id'')) then saveItem P s item
     else bindA (addItem P s (withoutId item)) (\<lambda>_. returnA ()))"

abbreviation listed :: "jsval list \<Rightarrow> WebVault \<Rightarrow> WebVault" where
  "listed items v \<equiv> v\<lparr>wv_loading := False, wv_error := None, wv_items := items\<rparr>"

lemma save_then_reload:
  fixes w :: "'n webworld"
  assumes P: "aes_ok P" "32 \<le> length (s_userKey s)" and t: "token_text P (s_accessToken s) t"
    and item: "plain (withoutId item)" "normalizeItemFields P (withoutId item) = Inr (itemVal f)"
      "get_prop_opt item (js ''id'') = Some (JStr c)"
  obtains d where "\<forall>cid n2 after v. server_takes P t w c d cid n2 \<longrightarrow>
    (\<exists>items w'. changing P s (saving P s item) id after v w = (True, after (listed items v), w') \<and> vaultVal cid f \<in> set items)"
proof -
  obtain d where d: "\<And>kvs n1. replies P (request_of P (baseUrl w) ''PUT'' (js ''/api/ciphers/'' @ c) (Some (obj [(''data'', JStr d)])) t) (net w) kvs n1 \<Longrightarrow>
       saveItem P s item w = (Inr (), w\<lparr>drawn := drawn w + 56, net := n1\<rparr>)"
    "\<And>kvs n1. replies P (request_of P (baseUrl w) ''POST'' (js ''/api/ciphers'') (Some (obj [(''data'', JStr d)])) t) (net w) kvs n1 \<Longrightarrow>
       fst (addItem P s (withoutId item) w) \<in> range Inr \<and> snd (addItem P s (withoutId item) w) = w\<lparr>drawn := drawn w + 56, net := n1\<rparr>"
    "\<And>cid. cipherItem P (s_userKey s) (JObj [(js ''id'', JStr cid), (js ''data'', JStr d)]) = Inr (vaultVal cid f)"
    using sealed_item [OF P t item, of w] by blast
  show thesis
  proof (rule that [of d], intro allI impI)
    fix cid n2 v and after :: "WebVault \<Rightarrow> WebVault"
    assume "server_takes P t w c d cid n2"
    then obtain kvs n1 cs where r: "replies P (request_of P (baseUrl w) (if c = [] then ''POST'' else ''PUT'')
          (if c = [] then js ''/api/ciphers'' else js ''/api/ciphers/'' @ c) (Some (obj [(''data'', JStr d)])) t) (net w) kvs n1"
        "replies P (request_of P (baseUrl w) ''GET'' (js ''/api/sync'') None t) n1 [(js ''ciphers'', JArr cs)] n2"
        "JObj [(js ''id'', JStr cid), (js ''data'', JStr d)] \<in> set cs"
      unfolding server_takes_def by blast
    let ?w1 = "w\<lparr>drawn := drawn w + 56, net := n1\<rparr>"
    have m: "saving P s item w = (Inr (), ?w1)"
    proof (cases "c = []")
      case True
      then obtain a where "addItem P s (withoutId item) w = (Inr a, ?w1)"
        using d(2) [of kvs n1] r(1) by (cases "addItem P s (withoutId item) w") auto
      then show ?thesis
        using True item(3) by (simp add: truthy_opt_def act_simps)
    next
      case False
      then show ?thesis
        using d(1) [of kvs n1] r(1) item(3) by (simp add: truthy_opt_def)
    qed
    obtain items where i: "reloadVault P s v ?w1 = ((), listed items v, ?w1\<lparr>net := n2\<rparr>)" "vaultVal cid f \<in> set items"
      using reloadVault_lists [OF t _ r(3) d(3), of ?w1 n2 v] r(2) by auto
    have "changing P s (saving P s item) id after v w = (True, after (listed items v), ?w1\<lparr>net := n2\<rparr>)"
      by (rule changing_done [where m = "saving P s item" and before = id, OF m]) (simp add: i(1))
    then show "\<exists>items w'. changing P s (saving P s item) id after v w = (True, after (listed items v), w') \<and> vaultVal cid f \<in> set items"
      using i(2) by blast
  qed
qed

lemma draft_of:
  assumes "item_fields_ok i" "it_fields i = map fieldVal fs"
  shows "holds_draft c (i, fs) (vaultVal c i)" "item_fields_ok (draftItem (i, fs))" "draftItem (i, fs) = i"
proof -
  have "i\<lparr>it_fields := it_fields i\<rparr> = i"
    by simp
  then have di: "i\<lparr>it_fields := map fieldVal fs\<rparr> = i"
    using assms(2) by simp
  then show "draftItem (i, fs) = i"
    by (simp add: draftItem_def)
  with assms(1) show "item_fields_ok (draftItem (i, fs))"
    by simp
  have "list_all2 shows_field fs (map fieldVal fs)"
    by (simp add: list_all2_conv_all_nth shows_field_def)
  then show "holds_draft c (i, fs) (vaultVal c i)"
    unfolding holds_draft_def using di by (intro exI [of _ "map fieldVal fs"]) simp
qed

text \<open>C1: what the editor shows is what the vault returns. An item that is opened in the editor, edited by any sequence of its
  controls and saved comes back from the server as the item these edits make of it (the specification), under
  its id or the id the server gave a new one, and the screen says so; when anything fails on the way to the server, the
  list and everything else on the screen stay as they were, and the failure is shown.\<close>

theorem saved_edit_loads:
  fixes w :: "'n webworld"
  assumes P: "aes_ok P" "32 \<le> length (s_userKey s)" and t: "token_text P (s_accessToken s) t"
    and i: "item_fields_ok i" "it_fields i = map fieldVal fs" and ops: "allOffered ops (vaultVal c i)"
  shows "(\<exists>d. \<forall>cid n2. server_takes P t w c d cid n2 \<longrightarrow>
      (\<exists>items w'. handleSave P s (edits ops (vaultVal c i)) v w
          = (True, (listed items v)\<lparr>wv_toast := Some (js ''Saved'')\<rparr>, w')
        \<and> vaultVal cid (draftItem (specEdits ops (i, fs))) \<in> set items))
    \<and> (\<forall>v' w'. handleSave P s (edits ops (vaultVal c i)) v w = (False, v', w') \<longrightarrow>
        (\<exists>e. v' = v\<lparr>wv_error := Some (Failed e)\<rparr>))"
proof
  let ?item = "edits ops (vaultVal c i)"
  have h: "holds_draft c (specEdits ops (i, fs)) ?item" "item_fields_ok (draftItem (specEdits ops (i, fs)))"
    using edits_hold [OF draft_of(1,2) [OF i] ops] by simp_all
  note n = holds_normal [OF h]
  obtain d where "\<forall>cid n2 after v. server_takes P t w c d cid n2 \<longrightarrow>
      (\<exists>items w'. changing P s (saving P s ?item) id after v w = (True, after (listed items v), w')
        \<and> vaultVal cid (draftItem (specEdits ops (i, fs))) \<in> set items)"
    by (rule save_then_reload [OF P t n(2,1,3), where w = w])
  then show "\<exists>d. \<forall>cid n2. server_takes P t w c d cid n2 \<longrightarrow>
      (\<exists>items w'. handleSave P s ?item v w = (True, (listed items v)\<lparr>wv_toast := Some (js ''Saved'')\<rparr>, w')
        \<and> vaultVal cid (draftItem (specEdits ops (i, fs))) \<in> set items)"
    unfolding handleSave_def flashed_def by blast
  show "\<forall>v' w'. handleSave P s ?item v w = (False, v', w') \<longrightarrow> (\<exists>e. v' = v\<lparr>wv_error := Some (Failed e)\<rparr>)"
    by (auto simp: handleSave_def changing_def failed_def split: prod.splits sum.splits)
qed

text \<open>An item of the vault, changed in the detail pane.\<close>

lemma quick_edit:
  fixes w :: "'n webworld"
  assumes P: "aes_ok P" "32 \<le> length (s_userKey s)" "token_text P (s_accessToken s) t"
    and i: "item_fields_ok i" and c: "c \<noteq> []"
  obtains d where "\<forall>cid n2 after v. server_takes P t w c d cid n2 \<longrightarrow>
    (\<exists>items w'. changing P s (saveItem P s (vaultVal c i)) id after v w = (True, after (listed items v), w') \<and> vaultVal c i \<in> set items)"
proof -
  have n: "plain (withoutId (vaultVal c i))" "normalizeItemFields P (withoutId (vaultVal c i)) = Inr (itemVal i)"
    "get_prop_opt (vaultVal c i) (js ''id'') = Some (JStr c)"
    using itemVal_plain [OF i] normalizeItemFields_same [OF itemVal_wf [OF i]] by simp_all
  obtain d where d0: "\<forall>cid n2 after v. server_takes P t w c d cid n2 \<longrightarrow>
      (\<exists>items w'. changing P s (saving P s (vaultVal c i)) id after v w = (True, after (listed items v), w') \<and> vaultVal cid i \<in> set items)"
    by (rule save_then_reload [OF P n, where w = w])
  have sv: "saving P s (vaultVal c i) = saveItem P s (vaultVal c i)"
    using c by (simp add: truthy_opt_def)
  have d: "\<forall>cid n2 after v. server_takes P t w c d cid n2 \<longrightarrow>
      (\<exists>items w'. changing P s (saveItem P s (vaultVal c i)) id after v w = (True, after (listed items v), w') \<and> vaultVal cid i \<in> set items)"
    using d0 unfolding sv .
  show thesis
  proof (rule that [of d], intro allI impI)
    fix cid n2 v and after :: "WebVault \<Rightarrow> WebVault"
    assume s: "server_takes P t w c d cid n2"
    then have "cid = c"
      using c by (auto simp: server_takes_def)
    then show "\<exists>items w'. changing P s (saveItem P s (vaultVal c i)) id after v w = (True, after (listed items v), w') \<and> vaultVal c i \<in> set items"
      using d [rule_format, OF s, of after v] by simp
  qed
qed

lemma quick_values:
  "get_prop_opt (vaultVal c i) (js ''notes'') = Some (JStr (it_notes i))"
  "boolField ''favorite'' (vaultVal c i) = it_favorite i"
  "spread (vaultVal c i) [(js ''notes'', JStr n)] = vaultVal c (i\<lparr>it_notes := n\<rparr>)"
  using setText_vaultVal [of "''notes''" n c i]
  by (simp_all add: vaultVal_props itemVal_def own_props_def truthy_opt_def setText_def putText_def)

lemma notes_load:
  fixes w :: "'n webworld"
  assumes P: "aes_ok P" "32 \<le> length (s_userKey s)" "token_text P (s_accessToken s) t"
    and i: "item_fields_ok i" "n \<noteq> it_notes i" and c: "c \<noteq> []"
  obtains d where "\<forall>cid n2. server_takes P t w c d cid n2 \<longrightarrow>
    (\<exists>items w'. saveNotes P s (vaultVal c i) n v w = ((), (listed items v)\<lparr>wv_toast := Some (js ''Notes saved'')\<rparr>, w')
      \<and> vaultVal c (i\<lparr>it_notes := n\<rparr>) \<in> set items)"
proof -
  have "item_fields_ok (i\<lparr>it_notes := n\<rparr>)"
    using i(1) by (simp add: item_fields_ok_def)
  from quick_edit [OF P this c, of w] obtain d where d: "\<forall>cid n2 after v. server_takes P t w c d cid n2 \<longrightarrow>
      (\<exists>items w'. changing P s (saveItem P s (vaultVal c (i\<lparr>it_notes := n\<rparr>))) id after v w = (True, after (listed items v), w')
        \<and> vaultVal c (i\<lparr>it_notes := n\<rparr>) \<in> set items)" .
  show thesis
  proof (rule that [of d], intro allI impI)
    fix cid n2
    assume "server_takes P t w c d cid n2"
    from d [rule_format, OF this, of "flashed (js ''Notes saved'')" v]
    show "\<exists>items w'. saveNotes P s (vaultVal c i) n v w = ((), (listed items v)\<lparr>wv_toast := Some (js ''Notes saved'')\<rparr>, w')
        \<and> vaultVal c (i\<lparr>it_notes := n\<rparr>) \<in> set items"
      using i(2) by (auto simp: saveNotes_def quick_values flashed_def)
  qed
qed

lemma star_loads:
  fixes w :: "'n webworld"
  assumes P: "aes_ok P" "32 \<le> length (s_userKey s)" "token_text P (s_accessToken s) t"
    and i: "item_fields_ok i" and c: "c \<noteq> []"
  obtains d where "\<forall>cid n2. server_takes P t w c d cid n2 \<longrightarrow>
    (\<exists>items w'. toggleFavorite P s (vaultVal c i) v w = ((), listed items v, w')
      \<and> vaultVal c (i\<lparr>it_favorite := \<not> it_favorite i\<rparr>) \<in> set items)"
proof -
  have "item_fields_ok (i\<lparr>it_favorite := \<not> it_favorite i\<rparr>)"
    using i by (simp add: item_fields_ok_def)
  from quick_edit [OF P this c, of w] obtain d where d: "\<forall>cid n2 after v. server_takes P t w c d cid n2 \<longrightarrow>
      (\<exists>items w'. changing P s (saveItem P s (vaultVal c (i\<lparr>it_favorite := \<not> it_favorite i\<rparr>))) id after v w = (True, after (listed items v), w')
        \<and> vaultVal c (i\<lparr>it_favorite := \<not> it_favorite i\<rparr>) \<in> set items)" .
  show thesis
  proof (rule that [of d], intro allI impI)
    fix cid n2
    assume "server_takes P t w c d cid n2"
    from d [rule_format, OF this, of id v]
    show "\<exists>items w'. toggleFavorite P s (vaultVal c i) v w = ((), listed items v, w')
        \<and> vaultVal c (i\<lparr>it_favorite := \<not> it_favorite i\<rparr>) \<in> set items"
      by (auto simp: toggleFavorite_def quick_values spread_vaultVal)
  qed
qed

text \<open>C32: the edits of the detail pane. Leaving the notes as they are makes no request and changes nothing; otherwise the item
  comes back with the new notes and is otherwise unchanged, and starring an item comes back with the star flipped and nothing
  else, whether it was starred before or not.\<close>

theorem quick_edits_load:
  fixes w :: "'n webworld"
  assumes P: "aes_ok P" "32 \<le> length (s_userKey s)" "token_text P (s_accessToken s) t"
    and i: "item_fields_ok i" and c: "c \<noteq> []"
  shows "saveNotes P s (vaultVal c i) (it_notes i) v w = ((), v, w)
    \<and> (n \<noteq> it_notes i \<longrightarrow> (\<exists>d. \<forall>cid n2. server_takes P t w c d cid n2 \<longrightarrow>
        (\<exists>items w'. saveNotes P s (vaultVal c i) n v w = ((), (listed items v)\<lparr>wv_toast := Some (js ''Notes saved'')\<rparr>, w')
          \<and> vaultVal c (i\<lparr>it_notes := n\<rparr>) \<in> set items)))
    \<and> (\<exists>d. \<forall>cid n2. server_takes P t w c d cid n2 \<longrightarrow>
        (\<exists>items w'. toggleFavorite P s (vaultVal c i) v w = ((), listed items v, w')
          \<and> vaultVal c (i\<lparr>it_favorite := \<not> it_favorite i\<rparr>) \<in> set items))"
proof (intro conjI impI)
  show "saveNotes P s (vaultVal c i) (it_notes i) v w = ((), v, w)"
    by (simp add: saveNotes_def quick_values)
qed (rule notes_load [OF P i _ c, where v = v], assumption, rule exI, assumption, rule star_loads [OF P i c, where v = v], rule exI)

section \<open>What the alert reports\<close>

definition net_only :: "(('n, 'y) networld_scheme, 'a) act \<Rightarrow> bool" where
  "net_only m \<longleftrightarrow> (\<forall>w. \<exists>n. snd (m w) = w\<lparr>net := n\<rparr>)"

lemma net_same: "\<exists>n. w = w\<lparr>net := n\<rparr>"
  by (rule exI [of _ "net w"]) simp

lemma net_only_simple: "net_only (liftA r)" "net_only (outside f)" "net_only (returnA a)"
  unfolding net_only_def by (simp_all add: liftA_def returnA_def net_same) (auto simp: outside_def split: prod.split)

lemma net_only_bind:
  assumes "net_only m" "\<And>a. net_only (f a)"
  shows "net_only (bindA m f)"
  unfolding net_only_def
proof
  fix w
  obtain r n where m: "m w = (r, w\<lparr>net := n\<rparr>)"
    using assms(1) unfolding net_only_def by (metis prod.collapse)
  show "\<exists>n. snd (bindA m f w) = w\<lparr>net := n\<rparr>"
  proof (cases r)
    case (Inr a)
    obtain n' where "snd (f a (w\<lparr>net := n\<rparr>)) = w\<lparr>net := n, net := n'\<rparr>"
      using assms(2) unfolding net_only_def by blast
    then show ?thesis
      using m Inr by auto
  qed (use m in \<open>auto simp: bindA_def\<close>)
qed

text \<open>A request takes the base address from the world.\<close>

lemma net_only_local:
  fixes g :: "(('n, 'y) networld_scheme, 'a) act"
  assumes "\<And>w. \<exists>(m :: (('n, 'y) networld_scheme, 'b) act) f. g w = bindA m f w \<and> net_only m \<and> (\<forall>a. net_only (f a))"
  shows "net_only g"
  unfolding net_only_def
proof
  fix w
  obtain m :: "(('n, 'y) networld_scheme, 'b) act" and f where "g w = bindA m f w" "net_only m" "\<forall>a. net_only (f a)"
    using assms by blast
  then show "\<exists>n. snd (g w) = w\<lparr>net := n\<rparr>"
    using net_only_bind [of m f] by (simp add: net_only_def)
qed

lemma net_only_call: "net_only (call P m path body token)"
  by (rule net_only_local, unfold call_def Let_def, rule exI, rule exI, rule conjI, rule refl)
    (auto intro!: net_only_bind net_only_simple)

lemma net_only_getActivity: "net_only (getActivity P s)"
  unfolding getActivity_def auditLog_def by (intro net_only_bind net_only_call net_only_simple)

lemma getActivity_keeps: "getActivity P s w = (r, w') \<Longrightarrow> localStorage w' = localStorage (w :: 'n webworld)"
proof -
  assume a: "getActivity P s w = (r, w')"
  obtain n where "snd (getActivity P s w) = w\<lparr>net := n\<rparr>"
    using net_only_getActivity [of P s] unfolding net_only_def by blast
  with a show ?thesis
    by simp
qed

lemma trim_digits: "\<forall>c \<in> set s. is_digit c \<Longrightarrow> trim s = s"
proof (rule trim_id)
  assume d: "\<forall>c \<in> set s. is_digit c"
  have "is_digit c \<Longrightarrow> \<not> is_space c" for c
    by (auto simp: is_digit_def is_space_def word_le_nat_alt)
  then show "s = [] \<or> \<not> is_space (hd s) \<and> \<not> is_space (last s)"
    using d by (cases "s = []") simp_all
qed

lemma toNumber_nat_str:
  assumes "n \<le> 2 ^ 53"
  shows "toNumber (nat_str n) = Some (NInt (int n))"
proof -
  let ?s = "nat_str n"
  have d: "\<forall>c \<in> set ?s. is_digit c"
    using nat_str_digits by blast
  have nd: "\<not> is_digit (jc (CHR ''x''))" "\<not> is_digit (jc (CHR ''X''))" "\<not> is_digit (jc (CHR ''o''))" "\<not> is_digit (jc (CHR ''O''))"
    "\<not> is_digit (jc (CHR ''b''))" "\<not> is_digit (jc (CHR ''B''))" "\<not> is_digit (jc (CHR ''I''))" "\<not> is_digit 45" "\<not> is_digit 43"
    by code_simp+
  have pre: "take 2 ?s \<noteq> js [CHR ''0'', a]" if "\<not> is_digit (jc a)" for a
  proof
    assume "take 2 ?s = js [CHR ''0'', a]"
    then have "jc a \<in> set (take 2 ?s)"
      by (simp add: set_js)
    then show False
      using d that by (auto dest: in_set_takeD)
  qed
  have "is_digit (hd ?s)"
    using d hd_in_set [OF nat_str_ne] by blast
  then have h: "hd ?s \<noteq> 45" "hd ?s \<noteq> 43" "?s \<noteq> js ''Infinity''"
    using nd(7-9) by (metis, metis, auto simp: js_Cons)
  have ip: "takeWhile is_digit ?s = ?s" "dropWhile is_digit ?s = []"
    using d by (simp_all add: takeWhile_eq_all_conv)
  have "unsigned_decimal False ?s ?s = Some (NInt (int n))"
    by (simp add: unsigned_decimal_def exp_part_def ip dec_literal_nat [OF assms] del: takeWhile_eq_all_conv dropWhile_eq_Nil_conv)
  then show ?thesis
    using h pre nd trim_digits [OF d] by (simp add: toNumber_def Let_def)
qed

text \<open>The time of an event of the log.\<close>

definition stamp :: "('n, 'z) webplatform_scheme \<Rightarrow> jsval \<Rightarrow> int option" where
  "stamp P e = (case get_prop e (js ''createdAt'') of Inl _ \<Rightarrow> None | Inr c \<Rightarrow> dateMs P c)"

text \<open>The alert: how many sign-ins failed and whether a token was used again, among some events.\<close>

abbreviation is_kind :: "string \<Rightarrow> jsval \<Rightarrow> bool" where
  "is_kind k e \<equiv> get_prop_opt e (js ''event'') = Some (JStr (js k))"

abbreviation alarming :: "jsval \<Rightarrow> bool" where
  "alarming e \<equiv> is_kind ''login.failure'' e \<or> is_kind ''token.reuse_detected'' e"

definition alertText :: "nat \<Rightarrow> bool \<Rightarrow> jsstring" where
  "alertText n reuse = js ''Since your last visit: '' @
     (if n = 0 then js ''session token reuse''
      else nat_str n @ js (if n = 1 then '' failed sign-in attempt'' else '' failed sign-in attempts'')
        @ (if reuse then js '' and session token reuse'' else []))
     @ js ''. If that wasn'' @ [39] @ js ''t you, review your activity.''"

definition alertOf :: "jsval list \<Rightarrow> jsstring option \<Rightarrow> jsstring option" where
  "alertOf fresh old =
     (if \<exists>e \<in> set fresh. alarming e
      then Some (alertText (length (filter (is_kind ''login.failure'') fresh)) (\<exists>e \<in> set fresh. is_kind ''token.reuse_detected'' e))
      else old)"

lemma alertText_built: "0 < n \<or> reuse \<Longrightarrow> buildLoginAlert n reuse = alertText n reuse"
  by (auto simp: buildLoginAlert_def alertText_def js_def)

lemma alertOf_built:
  "alertOf fresh old = (let failures = length (filter (isEvent ''login.failure'') fresh); reuse = list_ex (isEvent ''token.reuse_detected'') fresh
      in if 0 < failures \<or> reuse then Some (buildLoginAlert failures reuse) else old)"
proof -
  have "isEvent k = is_kind k" for k
    by (simp add: isEvent_def fun_eq_iff)
  then show ?thesis
    by (auto simp: alertOf_def alertText_built Let_def list_ex_iff filter_empty_conv)
qed

lemma alertOf_old: "alertOf fresh old = (case alertOf fresh None of None \<Rightarrow> old | Some t \<Rightarrow> Some t)"
  by (simp add: alertOf_def)

lemma sinceEvents_filter:
  assumes "\<forall>e \<in> set es. stamp P e \<noteq> None"
  shows "sinceEvents P (Some (NInt k)) es = Inr (filter (\<lambda>e. k < the (stamp P e)
     \<and> (isEvent ''login.failure'' e \<or> isEvent ''token.reuse_detected'' e)) es)"
  using assms
proof (induction es)
  case (Cons e es)
  obtain c m where "get_prop e (js ''createdAt'') = Inr c" "dateMs P c = Some m"
    using Cons.prems by (auto simp: stamp_def split: sum.splits)
  then show ?case
    using Cons by (simp add: later_def stamp_def)
qed simp

lemma alertSince_events:
  assumes "\<forall>e \<in> set es. stamp P e \<noteq> None" "toNumber t = Some (NInt k)"
  shows "alertSince P (Some t) (Some (JArr es)) = Inr (alertOf (filter (\<lambda>e. k < the (stamp P e)) es) None)"
proof -
  have "filter (isEvent ''login.failure'') (filter (\<lambda>e. k < the (stamp P e)
       \<and> (isEvent ''login.failure'' e \<or> isEvent ''token.reuse_detected'' e)) es)
      = filter (isEvent ''login.failure'') (filter (\<lambda>e. k < the (stamp P e)) es)"
    "list_ex (isEvent ''token.reuse_detected'') (filter (\<lambda>e. k < the (stamp P e)
       \<and> (isEvent ''login.failure'' e \<or> isEvent ''token.reuse_detected'' e)) es)
      = list_ex (isEvent ''token.reuse_detected'') (filter (\<lambda>e. k < the (stamp P e)) es)"
    by (auto simp: list_ex_iff intro: filter_cong)
  then show ?thesis
    by (simp add: alertSince_def alertOf_built assms sinceEvents_filter Let_def)
qed

lemma newestSeen_stamp:
  assumes "stamp P e = Some m"
  shows "newestSeen P (Some (JArr (e # es))) n = Inr (Some m)"
proof -
  obtain c where "get_prop e (js ''createdAt'') = Inr c" "dateMs P c = Some m"
    using assms by (auto simp: stamp_def split: sum.splits)
  then show ?thesis
    by (simp add: newestSeen_def)
qed

lemma alertSince_total:
  assumes "\<forall>e \<in> set es. stamp P e \<noteq> None"
  shows "alertSince P raw (Some (JArr es)) \<in> range Inr"
proof -
  have "\<exists>r. sinceEvents P k es = Inr r" for k
    using assms
  proof (induction es)
    case (Cons e es)
    then obtain c r where "get_prop e (js ''createdAt'') = Inr c" "sinceEvents P k es = Inr r"
      by (auto simp: stamp_def split: sum.splits)
    then show ?case
      by simp
  qed simp
  then show ?thesis
    by (cases raw) (simp_all add: alertSince_def, metis mapR_simps(2) rangeI)
qed

text \<open>The server stamps with whole seconds, so an event that follows the newest one seen within its second has the same stamp,
  and is not among the later ones.\<close>

lemma same_second_events_missed:
  assumes "\<forall>x \<in> set new. stamp P x = Some k"
  shows "alertOf (filter (\<lambda>x. k < the (stamp P x)) new) al = al"
proof -
  have "filter (\<lambda>x. k < the (stamp P x)) new = []"
    using assms by (simp add: filter_empty_conv)
  then show ?thesis
    by (simp add: alertOf_def)
qed

text \<open>When all that alarms is stamped later, nothing is missed.\<close>

lemma alertOf_later:
  assumes "\<forall>x \<in> set new. alarming x \<longrightarrow> k < the (stamp P x)"
  shows "alertOf (filter (\<lambda>x. k < the (stamp P x)) new) al = alertOf new al"
proof -
  have "filter (is_kind ''login.failure'') (filter (\<lambda>x. k < the (stamp P x)) new) = filter (is_kind ''login.failure'') new"
    "(\<exists>x \<in> set (filter (\<lambda>x. k < the (stamp P x)) new). is_kind ''token.reuse_detected'' x)
      \<longleftrightarrow> (\<exists>x \<in> set new. is_kind ''token.reuse_detected'' x)"
    "(\<exists>x \<in> set (filter (\<lambda>x. k < the (stamp P x)) new). alarming x) \<longleftrightarrow> (\<exists>x \<in> set new. alarming x)"
    using assms by (auto intro: filter_cong)
  then show ?thesis
    by (simp add: alertOf_def)
qed

text \<open>C33: what the alert of the web vault reports. On a first visit nothing is reported. When a later visit finds a log with the
  same account's events of the visit before at its end, the alert counts exactly the failed sign-ins, and mentions a token reuse
  exactly if there is one, among the new events that are stamped later than the newest event of the visit before; when there are none of these, nothing
  changes. So if all new events of these two kinds are stamped later, all of them are reported; one that carries the same stamp
  (the server stamps whole seconds) or an older one is not, although it came since the last visit
  (\<open>same_second_events_missed\<close>). The stamp of the newest event is what is remembered, also
  under another spelling of the identifier.\<close>

theorem login_awareness:
  fixes w1 w2 :: "'n webworld"
  assumes who: "normalizeIdentifier P (s_identifier s2) = normalizeIdentifier P (s_identifier s1)"
    and old: "stamp P e = Some k" "0 \<le> k" "k \<le> 2 ^ 53" "\<forall>x \<in> set old. \<exists>m \<le> k. stamp P x = Some m"
    and new: "\<forall>x \<in> set new. stamp P x \<noteq> None"
    and first: "getActivity P s1 w1 = (Inr (Some (JArr (e # old))), w1')" "checkActivity P s1 False False v1 w1 = (v1', u1)"
    and second: "localStorage w2 = localStorage u1" "getActivity P s2 w2 = (Inr (Some (JArr (new @ e # old))), w2')"
      "checkActivity P s2 False False v2 w2 = (v2', u2)"
  shows "(localStorage w1 (lastSeenKey P (s_identifier s1)) = None \<longrightarrow> v1' = v1)
    \<and> v2' = v2\<lparr>wv_alert := alertOf (filter (\<lambda>x. k < the (stamp P x)) new) (wv_alert v2)\<rparr>
    \<and> ((\<forall>x \<in> set new. alarming x \<longrightarrow> k < the (stamp P x)) \<longrightarrow>
        v2' = v2\<lparr>wv_alert := alertOf new (wv_alert v2)\<rparr>)
    \<and> localStorage u2 (lastSeenKey P (s_identifier s2)) = Some (int_str (the (stamp P (hd (new @ [e])))))"
proof -
  let ?key = "lastSeenKey P (s_identifier s1)"
  have key: "lastSeenKey P (s_identifier s2) = ?key"
    by (simp add: lastSeenKey_def who)
  have es: "\<forall>x \<in> set (e # old). stamp P x \<noteq> None" "\<forall>x \<in> set (new @ e # old). stamp P x \<noteq> None"
    using old new by auto
  obtain al where al: "alertSince P (localStorage w1' ?key) (Some (JArr (e # old))) = Inr al"
    using alertSince_total [OF es(1)] by blast
  then have u1: "localStorage u1 ?key = Some (int_str k)"
    "localStorage w1 ?key = None \<longrightarrow> v1' = v1"
    using first newestSeen_stamp [OF old(1), of old "net w1'"] getActivity_keeps [OF first(1)]
    by (auto simp: checkActivity_def alertSince_def Let_def split: if_splits)
  have k: "int_str k = nat_str (nat k)" "toNumber (int_str k) = Some (NInt k)"
    using old(2,3) toNumber_nat_str [of "nat k"] by (simp_all add: int_str_def nat_le_iff)
  have "filter (\<lambda>x. k < the (stamp P x)) (new @ e # old) = filter (\<lambda>x. k < the (stamp P x)) new"
    using old(1,4) by (fastforce simp: filter_empty_conv)
  then have a2: "alertSince P (localStorage w2' ?key) (Some (JArr (new @ e # old)))
      = Inr (alertOf (filter (\<lambda>x. k < the (stamp P x)) new) None)"
    using alertSince_events [OF es(2) k(2)] u1(1) second(1) getActivity_keeps [OF second(2)] by simp
  obtain m where m: "stamp P (hd (new @ [e])) = Some m"
    using new old(1) by (cases new) auto
  obtain x xs where x: "new @ e # old = x # xs" "stamp P x = Some m"
    using m by (cases new) auto
  let ?fresh = "filter (\<lambda>x. k < the (stamp P x)) new"
  have v: "v2' = (if alertOf ?fresh None \<noteq> None then v2\<lparr>wv_alert := alertOf ?fresh None\<rparr> else v2)"
    "localStorage u2 ?key = Some (int_str m)"
    using second(2,3) a2 newestSeen_stamp [OF x(2), of xs "net w2'"] by (auto simp: checkActivity_def key x(1) Let_def)
  have "v2' = v2\<lparr>wv_alert := alertOf ?fresh (wv_alert v2)\<rparr>"
    unfolding v(1) alertOf_old [of ?fresh "wv_alert v2"] by (cases "alertOf ?fresh None") simp_all
  moreover have "alertOf ?fresh (wv_alert v2) = alertOf new (wv_alert v2)" if "\<forall>x \<in> set new. alarming x \<longrightarrow> k < the (stamp P x)"
    using alertOf_later [OF that] .
  ultimately show ?thesis
    using u1(2) v(2) m key by simp
qed

section \<open>Servers for the witnesses\<close>

definition sample_store :: "jsstring webplatform" where
  "sample_store = service.extend (platform.extend sample_platform
     (service.fields store_fetch (\<lambda>o1 n. (Inr (JObj []), n)) (\<lambda>o1 n. (Inr (JObj []), n))))
     (webplatform.fields (\<lambda>_. None) (\<lambda>_. 0) (\<lambda>a b. 0) (\<lambda>i l. False))"

definition sample_storeworld :: "jsstring webworld" where
  "sample_storeworld = networld.extend (world.extend sample_world (networld.fields [] (js ''https://vault.example'')))
     (webworld.fields (\<lambda>_. None))"

lemma sample_store_aes: "aes_ok sample_store"
  using sample_ok by (simp add: aes_ok_def sample_store_def service.defs webplatform.defs platform.defs sample_platform_def)

lemma sample_store_fetch: "fetch sample_store = store_fetch"
  by (simp add: sample_store_def service.defs webplatform.defs platform.defs sample_platform_def)

lemma sample_store_takes: "c = [] \<or> c = js ''a'' \<Longrightarrow> server_takes sample_store t w c d (js ''a'') d"
  by (rule store_takes [OF sample_store_fetch])

abbreviation sample_edits :: "EditOp list" where
  "sample_edits \<equiv> [SetText ''notes'' (js ''hi''), AddField, FieldLabel 0 (js ''PIN''), FieldMask 0, SetCard ''cvv'' (js ''123'')]"

lemma sample_edits_offered: "allOffered sample_edits (vaultVal (js ''a'') sample_item)"
  by code_simp

theorem saved_edit_loads_witness:
  "\<exists>v w'. handleSave sample_store sample_session (edits sample_edits (vaultVal (js ''a'') sample_item)) initialVault sample_storeworld
      = (True, v, w')
    \<and> vaultVal (js ''a'') (draftItem (specEdits sample_edits (sample_item, []))) \<in> set (wv_items v)"
proof -
  have i: "it_fields sample_item = map fieldVal []" "32 \<le> length (s_userKey sample_session)"
    by (simp_all add: sample_item_def sample_session_def)
  have t: "token_text sample_store (s_accessToken sample_session) None"
    by (simp add: token_text_def sample_session_def truthy_opt_def)
  obtain d where "\<forall>cid n2. server_takes sample_store None sample_storeworld (js ''a'') d cid n2 \<longrightarrow>
      (\<exists>items w'. handleSave sample_store sample_session (edits sample_edits (vaultVal (js ''a'') sample_item)) initialVault sample_storeworld
          = (True, (listed items initialVault)\<lparr>wv_toast := Some (js ''Saved'')\<rparr>, w')
        \<and> vaultVal cid (draftItem (specEdits sample_edits (sample_item, []))) \<in> set items)"
    using saved_edit_loads [OF sample_store_aes i(2) t sample_item_ok i(1) sample_edits_offered, of sample_storeworld initialVault]
    by blast
  then obtain items w' where "handleSave sample_store sample_session (edits sample_edits (vaultVal (js ''a'') sample_item)) initialVault sample_storeworld
          = (True, (listed items initialVault)\<lparr>wv_toast := Some (js ''Saved'')\<rparr>, w')"
      "vaultVal (js ''a'') (draftItem (specEdits sample_edits (sample_item, []))) \<in> set items"
    using sample_store_takes by blast
  then show ?thesis
    by (intro exI [of _ "(listed items initialVault)\<lparr>wv_toast := Some (js ''Saved'')\<rparr>"] exI [of _ w']) simp
qed

theorem quick_edits_load_witness:
  "\<exists>v w'. toggleFavorite sample_store sample_session (vaultVal (js ''a'') sample_item) initialVault sample_storeworld = ((), v, w')
    \<and> vaultVal (js ''a'') (sample_item\<lparr>it_favorite := False\<rparr>) \<in> set (wv_items v)"
proof -
  have k: "32 \<le> length (s_userKey sample_session)" "js ''a'' \<noteq> []"
    by (simp_all add: sample_session_def)
  have t: "token_text sample_store (s_accessToken sample_session) None"
    by (simp add: token_text_def sample_session_def truthy_opt_def)
  obtain d where "\<forall>cid n2. server_takes sample_store None sample_storeworld (js ''a'') d cid n2 \<longrightarrow>
      (\<exists>items w'. toggleFavorite sample_store sample_session (vaultVal (js ''a'') sample_item) initialVault sample_storeworld
          = ((), listed items initialVault, w')
        \<and> vaultVal (js ''a'') (sample_item\<lparr>it_favorite := \<not> it_favorite sample_item\<rparr>) \<in> set items)"
    using quick_edits_load [OF sample_store_aes k(1) t sample_item_ok k(2), THEN conjunct2, THEN conjunct2] by blast
  moreover have "server_takes sample_store None sample_storeworld (js ''a'') d (js ''a'') d"
    by (rule sample_store_takes) simp
  moreover have "\<not> it_favorite sample_item \<longleftrightarrow> False"
    by (simp add: sample_item_def)
  ultimately obtain items w' where "toggleFavorite sample_store sample_session (vaultVal (js ''a'') sample_item) initialVault sample_storeworld
          = ((), listed items initialVault, w')"
      "vaultVal (js ''a'') (sample_item\<lparr>it_favorite := False\<rparr>) \<in> set items"
    by fastforce
  then show ?thesis
    by (intro exI [of _ "listed items initialVault"] exI [of _ w']) simp
qed

text \<open>The queued server of the session witnesses, with the browser around it.\<close>

definition sample_web :: "(int \<times> jsval) list webplatform" where
  "sample_web = service.extend sample_service (webplatform.fields (\<lambda>_. None) (\<lambda>_. 0) (\<lambda>a b. 0) (\<lambda>i l. False))"

definition sample_webworld :: "(int \<times> jsval) list \<Rightarrow> (jsstring \<Rightarrow> jsstring option) \<Rightarrow> (int \<times> jsval) list webworld" where
  "sample_webworld n ls = networld.extend (sample_net n) (webworld.fields ls)"

lemma sample_webworld_simps:
  "net (sample_webworld n ls) = n" "localStorage (sample_webworld n ls) = ls"
  "(sample_webworld n ls)\<lparr>net := n'\<rparr> = sample_webworld n' ls"
  by (simp_all add: sample_webworld_def sample_net_def networld.defs webworld.defs world.defs sample_world_def)

abbreviation sample_event :: "string \<Rightarrow> string \<Rightarrow> jsval" where
  "sample_event k t \<equiv> obj [(''event'', JStr (js k)), (''createdAt'', JStr (js t))]"

lemma sample_web_replies: "plain (JObj kvs) \<Longrightarrow> replies sample_web rq ((200, JObj kvs) # n) kvs n"
  using sample_replies [of kvs rq n]
  by (simp add: replies_def sample_web_def sample_service_defs webplatform.defs)

lemma sample_activity:
  assumes "plain (JArr es)"
  shows "getActivity sample_web sample_session (sample_webworld [(200, obj [(''events'', JArr es)])] ls)
    = (Inr (Some (JArr es)), sample_webworld [] ls)"
proof -
  have p: "plain (JObj [(js ''events'', JArr es)])"
    using assms by (simp add: obj_of_id)
  show ?thesis
    using sample_web_replies [OF p] call_replies [of sample_web "s_accessToken sample_session" None
        "sample_webworld [(200, JObj [(js ''events'', JArr es)])] ls" "''GET''" "js ''/api/audit''" None "[(js ''events'', JArr es)]" "[]"]
    by (simp add: getActivity_def auditLog_def token_text_def sample_session_def truthy_opt_def sample_webworld_simps act_simps)
qed

theorem login_awareness_witness:
  "\<exists>v1 u1 v2 u2. checkActivity sample_web sample_session False False initialVault
        (sample_webworld [(200, obj [(''events'', JArr [sample_event ''login.success'' ''2024-05-01T10:00:00Z''])])] (\<lambda>_. None)) = (v1, u1)
    \<and> checkActivity sample_web sample_session False False v1
        (sample_webworld [(200, obj [(''events'', JArr [sample_event ''login.failure'' ''2024-05-01T10:00:05Z'',
           sample_event ''login.success'' ''2024-05-01T10:00:00Z''])])] (localStorage u1)) = (v2, u2)
    \<and> wv_alert v1 = None \<and> wv_alert v2 = Some (js ''Since your last visit: 1 failed sign-in attempt. If that wasn'' @ [39] @ js ''t you, review your activity.'')"
proof -
  let ?e = "sample_event ''login.success'' ''2024-05-01T10:00:00Z''" and ?f = "sample_event ''login.failure'' ''2024-05-01T10:00:05Z''"
  have s: "stamp sample_web ?e = Some 1714557600000" "stamp sample_web ?f = Some 1714557605000"
    by code_simp+
  have p: "plain (JArr [?e])" "plain (JArr [?f, ?e])"
    by (simp_all add: obj_of_id)
  obtain v1 u1 where c1: "checkActivity sample_web sample_session False False initialVault
      (sample_webworld [(200, obj [(''events'', JArr [?e])])] (\<lambda>_. None)) = (v1, u1)"
    by fastforce
  obtain v2 u2 where c2: "checkActivity sample_web sample_session False False v1
      (sample_webworld [(200, obj [(''events'', JArr [?f, ?e])])] (localStorage u1)) = (v2, u2)"
    by fastforce
  have a2: "getActivity sample_web sample_session (sample_webworld [(200, obj [(''events'', JArr [?f, ?e])])] (localStorage u1))
      = (Inr (Some (JArr ([?f] @ ?e # []))), sample_webworld [] (localStorage u1))"
    using sample_activity [OF p(2)] by simp
  have f: "is_kind ''login.failure'' ?f" "\<not> is_kind ''token.reuse_detected'' ?f"
    by simp_all
  from login_awareness [OF refl s(1) _ _ _ _ sample_activity [OF p(1)] c1 _ a2 c2]
  have "(localStorage (sample_webworld [(200, obj [(''events'', JArr [?e])])] (\<lambda>_. None)) (lastSeenKey sample_web (s_identifier sample_session)) = None
        \<longrightarrow> v1 = initialVault)
    \<and> v2 = v1\<lparr>wv_alert := alertOf [?f] (wv_alert v1)\<rparr>"
    using s(2) by (simp add: s [simplified] sample_webworld_simps)
  then have v: "v1 = initialVault" "wv_alert v2 = alertOf [?f] (wv_alert v1)"
    by (simp_all add: s [simplified] sample_webworld_simps)
  have t: "alertText 1 False = js ''Since your last visit: 1 failed sign-in attempt. If that wasn'' @ [39] @ js ''t you, review your activity.''"
    by code_simp
  then have "wv_alert v2 = Some (js ''Since your last visit: 1 failed sign-in attempt. If that wasn'' @ [39] @ js ''t you, review your activity.'')"
    using v(2) f t by (simp only: alertOf_def) simp
  then show ?thesis
    using c1 c2 v(1) by (auto simp: initialVault_def)
qed

end
