(* ===== verification/WebPanels.thy ===== *)
theory WebPanels
  imports WebVault Totp Biometric
begin

text \<open>
  The panels of \<open>apps/web/src/VaultScreen.tsx\<close>: two-factor, passkeys, the recovery code, the activity log, the security
  check, sharing, the account. Each has a record of its hooks. A handler that answers a button gives its verdict; a
  rejection without a message shows a text of its own, which is not told apart here.
\<close>

type_synonym ('n, 's, 'a) panel_handler = "'s \<Rightarrow> 'n webworld \<Rightarrow> 'a \<times> 's \<times> 'n webworld"

text \<open>A request whose outcome a panel shows: \<open>ok\<close> on a fulfilled promise, \<open>bad\<close> on a rejected one.\<close>

definition outcome :: "('n webworld, 'a) act \<Rightarrow> ('a \<Rightarrow> 's) \<Rightarrow> (jserror \<Rightarrow> 's) \<Rightarrow> 'n webworld \<Rightarrow> bool \<times> 's \<times> 'n webworld" where
  "outcome m good bad w = (case m w of (Inr a, w') \<Rightarrow> (True, good a, w') | (Inl e, w') \<Rightarrow> (False, bad e, w'))"

section \<open>Two-factor authentication\<close>

record TwoFactor =
  tf_loading :: bool
  tf_enabled :: bool
  tf_setup :: "(jsstring \<times> jsstring) option"
  tf_code :: jsstring
  tf_error :: "jserror option"

definition openTwoFactor :: "('n, 'z) service_scheme \<Rightarrow> Session \<Rightarrow> ('n, TwoFactor, bool) panel_handler" where
  "openTwoFactor P s p =
     outcome (bindA (getTwoFactorStatus P s) (\<lambda>r. liftA (get_prop r (js ''enabled''))))
       (\<lambda>en. p\<lparr>tf_enabled := truthy_opt en, tf_loading := False\<rparr>) (\<lambda>e. p\<lparr>tf_error := Some e, tf_loading := False\<rparr>)"

definition disableClicked :: "('n, 'z) service_scheme \<Rightarrow> Session \<Rightarrow> ('n, TwoFactor, bool) panel_handler" where
  "disableClicked P s p =
     outcome (disableTwoFactor P s (tf_code p))
       (\<lambda>_. p\<lparr>tf_error := None, tf_enabled := False, tf_code := []\<rparr>) (\<lambda>e. p\<lparr>tf_error := Some e\<rparr>)"

definition enableClicked :: "('n, 'z) service_scheme \<Rightarrow> Session \<Rightarrow> ('n, TwoFactor, bool) panel_handler" where
  "enableClicked P s p =
     outcome (enableTwoFactor P s (tf_code p))
       (\<lambda>_. p\<lparr>tf_error := None, tf_enabled := True, tf_setup := None, tf_code := []\<rparr>) (\<lambda>e. p\<lparr>tf_error := Some e\<rparr>)"

definition setupClicked :: "('n, 'z) service_scheme \<Rightarrow> Session \<Rightarrow> ('n, TwoFactor, bool) panel_handler" where
  "setupClicked P s p =
     outcome (setupTwoFactor P s) (\<lambda>st. p\<lparr>tf_error := None, tf_setup := Some st\<rparr>) (\<lambda>e. p\<lparr>tf_error := Some e\<rparr>)"

section \<open>Passkeys\<close>

record Passkeys =
  pk_loading :: bool
  pk_creds :: "jsval option"
  pk_name :: jsstring
  pk_error :: "jserror option"

definition refreshPasskeys :: "('n, 'z) service_scheme \<Rightarrow> Session \<Rightarrow> ('n, Passkeys, bool) panel_handler" where
  "refreshPasskeys P s p = outcome (listPasskeys P s) (\<lambda>cs. p\<lparr>pk_creds := cs\<rparr>) (\<lambda>e. p\<lparr>pk_error := Some e\<rparr>)"

definition openPasskeys :: "('n, 'z) service_scheme \<Rightarrow> Session \<Rightarrow> ('n, Passkeys, bool) panel_handler" where
  "openPasskeys P s p w = (case refreshPasskeys P s p w of (b, p', w') \<Rightarrow> (b, p'\<lparr>pk_loading := False\<rparr>, w'))"

definition removeClicked :: "('n, 'z) service_scheme \<Rightarrow> Session \<Rightarrow> jsstring \<Rightarrow> ('n, Passkeys, bool) panel_handler" where
  "removeClicked P s cid p w =
     (case removePasskey P s cid w of
        (Inr _, w') \<Rightarrow> (case refreshPasskeys P s (p\<lparr>pk_error := None\<rparr>) w' of (_, p', w'') \<Rightarrow> (True, p', w''))
      | (Inl e, w') \<Rightarrow> (False, p\<lparr>pk_error := Some e\<rparr>, w'))"

definition enrollClicked :: "('n, 'z) service_scheme \<Rightarrow> Session \<Rightarrow> bool \<Rightarrow> ('n, Passkeys, bool) panel_handler" where
  "enrollClicked P s supported p w =
     (if \<not> supported then (False, p\<lparr>pk_error := None\<rparr>, w)
      else case enrollPasskey P s (View.orElse (trim (pk_name p)) (js ''Passkey'')) w of
          (Inr _, w') \<Rightarrow>
            (case refreshPasskeys P s (p\<lparr>pk_error := None, pk_name := []\<rparr>) w' of (_, p', w'') \<Rightarrow> (True, p', w''))
        | (Inl e, w') \<Rightarrow> (False, p\<lparr>pk_error := Some e\<rparr>, w'))"

section \<open>The recovery code\<close>

record RecoveryCode =
  rc_loading :: bool
  rc_enabled :: bool
  rc_code :: "jsstring option"
  rc_error :: "jserror option"

definition openRecovery :: "('n, 'z) service_scheme \<Rightarrow> Session \<Rightarrow> ('n, RecoveryCode, bool) panel_handler" where
  "openRecovery P s p =
     outcome (bindA (getRecoveryStatus P s) (\<lambda>r. liftA (get_prop r (js ''enabled''))))
       (\<lambda>en. p\<lparr>rc_enabled := truthy_opt en, rc_loading := False\<rparr>) (\<lambda>e. p\<lparr>rc_error := Some e, rc_loading := False\<rparr>)"

definition generateCode :: "('n, 'z) service_scheme \<Rightarrow> Session \<Rightarrow> ('n, RecoveryCode, bool) panel_handler" where
  "generateCode P s p =
     outcome (enableRecovery P s) (\<lambda>c. p\<lparr>rc_error := None, rc_code := Some c, rc_enabled := True\<rparr>) (\<lambda>e. p\<lparr>rc_error := Some e\<rparr>)"

definition removeCode :: "('n, 'z) service_scheme \<Rightarrow> Session \<Rightarrow> ('n, RecoveryCode, bool) panel_handler" where
  "removeCode P s p =
     outcome (disableRecovery P s) (\<lambda>_. p\<lparr>rc_error := None, rc_enabled := False\<rparr>) (\<lambda>e. p\<lparr>rc_error := Some e\<rparr>)"

section \<open>Activity\<close>

definition ACTIVITY_LABELS :: "(string \<times> string) list" where
  "ACTIVITY_LABELS = [(''account.register'', ''Account created''), (''login.success'', ''Signed in''),
     (''login.failure'', ''Failed sign-in attempt''), (''totp.enable'', ''Two-factor (TOTP) enabled''),
     (''totp.disable'', ''Two-factor (TOTP) disabled''), (''passkey.enroll'', ''Passkey added''),
     (''passkey.remove'', ''Passkey removed''), (''recovery.enable'', ''Recovery code set up''),
     (''recovery.disable'', ''Recovery code removed''), (''recovery.complete'', ''Account recovered''),
     (''token.reuse_detected'', ''Session token reuse detected''), (''session.revoke_all'', ''Signed out all devices''),
     (''cipher.create'', ''Item added''), (''cipher.update'', ''Item edited''), (''cipher.delete'', ''Item deleted'')]"

text \<open>The row of an event: its label and whether it is marked. The names an object inherits are no event names of the server.\<close>

definition activityRow :: "jsstring \<Rightarrow> jsstring \<times> bool" where
  "activityRow e =
     ((case map_of (map (\<lambda>(k, l). (js k, js l)) ACTIVITY_LABELS) e of Some l \<Rightarrow> l | None \<Rightarrow> e),
      endsWith e (js ''.failure'') \<or> e = js ''token.reuse_detected'')"

record Activity =
  ac_events :: "jsval option option"
  ac_error :: "jserror option"

definition openActivity :: "('n, 'z) service_scheme \<Rightarrow> Session \<Rightarrow> ('n, Activity, bool) panel_handler" where
  "openActivity P s p = outcome (getActivity P s) (\<lambda>es. p\<lparr>ac_events := Some es\<rparr>) (\<lambda>e. p\<lparr>ac_error := Some e\<rparr>)"

section \<open>The security check\<close>

text \<open>What the audits read of an item.\<close>

definition auditItem :: "jsval \<Rightarrow> VaultItem" where
  "auditItem v =
     \<lparr>it_type = textField ''type'' v, it_name = textField ''name'' v, it_username = textField ''username'' v,
      it_password = textField ''password'' v, it_url = textField ''url'' v, it_totp = textField ''totp'' v,
      it_notes = textField ''notes'' v, it_card = own_props (subObject ''card'' v),
      it_identity = own_props (subObject ''identity'' v), it_fields = fieldsOf v,
      it_favorite = boolField ''favorite'' v, it_folder = textField ''folder'' v, vi_id = textField ''id'' v\<rparr>"

record SecurityCheck =
  sc_breaches :: "(jsstring \<times> int) list option"
  sc_busy :: bool
  sc_error :: "jserror option"

text \<open>The map of weaknesses: a later item under the same id replaces an earlier one.\<close>

definition weakById :: "jsval list \<Rightarrow> jsstring \<Rightarrow> jsstring option" where
  "weakById items = map_of (rev (List.map_filter (\<lambda>it.
     map_option (Pair (textField ''id'' it)) (passwordWeakness (textField ''password'' it))) items))"

definition runBreachCheck :: "('n, 'z) service_scheme \<Rightarrow> jsval list \<Rightarrow> ('n, SecurityCheck, bool) panel_handler" where
  "runBreachCheck P items p =
     outcome (breachedItemIds P (map auditItem items))
       (\<lambda>m. p\<lparr>sc_error := None, sc_breaches := Some m, sc_busy := False\<rparr>) (\<lambda>e. p\<lparr>sc_error := Some e, sc_busy := False\<rparr>)"

definition breachesOf :: "SecurityCheck \<Rightarrow> jsval \<Rightarrow> int" where
  "breachesOf p it = (case sc_breaches p of None \<Rightarrow> 0
     | Some m \<Rightarrow> (case map_of m (textField ''id'' it) of None \<Rightarrow> 0 | Some n \<Rightarrow> n))"

definition withPasswords :: "jsval list \<Rightarrow> nat" where
  "withPasswords items = length (filter (\<lambda>it. textField ''password'' it \<noteq> []) items)"

definition flagged :: "jsval list \<Rightarrow> SecurityCheck \<Rightarrow> jsval list" where
  "flagged items p = filter (\<lambda>it. weakById items (textField ''id'' it) \<noteq> None
     \<or> textField ''id'' it \<in> reusedItemIds (map auditItem items) \<or> 0 < breachesOf p it) items"

section \<open>Sharing\<close>

record ShareDialog =
  sd_recipient :: jsstring
  sd_error :: "shown option"

text \<open>On success the dialog's \<open>onShared\<close> closes it and flashes a message on the screen behind it.\<close>

definition onShared :: "WebVault \<Rightarrow> WebVault" where
  "onShared v = flashed (js ''Shared'') (v\<lparr>wv_sharing := None\<rparr>)"

definition shareClicked ::
  "('n, 'z) service_scheme \<Rightarrow> Session \<Rightarrow> jsval \<Rightarrow> WebVault \<Rightarrow> ('n, ShareDialog, bool \<times> WebVault) panel_handler" where
  "shareClicked P s item v p w =
     (if trim (sd_recipient p) = [] then ((False, v), p\<lparr>sd_error := Some (Says (js ''Enter a recipient identifier.''))\<rparr>, w)
      else case shareItem P s (trim (sd_recipient p)) item w of
          (Inr _, w') \<Rightarrow> ((True, onShared v), p\<lparr>sd_error := None\<rparr>, w')
        | (Inl e, w') \<Rightarrow> ((False, v), p\<lparr>sd_error := Some (Failed e)\<rparr>, w'))"

record SharedWithMe =
  sw_items :: "jsval list option"
  sw_error :: "jserror option"

definition reloadShared :: "('n, 'z) service_scheme \<Rightarrow> Session \<Rightarrow> ('n, SharedWithMe, bool) panel_handler" where
  "reloadShared P s p = outcome (listSharedWithMe P s) (\<lambda>is. p\<lparr>sw_items := Some is\<rparr>) (\<lambda>e. p\<lparr>sw_error := Some e\<rparr>)"

definition removeSharedClicked :: "('n, 'z) service_scheme \<Rightarrow> Session \<Rightarrow> jsval \<Rightarrow> ('n, SharedWithMe, bool) panel_handler" where
  "removeSharedClicked P s item p w =
     (case bindA (liftA (valText P (get_prop_opt item (js ''shareId'')))) (removeSharedItem P s) w of
        (Inr _, w') \<Rightarrow> (case reloadShared P s p w' of (_, p', w'') \<Rightarrow> (True, p', w''))
      | (Inl e, w') \<Rightarrow> (False, p\<lparr>sw_error := Some e\<rparr>, w'))"

section \<open>The account\<close>

record AccountPanel =
  ap_confirm :: jsstring
  ap_busy :: bool
  ap_error :: "jserror option"
  ap_sessions :: "jsval option option"
  ap_signingOut :: bool
  ap_bioOn :: bool

definition openAccountPanel ::
  "('n, 'z) service_scheme \<Rightarrow> 'n webworld native \<Rightarrow> Session \<Rightarrow> ('n, AccountPanel, unit) panel_handler" where
  "openAccountPanel P N s p w =
     (case outcome (getSessions P s) (\<lambda>ss. p\<lparr>ap_sessions := Some ss\<rparr>) (\<lambda>_. p\<lparr>ap_sessions := Some (Some (JArr []))\<rparr>) w of
        (_, p', w') \<Rightarrow>
          (case outcome (biometricEnrolled N) (\<lambda>b. p'\<lparr>ap_bioOn := b\<rparr>) (\<lambda>_. p') w' of (_, r) \<Rightarrow> ((), r)))"

text \<open>The verdict of these two: whether the screen is left (\<open>onDeleted\<close>, which locks).\<close>

definition signOutAll :: "('n, 'z) service_scheme \<Rightarrow> Session \<Rightarrow> ('n, AccountPanel, bool) panel_handler" where
  "signOutAll P s p =
     outcome (signOutEverywhere P s) (\<lambda>_. p\<lparr>ap_error := None, ap_signingOut := True\<rparr>)
       (\<lambda>e. p\<lparr>ap_error := Some e, ap_signingOut := False\<rparr>)"

text \<open>The button is disabled until \<open>DELETE\<close> is typed, and while a deletion is under way.\<close>

definition deleteClicked :: "('n, 'z) service_scheme \<Rightarrow> Session \<Rightarrow> ('n, AccountPanel, bool) panel_handler" where
  "deleteClicked P s p w =
     (if ap_confirm p \<noteq> js ''DELETE'' \<or> ap_busy p then (False, p, w)
      else outcome (deleteAccount P s) (\<lambda>_. p\<lparr>ap_error := None, ap_busy := True\<rparr>)
        (\<lambda>e. p\<lparr>ap_error := Some e, ap_busy := False\<rparr>) w)"

definition disableBioClicked :: "'n webworld native \<Rightarrow> ('n, AccountPanel, bool) panel_handler" where
  "disableBioClicked N p = outcome (disableBiometric N) (\<lambda>_. p\<lparr>ap_bioOn := False\<rparr>) (\<lambda>_. p)"

section \<open>The detail pane\<close>

definition normalizeUrl :: "jsstring \<Rightarrow> jsstring" where
  "normalizeUrl url =
     (let low = map ascii_lower url
      in if startsWith low (js ''http://'') \<or> startsWith low (js ''https://'') then url else js ''https://'' @ url)"

definition maskedValue :: "bool \<Rightarrow> jsstring \<Rightarrow> jsstring" where
  "maskedValue reveal v = (if reveal then v else replicate (min (length v) 16) 0x2022)"

definition cardExpiry :: "jsval \<Rightarrow> jsstring" where
  "cardExpiry item = join (js '' / '') (filter (\<lambda>t. t \<noteq> []) [subField ''card'' ''expMonth'' item, subField ''card'' ''expYear'' item])"

definition loginEmpty :: "jsval \<Rightarrow> bool" where
  "loginEmpty item \<longleftrightarrow> (\<forall>k \<in> set [''url'', ''username'', ''password'', ''totp'']. textField k item = [])"

datatype TotpShown = NotYet | InvalidSecret | Code jsstring int

text \<open>One tick of the code; a rejection leaves what is shown. The code is shown in two groups.\<close>

definition totpTick :: "'z platform_scheme \<Rightarrow> jsstring \<Rightarrow> int \<Rightarrow> bool \<Rightarrow> TotpShown \<Rightarrow> TotpShown" where
  "totpTick P secret nowMs alive st =
     (case totpFromString P secret nowMs of
        Inl _ \<Rightarrow> st
      | Inr r \<Rightarrow> if \<not> alive then st else (case r of None \<Rightarrow> InvalidSecret | Some (code, left, _) \<Rightarrow> Code code left))"

definition groupedCode :: "jsstring \<Rightarrow> jsstring" where
  "groupedCode code = (if length code = 6 \<and> list_all is_digit code then take 3 code @ [32] @ drop 3 code else code)"

section \<open>The security check lists what it should\<close>

lemma weakById_iff:
  "weakById items x \<noteq> None \<longleftrightarrow> (\<exists>it \<in> set items. textField ''id'' it = x \<and> passwordWeakness (textField ''password'' it) \<noteq> None)"
proof -
  have "fst ` set (List.map_filter (\<lambda>it. map_option (Pair (textField ''id'' it)) (passwordWeakness (textField ''password'' it))) items)
      = textField ''id'' ` {it \<in> set items. passwordWeakness (textField ''password'' it) \<noteq> None}"
    by (induction items) (auto simp: List.map_filter_simps split: option.splits)
  then show ?thesis
    by (auto simp: weakById_def map_of_eq_None_iff)
qed

text \<open>C34: the security check lists exactly the items it should. In a vault whose ids differ, an item is listed if and only if
  its password is short (under ten characters), or under fourteen with fewer than three kinds of characters, or the password
  of another item too, or was found in a breach.\<close>

theorem flagged_exactly:
  assumes "distinct (map (textField ''id'') items)" "i < length items" "pw = textField ''password'' (items ! i)"
  shows "items ! i \<in> set (flagged items p) \<longleftrightarrow>
    pw \<noteq> [] \<and> (length pw < 10 \<or> length pw < 14 \<and> card (char_kind ` set pw) < 3
      \<or> (\<exists>j < length items. j \<noteq> i \<and> textField ''password'' (items ! j) = pw))
    \<or> 0 < breachesOf p (items ! i)"
proof -
  let ?id = "textField ''id''" and ?pw = "textField ''password''"
  have same: "j = i" if "j < length items" "?id (items ! j) = ?id (items ! i)" for j
    using assms(1,2) that by (metis length_map nth_eq_iff_index_eq nth_map)
  have w: "passwordWeakness s \<noteq> None \<longleftrightarrow> s \<noteq> [] \<and> (length s < 10 \<or> length s < 14 \<and> card (char_kind ` set s) < 3)" for s
    by (simp add: passwordWeakness_def classes_are_kinds Let_def)
  have "weakById items (?id (items ! i)) \<noteq> None \<longleftrightarrow> passwordWeakness pw \<noteq> None"
    unfolding weakById_iff using assms(2,3) same by (metis in_set_conv_nth nth_mem)
  then have "weakById items (?id (items ! i)) \<noteq> None \<longleftrightarrow> pw \<noteq> [] \<and> (length pw < 10 \<or> length pw < 14 \<and> card (char_kind ` set pw) < 3)"
    by (simp only: w)
  moreover have "?id (items ! i) \<in> reusedItemIds (map auditItem items) \<longleftrightarrow>
      pw \<noteq> [] \<and> (\<exists>j < length items. j \<noteq> i \<and> ?pw (items ! j) = pw)"
  proof -
    let ?Q = "\<lambda>k. ?pw (items ! k) \<noteq> [] \<and> (\<exists>j < length items. j \<noteq> k \<and> ?pw (items ! j) = ?pw (items ! k))"
    have "?id (items ! i) \<in> reusedItemIds (map auditItem items)
        \<longleftrightarrow> (\<exists>k < length items. ?id (items ! k) = ?id (items ! i) \<and> ?Q k)"
      unfolding reusedItemIds_exact by (simp add: auditItem_def cong: conj_cong)
    also have "\<dots> \<longleftrightarrow> ?Q i"
      using assms(2) same by blast
    finally show ?thesis
      by (simp add: assms(3))
  qed
  moreover have "items ! i \<in> set (flagged items p) \<longleftrightarrow> weakById items (?id (items ! i)) \<noteq> None
      \<or> ?id (items ! i) \<in> reusedItemIds (map auditItem items) \<or> 0 < breachesOf p (items ! i)"
    using assms(2) by (simp add: flagged_def)
  ultimately show ?thesis
    by blast
qed

theorem flagged_exactly_witness:
  "\<exists>items p. length items = 2 \<and> items ! 0 \<in> set (flagged items p) \<and> items ! 1 \<in> set (flagged items p)"
proof -
  let ?items = "[obj [(''id'', JStr (js ''a'')), (''password'', JStr (js ''correct horse battery''))],
    obj [(''id'', JStr (js ''b'')), (''password'', JStr (js ''correct horse battery''))]]"
  let ?p = "\<lparr>sc_breaches = None, sc_busy = False, sc_error = None\<rparr>"
  have d: "distinct (map (textField ''id'') ?items)" "0 < length ?items" "1 < length ?items"
    by simp_all
  have pw: "js ''correct horse battery'' = textField ''password'' (?items ! 0)"
    "js ''correct horse battery'' = textField ''password'' (?items ! 1)"
    by simp_all
  have "\<exists>j < length ?items. j \<noteq> 0 \<and> textField ''password'' (?items ! j) = js ''correct horse battery''"
    by (intro exI [of _ 1]) simp
  moreover have "\<exists>j < length ?items. j \<noteq> 1 \<and> textField ''password'' (?items ! j) = js ''correct horse battery''"
    by (intro exI [of _ 0]) simp
  moreover have "js ''correct horse battery'' \<noteq> []"
    by simp
  ultimately have "?items ! 0 \<in> set (flagged ?items ?p)" "?items ! 1 \<in> set (flagged ?items ?p)"
    using flagged_exactly [OF d(1,2) pw(1), of ?p] flagged_exactly [OF d(1,3) pw(2), of ?p] by blast+
  moreover have "length ?items = 2"
    by simp
  ultimately show ?thesis
    by blast
qed

text \<open>A check whose requests all fail reads like one that found nothing.\<close>

lemma unreachable_service_reads_clean:
  assumes "\<And>rq n. fetch P rq n = (Inl ENetwork, n)"
  shows "runBreachCheck P items p w = (True, p\<lparr>sc_error := None, sc_breaches := Some [], sc_busy := False\<rparr>, w)"
proof -
  have c: "breachCount P pw w = (Inl ENetwork, w)" for pw
    by (simp add: breachCount_def Let_def bindA_def catchA_def outside_def assms)
  have "breachLoop P ps out w = (Inr out, w)" for ps out
    by (induction ps) (auto simp: c)
  then show ?thesis
    by (simp add: runBreachCheck_def outcome_def breachedItemIds_def)
qed

section \<open>A recovery code recovers\<close>

text \<open>The request that replaces the password, as \<open>recoveryComplete\<close> makes it.\<close>

definition resetVal :: "jsstring \<Rightarrow> RecoveryReset \<Rightarrow> jsval" where
  "resetVal identifier r = JObj ([(js ''identifier'', JStr identifier), (js ''recoveryAuthHash'', JStr (rr_recoveryAuthHash r)),
     (js ''masterPasswordHash'', JStr (rr_masterPasswordHash r)), (js ''protectedUserKey'', JStr (rr_protectedUserKey r))]
     @ (case rr_kdf r of None \<Rightarrow> [] | Some v \<Rightarrow> [(js ''kdf'', v)]))"

text \<open>The panel shows the code of what it has uploaded.\<close>

lemma enrolled_code_shown:
  fixes w :: "'n webworld"
  assumes en: "enrollRecovery P (s_userKey s) w = (Inr en, w\<lparr>drawn := drawn w + 108\<rparr>)"
    and t: "token_text P (s_accessToken s) t"
    and r: "replies P (request_of P (baseUrl w) ''POST'' (js ''/api/recovery/enable'')
        (Some (obj [(''recoveryProtectedUserKey'', JStr (re_recoveryProtectedUserKey en)),
          (''recoveryAuthHash'', JStr (re_recoveryAuthHash en))])) t) (net w) kvs n1"
  shows "\<exists>w'. generateCode P s p w = (True, p\<lparr>rc_error := None, rc_code := Some (re_recoveryCode en), rc_enabled := True\<rparr>, w')"
proof -
  let ?w = "w\<lparr>drawn := drawn w + 108\<rparr>"
  have "recoveryEnable P (s_accessToken s) (re_recoveryProtectedUserKey en) (re_recoveryAuthHash en) ?w = (Inr (JObj kvs), ?w\<lparr>net := n1\<rparr>)"
    unfolding recoveryEnable_def by (rule call_replies [OF t]) (use r in simp)
  then show ?thesis
    using en by (simp add: generateCode_def outcome_def enableRecovery_def act_simps)
qed

text \<open>Recovering is completing the challenge with what the server keeps.\<close>

lemma completed_recovers:
  fixes w :: "'n webworld"
  assumes r: "completeRecovery P typed wrapped ident newPw (obj_get kv1 (js ''kdf'')) (w\<lparr>net := n1\<rparr>)
      = (Inr r, w\<lparr>net := n1, drawn := drawn w + 12\<rparr>)"
    and ch: "replies P (request_of P (baseUrl w) ''POST'' (js ''/api/auth/recovery/challenge'')
        (Some (obj [(''identifier'', JStr ident)])) None) (net w) kv1 n1"
      "obj_get kv1 (js ''recoveryProtectedUserKey'') = Some (JStr wrapped)"
    and c: "replies P (request_of P (baseUrl w) ''POST'' (js ''/api/auth/recovery/complete'') (Some (resetVal ident r)) None) n1 kv2 n2"
  shows "\<exists>w'. recoverAccount P ident typed newPw w = (Inr (sessionOf ident (JObj kv2) (rr_userKey r)), w')"
proof -
  let ?w1 = "w\<lparr>net := n1\<rparr>" and ?w2 = "w\<lparr>net := n1, drawn := drawn w + 12\<rparr>"
  have none: "token_text P None None"
    by (simp add: token_text_def truthy_opt_def)
  have "recoveryChallenge P ident w = (Inr (JObj kv1), ?w1)"
    unfolding recoveryChallenge_def by (rule call_replies [OF none ch(1)])
  moreover have "recoveryComplete P ident r ?w2 = (Inr (JObj kv2), ?w2\<lparr>net := n2\<rparr>)"
    unfolding recoveryComplete_def resetVal_def [symmetric] by (rule call_replies [OF none]) (use c in simp)
  ultimately show ?thesis
    using r ch(2) by (simp add: recoverAccount_def act_simps)
qed

text \<open>C3: the code the panel shows gives the vault back. There are one code and what the panel uploads with it such that: once
  the server has taken that, the panel shows the code (when the request fails, no code is shown that was not shown before); and
  whenever, later and on any device, the code is typed, in any case and spacing, and the server answers the challenge for
  the account with what was uploaded, recovering with a new password presents the uploaded verifier and opens, when the
  server accepts, a session with the user key of before, under which the new password logs in.\<close>

theorem shown_code_recovers:
  fixes w :: "'n webworld"
  assumes P: "webcrypto_ok P" and t: "token_text P (s_accessToken s) t"
  shows "(\<exists>code wrapped h.
      (\<forall>kvs n1. replies P (request_of P (baseUrl w) ''POST'' (js ''/api/recovery/enable'')
          (Some (obj [(''recoveryProtectedUserKey'', JStr wrapped), (''recoveryAuthHash'', JStr h)])) t) (net w) kvs n1 \<longrightarrow>
        (\<exists>w'. generateCode P s p w = (True, p\<lparr>rc_error := None, rc_code := Some code, rc_enabled := True\<rparr>, w')))
    \<and> (\<forall>typed identifier newPw (w2 :: 'n webworld) kv1 n1.
        normalizeIdentifier P typed = normalizeIdentifier P code \<and> login_ok P identifier newPw (obj_get kv1 (js ''kdf''))
        \<and> replies P (request_of P (baseUrl w2) ''POST'' (js ''/api/auth/recovery/challenge'')
            (Some (obj [(''identifier'', JStr identifier)])) None) (net w2) kv1 n1
        \<and> obj_get kv1 (js ''recoveryProtectedUserKey'') = Some (JStr wrapped) \<longrightarrow>
        (\<exists>r. rr_recoveryAuthHash r = h
          \<and> unlock P identifier newPw (obj_get kv1 (js ''kdf'')) (rr_protectedUserKey r) = Inr (s_userKey s, rr_masterPasswordHash r)
          \<and> (\<forall>kv2 n2. replies P (request_of P (baseUrl w2) ''POST'' (js ''/api/auth/recovery/complete'')
                (Some (resetVal identifier r)) None) n1 kv2 n2 \<longrightarrow>
              (\<exists>w'. recoverAccount P identifier typed newPw w2 = (Inr (sessionOf identifier (JObj kv2) (s_userKey s)), w'))))))
    \<and> (\<forall>p' w'. generateCode P s p w = (False, p', w') \<longrightarrow> rc_code p' = rc_code p)"
proof -
  obtain en where en: "enrollRecovery P (s_userKey s) w = (Inr en, w\<lparr>drawn := drawn w + 108\<rparr>)"
    "\<forall>code identifier newPw params (w2 :: 'n webworld). login_ok P identifier newPw params \<longrightarrow>
       normalizeIdentifier P code = normalizeIdentifier P (re_recoveryCode en) \<longrightarrow>
       (\<exists>r. completeRecovery P code (re_recoveryProtectedUserKey en) identifier newPw params w2 = (Inr r, w2\<lparr>drawn := drawn w2 + 12\<rparr>)
        \<and> rr_userKey r = s_userKey s \<and> rr_recoveryAuthHash r = re_recoveryAuthHash en \<and> rr_kdf r = params
        \<and> unlock P identifier newPw params (rr_protectedUserKey r) = Inr (s_userKey s, rr_masterPasswordHash r))"
    by (rule recovery_works [OF P])
  have recovers: "\<exists>r. rr_recoveryAuthHash r = re_recoveryAuthHash en
      \<and> unlock P ident newPw (obj_get kv1 (js ''kdf'')) (rr_protectedUserKey r) = Inr (s_userKey s, rr_masterPasswordHash r)
      \<and> (\<forall>kv2 n2. replies P (request_of P (baseUrl w2) ''POST'' (js ''/api/auth/recovery/complete'')
            (Some (resetVal ident r)) None) n1 kv2 n2 \<longrightarrow>
          (\<exists>w'. recoverAccount P ident typed newPw w2 = (Inr (sessionOf ident (JObj kv2) (s_userKey s)), w')))"
    if a: "normalizeIdentifier P typed = normalizeIdentifier P (re_recoveryCode en)" "login_ok P ident newPw (obj_get kv1 (js ''kdf''))"
      and ch: "replies P (request_of P (baseUrl w2) ''POST'' (js ''/api/auth/recovery/challenge'')
          (Some (obj [(''identifier'', JStr ident)])) None) (net w2) kv1 n1"
        "obj_get kv1 (js ''recoveryProtectedUserKey'') = Some (JStr (re_recoveryProtectedUserKey en))"
    for typed ident newPw kv1 n1 and w2 :: "'n webworld"
  proof -
    obtain r where r: "completeRecovery P typed (re_recoveryProtectedUserKey en) ident newPw (obj_get kv1 (js ''kdf'')) (w2\<lparr>net := n1\<rparr>)
          = (Inr r, w2\<lparr>net := n1, drawn := drawn w2 + 12\<rparr>)"
        "rr_userKey r = s_userKey s" "rr_recoveryAuthHash r = re_recoveryAuthHash en"
        "unlock P ident newPw (obj_get kv1 (js ''kdf'')) (rr_protectedUserKey r) = Inr (s_userKey s, rr_masterPasswordHash r)"
      using en(2) [rule_format, OF a(2,1), of "w2\<lparr>net := n1\<rparr>"] by auto
    show ?thesis
      using completed_recovers [OF r(1) ch] r(2-) by metis
  qed
  show ?thesis
    using enrolled_code_shown [OF en(1) t] recovers
    by (intro conjI exI [of _ "re_recoveryCode en"] exI [of _ "re_recoveryProtectedUserKey en"] exI [of _ "re_recoveryAuthHash en"])
      (blast, blast, auto simp: generateCode_def outcome_def split: prod.splits sum.splits)
qed

theorem shown_code_recovers_witness:
  "\<exists>code wrapped p w' (s' :: Session) w3. generateCode sample_web sample_session p (sample_webworld [(200, JObj [])] (\<lambda>_. None))
        = (True, p\<lparr>rc_error := None, rc_code := Some code, rc_enabled := True\<rparr>, w')
    \<and> recoverAccount sample_web (js ''me@example.org'') code (js ''new password'')
        (sample_webworld [(200, JObj [(js ''recoveryProtectedUserKey'', JStr wrapped), (js ''kdf'', DEFAULT_KDF)]), (200, JObj [])] (\<lambda>_. None))
        = (Inr s', w3)
    \<and> s_userKey s' = s_userKey sample_session"
proof -
  let ?P = sample_web and ?w = "sample_webworld [(200, JObj [])] (\<lambda>_. None)"
  let ?p = "\<lparr>rc_loading = False, rc_enabled = False, rc_code = None, rc_error = None\<rparr>"
  let ?kv = "\<lambda>wr. [(js ''recoveryProtectedUserKey'', JStr wr), (js ''kdf'', DEFAULT_KDF)]"
  let ?w2 = "\<lambda>wr. sample_webworld [(200, JObj (?kv wr)), (200, JObj [])] (\<lambda>_. None)"
  have P: "webcrypto_ok ?P"
    using sample_service_webcrypto
    by (simp add: webcrypto_ok_def aes_ok_def mac_ok_def kdf_ok_def rsa_ok_def sample_web_def sample_service_defs webplatform.defs)
  have l: "login_ok ?P (js ''me@example.org'') (js ''new password'') (Some DEFAULT_KDF)"
    by code_simp
  have t: "token_text ?P (s_accessToken sample_session) None"
    by (simp add: token_text_def sample_session_def truthy_opt_def)
  have "plain DEFAULT_KDF"
    by code_simp
  then have plain: "plain (JObj [])" "plain (JObj (?kv wr))" for wr
    by (simp_all add: obj_of_id)
  obtain code wrapped h where c:
    "\<forall>kvs n1. replies ?P (request_of ?P (baseUrl ?w) ''POST'' (js ''/api/recovery/enable'')
        (Some (obj [(''recoveryProtectedUserKey'', JStr wrapped), (''recoveryAuthHash'', JStr h)])) None) (net ?w) kvs n1 \<longrightarrow>
      (\<exists>w'. generateCode ?P sample_session ?p ?w = (True, ?p\<lparr>rc_error := None, rc_code := Some code, rc_enabled := True\<rparr>, w'))"
    "\<forall>typed identifier newPw (w2 :: (int \<times> jsval) list webworld) kv1 n1.
        normalizeIdentifier ?P typed = normalizeIdentifier ?P code \<and> login_ok ?P identifier newPw (obj_get kv1 (js ''kdf''))
        \<and> replies ?P (request_of ?P (baseUrl w2) ''POST'' (js ''/api/auth/recovery/challenge'')
            (Some (obj [(''identifier'', JStr identifier)])) None) (net w2) kv1 n1
        \<and> obj_get kv1 (js ''recoveryProtectedUserKey'') = Some (JStr wrapped) \<longrightarrow>
        (\<exists>r. rr_recoveryAuthHash r = h
          \<and> unlock ?P identifier newPw (obj_get kv1 (js ''kdf'')) (rr_protectedUserKey r) = Inr (s_userKey sample_session, rr_masterPasswordHash r)
          \<and> (\<forall>kv2 n2. replies ?P (request_of ?P (baseUrl w2) ''POST'' (js ''/api/auth/recovery/complete'')
                (Some (resetVal identifier r)) None) n1 kv2 n2 \<longrightarrow>
              (\<exists>w'. recoverAccount ?P identifier typed newPw w2 = (Inr (sessionOf identifier (JObj kv2) (s_userKey sample_session)), w'))))"
    using shown_code_recovers [OF P t, of ?w ?p, THEN conjunct1] by (elim exE conjE) (rule that)
  have g: "\<exists>w'. generateCode ?P sample_session ?p ?w = (True, ?p\<lparr>rc_error := None, rc_code := Some code, rc_enabled := True\<rparr>, w')"
    using c(1) sample_web_replies [OF plain(1)] by (simp add: sample_webworld_simps) blast
  have "\<exists>w'. recoverAccount ?P (js ''me@example.org'') code (js ''new password'') (?w2 wrapped)
      = (Inr (sessionOf (js ''me@example.org'') (JObj []) (s_userKey sample_session)), w')"
  proof -
    have "replies ?P rq (net (?w2 wrapped)) (?kv wrapped) [(200, JObj [])]" for rq
      using sample_web_replies [OF plain(2)] by (simp add: sample_webworld_simps)
    moreover have "replies ?P rq [(200, JObj [])] [] []" for rq
      using sample_web_replies [OF plain(1)] by simp
    moreover have "obj_get (?kv wrapped) (js ''kdf'') = Some DEFAULT_KDF" "obj_get (?kv wrapped) (js ''recoveryProtectedUserKey'') = Some (JStr wrapped)"
      by simp_all
    ultimately show ?thesis
      using c(2) l by metis
  qed
  moreover have "s_userKey (sessionOf i r k) = k" for i r k
    by (simp add: sessionOf_def)
  ultimately show ?thesis
    using g by blast
qed

end
