(* ===== verification/Timers.thy ===== *)
theory Timers
  imports Main
begin

text \<open>
  Timers of a page: runs of timed events, the contract of an idle lock, and a value that a timer takes back
  (\<open>setTimeout\<close> after a write). A timer never fires before its time, and that is all that is known of it: it may be
  late, and other events may be handled between.
\<close>

section \<open>Timed runs\<close>

type_synonym 'e history = "(int \<times> 'e) list"

inductive timed :: "(int \<Rightarrow> 'e \<Rightarrow> 's \<Rightarrow> 's) \<Rightarrow> (int \<Rightarrow> 'e \<Rightarrow> 's \<Rightarrow> bool) \<Rightarrow> 's \<Rightarrow> 'e history \<Rightarrow> 's \<Rightarrow> bool"
  for step enabled s0 where
  start: "timed step enabled s0 [] s0"
| event: "timed step enabled s0 es s \<Longrightarrow> \<forall>(t', e') \<in> set es. t' \<le> t \<Longrightarrow> enabled t e s \<Longrightarrow>
    timed step enabled s0 (es @ [(t, e)]) (step t e s)"

inductive_cases timed_snoc: "timed step enabled s0 (es @ [te]) s"

lemma timed_last:
  assumes "timed step enabled s0 (es @ [(t, e)]) s"
  obtains s' where "timed step enabled s0 es s'" "enabled t e s'" "s = step t e s'"
  using assms by (auto elim: timed_snoc)

lemma timed_induct [consumes 1, case_names start event]:
  assumes "timed step enabled s0 es s" "Q [] s0"
    and "\<And>es s t e. timed step enabled s0 es s \<Longrightarrow> Q es s \<Longrightarrow> \<forall>(t', e') \<in> set es. t' \<le> t \<Longrightarrow> enabled t e s \<Longrightarrow>
      Q (es @ [(t, e)]) (step t e s)"
  shows "Q es s"
  using assms by (induction rule: timed.induct) blast+

text \<open>Whether a history can be, and where it leads.\<close>

fun replay :: "(int \<Rightarrow> 'e \<Rightarrow> 's \<Rightarrow> 's) \<Rightarrow> 'e history \<Rightarrow> 's \<Rightarrow> 's" where
  "replay step [] s = s"
| "replay step ((t, e) # es) s = replay step es (step t e s)"

fun in_order :: "(int \<Rightarrow> 'e \<Rightarrow> 's \<Rightarrow> 's) \<Rightarrow> (int \<Rightarrow> 'e \<Rightarrow> 's \<Rightarrow> bool) \<Rightarrow> int \<Rightarrow> 'e history \<Rightarrow> 's \<Rightarrow> bool" where
  "in_order step enabled l [] s \<longleftrightarrow> True"
| "in_order step enabled l ((t, e) # es) s \<longleftrightarrow> l \<le> t \<and> enabled t e s \<and> in_order step enabled t es (step t e s)"

lemma timed_replay_from:
  "timed step enabled s0 pre s \<Longrightarrow> \<forall>(t', e') \<in> set pre. t' \<le> l \<Longrightarrow> in_order step enabled l es s \<Longrightarrow>
    timed step enabled s0 (pre @ es) (replay step es s)"
proof (induction step enabled l es s arbitrary: pre rule: in_order.induct)
  case (2 step enabled l t e es s)
  have p: "\<forall>(t', e') \<in> set pre. t' \<le> t"
    using "2.prems"(2,3) by fastforce
  have "timed step enabled s0 (pre @ [(t, e)]) (step t e s)"
    by (rule timed.event [OF "2.prems"(1) p]) (use "2.prems"(3) in simp)
  from "2.IH" [OF this] show ?case
    using p "2.prems"(3) by auto
qed simp

lemma timed_replay: "in_order step enabled l es s0 \<Longrightarrow> timed step enabled s0 es (replay step es s0)"
  using timed_replay_from [OF timed.start, where l = l and es = es] by simp

lemma timed_prefix:
  assumes "timed step enabled s0 (es @ (t, e) # later) s"
  obtains s1 where "timed step enabled s0 es s1" "enabled t e s1"
proof -
  have "\<exists>s1. timed step enabled s0 es s1 \<and> enabled t e s1"
    using assms
  proof (induction later arbitrary: s rule: rev_induct)
    case Nil
    then show ?case
      by (auto elim: timed_snoc)
  next
    case (snoc te later)
    obtain t1 e1 where te: "te = (t1, e1)"
      by (cases te)
    from snoc.prems have "timed step enabled s0 ((es @ (t, e) # later) @ [(t1, e1)]) s"
      by (simp add: te)
    then obtain s' where "timed step enabled s0 (es @ (t, e) # later) s'"
      by (rule timed_last)
    then show ?case
      by (rule snoc.IH)
  qed
  then show thesis
    using that by blast
qed

text \<open>The time of the last event that satisfies a predicate.\<close>

definition last_time :: "('e \<Rightarrow> bool) \<Rightarrow> 'e history \<Rightarrow> int option" where
  "last_time p es = map_option fst (List.find (\<lambda>te. p (snd te)) (rev es))"

lemma last_time_Nil [simp]: "last_time p [] = None"
  by (simp add: last_time_def)

lemma last_time_snoc [simp]: "last_time p (es @ [(t, e)]) = (if p e then Some t else last_time p es)"
  by (simp add: last_time_def)

section \<open>The contract of an idle lock\<close>

text \<open>A screen that is open has one timer, which is due \<open>limit\<close> after the last activity and shuts it. Activity includes
  opening; only \<open>opens\<close> opens.\<close>

locale idle_lock =
  fixes limit :: int
    and due :: "'s \<Rightarrow> int option"
    and opened :: "'s \<Rightarrow> bool"
    and active :: "'e \<Rightarrow> bool"
    and opens :: "'e \<Rightarrow> bool"
    and timer :: 'e
    and step :: "int \<Rightarrow> 'e \<Rightarrow> 's \<Rightarrow> 's"
    and enabled :: "int \<Rightarrow> 'e \<Rightarrow> 's \<Rightarrow> bool"
    and start :: 's
  assumes starts_shut: "\<not> opened start" "due start = None"
    and activity_restarts: "active e \<Longrightarrow> opened (step t e s) \<Longrightarrow> due (step t e s) = Some (t + limit)"
    and rest_keeps: "\<not> active e \<Longrightarrow> opened (step t e s) \<Longrightarrow> opened s \<and> due (step t e s) = due s"
    and shut_clears: "\<not> opened (step t e s) \<Longrightarrow> due (step t e s) = None \<or> \<not> opened s \<and> due (step t e s) = due s"
    and only_opens: "opened (step t e s) \<Longrightarrow> opened s \<or> opens e"
    and timer_locks: "enabled t timer s \<Longrightarrow> \<not> opened (step t timer s)"
    and not_before: "enabled t timer s \<longleftrightarrow> (\<exists>d. due s = Some d \<and> d \<le> t)"
begin

lemma armed:
  assumes "timed step enabled start es s" "opened s"
  obtains l where "last_time active es = Some l" "due s = Some (l + limit)"
proof -
  have "opened s \<longrightarrow> (\<exists>l. last_time active es = Some l \<and> due s = Some (l + limit))"
    using assms(1)
  proof (induction rule: timed_induct)
    case start
    show ?case
      by (simp add: starts_shut)
  next
    case (event es s t e)
    show ?case
    proof (cases "active e")
      case True
      then show ?thesis
        by (simp add: activity_restarts)
    next
      case False
      then show ?thesis
        using event.IH rest_keeps [of e t s] by auto
    qed
  qed
  then show thesis
    using assms(2) that by blast
qed

lemma disarmed: "timed step enabled start es s \<Longrightarrow> \<not> opened s \<Longrightarrow> due s = None"
  by (induction rule: timed_induct) (use starts_shut shut_clears in fastforce)+

text \<open>It does not shut by itself before the limit after the last activity.\<close>

lemma fires_late:
  assumes "timed step enabled start (es @ (t, timer) # later) s"
  obtains l where "last_time active es = Some l" "l + limit \<le> t"
proof -
  obtain s1 where s1: "timed step enabled start es s1" "enabled t timer s1"
    by (rule timed_prefix [OF assms])
  then obtain d where d: "due s1 = Some d" "d \<le> t"
    using not_before by blast
  then have "opened s1"
    using disarmed [OF s1(1)] by auto
  from armed [OF s1(1) this] show thesis
    using d that by auto
qed

text \<open>And shut it stays, until it is opened.\<close>

lemma stays_shut:
  assumes "timed step enabled start (es @ (t, timer) # later) s" "\<forall>(t, e) \<in> set later. \<not> opens e"
  shows "\<not> opened s"
  using assms
proof (induction later arbitrary: s rule: rev_induct)
  case Nil
  then show ?case
    using timer_locks by (auto elim!: timed_snoc)
next
  case (snoc te later)
  obtain t1 e1 where te: "te = (t1, e1)"
    by (cases te)
  from snoc.prems have "timed step enabled start ((es @ (t, timer) # later) @ [(t1, e1)]) s"
    by (simp add: te)
  then obtain s' where "timed step enabled start (es @ (t, timer) # later) s'" "s = step t1 e1 s'"
    by (rule timed_last)
  then show ?case
    using snoc only_opens [of t1 e1 s'] by (auto simp: te)
qed

end

section \<open>A value that is taken back\<close>

text \<open>A write of \<open>x\<close> leaves a timer that takes the value back after \<open>delay\<close>. Other events may write too, and
  taking back may be refused.\<close>

locale taken_back =
  fixes delay :: int
    and blank :: 'a
    and val :: "'s \<Rightarrow> 'a"
    and timers :: "'s \<Rightarrow> int list"
    and puts :: "'e \<Rightarrow> 'a \<Rightarrow> bool"
    and expires :: "'e \<Rightarrow> bool"
    and refused :: "'e \<Rightarrow> bool"
    and writes :: "'e \<Rightarrow> 'a \<Rightarrow> bool"
    and step :: "int \<Rightarrow> 'e \<Rightarrow> 's \<Rightarrow> 's"
    and enabled :: "int \<Rightarrow> 'e \<Rightarrow> 's \<Rightarrow> bool"
  assumes put_timer: "puts e x \<Longrightarrow> val (step t e s) = x \<and> t + delay \<in> set (timers (step t e s))"
    and expiry: "expires e \<Longrightarrow> val (step t e s) = blank"
    and rest: "\<not> expires e \<Longrightarrow> \<not> refused e \<Longrightarrow> (val (step t e s) = val s \<or> writes e (val (step t e s)))
      \<and> set (timers s) \<subseteq> set (timers (step t e s))"
begin

text \<open>The value is there only as long as its timer has not fired.\<close>

lemma timer_pending:
  assumes "timed step enabled s0 (es @ (t0, e0) # later) s" "puts e0 x" "x \<noteq> blank"
    and "\<forall>(t, e) \<in> set later. \<not> writes e x \<and> \<not> refused e" "val s = x"
  shows "t0 + delay \<in> set (timers s) \<and> (\<forall>(t, e) \<in> set later. \<not> expires e)"
  using assms
proof (induction later arbitrary: s rule: rev_induct)
  case Nil
  from Nil.prems(1) obtain s' where "s = step t0 e0 s'"
    by (auto elim: timed_snoc)
  then show ?case
    using put_timer [OF Nil.prems(2)] by simp
next
  case (snoc te later)
  obtain t e where te: "te = (t, e)"
    by (cases te)
  from snoc.prems(1) obtain s' where s': "timed step enabled s0 (es @ (t0, e0) # later) s'" "enabled t e s'" "s = step t e s'"
    unfolding te by (auto elim: timed_snoc [of _ _ _ "es @ (t0, e0) # later", simplified])
  have e: "\<not> writes e x" "\<not> refused e" "\<not> expires e"
    using snoc.prems(3,4,5) expiry [of e t s'] s'(3) by (auto simp: te)
  then have "val s' = x"
    using rest [of e t s'] snoc.prems(5) s'(3) by auto
  then have IH: "t0 + delay \<in> set (timers s')" "\<forall>(t, e) \<in> set later. \<not> expires e"
    using snoc.IH [OF s'(1) snoc.prems(2,3)] snoc.prems(4) by auto
  then show ?case
    using rest [OF e(3,2), of t s'] s' e(3) by (auto simp: te)
qed

end

end
