(* ===== verification/Idle.thy ===== *)
theory Idle
  imports DesktopApp WebAuth Timers
begin

text \<open>
  The idle locks of \<open>apps/desktop/src/App.tsx\<close> and \<open>apps/web/src/App.tsx\<close>. An effect that depends on the vault, or the
  session, starts a timer when it is set and clears it when it is discarded; every activity event of the window starts
  it again. The applications are their outer components: what the screens below do reaches them through the callbacks
  that set their hooks.
\<close>

section \<open>The desktop application\<close>

record Shell =
  sh_ui :: DesktopUI
  sh_timer :: "int option"

text \<open>\<open>SetVault\<close> is \<open>onChange\<close> of the vault screen and the end of \<open>adopt\<close>; \<open>Navigate\<close> the callbacks of the
  other screens and of the launch.\<close>

datatype ShellEvent = SetVault DesktopVault | LockClicked | Navigate Screen | WindowActivity | IdleTimer

definition initialShell :: Shell where
  "initialShell = \<lparr>sh_ui = initialUI, sh_timer = None\<rparr>"

text \<open>The effect of \<open>[vault]\<close>: what is left of the last run is cleared; there is a timer while there is a vault.\<close>

definition idleEffect :: "int \<Rightarrow> Shell \<Rightarrow> Shell" where
  "idleEffect t s = s\<lparr>sh_timer := (if ui_vault (sh_ui s) = None then None else Some (t + IDLE_LOCK_MS))\<rparr>"

fun shellStep :: "int \<Rightarrow> ShellEvent \<Rightarrow> Shell \<Rightarrow> Shell" where
  "shellStep t (SetVault v) s = idleEffect t (s\<lparr>sh_ui := showVault v (sh_ui s)\<rparr>)"
| "shellStep t LockClicked s = idleEffect t (s\<lparr>sh_ui := lockVault (sh_ui s)\<rparr>)"
| "shellStep t (Navigate scr) s = s\<lparr>sh_ui := (sh_ui s)\<lparr>ui_screen := scr\<rparr>\<rparr>"
| "shellStep t WindowActivity s = (if ui_vault (sh_ui s) = None then s else s\<lparr>sh_timer := Some (t + IDLE_LOCK_MS)\<rparr>)"
| "shellStep t IdleTimer s = idleEffect t (s\<lparr>sh_ui := lockVault (sh_ui s)\<rparr>)"

text \<open>The timer does not fire before its time; it may be late, and anything may be handled before it. The lock button is
  shown with the vault.\<close>

fun shellEnabled :: "int \<Rightarrow> ShellEvent \<Rightarrow> Shell \<Rightarrow> bool" where
  "shellEnabled t IdleTimer s \<longleftrightarrow> (case sh_timer s of None \<Rightarrow> False | Some d \<Rightarrow> d \<le> t)"
| "shellEnabled t LockClicked s \<longleftrightarrow> ui_vault (sh_ui s) \<noteq> None"
| "shellEnabled t e s \<longleftrightarrow> True"

fun shellActive :: "ShellEvent \<Rightarrow> bool" where
  "shellActive (SetVault v) \<longleftrightarrow> True"
| "shellActive WindowActivity \<longleftrightarrow> True"
| "shellActive e \<longleftrightarrow> False"

fun setsVault :: "ShellEvent \<Rightarrow> bool" where
  "setsVault (SetVault v) \<longleftrightarrow> True"
| "setsVault e \<longleftrightarrow> False"

abbreviation shellOpen :: "Shell \<Rightarrow> bool" where
  "shellOpen s \<equiv> ui_vault (sh_ui s) \<noteq> None"

lemma lockVault_shut [simp]: "ui_vault (lockVault u) = None"
  by (simp add: lockVault_def split: option.split)

interpretation desk: idle_lock IDLE_LOCK_MS sh_timer shellOpen shellActive setsVault IdleTimer shellStep shellEnabled initialShell
proof unfold_locales
  show "shellActive e \<Longrightarrow> shellOpen (shellStep t e s) \<Longrightarrow> sh_timer (shellStep t e s) = Some (t + IDLE_LOCK_MS)" for e t s
    by (cases e) (auto simp: idleEffect_def)
  show "\<not> shellActive e \<Longrightarrow> shellOpen (shellStep t e s) \<Longrightarrow> shellOpen s \<and> sh_timer (shellStep t e s) = sh_timer s" for e t s
    by (cases e) (auto simp: idleEffect_def)
  show "\<not> shellOpen (shellStep t e s) \<Longrightarrow>
      sh_timer (shellStep t e s) = None \<or> \<not> shellOpen s \<and> sh_timer (shellStep t e s) = sh_timer s" for e t s
    by (cases e) (auto simp: idleEffect_def)
  show "shellOpen (shellStep t e s) \<Longrightarrow> shellOpen s \<or> setsVault e" for e t s
    by (cases e) (auto simp: idleEffect_def split: if_splits)
qed (auto simp: initialShell_def initialUI_def idleEffect_def split: option.split)

text \<open>C37: the idle lock of the desktop client. While the vault is open, one timer runs, which may fire from ten minutes on
  after the window was last used or the vault was last set (opened, saved or given a new password), and no sooner;
  whenever it fires, the vault is discarded and its password asked for. In a run it only ever fires that long after the last
  use or setting, and the vault is shut from then on, until one is set again. (It may fire late, and activity
  handled before it starts it again: \<open>late_timer_restarted\<close>; a save that ends after the lock sets the vault again:
  \<open>lock_undone_by_save\<close>.)\<close>

theorem desktop_idle_lock:
  assumes "timed shellStep shellEnabled initialShell es s"
  shows "(case ui_vault (sh_ui s) of None \<Rightarrow> \<forall>t. \<not> shellEnabled t IdleTimer s
      | Some v \<Rightarrow> \<exists>l. last_time shellActive es = Some l \<and> (\<forall>t. shellEnabled t IdleTimer s \<longleftrightarrow> l + 10 * 60 * 1000 \<le> t)
          \<and> (\<forall>t. shellStep t IdleTimer s = \<lparr>sh_ui = (sh_ui s)\<lparr>ui_vault := None, ui_screen := UnlockAt (dv_path v)\<rparr>, sh_timer = None\<rparr>))
    \<and> (\<forall>used t later. es = used @ (t, IdleTimer) # later \<longrightarrow>
      (\<exists>l. last_time shellActive used = Some l \<and> l + 10 * 60 * 1000 \<le> t)
      \<and> ((\<forall>t' v. (t', SetVault v) \<notin> set later) \<longrightarrow> ui_vault (sh_ui s) = None))"
proof (intro conjI allI impI)
  show "case ui_vault (sh_ui s) of None \<Rightarrow> \<forall>t. \<not> shellEnabled t IdleTimer s
      | Some v \<Rightarrow> \<exists>l. last_time shellActive es = Some l \<and> (\<forall>t. shellEnabled t IdleTimer s \<longleftrightarrow> l + 10 * 60 * 1000 \<le> t)
          \<and> (\<forall>t. shellStep t IdleTimer s = \<lparr>sh_ui = (sh_ui s)\<lparr>ui_vault := None, ui_screen := UnlockAt (dv_path v)\<rparr>, sh_timer = None\<rparr>)"
  proof (cases "ui_vault (sh_ui s)")
    case None
    then show ?thesis
      using desk.disarmed [OF assms] by simp
  next
    case (Some v)
    then obtain l where "last_time shellActive es = Some l" "sh_timer s = Some (l + IDLE_LOCK_MS)"
      using desk.armed [OF assms] by blast
    with Some show ?thesis
      by (cases s) (auto simp: IDLE_LOCK_MS_def idleEffect_def lockVault_def)
  qed
  fix used t later
  assume es: "es = used @ (t, IdleTimer) # later"
  have "\<not> shellOpen s" if "\<forall>t' v. (t', SetVault v) \<notin> set later"
  proof (rule desk.stays_shut [OF assms [unfolded es]])
    have "\<not> setsVault e" if "(t', e) \<in> set later" for t' e
      using that \<open>\<forall>t' v. (t', SetVault v) \<notin> set later\<close> by (cases e) auto
    then show "\<forall>(t', e) \<in> set later. \<not> setsVault e"
      by auto
  qed
  then show "(\<exists>l. last_time shellActive used = Some l \<and> l + 10 * 60 * 1000 \<le> t)"
      "(\<forall>t' v. (t', SetVault v) \<notin> set later) \<Longrightarrow> ui_vault (sh_ui s) = None"
    using desk.fires_late [OF assms [unfolded es]] by (auto simp: IDLE_LOCK_MS_def)
qed

theorem desktop_idle_lock_witness:
  "\<forall>v. \<exists>s s'. timed shellStep shellEnabled initialShell [(0, Navigate Start), (5, SetVault v), (500000, WindowActivity)] s
    \<and> ui_vault (sh_ui s) = Some v \<and> (\<forall>t. shellEnabled t IdleTimer s \<longleftrightarrow> 1100000 \<le> t)
    \<and> timed shellStep shellEnabled initialShell
        [(0, Navigate Start), (5, SetVault v), (500000, WindowActivity), (1100123, IdleTimer), (2000000, WindowActivity)] s'
    \<and> ui_vault (sh_ui s') = None" (is "\<forall>v. ?goal v")
proof
  fix v
  let ?es = "[(0, Navigate Start), (5, SetVault v), (500000, WindowActivity)]"
  let ?fs = "?es @ (1100123, IdleTimer) # [(2000000, WindowActivity)]"
  let ?s = "replay shellStep ?es initialShell" and ?s' = "replay shellStep ?fs initialShell"
  have r: "timed shellStep shellEnabled initialShell ?es ?s" and v: "ui_vault (sh_ui ?s) = Some v"
    by (rule timed_replay [of _ _ 0]) (simp_all add: initialShell_def initialUI_def showVault_def idleEffect_def IDLE_LOCK_MS_def)
  have r': "timed shellStep shellEnabled initialShell ?fs ?s'"
    by (rule timed_replay [of _ _ 0])
      (simp add: initialShell_def initialUI_def showVault_def idleEffect_def lockVault_def IDLE_LOCK_MS_def)
  have "last_time shellActive ?es = Some 500000"
    by (simp add: last_time_def)
  then have "\<forall>t. shellEnabled t IdleTimer ?s \<longleftrightarrow> 1100000 \<le> t"
    using desktop_idle_lock [OF r] v by simp
  moreover have "ui_vault (sh_ui ?s') = None"
    using desktop_idle_lock [OF r', THEN conjunct2, rule_format, OF refl, THEN conjunct2] by simp
  ultimately show "?goal v"
    using r v r' by (intro exI [of _ ?s] exI [of _ ?s'] conjI) (simp_all del: shellEnabled.simps)
qed

text \<open>Once locked, the vault stays so until it is set again.\<close>

lemma shell_stays_shut:
  assumes "\<not> shellOpen s" "\<forall>v. e \<noteq> SetVault v"
  shows "\<not> shellOpen (shellStep t e s)"
  using assms by (cases e) (auto simp: idleEffect_def)

text \<open>But a save or a change of the password that is still writing the file when the vault is locked sets it again when the
  file is written: the callback of the screen that is gone is the setter of the application. The vault then is open, with
  its key, and with a new timer.\<close>

lemma lock_undone_by_save:
  assumes "ui_vault (sh_ui s) = Some v" "commit P v items w = (Inr next, w')"
  shows "ui_vault (sh_ui (shellStep t2 (SetVault next) (shellStep t1 LockClicked s))) = Some (v\<lparr>dv_items := items\<rparr>)"
  using assms by (auto simp: idleEffect_def showVault_def commit_def bindA_def returnA_def split: prod.splits sum.splits)

text \<open>And a timer that is late, as on a machine that slept, is started again by the first movement of the mouse, if that is
  handled before it.\<close>

lemma late_timer_restarted:
  assumes "ui_vault (sh_ui s) = Some v" "sh_timer s = Some d" "d < t"
  shows "ui_vault (sh_ui (shellStep t WindowActivity s)) = Some v" "sh_timer (shellStep t WindowActivity s) = Some (t + IDLE_LOCK_MS)"
  using assms by simp_all

section \<open>The web vault\<close>

datatype WebEvent = Authed Session | Recovered "jsstring option" | LockWeb | WindowActivityWeb | IdleTimerWeb

fun webStep :: "int \<Rightarrow> WebEvent \<Rightarrow> WebApp \<Rightarrow> WebApp" where
  "webStep t (Authed s) a = setSession t s a"
| "webStep t (Recovered r) a = a\<lparr>wa_recovery := r\<rparr>"
| "webStep t LockWeb a = lockWeb a"
| "webStep t WindowActivityWeb a = resetTimer t a"
| "webStep t IdleTimerWeb a = timerFires t a"

fun webEnabled :: "int \<Rightarrow> WebEvent \<Rightarrow> WebApp \<Rightarrow> bool" where
  "webEnabled t IdleTimerWeb a \<longleftrightarrow> (case wa_lockAt a of None \<Rightarrow> False | Some d \<Rightarrow> d \<le> t)"
| "webEnabled t e a \<longleftrightarrow> True"

fun webActive :: "WebEvent \<Rightarrow> bool" where
  "webActive (Authed s) \<longleftrightarrow> True"
| "webActive WindowActivityWeb \<longleftrightarrow> True"
| "webActive e \<longleftrightarrow> False"

fun authenticates :: "WebEvent \<Rightarrow> bool" where
  "authenticates (Authed s) \<longleftrightarrow> True"
| "authenticates e \<longleftrightarrow> False"

definition initialWeb :: WebApp where
  "initialWeb = \<lparr>wa_session = None, wa_recovery = None, wa_lockAt = None, wa_form = blankForm\<rparr>"

abbreviation webOpen :: "WebApp \<Rightarrow> bool" where
  "webOpen a \<equiv> wa_session a \<noteq> None"

interpretation web: idle_lock IDLE_LOCK_WEB_MS wa_lockAt webOpen webActive authenticates IdleTimerWeb webStep webEnabled initialWeb
proof unfold_locales
  show "webActive e \<Longrightarrow> webOpen (webStep t e a) \<Longrightarrow> wa_lockAt (webStep t e a) = Some (t + IDLE_LOCK_WEB_MS)" for e t a
    by (cases e) (auto simp: setSession_def resetTimer_def)
  show "\<not> webActive e \<Longrightarrow> webOpen (webStep t e a) \<Longrightarrow> webOpen a \<and> wa_lockAt (webStep t e a) = wa_lockAt a" for e t a
    by (cases e) (auto simp: lockWeb_def timerFires_def split: option.splits if_splits)
  show "\<not> webOpen (webStep t e a) \<Longrightarrow>
      wa_lockAt (webStep t e a) = None \<or> \<not> webOpen a \<and> wa_lockAt (webStep t e a) = wa_lockAt a" for e t a
    by (cases e) (auto simp: setSession_def resetTimer_def lockWeb_def timerFires_def split: option.splits if_splits)
  show "webOpen (webStep t e a) \<Longrightarrow> webOpen a \<or> authenticates e" for e t a
    by (cases e) (auto simp: resetTimer_def lockWeb_def timerFires_def split: option.splits if_splits)
qed (auto simp: initialWeb_def lockWeb_def timerFires_def split: option.splits)

text \<open>The web vault drops the session, and with it the key, when its timer fires, from a quarter of an hour after the last
  activity on; a recovery code it still shows goes with it.\<close>

theorem web_idle_lock:
  assumes "timed webStep webEnabled initialWeb es a"
  shows "(wa_session a = None \<longrightarrow> (\<forall>t. \<not> webEnabled t IdleTimerWeb a))
    \<and> (wa_session a \<noteq> None \<longrightarrow> (\<exists>l. last_time webActive es = Some l
        \<and> (\<forall>t. webEnabled t IdleTimerWeb a \<longleftrightarrow> l + 15 * 60 * 1000 \<le> t)
        \<and> (\<forall>t \<ge> l + 15 * 60 * 1000. webStep t IdleTimerWeb a = initialWeb)))
    \<and> (\<forall>used t later. es = used @ (t, IdleTimerWeb) # later \<longrightarrow>
        (\<exists>l. last_time webActive used = Some l \<and> l + 15 * 60 * 1000 \<le> t))"
proof (intro conjI allI impI)
  show "\<not> webEnabled t IdleTimerWeb a" if "wa_session a = None" for t
    using web.disarmed [OF assms] that by simp
next
  assume o: "webOpen a"
  obtain l where l: "last_time webActive es = Some l" "wa_lockAt a = Some (l + IDLE_LOCK_WEB_MS)"
    by (rule web.armed [OF assms o])
  then show "\<exists>l. last_time webActive es = Some l
        \<and> (\<forall>t. webEnabled t IdleTimerWeb a \<longleftrightarrow> l + 15 * 60 * 1000 \<le> t)
        \<and> (\<forall>t \<ge> l + 15 * 60 * 1000. webStep t IdleTimerWeb a = initialWeb)"
    by (cases a) (auto simp: IDLE_LOCK_WEB_MS_def timerFires_def lockWeb_def initialWeb_def)
next
  fix used t later
  assume "es = used @ (t, IdleTimerWeb) # later"
  then show "\<exists>l. last_time webActive used = Some l \<and> l + 15 * 60 * 1000 \<le> t"
    using web.fires_late [of used t later a] assms by (auto simp: IDLE_LOCK_WEB_MS_def)
qed

theorem web_idle_lock_witness:
  "\<forall>s. \<exists>a. timed webStep webEnabled initialWeb [(0, Authed s), (7, Recovered None), (899999, WindowActivityWeb)] a
    \<and> wa_session a = Some s \<and> (\<forall>t. webEnabled t IdleTimerWeb a \<longleftrightarrow> 1799999 \<le> t)" (is "\<forall>s. ?goal s")
proof
  fix s
  let ?es = "[(0, Authed s), (7, Recovered None), (899999, WindowActivityWeb)]"
  let ?a = "replay webStep ?es initialWeb"
  have r: "timed webStep webEnabled initialWeb ?es ?a" and v: "wa_session ?a = Some s"
    by (rule timed_replay [of _ _ 0]) (simp_all add: initialWeb_def setSession_def resetTimer_def IDLE_LOCK_WEB_MS_def)
  have "last_time webActive ?es = Some 899999"
    by (simp add: last_time_def)
  then show "?goal s"
    using web_idle_lock [OF r] r v by (intro exI [of _ ?a]) simp
qed

end
