(* ===== verification/Clipboard.thy ===== *)
theory Clipboard
  imports Timers Prelude
begin

text \<open>
  Copying and the passing notices of the three clients: \<open>copy\<close> and \<open>flash\<close> of the desktop client's and the web
  vault's \<open>VaultScreen.tsx\<close> and of the extension's popup. The clipboard is the system's: other programs write it,
  and pasting reads it. Whether the system lets the page write it is part of the event.
\<close>

section \<open>State\<close>

datatype Client = DesktopClient | WebClient | PopupClient

record Screenboard =
  sb_clip :: jsstring
  sb_clears :: "int list" \<comment> \<open>when the clipboard is to be cleared\<close>
  sb_toast :: "jsstring option"
  sb_toasts :: "int list" \<comment> \<open>when the notice is to go\<close>

definition CLIPBOARD_CLEAR_MS :: int where
  "CLIPBOARD_CLEAR_MS = 20 * 1000"

fun TOAST_MS :: "Client \<Rightarrow> int" where
  "TOAST_MS DesktopClient = 1200"
| "TOAST_MS WebClient = 1300"
| "TOAST_MS PopupClient = 1200"

text \<open>\<open>setTimeout\<close> with a fixed delay: the timers of a list fire in the order they were set.\<close>

definition flashToast :: "Client \<Rightarrow> int \<Rightarrow> jsstring \<Rightarrow> Screenboard \<Rightarrow> Screenboard" where
  "flashToast c t msg s = s\<lparr>sb_toast := Some msg, sb_toasts := sb_toasts s @ [t + TOAST_MS c]\<rparr>"

definition copyDesktop :: "int \<Rightarrow> jsstring \<Rightarrow> jsstring \<Rightarrow> bool \<Rightarrow> Screenboard \<Rightarrow> Screenboard" where
  "copyDesktop t label v granted s =
     (if v = [] then s
      else if granted
      then (flashToast DesktopClient t (js ''Copied '' @ label) (s\<lparr>sb_clip := v\<rparr>))
             \<lparr>sb_clears := sb_clears s @ [t + CLIPBOARD_CLEAR_MS]\<rparr>
      else flashToast DesktopClient t (js ''Copy failed'') s)"

text \<open>The other two copy and say so; a refusal is a rejection that nobody handles.\<close>

definition copyPlain :: "Client \<Rightarrow> int \<Rightarrow> jsstring \<Rightarrow> jsstring \<Rightarrow> bool \<Rightarrow> Screenboard \<Rightarrow> Screenboard" where
  "copyPlain c t label v granted s =
     (if granted then flashToast c t (js ''Copied '' @ label) (s\<lparr>sb_clip := v\<rparr>) else s)"

definition copyIn :: "Client \<Rightarrow> int \<Rightarrow> jsstring \<Rightarrow> jsstring \<Rightarrow> bool \<Rightarrow> Screenboard \<Rightarrow> Screenboard" where
  "copyIn c = (case c of DesktopClient \<Rightarrow> copyDesktop | _ \<Rightarrow> copyPlain c)"

definition clearClipboard :: "bool \<Rightarrow> Screenboard \<Rightarrow> Screenboard" where
  "clearClipboard granted s = s\<lparr>sb_clip := (if granted then [] else sb_clip s), sb_clears := tl (sb_clears s)\<rparr>"

definition hideToast :: "Screenboard \<Rightarrow> Screenboard" where
  "hideToast s = s\<lparr>sb_toast := None, sb_toasts := tl (sb_toasts s)\<rparr>"

section \<open>Events\<close>

datatype ClipEvent = Copy jsstring jsstring bool | Notice jsstring | ClearTimer bool | ToastTimer
  | Elsewhere jsstring | Paste

fun clipStep :: "Client \<Rightarrow> int \<Rightarrow> ClipEvent \<Rightarrow> Screenboard \<Rightarrow> Screenboard" where
  "clipStep c t (Copy label v granted) s = copyIn c t label v granted s"
| "clipStep c t (Notice msg) s = flashToast c t msg s"
| "clipStep c t (ClearTimer granted) s = clearClipboard granted s"
| "clipStep c t ToastTimer s = hideToast s"
| "clipStep c t (Elsewhere v) s = s\<lparr>sb_clip := v\<rparr>"
| "clipStep c t Paste s = s"

text \<open>A timer does not fire before its time, and may be late; anything else can happen at any time.\<close>

definition first_due :: "int \<Rightarrow> int list \<Rightarrow> bool" where
  "first_due t ds \<longleftrightarrow> ds \<noteq> [] \<and> hd ds \<le> t"

fun clipEnabled :: "int \<Rightarrow> ClipEvent \<Rightarrow> Screenboard \<Rightarrow> bool" where
  "clipEnabled t (ClearTimer granted) s \<longleftrightarrow> first_due t (sb_clears s)"
| "clipEnabled t ToastTimer s \<longleftrightarrow> first_due t (sb_toasts s)"
| "clipEnabled t e s \<longleftrightarrow> True"

definition cleanBoard :: Screenboard where
  "cleanBoard = \<lparr>sb_clip = [], sb_clears = [], sb_toast = None, sb_toasts = []\<rparr>"

lemma flashToast_simps [simp]:
  "sb_clip (flashToast c t m s) = sb_clip s" "sb_clears (flashToast c t m s) = sb_clears s"
  "sb_toast (flashToast c t m s) = Some m" "sb_toasts (flashToast c t m s) = sb_toasts s @ [t + TOAST_MS c]"
  by (simp_all add: flashToast_def)

section \<open>A copied secret goes\<close>

definition puts_secret :: "ClipEvent \<Rightarrow> jsstring \<Rightarrow> bool" where
  "puts_secret e x \<longleftrightarrow> x \<noteq> [] \<and> (\<exists>label. e = Copy label x True)"

definition writes_clip :: "ClipEvent \<Rightarrow> jsstring \<Rightarrow> bool" where
  "writes_clip e x \<longleftrightarrow> (\<exists>label. e = Copy label x True) \<or> e = Elsewhere x"

interpretation clip: taken_back CLIPBOARD_CLEAR_MS "[]" sb_clip sb_clears puts_secret "\<lambda>e. e = ClearTimer True"
  "\<lambda>e. e = ClearTimer False" writes_clip "clipStep DesktopClient" clipEnabled
proof unfold_locales
  show "e \<noteq> ClearTimer True \<Longrightarrow> e \<noteq> ClearTimer False \<Longrightarrow>
      (sb_clip (clipStep DesktopClient t e s) = sb_clip s \<or> writes_clip e (sb_clip (clipStep DesktopClient t e s)))
      \<and> set (sb_clears s) \<subseteq> set (sb_clears (clipStep DesktopClient t e s))" for e t s
    by (cases e) (auto simp: writes_clip_def copyIn_def copyDesktop_def hideToast_def)
qed (auto simp: puts_secret_def copyIn_def copyDesktop_def clearClipboard_def)

lemma clears_in_order:
  "timed (clipStep c) clipEnabled cleanBoard es s \<Longrightarrow>
    sorted (sb_clears s) \<and> (\<forall>d \<in> set (sb_clears s). \<exists>(t, e) \<in> set es. d \<le> t + CLIPBOARD_CLEAR_MS)"
proof (induction rule: timed_induct)
  case (event es s t e)
  have "sb_clears (clipStep c t e s) \<in> {sb_clears s, sb_clears s @ [t + CLIPBOARD_CLEAR_MS], tl (sb_clears s)}"
    by (cases e; cases c) (auto simp: copyIn_def copyDesktop_def copyPlain_def clearClipboard_def hideToast_def)
  moreover have "\<forall>d \<in> set (sb_clears s). d \<le> t + CLIPBOARD_CLEAR_MS"
    using event by fastforce
  moreover have "set (tl (sb_clears s)) \<subseteq> set (sb_clears s)"
    by (cases "sb_clears s") auto
  ultimately show ?case
    using event.IH by (auto simp: sorted_append sorted_tl)
qed (simp add: cleanBoard_def)

text \<open>C38: what the desktop client copies goes from the clipboard. Unless it is copied again, there or elsewhere, and as long as
  the system grants the client the clearing of the clipboard: while the text is on the clipboard, the timer of its copy has not
  fired, nor has any clear happened since; from twenty seconds after the copy on a clear may fire (it may be late:
  a timer promises no more), and when it does, the clipboard is empty.\<close>

theorem copied_secret_expires:
  assumes run: "timed (clipStep DesktopClient) clipEnabled cleanBoard (es @ (t0, Copy label x True) # later) s"
    and x: "x \<noteq> []" and once: "\<forall>(t, e) \<in> set later. e \<noteq> Elsewhere x \<and> (\<forall>l. e \<noteq> Copy l x True)"
    and granted: "\<forall>(t, e) \<in> set later. e \<noteq> ClearTimer False"
    and there: "sb_clip s = x"
  shows "t0 + 20 * 1000 \<in> set (sb_clears s) \<and> (\<forall>(t, e) \<in> set later. e \<noteq> ClearTimer True)
    \<and> (\<forall>t \<ge> t0 + 20 * 1000. clipEnabled t (ClearTimer True) s \<and> sb_clip (clipStep DesktopClient t (ClearTimer True) s) = [])"
proof -
  have "\<forall>(t, e) \<in> set later. \<not> writes_clip e x \<and> e \<noteq> ClearTimer False"
    using once granted by (auto simp: writes_clip_def)
  then have p: "t0 + 20 * 1000 \<in> set (sb_clears s)" "\<forall>(t, e) \<in> set later. e \<noteq> ClearTimer True"
    using clip.timer_pending [OF run _ x _ there] x by (simp_all add: puts_secret_def CLIPBOARD_CLEAR_MS_def)
  then have "first_due t (sb_clears s)" if "t0 + 20 * 1000 \<le> t" for t
    using clears_in_order [OF run] that by (cases "sb_clears s") (auto simp: first_due_def)
  with p show ?thesis
    by (simp add: clearClipboard_def)
qed

theorem copied_secret_expires_witness:
  "\<exists>s. timed (clipStep DesktopClient) clipEnabled cleanBoard
      [(0, Copy (js ''password'') (js ''secret'') True), (1200, ToastTimer), (20500, Paste)] s
    \<and> sb_clip s = js ''secret''
    \<and> clipEnabled 21000 (ClearTimer True) s \<and> sb_clip (clipStep DesktopClient 21000 (ClearTimer True) s) = []"
proof -
  let ?es = "[] @ (0, Copy (js ''password'') (js ''secret'') True) # [(1200, ToastTimer), (20500, Paste)]"
  let ?s = "replay (clipStep DesktopClient) ?es cleanBoard"
  have "in_order (clipStep DesktopClient) clipEnabled 0 ?es cleanBoard"
    by code_simp
  note r = timed_replay [OF this]
  have s: "sb_clip ?s = js ''secret''"
    by code_simp
  show ?thesis
    using copied_secret_expires [OF r _ _ _ s] r s
    by (intro exI [of _ ?s] conjI) (simp_all add: js_Cons del: clipStep.simps clipEnabled.simps replay.simps)
qed

text \<open>The clear is not tried again: if the system refuses it, the secret stays.\<close>

lemma refused_clear_keeps: "sb_clip (clipStep c t (ClearTimer False) s) = sb_clip s" "sb_clears (clipStep c t (ClearTimer False) s) = tl (sb_clears s)"
  by (simp_all add: clearClipboard_def)

text \<open>Nor does it look at what it clears: the timer of a first copy takes back the second one early, and what another
  program has put there since.\<close>

definition early_clear :: "(int \<times> ClipEvent) list" where
  "early_clear = [(0, Copy (js ''username'') (js ''me'') True), (1200, ToastTimer), (19000, Copy (js ''password'') (js ''secret'') True),
     (20000, ClearTimer True)]"

lemma second_copy_cleared_early:
  "in_order (clipStep DesktopClient) clipEnabled 0 early_clear cleanBoard"
  "sb_clip (replay (clipStep DesktopClient) early_clear cleanBoard) = []"
  "sb_clip (replay (clipStep DesktopClient) (take 3 early_clear) cleanBoard) = js ''secret''"
  by code_simp+

text \<open>The web vault and the popup never clear the clipboard.\<close>

lemma plain_copy_stays:
  assumes "c \<noteq> DesktopClient" "timed (clipStep c) clipEnabled cleanBoard es s"
  shows "sb_clears s = []"
  using assms(2)
proof (induction rule: timed_induct)
  case (event es s t e)
  then show ?case
    using assms(1) by (cases e; cases c) (auto simp: copyIn_def copyPlain_def clearClipboard_def hideToast_def first_due_def)
qed (simp add: cleanBoard_def)

section \<open>Notices pass\<close>

definition notices :: "Client \<Rightarrow> ClipEvent \<Rightarrow> jsstring option \<Rightarrow> bool" where
  "notices c e m \<longleftrightarrow> (case e of Notice n \<Rightarrow> m = Some n
     | Copy label v granted \<Rightarrow>
         if granted then (c = DesktopClient \<longrightarrow> v \<noteq> []) \<and> m = Some (js ''Copied '' @ label)
         else c = DesktopClient \<and> v \<noteq> [] \<and> m = Some (js ''Copy failed'')
     | _ \<Rightarrow> False)"

interpretation toast: taken_back "TOAST_MS c" None sb_toast sb_toasts "notices c" "\<lambda>e. e = ToastTimer" "\<lambda>e. False" "notices c"
  "clipStep c" clipEnabled for c
proof unfold_locales
  show "notices c e x \<Longrightarrow> sb_toast (clipStep c t e s) = x \<and> t + TOAST_MS c \<in> set (sb_toasts (clipStep c t e s))" for e x t s
    by (cases e; cases c) (auto simp: notices_def copyIn_def copyDesktop_def copyPlain_def split: if_splits)
  show "e \<noteq> ToastTimer \<Longrightarrow> \<not> False \<Longrightarrow> (sb_toast (clipStep c t e s) = sb_toast s \<or> notices c e (sb_toast (clipStep c t e s)))
      \<and> set (sb_toasts s) \<subseteq> set (sb_toasts (clipStep c t e s))" for e t s
    by (cases e; cases c) (auto simp: notices_def copyIn_def copyDesktop_def copyPlain_def clearClipboard_def)
qed (auto simp: hideToast_def)

text \<open>A notice is shown only as long as its timer has not fired, unless it is given again.\<close>

lemma notice_passes:
  assumes "timed (clipStep c) clipEnabled cleanBoard (es @ (t0, Notice m) # later) s"
    and "\<forall>(t, e) \<in> set later. \<not> notices c e (Some m)" "sb_toast s = Some m"
  shows "t0 + TOAST_MS c \<in> set (sb_toasts s) \<and> (\<forall>(t, e) \<in> set later. e \<noteq> ToastTimer)"
proof -
  have "\<forall>(t, e) \<in> set later. \<not> notices c e (Some m) \<and> \<not> False"
    using assms(2) by auto
  from toast.timer_pending [OF assms(1) _ _ this assms(3)] show ?thesis
    by (simp add: notices_def)
qed

end
