(* ===== verification/PopupForm.thy ===== *)
theory PopupForm
  imports Popup Content Totp Store
begin

text \<open>
  The rest of \<open>apps/extension/entrypoints/popup/App.tsx\<close>: the mount of the popup, the buttons of an item, filling the page of the
  active tab, copying, and the form an item is edited in. Filling goes through the content script of the tab; what is
  submitted there comes back through the background worker.
\<close>

section \<open>Opening the popup\<close>

text \<open>The effects of \<open>App\<close> and, when the vault is unlocked, of \<open>Vault\<close>: its items, the login on offer, the host of
  the tab. \<open>tabUrl\<close> is the address of the active tab, if the browser tells it.\<close>

definition tabHostOf :: "'z platform_scheme \<Rightarrow> jsstring option \<Rightarrow> jsstring" where
  "tabHostOf P tabUrl = (case tabUrl of None \<Rightarrow> [] | Some u \<Rightarrow>
     if u = [] then [] else (case url_hostname P u of None \<Rightarrow> [] | Some h \<Rightarrow> h))"

definition freshPopup :: Popup where
  "freshPopup = \<lparr>pp_locked = True, pp_items = [], pp_error = None, pp_toast = None, pp_editing = None,
     pp_fromPending = False, pp_pending = None\<rparr>"

definition mountVault :: "('n, 'z) bgplatform_scheme \<Rightarrow> ('n, unit) handler" where
  "mountVault P pp w = (case reload P pp w of (_, pp', w') \<Rightarrow> loadPending P pp' w')"

definition openPopup :: "('n, 'z) bgplatform_scheme \<Rightarrow> 'n bgworld \<Rightarrow> Popup \<times> 'n bgworld" where
  "openPopup P w =
     (case sendBackground P GetState w of
        (RState None, w') \<Rightarrow> (freshPopup, w')
      | (RState (Some _), w') \<Rightarrow> snd (mountVault P (freshPopup\<lparr>pp_locked := False\<rparr>) w')
      | (_, w') \<Rightarrow> (freshPopup, w'))"

section \<open>The buttons of an item\<close>

definition isLogin :: "jsval \<Rightarrow> bool" where
  "isLogin i \<longleftrightarrow> textField ''type'' i = js ''login''"

definition offersFill :: "jsval \<Rightarrow> bool" where
  "offersFill i \<longleftrightarrow> isLogin i \<and> textField ''password'' i \<noteq> []"

definition offersCode :: "jsval \<Rightarrow> bool" where
  "offersCode i \<longleftrightarrow> isLogin i \<and> textField ''totp'' i \<noteq> []"

definition marksSite :: "'z platform_scheme \<Rightarrow> jsstring \<Rightarrow> jsval \<Rightarrow> bool" where
  "marksSite P tabHost i \<longleftrightarrow> isLogin i \<and> onPage P tabHost i"

text \<open>Copying a text: what is written to the clipboard, if the browser lets the popup; a refusal is a rejection that nobody
  handles.\<close>

definition copyText :: "bool \<Rightarrow> jsstring \<Rightarrow> jsstring \<Rightarrow> Popup \<Rightarrow> jsstring option \<times> Popup" where
  "copyText granted label v pp = (if granted then (Some v, flash (js ''Copied '' @ label) pp) else (None, pp))"

text \<open>Copying the current code: what is written to the clipboard, if anything. An error while computing it is a rejection
  that nobody handles.\<close>

definition copyTotp :: "'z platform_scheme \<Rightarrow> int \<Rightarrow> bool \<Rightarrow> jsval \<Rightarrow> Popup \<Rightarrow> jsstring option \<times> Popup" where
  "copyTotp P nowMs granted item pp =
     (case totpFromString P (textField ''totp'' item) nowMs of
        Inl _ \<Rightarrow> (None, pp)
      | Inr None \<Rightarrow> (None, flash (js ''Invalid 2FA secret'') pp)
      | Inr (Some (code, secondsLeft, _)) \<Rightarrow>
          copyText granted (js ''2FA code ('' @ int_str secondsLeft @ js ''s left)'') code pp)"

text \<open>The active tab: none, one without a content script, or the page the script works on.\<close>

datatype Tab = NoTab | NoScript | Page "input_el list"

text \<open>Whether the popup closes itself, its state, and the tab. The reply of the script is not looked at, unless it is a
  rejection.\<close>

definition fillTab :: "jsval \<Rightarrow> Popup \<Rightarrow> Tab \<Rightarrow> bool \<times> Popup \<times> Tab" where
  "fillTab item pp tab =
     (case tab of
        NoTab \<Rightarrow> (False, pp, NoTab)
      | NoScript \<Rightarrow> (False, flash (js ''No login form found'') pp, NoScript)
      | Page page \<Rightarrow>
          (case onFill (Some \<lparr>fm_username = textField ''username'' item, fm_password = textField ''password'' item\<rparr>) page of
             None \<Rightarrow> (False, flash (js ''No login form found'') pp, Page page)
           | Some (_, page') \<Rightarrow> (True, flash (js ''Filled'') pp, Page page')))"

section \<open>The form\<close>

record PopupForm =
  pf_item :: jsval
  pf_error :: "shown option"

definition openForm :: "Popup \<Rightarrow> PopupForm option" where
  "openForm pp = map_option (\<lambda>i. \<lparr>pf_item = i, pf_error = None\<rparr>) (pp_editing pp)"

definition startEdit :: "jsval \<Rightarrow> Popup \<Rightarrow> Popup" where
  "startEdit item pp = pp\<lparr>pp_editing := Some item\<rparr>"

definition cancelForm :: "Popup \<Rightarrow> Popup" where
  "cancelForm pp = pp\<lparr>pp_editing := None, pp_fromPending := False\<rparr>"

text \<open>The texts the form shows: those of a login, or the name and the notes.\<close>

definition popupShows :: "string \<Rightarrow> jsval \<Rightarrow> bool" where
  "popupShows k item \<longleftrightarrow> k \<in> {''name'', ''notes''} \<or> isLogin item \<and> k \<in> {''url'', ''username'', ''password'', ''totp''}"

definition popupSet :: "string \<Rightarrow> jsstring \<Rightarrow> PopupForm \<Rightarrow> PopupForm" where
  "popupSet k t f = f\<lparr>pf_item := setText k t (pf_item f)\<rparr>"

fun popupEdits :: "(string \<times> jsstring) list \<Rightarrow> PopupForm \<Rightarrow> PopupForm" where
  "popupEdits [] f = f"
| "popupEdits ((k, t) # kts) f = popupEdits kts (popupSet k t f)"

fun allShown :: "(string \<times> jsstring) list \<Rightarrow> PopupForm \<Rightarrow> bool" where
  "allShown [] f \<longleftrightarrow> True"
| "allShown ((k, t) # kts) f \<longleftrightarrow> popupShows k (pf_item f) \<and> allShown kts (popupSet k t f)"

definition showFailure :: "jserror option \<Rightarrow> PopupForm \<Rightarrow> PopupForm" where
  "showFailure e f = f\<lparr>pf_error := map_option Failed e\<rparr>"

definition saveForm :: "('n, 'z) bgplatform_scheme \<Rightarrow> PopupForm \<Rightarrow> ('n, PopupForm) handler" where
  "saveForm P f pp w =
     (if editorRefuses (pf_item f)
      then (f\<lparr>pf_error := Some (Says (js ''Give the item a name, username, or URL.''))\<rparr>, pp, w)
      else (case saveEditing P (pf_item f) pp w of (e, pp', w') \<Rightarrow> (showFailure e f, pp', w')))"

definition deleteForm :: "('n, 'z) bgplatform_scheme \<Rightarrow> bool \<Rightarrow> PopupForm \<Rightarrow> ('n, PopupForm) handler" where
  "deleteForm P confirmed f pp w =
     (if \<not> confirmed then (f, pp, w)
      else (case deleteEditing P (pf_item f) pp w of (e, pp', w') \<Rightarrow> (showFailure e f, pp', w')))"

section \<open>Filled, submitted, offered\<close>

lemma offer_loads:
  assumes "password \<noteq> []"
  obtains w1 where "finish (handle P (CaptureLogin url username password)) w = (ROk, w1)" "net w1 = net w"
    "\<forall>n pp. now P n - now P (net w) \<le> 5 * 60 * 1000 \<longrightarrow> pp_pending (fst (snd (loadPending P pp (w1\<lparr>net := n\<rparr>))))
       = Some \<lparr>ps_url = url, ps_username = username, ps_password = password\<rparr>"
proof (rule that)
  let ?w1 = "w\<lparr>st_pending := Some \<lparr>ps_url = url, ps_username = username, ps_password = password, sp_capturedAt = now P (net w)\<rparr>\<rparr>"
  show "finish (handle P (CaptureLogin url username password)) w = (ROk, ?w1)"
    using assms by (simp add: finish_bindT)
  show "\<forall>n pp. now P n - now P (net w) \<le> 5 * 60 * 1000 \<longrightarrow> pp_pending (fst (snd (loadPending P pp (?w1\<lparr>net := n\<rparr>))))
       = Some \<lparr>ps_url = url, ps_username = username, ps_password = password\<rparr>"
    by (simp add: loadPending_def sendBackground_def finish_bindT finish_readPending PENDING_TTL_MS_def)
qed simp

text \<open>C26: a login goes from the popup to the page and back. The page has a login form: its first password field is in a form with a
  field for the name, which is not the password field, takes the name (it is not one for files), and has no telephone field before it in the form. Filling it
  from the popup writes the item's user name and password into these two fields and nothing else on the page, and closes the
  popup; what the fields then hold is what the browser makes of the two texts (it takes line breaks out, and white space around the address in an
  e-mail field), which is the texts themselves when they have one line, the name has no white space around it and its
  field is one for text or an e-mail address. When the page submits the form as it is then, the script hands the worker what the
  fields hold, and whenever the popup asks in the next five minutes, it offers to save this, under the address of the page.
  (With a telephone field before the name, the number is offered instead: \<open>capture_takes_telephone\<close>.)\<close>

theorem fill_then_offer:
  fixes w :: "'n bgworld"
  assumes ne: "textField ''username'' item \<noteq> []" "stripNewlines (textField ''password'' item) \<noteq> []"
    and i: "querySelector password_input None page = Some i"
    and j: "querySelector user_input (el_form (page ! i)) page = Some j" "j \<noteq> i"
      "\<forall>k < j. in_scope (el_form (page ! i)) (page ! k) \<longrightarrow> \<not> attr_is_ci (el_type (page ! k)) ''tel''"
    and u: "valueSetter (page ! j) (textField ''username'' item) = Some u"
  shows "\<exists>pp' page' m w1. fillTab item pp (Page page) = (True, pp', Page page')
    \<and> length page' = length page \<and> (\<forall>k < length page. k \<noteq> i \<longrightarrow> k \<noteq> j \<longrightarrow> page' ! k = page ! k)
    \<and> el_text (page' ! j) = u \<and> el_text (page' ! i) = stripNewlines (textField ''password'' item)
    \<and> (single_line (textField ''username'' item) \<and> unpadded (textField ''username'' item)
        \<and> (html_type (page ! j) = js ''text'' \<or> html_type (page ! j) = js ''email'' \<and> \<not> el_multiple (page ! j)) \<longrightarrow>
        u = textField ''username'' item)
    \<and> (single_line (textField ''password'' item) \<longrightarrow> stripNewlines (textField ''password'' item) = textField ''password'' item)
    \<and> captureFrom href (el_form (page ! i)) page' = Some m \<and> finish (handle P m) w = (ROk, w1) \<and> net w1 = net w
    \<and> (\<forall>n pp. now P n - now P (net w) \<le> 5 * 60 * 1000 \<longrightarrow>
        pp_pending (fst (snd (loadPending P pp (w1\<lparr>net := n\<rparr>))))
          = Some \<lparr>ps_url = href, ps_username = u, ps_password = stripNewlines (textField ''password'' item)\<rparr>)"
proof -
  let ?u = "textField ''username'' item" and ?p = "stripNewlines (textField ''password'' item)"
  have t: "no_telephone_before j (el_form (page ! i)) page"
    using j(3) by (simp add: no_telephone_before_def)
  obtain page' where f: "fillLoginForm ?u (textField ''password'' item) page = Some (True, page')"
    and c: "captureFrom href (el_form (page ! i)) page' = Some (CaptureLogin href u ?p)"
      "length page' = length page" "\<forall>k < length page. k \<noteq> i \<longrightarrow> k \<noteq> j \<longrightarrow> page' ! k = page ! k"
      "el_text (page' ! j) = u" "el_text (page' ! i) = ?p"
    by (rule filled_is_captured [OF ne i j(1,2) t u])
  have "fillTab item pp (Page page) = (True, flash (js ''Filled'') pp, Page page')"
    by (simp add: fillTab_def onFill_def f)
  moreover have "u = ?u" if "single_line ?u" "unpadded ?u"
      "html_type (page ! j) = js ''text'' \<or> html_type (page ! j) = js ''email'' \<and> \<not> el_multiple (page ! j)"
    using valueSetter_same [OF that(3,1,2)] u by simp
  moreover obtain w1 where "finish (handle P (CaptureLogin href u ?p)) w = (ROk, w1)" "net w1 = net w"
    "\<forall>n pp. now P n - now P (net w) \<le> 5 * 60 * 1000 \<longrightarrow> pp_pending (fst (snd (loadPending P pp (w1\<lparr>net := n\<rparr>))))
       = Some \<lparr>ps_url = href, ps_username = u, ps_password = ?p\<rparr>"
    by (rule offer_loads [OF ne(2)])
  ultimately show ?thesis
    using c stripNewlines_same by blast
qed

text \<open>The popup says that it has filled the page even when the page has no login form: the script reports that, and the
  popup does not look at the report.\<close>

lemma fill_claims_success:
  assumes "querySelector password_input None page = None"
  shows "fillTab item pp (Page page) = (True, flash (js ''Filled'') pp, Page page)"
    "map_option fst (onFill (Some m) page) = Some (Some False)"
  using assms by (simp_all add: fillTab_def onFill_def fillLoginForm_def)

text \<open>When the first field that looks like one for the name is one for files (\<open>name="user_photo"\<close>), its setter throws and the
  password is not filled either.\<close>

lemma file_field_stops_fill:
  assumes "textField ''username'' item \<noteq> []" "querySelector password_input None page = Some i"
    and "querySelector user_input (el_form (page ! i)) page = Some j" "html_type (page ! j) = js ''file''"
  shows "fillTab item pp (Page page) = (False, flash (js ''No login form found'') pp, Page page)"
  using file_throws [OF assms] by (simp add: fillTab_def onFill_def)

section \<open>An item edited in the popup\<close>

definition putAll :: "(string \<times> jsstring) list \<Rightarrow> ItemFields \<Rightarrow> ItemFields" where
  "putAll kts i = fold (\<lambda>(k, t). putText k t) kts i"

lemma putText_keeps:
  "it_type (putText k t i) = it_type i" "it_card (putText k t i) = it_card i" "it_identity (putText k t i) = it_identity i"
  "it_fields (putText k t i) = it_fields i" "it_favorite (putText k t i) = it_favorite i"
  "k \<noteq> ''folder'' \<Longrightarrow> it_folder (putText k t i) = it_folder i"
  "k \<notin> {''url'', ''username'', ''password'', ''totp''} \<Longrightarrow> it_url (putText k t i) = it_url i
    \<and> it_username (putText k t i) = it_username i \<and> it_password (putText k t i) = it_password i \<and> it_totp (putText k t i) = it_totp i"
  by (simp_all add: putText_def)

lemma putText_ok: "item_fields_ok i \<Longrightarrow> item_fields_ok (putText k t i)"
  by (simp add: item_fields_ok_def putText_def)

text \<open>What the popup may change of an item: its name and notes, and of a login the four texts as well.\<close>

definition popup_change :: "ItemFields \<Rightarrow> ItemFields \<Rightarrow> bool" where
  "popup_change i j \<longleftrightarrow> it_type j = it_type i \<and> it_card j = it_card i \<and> it_identity j = it_identity i
     \<and> it_fields j = it_fields i \<and> it_folder j = it_folder i \<and> it_favorite j = it_favorite i
     \<and> (it_type i \<noteq> js ''login'' \<longrightarrow> it_url j = it_url i \<and> it_username j = it_username i
          \<and> it_password j = it_password i \<and> it_totp j = it_totp i)"

lemma popupEdits_item:
  assumes "pf_item f = vaultVal c i" "allShown kts f" "item_fields_ok i"
  shows "pf_item (popupEdits kts f) = vaultVal c (putAll kts i) \<and> item_fields_ok (putAll kts i) \<and> popup_change i (putAll kts i)"
  using assms
proof (induction kts arbitrary: f i)
  case (Cons kt kts)
  obtain k t where kt: "kt = (k, t)"
    by (cases kt)
  have k: "popupShows k (vaultVal c i)" and s: "allShown kts (popupSet k t f)"
    using Cons.prems(1,2) by (simp_all add: kt)
  then have "k \<in> {''name'', ''notes'', ''folder'', ''url'', ''username'', ''password'', ''totp''}" "k \<noteq> ''folder''"
    by (auto simp: popupShows_def)
  then have "pf_item (popupSet k t f) = vaultVal c (putText k t i)"
    using Cons.prems(1) by (simp add: popupSet_def setText_vaultVal)
  from Cons.IH [OF this s putText_ok [OF Cons.prems(3)]] show ?case
    using k \<open>k \<noteq> ''folder''\<close> putText_keeps [of k t i]
    by (auto simp: kt putAll_def popup_change_def popupShows_def isLogin_def)
qed (simp add: putAll_def popup_change_def)

text \<open>Asking the worker with a session that has not expired.\<close>

lemma send_update:
  assumes "live P w = Some s" "toSession s = Inr sess"
    and "w' = w\<lparr>st_session := Some (s\<lparr>ss_lockAt := now P (net w) + IDLE_MS\<rparr>), st_alarm := Some (now P (net w) + IDLE_MS)\<rparr>"
    and "saveItem P sess item w' = (Inr (), w1)"
  shows "sendBackground P (UpdateItem item) w = (ROk, w1)"
  using finish_withSession [OF assms(1-3), of "\<lambda>s. saveItem P s item" "\<lambda>_. ROk"] assms(4)
  by (simp add: sendBackground_def)

text \<open>A change that the worker has made is in the list the popup reads next.\<close>

lemma update_listed:
  assumes P: "clock_ok P" and live: "live P w = Some s" "toSession s = Inr sess" "token_text P (s_accessToken sess) t"
    and w': "w' = w\<lparr>st_session := Some (s\<lparr>ss_lockAt := now P (net w) + IDLE_MS\<rparr>), st_alarm := Some (now P (net w) + IDLE_MS)\<rparr>"
    and saved: "saveItem P sess item w' = (Inr (), w'\<lparr>drawn := k, net := n1\<rparr>)"
    and sync: "replies P (request_of P (baseUrl w) ''GET'' (js ''/api/sync'') None t) n1 [(js ''ciphers'', JArr cs)] n2"
      "now P n2 \<le> now P (net w) + IDLE_MS" "c \<in> set cs" "cipherItem P (s_userKey sess) c = Inr x"
    and item: "textField ''id'' item \<noteq> []" "\<not> pp_fromPending pp"
  obtains items w2 where "x \<in> set items"
    "saveEditing P item pp w = (None, flash (js ''Saved'') (pp\<lparr>pp_editing := None, pp_fromPending := False, pp_items := items\<rparr>), w2)"
proof -
  let ?w1 = "w'\<lparr>drawn := k, net := n1\<rparr>" and ?pp = "pp\<lparr>pp_editing := None, pp_fromPending := False\<rparr>"
  have "now P n1 \<le> now P n2"
    using P sync(1) unfolding clock_ok_def replies_def by (metis snd_conv)
  then have l: "live P ?w1 = Some (s\<lparr>ss_lockAt := now P (net w) + IDLE_MS\<rparr>)"
    using sync(2) by (simp add: live_def w')
  obtain w3 r w4 where v: "loadVault P sess w3 = (r, w4)" "net w3 = n1" "baseUrl w3 = baseUrl w"
      "reload P ?pp ?w1 = (case r of Inl x \<Rightarrow> ((), ?pp\<lparr>pp_error := Some x\<rparr>, w4) | Inr items \<Rightarrow> ((), ?pp\<lparr>pp_items := items\<rparr>, w4))"
    using reload_live [OF l, of sess ?pp] live(2) by (simp add: w' del: One_nat_def) blast
  obtain items where m: "r = Inr items" "x \<in> set items"
    using loadVault_lists [OF live(3) _ sync(3,4), of w3 n2] sync(1) v(1-3) by auto
  have "saveEditing P item pp w = (None, flash (js ''Saved'') (?pp\<lparr>pp_items := items\<rparr>), w4)"
    using send_update [OF live(1,2) w' saved] v(4) item by (simp add: saveEditing_def m(1))
  then show thesis
    using that m(2) by simp
qed

text \<open>C36: the popup changes what it shows of an item, and nothing else. However the texts of its form are edited, the item that
  saving sends is the one that was opened with those texts put in: its type, card, identity, custom fields, folder and
  star are untouched, and unless it is a login, everything but its name and notes. When the session lasts and
  the server takes the change, the popup says so, closes the form, and lists the item so changed.\<close>

theorem popup_edit_loads:
  fixes w :: "'n bgworld"
  assumes P: "aes_ok P" "clock_ok P" and live: "live P w = Some s" "toSession s = Inr sess" "32 \<le> length (s_userKey sess)"
      "token_text P (s_accessToken sess) t"
    and i: "item_fields_ok i" "c \<noteq> []" and f: "pf_item f = vaultVal c i" "allShown kts f"
    and named: "\<not> editorRefuses (pf_item (popupEdits kts f))" "\<not> pp_fromPending pp"
  shows "\<exists>d j. popup_change i j \<and> pf_item (popupEdits kts f) = vaultVal c j
    \<and> (\<forall>n2. server_takes P t w c d c n2 \<and> now P n2 \<le> now P (net w) + IDLE_MS \<longrightarrow>
        (\<exists>items w2 f'. saveForm P (popupEdits kts f) pp w
            = (f', flash (js ''Saved'') (pp\<lparr>pp_editing := None, pp_fromPending := False, pp_items := items\<rparr>), w2)
          \<and> pf_error f' = None \<and> vaultVal c j \<in> set items))"
proof -
  let ?j = "putAll kts i" and ?item = "vaultVal c (putAll kts i)"
  have j: "pf_item (popupEdits kts f) = ?item" "item_fields_ok ?j" "popup_change i ?j"
    using popupEdits_item [OF f i(1)] by simp_all
  have n: "plain (withoutId ?item)" "normalizeItemFields P (withoutId ?item) = Inr (itemVal ?j)"
    "get_prop_opt ?item (js ''id'') = Some (JStr c)"
    using itemVal_plain [OF j(2)] normalizeItemFields_same [OF itemVal_wf [OF j(2)]] by simp_all
  have id: "textField ''id'' ?item \<noteq> []"
    using i(2) by (simp add: textField_def)
  define w' where w': "w' = w\<lparr>st_session := Some (s\<lparr>ss_lockAt := now P (net w) + IDLE_MS\<rparr>), st_alarm := Some (now P (net w) + IDLE_MS)\<rparr>"
  obtain d where d: "\<forall>kvs n1. replies P (request_of P (baseUrl w') ''PUT'' (js ''/api/ciphers/'' @ c) (Some (obj [(''data'', JStr d)])) t) (net w') kvs n1 \<longrightarrow>
       saveItem P sess ?item w' = (Inr (), w'\<lparr>drawn := drawn w' + 56, net := n1\<rparr>)"
    "\<forall>cid. cipherItem P (s_userKey sess) (JObj [(js ''id'', JStr cid), (js ''data'', JStr d)]) = Inr (vaultVal cid ?j)"
    by (rule sealed_update [OF P(1) live(3,4) n, where w = w'])
  have "\<exists>items w2 f'. saveForm P (popupEdits kts f) pp w
      = (f', flash (js ''Saved'') (pp\<lparr>pp_editing := None, pp_fromPending := False, pp_items := items\<rparr>), w2)
    \<and> pf_error f' = None \<and> ?item \<in> set items"
    if takes: "server_takes P t w c d c n2" and in_time: "now P n2 \<le> now P (net w) + IDLE_MS" for n2
  proof -
    obtain kvs n1 cs where r: "replies P (request_of P (baseUrl w) ''PUT'' (js ''/api/ciphers/'' @ c) (Some (obj [(''data'', JStr d)])) t) (net w) kvs n1"
        "replies P (request_of P (baseUrl w) ''GET'' (js ''/api/sync'') None t) n1 [(js ''ciphers'', JArr cs)] n2"
        "JObj [(js ''id'', JStr c), (js ''data'', JStr d)] \<in> set cs"
      using takes i(2) unfolding server_takes_def by auto
    have saved: "saveItem P sess ?item w' = (Inr (), w'\<lparr>drawn := drawn w' + 56, net := n1\<rparr>)"
      using d(1) r(1) by (simp add: w')
    show ?thesis
      by (rule update_listed [OF P(2) live(1,2,4) w' saved r(2) in_time r(3) d(2) [rule_format] id named(2)])
        (use named(1) j(1) in \<open>auto simp: saveForm_def showFailure_def\<close>)
  qed
  then show ?thesis
    using j by blast
qed

section \<open>Witnesses\<close>

abbreviation sample_loginItem :: ItemFields where
  "sample_loginItem \<equiv> sample_item\<lparr>it_type := js ''login'', it_username := js ''me'', it_password := js ''secret''\<rparr>"

theorem fill_then_offer_witness:
  "\<exists>pp' page' m w1. fillTab (vaultVal (js ''a'') sample_loginItem) freshPopup (Page sample_page) = (True, pp', Page page')
    \<and> captureFrom (js ''https://example.org/login'') (Some 1) page' = Some m
    \<and> finish (handle sample_popup m) (sample_bgworld []) = (ROk, w1)
    \<and> pp_pending (fst (snd (loadPending sample_popup freshPopup w1)))
        = Some \<lparr>ps_url = js ''https://example.org/login'', ps_username = js ''me'', ps_password = js ''secret''\<rparr>"
proof -
  let ?i = "vaultVal (js ''a'') sample_loginItem"
  have u: "textField ''username'' ?i = js ''me''" "textField ''password'' ?i = js ''secret''"
    by (simp_all add: vaultVal_props itemVal_def own_props_def)
  have pw: "stripNewlines (textField ''password'' ?i) = js ''secret''"
    unfolding u by code_simp
  have ne: "textField ''username'' ?i \<noteq> []" "stripNewlines (textField ''password'' ?i) \<noteq> []"
    unfolding u(1) pw by (simp_all add: js_Cons)
  note f = sample_page_fields
  have j: "querySelector user_input (el_form (sample_page ! 2)) sample_page = Some 1"
    "\<forall>k < 1. in_scope (el_form (sample_page ! 2)) (sample_page ! k) \<longrightarrow> \<not> attr_is_ci (el_type (sample_page ! k)) ''tel''"
    by (simp only: f) (simp add: sample_page_def in_scope_def)
  have s: "valueSetter (sample_page ! 1) (textField ''username'' ?i) = Some (js ''me'')"
    unfolding u by (rule valueSetter_same) code_simp+
  have k: "(1 :: nat) \<noteq> 2"
    by simp
  obtain pp' page' m w1 where *: "fillTab ?i freshPopup (Page sample_page) = (True, pp', Page page')"
      "captureFrom (js ''https://example.org/login'') (el_form (sample_page ! 2)) page' = Some m"
      "finish (handle sample_popup m) (sample_bgworld []) = (ROk, w1)" "net w1 = net (sample_bgworld [])"
    and o: "\<forall>n pp. now sample_popup n - now sample_popup (net (sample_bgworld [])) \<le> 5 * 60 * 1000 \<longrightarrow>
        pp_pending (fst (snd (loadPending sample_popup pp (w1\<lparr>net := n\<rparr>))))
          = Some \<lparr>ps_url = js ''https://example.org/login'', ps_username = js ''me'', ps_password = stripNewlines (textField ''password'' ?i)\<rparr>"
    using fill_then_offer [OF ne f(1) j(1) k j(2) s, of freshPopup "js ''https://example.org/login''" sample_popup "sample_bgworld []"]
    by blast
  have "w1\<lparr>net := net w1\<rparr> = w1"
    by simp
  moreover have "pp_pending (fst (snd (loadPending sample_popup freshPopup (w1\<lparr>net := net w1\<rparr>)))) = Some
      \<lparr>ps_url = js ''https://example.org/login'', ps_username = js ''me'', ps_password = js ''secret''\<rparr>"
    using o [rule_format, of "net w1" freshPopup] *(4) pw by simp
  ultimately show ?thesis
    using *(1-3) unfolding f(2)
    by (intro exI [of _ pp'] exI [of _ page'] exI [of _ m] exI [of _ w1]) simp_all
qed

text \<open>The server that keeps one cipher, behind a worker whose clock stands still.\<close>

definition sample_bgstore :: "jsstring bgplatform" where
  "sample_bgstore = service.extend (platform.extend sample_platform
     (service.fields store_fetch (\<lambda>o1 n. (Inr (JObj []), n)) (\<lambda>o1 n. (Inr (JObj []), n)))) (bgplatform.fields (\<lambda>_. 0))"

definition sample_storedSession :: StoredSession where
  "sample_storedSession = \<lparr>ss_identifier = js ''me'', ss_accessToken = None, ss_refreshToken = None,
     ss_userKeyB64 = b64encode (replicate 64 7), ss_lockAt = 0\<rparr>"

definition sample_bgstoreworld :: "jsstring bgworld" where
  "sample_bgstoreworld = networld.extend (world.extend sample_world (networld.fields [] (js ''https://vault.example'')))
     (bgworld.fields (Some sample_storedSession) None None)"

lemma sample_bgstore_parts: "fetch sample_bgstore = store_fetch" "now sample_bgstore = (\<lambda>_. 0)" "aes_ok sample_bgstore"
  "clock_ok sample_bgstore"
  using sample_ok
  by (simp_all add: clock_ok_def aes_ok_def sample_bgstore_def service.defs bgplatform.defs platform.defs sample_platform_def)

theorem popup_edit_loads_witness:
  "\<exists>pp items w2 f'. saveForm sample_bgstore (popupEdits [(''notes'', js ''hi''), (''password'', js ''new'')]
        \<lparr>pf_item = vaultVal (js ''a'') sample_loginItem, pf_error = None\<rparr>) freshPopup sample_bgstoreworld = (f', pp, w2)
    \<and> pp_toast pp = Some (js ''Saved'') \<and> pp_items pp = items \<and> (\<exists>j. popup_change sample_loginItem j \<and> vaultVal (js ''a'') j \<in> set items)"
proof -
  let ?P = sample_bgstore and ?w = sample_bgstoreworld and ?s = sample_storedSession
  let ?f = "\<lparr>pf_item = vaultVal (js ''a'') sample_loginItem, pf_error = None\<rparr>"
  let ?kts = "[(''notes'', js ''hi''), (''password'', js ''new'')]"
  let ?sess = "\<lparr>s_identifier = js ''me'', s_accessToken = None, s_refreshToken = None, s_userKey = replicate 64 7,
      s_protectedPrivateKey = JStr []\<rparr>"
  have l: "live ?P ?w = Some ?s" "toSession ?s = Inr ?sess"
    using toSession_stored [of ?sess 0]
    by (simp_all add: live_def sample_bgstore_parts sample_bgstoreworld_def networld.defs world.defs bgworld.defs
        sample_world_def sample_storedSession_def)
  have k: "32 \<le> length (s_userKey ?sess)" "token_text ?P (s_accessToken ?sess) None" "js ''a'' \<noteq> []" "\<not> pp_fromPending freshPopup"
    by (simp_all add: token_text_def truthy_opt_def freshPopup_def js_Cons)
  have i: "item_fields_ok sample_loginItem"
    using sample_item_ok by (simp add: item_fields_ok_def ITEM_TYPES_def)
  have f: "pf_item ?f = vaultVal (js ''a'') sample_loginItem" "allShown ?kts ?f" "\<not> editorRefuses (pf_item (popupEdits ?kts ?f))"
    by (simp, code_simp+)
  obtain d j where dj: "popup_change sample_loginItem j"
      "\<forall>n2. server_takes ?P None ?w (js ''a'') d (js ''a'') n2 \<and> now ?P n2 \<le> now ?P (net ?w) + IDLE_MS \<longrightarrow>
        (\<exists>items w2 f'. saveForm ?P (popupEdits ?kts ?f) freshPopup ?w
            = (f', flash (js ''Saved'') (freshPopup\<lparr>pp_editing := None, pp_fromPending := False, pp_items := items\<rparr>), w2)
          \<and> pf_error f' = None \<and> vaultVal (js ''a'') j \<in> set items)"
    using popup_edit_loads [OF sample_bgstore_parts(3,4) l k(1,2) i k(3) f k(4)] by blast
  have "server_takes ?P None ?w (js ''a'') d (js ''a'') d"
    by (rule store_takes [OF sample_bgstore_parts(1)]) simp
  then obtain items w2 f' where "saveForm ?P (popupEdits ?kts ?f) freshPopup ?w
      = (f', flash (js ''Saved'') (freshPopup\<lparr>pp_editing := None, pp_fromPending := False, pp_items := items\<rparr>), w2)"
      "vaultVal (js ''a'') j \<in> set items"
    using dj(2) by (fastforce simp: sample_bgstore_parts IDLE_MS_def)
  then show ?thesis
    using dj(1)
    by (intro exI [of _ "flash (js ''Saved'') (freshPopup\<lparr>pp_editing := None, pp_fromPending := False, pp_items := items\<rparr>)"]
        exI [of _ items] exI [of _ w2] exI [of _ f']) (auto simp: flash_def)
qed

end
