(* ===== verification/Dom.thy ===== *)
theory Dom
  imports View
begin

text \<open>
  What a component renders: a tree of elements with their attributes, the handlers of their events and their children, or
  texts; a fragment is a list. Handlers are named by the values of a type of actions, and one that only stops the
  propagation of its event has no action. An attribute that is a flag is there when it is set.
\<close>

datatype 'a dom =
    Txt jsstring
  | Elem string "(string \<times> jsstring) list" "(string \<times> 'a option) list" "'a dom list"

abbreviation text_of :: "string \<Rightarrow> 'a dom" where
  "text_of s \<equiv> Txt (js s)"

abbreviation at :: "string \<Rightarrow> string \<Rightarrow> string \<times> jsstring" where
  "at k v \<equiv> (k, js v)"

abbreviation cls :: "string \<Rightarrow> string \<times> jsstring" where
  "cls v \<equiv> (''className'', js v)"

abbreviation click :: "'a \<Rightarrow> string \<times> 'a option" where
  "click a \<equiv> (''onClick'', Some a)"

abbreviation change :: "'a \<Rightarrow> string \<times> 'a option" where
  "change a \<equiv> (''onChange'', Some a)"

abbreviation stop_click :: "string \<times> 'a option" where
  "stop_click \<equiv> (''onClick'', None)"

abbreviation el :: "string \<Rightarrow> (string \<times> jsstring) list \<Rightarrow> 'a dom list \<Rightarrow> 'a dom" where
  "el tag attrs \<equiv> Elem tag attrs []"

abbreviation icon :: "jsstring \<Rightarrow> nat \<Rightarrow> 'a dom" where
  "icon name n \<equiv> Elem ''Icon'' [(''name'', name), (''size'', nat_str n)] [] []"

text \<open>\<open>cond && <.../>\<close>, and an attribute that is a flag.\<close>

abbreviation only :: "bool \<Rightarrow> 'x list \<Rightarrow> 'x list" where
  "only c xs \<equiv> (if c then xs else [])"

section \<open>What can be seen\<close>

text \<open>What is rendered, without its handlers.\<close>

definition blank :: "'a dom \<Rightarrow> unit dom" where
  "blank = map_dom (\<lambda>_. ())"

definition seen :: "'a dom list \<Rightarrow> unit dom list" where
  "seen xs = map blank xs"

lemma blank_simps [simp]:
  "blank (Txt s) = Txt s"
  "blank (Elem t as hs xs) = Elem t as (map (\<lambda>(k, a). (k, map_option (\<lambda>_. ()) a)) hs) (seen xs)"
  by (simp_all add: blank_def seen_def map_prod_def)

lemma seen_simps [simp]:
  "seen [] = []"
  "seen (x # xs) = blank x # seen xs"
  "seen (xs @ ys) = seen xs @ seen ys"
  "seen (map f zs) = map (\<lambda>z. blank (f z)) zs"
  "seen (if c then xs else ys) = (if c then seen xs else seen ys)"
  by (simp_all add: seen_def)

lemma blank_map_dom [simp]: "blank (map_dom f x) = blank x"
  by (simp add: blank_def dom.map_comp comp_def)

text \<open>Lists whose elements look alike, through searching and sorting.\<close>

lemma list_all2_filter_same:
  "list_all2 R xs ys \<Longrightarrow> (\<And>x y. R x y \<Longrightarrow> Q x = Q' y) \<Longrightarrow> list_all2 R (filter Q xs) (filter Q' ys)"
  by (induction rule: list_all2_induct) auto

lemma list_all2_insertBy:
  assumes "list_all2 R xs ys" "R x y" "\<And>a b c d. R a b \<Longrightarrow> R c d \<Longrightarrow> cmp a c = cmp b d"
  shows "list_all2 R (insertBy cmp x xs) (insertBy cmp y ys)"
  using assms(1) by (induction rule: list_all2_induct) (auto simp: assms(2) assms(3) [OF assms(2)])

lemma list_all2_sortBy:
  assumes "list_all2 R xs ys" "\<And>a b c d. R a b \<Longrightarrow> R c d \<Longrightarrow> cmp a c = cmp b d"
  shows "list_all2 R (sortBy cmp xs) (sortBy cmp ys)"
  using assms(1) by (induction rule: list_all2_induct) (auto simp: sortBy_def assms(2) intro!: list_all2_insertBy)

lemma list_all2_find:
  "list_all2 R xs ys \<Longrightarrow> (\<And>x y. R x y \<Longrightarrow> Q x = Q' y) \<Longrightarrow> rel_option R (find Q xs) (find Q' ys)"
  by (induction rule: list_all2_induct) auto

lemma list_all2_map_same:
  "list_all2 R xs ys \<Longrightarrow> (\<And>x y. R x y \<Longrightarrow> f x = g y) \<Longrightarrow> map f xs = map g ys"
  by (induction rule: list_all2_induct) auto

text \<open>What the line under a name shows of an item: the beginning of a note, the last four digits of a card, the address and the
  name of an identity, the user name and the address of a login.\<close>

definition lastDigits :: "jsstring \<Rightarrow> jsstring" where
  "lastDigits t = rev (take 4 (rev (filter is_digit t)))"

lemma hd_split: "split_on c s \<noteq> [] \<and> hd (split_on c s) = takeWhile (\<lambda>x. x \<noteq> c) s"
  by (induction s) (auto split: list.split)

lemma lastDigits_drop: "drop (length (filter is_digit t) - 4) (filter is_digit t) = lastDigits t"
  by (simp add: lastDigits_def rev_take)

lemma lastDigits_Nil: "filter is_digit t = [] \<longleftrightarrow> lastDigits t = []"
  by (simp add: lastDigits_def)

lemma itemLine_alike:
  assumes "textField ''type'' a = textField ''type'' b"
    and "textField ''username'' a = textField ''username'' b" "textField ''url'' a = textField ''url'' b"
    and "textField ''type'' a = js ''note'' \<Longrightarrow>
      take n (takeWhile (\<lambda>c. c \<noteq> 10) (textField ''notes'' a)) = take n (takeWhile (\<lambda>c. c \<noteq> 10) (textField ''notes'' b))"
    and "textField ''type'' a = js ''card'' \<Longrightarrow> lastDigits (subField ''card'' ''number'' a) = lastDigits (subField ''card'' ''number'' b)"
    and "textField ''type'' a = js ''identity'' \<Longrightarrow> subField ''identity'' ''email'' a = subField ''identity'' ''email'' b
      \<and> subField ''identity'' ''fullName'' a = subField ''identity'' ''fullName'' b"
  shows "itemLine n z a = itemLine n z b"
proof -
  consider "textField ''type'' a = js ''note''" | "textField ''type'' a = js ''card''" | "textField ''type'' a = js ''identity''"
    | "textField ''type'' a \<notin> {js ''note'', js ''card'', js ''identity''}"
    by blast
  then show ?thesis
  proof cases
    case 2
    then show ?thesis
      using assms(1,5) by (simp add: itemLine_def js_def Let_def lastDigits_drop lastDigits_Nil)
  qed (use assms in \<open>auto simp: itemLine_def hd_split js_def\<close>)
qed

section \<open>What can be done\<close>

text \<open>All elements and texts of a tree, and all actions of the handlers.\<close>

fun parts :: "'a dom \<Rightarrow> 'a dom list" where
  "parts (Txt s) = [Txt s]"
| "parts (Elem tag attrs hs xs) = Elem tag attrs hs xs # concat (map parts xs)"

fun actions :: "'a dom \<Rightarrow> 'a list" where
  "actions (Txt s) = []"
| "actions (Elem tag attrs hs xs) = List.map_filter snd hs @ concat (map actions xs)"

text \<open>What a click does, for everything that can be clicked: the actions from the element outwards, and whether one of the
  handlers has stopped the event. A disabled button takes no clicks.\<close>

fun outwards :: "'a \<Rightarrow> 'a list \<times> bool \<Rightarrow> 'a list \<times> bool" where
  "outwards a (as, stopped) = (if stopped then (as, True) else (as @ [a], False))"

fun clicks :: "'a dom \<Rightarrow> ('a list \<times> bool) list" where
  "clicks (Txt s) = []"
| "clicks (Elem tag attrs hs xs) =
     (let inner = concat (map clicks xs)
      in if ''disabled'' \<in> fst ` set attrs then []
         else case map_of hs ''onClick'' of
           None \<Rightarrow> inner
         | Some None \<Rightarrow> ([], True) # map (\<lambda>(as, _). (as, True)) inner
         | Some (Some a) \<Rightarrow> ([a], False) # map (outwards a) inner)"

definition click_actions :: "'a dom list \<Rightarrow> 'a list set" where
  "click_actions xs = fst ` set (concat (map clicks xs))"

text \<open>A form on a backdrop that closes it.\<close>

lemma stopped_modal: "click_actions [Elem t as [click a] [Elem t' as' [stop_click] xs]]
    = (if ''disabled'' \<in> fst ` set as then {} else {[a]} \<union> (if ''disabled'' \<in> fst ` set as' then {} else {[]} \<union> fst ` set (concat (map clicks xs))))"
  by (force simp: click_actions_def image_iff)

section \<open>Forms on top of a screen\<close>

definition modal :: "'a \<Rightarrow> 'a dom list \<Rightarrow> 'a dom list \<Rightarrow> 'a dom" where
  "modal close title kids =
     Elem ''div'' [cls ''modal-backdrop''] [click close]
       [Elem ''div'' [cls ''card modal''] [stop_click] (el ''h2'' [] title # kids)]"

definition muted :: "'a dom list \<Rightarrow> 'a dom" where
  "muted = el ''p'' [cls ''muted'']"

definition errorLine :: "(shown \<Rightarrow> jsstring) \<Rightarrow> shown option \<Rightarrow> 'a dom list" where
  "errorLine msg e = (case e of None \<Rightarrow> [] | Some m \<Rightarrow> only (msg m \<noteq> []) [el ''div'' [cls ''error''] [Txt (msg m)]])"

definition ghost :: "'a \<Rightarrow> string \<Rightarrow> 'a dom" where
  "ghost act label = Elem ''button'' [cls ''ghost''] [click act] [text_of label]"

definition rowEnd :: "'a dom list \<Rightarrow> 'a dom" where
  "rowEnd = el ''div'' [cls ''row end'']"

text \<open>An \<open>AsyncButton\<close>: variant, whether it is a dangerous one, and its labels while it works and after it.\<close>

definition asyncButton :: "string \<Rightarrow> bool \<Rightarrow> string option \<Rightarrow> string option \<Rightarrow> 'a \<Rightarrow> string \<Rightarrow> 'a dom" where
  "asyncButton variant danger loading success act label =
     Elem ''AsyncButton''
       (at ''variant'' variant # only danger [at ''danger'' ''true'']
        @ (case loading of None \<Rightarrow> [] | Some l \<Rightarrow> [at ''loadingLabel'' l])
        @ (case success of None \<Rightarrow> [] | Some l \<Rightarrow> [at ''successLabel'' l]))
       [click act] [text_of label]"

lemma modal_clicks: "click_actions [modal close t xs] = {[close], []} \<union> fst ` set (concat (map clicks t)) \<union> fst ` set (concat (map clicks xs))"
  unfolding modal_def stopped_modal by (simp add: image_Un insert_commute Un_assoc)

lemma ghost_clicks [simp]: "clicks (ghost a l) = [([a], False)]"
  by (simp add: ghost_def)

lemma asyncButton_clicks [simp]: "clicks (asyncButton v d ld sc a l) = [([a], False)]"
  by (cases ld; cases sc; cases d) (simp_all add: asyncButton_def)

lemma plain_clicks [simp]:
  "clicks (muted xs) = concat (map clicks xs)" "clicks (rowEnd xs) = concat (map clicks xs)"
  by (simp_all add: muted_def rowEnd_def)

lemma error_clicks [simp]: "concat (map clicks (errorLine msg e)) = []"
  by (cases e) (simp_all add: errorLine_def)

end
