(* ===== verification/WebView.thy ===== *)
theory WebView
  imports Dom WebPanels
begin

text \<open>
  What the signed-in screen of \<open>apps/web/src/VaultScreen.tsx\<close> renders: the detail pane with its hooks, the list and
  the sidebar, with the actions of their handlers, and what an onlooker learns of the vault. The forms and panels that open on top of it are elements without children here.
\<close>

section \<open>The detail pane\<close>

definition TYPE_META :: "(string \<times> string \<times> string) list" where
  "TYPE_META = [(''login'', ''Login'', ''key''), (''note'', ''Note'', ''note''), (''card'', ''Card'', ''card''),
     (''identity'', ''Identity'', ''user'')]"

text \<open>The label and the icon of a type. Reading them of any other type throws, see \<open>renders\<close>.\<close>

definition typeMeta :: "jsstring \<Rightarrow> (jsstring \<times> jsstring) option" where
  "typeMeta ty = map_of (map (\<lambda>(t, l, ic). (js t, js l, js ic)) TYPE_META) ty"

definition typeLabel :: "jsval \<Rightarrow> jsstring" where
  "typeLabel i = (case typeMeta (textField ''type'' i) of Some (l, _) \<Rightarrow> l | None \<Rightarrow> [])"

definition typeIcon :: "jsval \<Rightarrow> jsstring" where
  "typeIcon i = (case typeMeta (textField ''type'' i) of Some (_, ic) \<Rightarrow> ic | None \<Rightarrow> [])"

text \<open>The places of the pane that hide a value, and what the handlers of the pane are.\<close>

datatype Slot = PasswordSlot | NumberSlot | CvvSlot | FieldSlot nat

datatype PaneAct = CopyValue jsstring jsstring | Reveal Slot | StarItem | EditItem | ShareItem | DeleteItem | TypeNotes | LeaveNotes

record DetailPane =
  dp_key :: "jsval option"
  dp_notes :: jsstring
  dp_revealed :: "Slot set"
  dp_code :: TotpShown

definition detailField :: "jsstring \<Rightarrow> 'a \<Rightarrow> 'a dom list \<Rightarrow> 'a dom list \<Rightarrow> 'a dom" where
  "detailField label act extra kids =
     el ''div'' [cls ''detail-field'']
       [el ''label'' [] [Txt label],
        el ''div'' [cls ''detail-value'']
          (kids @ extra @
           [Elem ''button'' [cls ''icon-btn'', (''aria-label'', js ''Copy '' @ label), (''title'', js ''Copy '' @ label)] [click act]
              [icon (js ''copy'') 16]])]"

definition secretValue :: "bool \<Rightarrow> 'a \<Rightarrow> jsstring \<Rightarrow> 'a dom list" where
  "secretValue reveal act v =
     [el ''span'' [cls ''val pw-val''] [Txt (maskedValue reveal v)],
      Elem ''button''
        [cls ''icon-btn'', at ''aria-label'' (if reveal then ''Hide'' else ''Reveal''), at ''title'' (if reveal then ''Hide'' else ''Reveal'')]
        [click act]
        [icon (js (if reveal then ''eyeOff'' else ''eye'')) 16]]"

definition totpView :: "TotpShown \<Rightarrow> PaneAct dom list" where
  "totpView st =
     (case st of
        InvalidSecret \<Rightarrow>
          [el ''div'' [cls ''detail-field'']
             [el ''label'' [] [text_of ''2FA code''],
              el ''p'' [cls ''muted''] [text_of ''The stored 2FA secret is not a valid TOTP secret.'']]]
      | NotYet \<Rightarrow> []
      | Code code left \<Rightarrow>
          [detailField (js ''2FA code'') (CopyValue (js ''2FA code'') code)
             [el ''span'' [cls (if left \<le> 5 then ''totp-timer low'' else ''totp-timer'')] [Txt (int_str left), text_of ''s'']]
             [el ''span'' [cls ''val totp-val''] [Txt (groupedCode code)]]])"

text \<open>A field that is shown when it has a value: in the clear, or hidden.\<close>

definition clearField :: "string \<Rightarrow> string \<Rightarrow> string \<Rightarrow> jsstring \<Rightarrow> PaneAct dom list" where
  "clearField label copied c v =
     only (v \<noteq> []) [detailField (js label) (CopyValue (js copied) v) [] [el ''span'' [cls c] [Txt v]]]"

definition hiddenField :: "DetailPane \<Rightarrow> Slot \<Rightarrow> string \<Rightarrow> string \<Rightarrow> jsstring \<Rightarrow> PaneAct dom list" where
  "hiddenField p slot label copied v =
     only (v \<noteq> [])
       [detailField (js label) (CopyValue (js copied) v) [] (secretValue (slot \<in> dp_revealed p) (Reveal slot) v)]"

definition loginFields :: "DetailPane \<Rightarrow> jsval \<Rightarrow> PaneAct dom list" where
  "loginFields p item =
     only (textField ''url'' item \<noteq> [])
       [detailField (js ''Website'') (CopyValue (js ''website'') (textField ''url'' item)) []
          [el ''a'' [cls ''val'', (''href'', normalizeUrl (textField ''url'' item)), at ''target'' ''_blank'', at ''rel'' ''noreferrer'']
             [Txt (textField ''url'' item)]]]
     @ clearField ''Username'' ''username'' ''val'' (textField ''username'' item)
     @ hiddenField p PasswordSlot ''Password'' ''password'' (textField ''password'' item)
     @ only (textField ''totp'' item \<noteq> []) (totpView (dp_code p))
     @ only (loginEmpty item) [el ''p'' [cls ''muted''] [text_of ''No login fields. Use Edit to add some.'']]"

definition cardFields :: "DetailPane \<Rightarrow> jsval \<Rightarrow> PaneAct dom list" where
  "cardFields p item =
     clearField ''Cardholder'' ''cardholder'' ''val'' (subField ''card'' ''cardholder'' item)
     @ hiddenField p NumberSlot ''Card number'' ''card number'' (subField ''card'' ''number'' item)
     @ clearField ''Expires'' ''expiry'' ''val'' (cardExpiry item)
     @ hiddenField p CvvSlot ''CVV'' ''CVV'' (subField ''card'' ''cvv'' item)
     @ only (subField ''card'' ''cardholder'' item = [] \<and> subField ''card'' ''number'' item = [])
         [el ''p'' [cls ''muted''] [text_of ''No card details yet. Use Edit to add them.'']]"

definition identityFields :: "jsval \<Rightarrow> PaneAct dom list" where
  "identityFields item =
     clearField ''Full name'' ''full name'' ''val'' (subField ''identity'' ''fullName'' item)
     @ clearField ''Email'' ''email'' ''val'' (subField ''identity'' ''email'' item)
     @ clearField ''Phone'' ''phone'' ''val'' (subField ''identity'' ''phone'' item)
     @ clearField ''Address'' ''address'' ''val val-wrap'' (subField ''identity'' ''address'' item)
     @ clearField ''Company'' ''company'' ''val'' (subField ''identity'' ''company'' item)
     @ only (subField ''identity'' ''fullName'' item = [] \<and> subField ''identity'' ''email'' item = [])
         [el ''p'' [cls ''muted''] [text_of ''No identity details yet. Use Edit to add them.'']]"

definition customField :: "DetailPane \<Rightarrow> nat \<Rightarrow> jsval \<Rightarrow> PaneAct dom" where
  "customField p i f =
     detailField (View.orElse (textField ''label'' f) (js ''Field''))
       (CopyValue (View.orElse (textField ''label'' f) (js ''field'')) (textField ''value'' f)) []
       (if boolField ''hidden'' f
        then secretValue (FieldSlot i \<in> dp_revealed p) (Reveal (FieldSlot i)) (textField ''value'' f)
        else [el ''span'' [cls ''val val-wrap''] [Txt (textField ''value'' f)]])"

definition shownName :: "jsval \<Rightarrow> jsstring" where
  "shownName item = View.orElse (textField ''name'' item) (js ''(unnamed)'')"

definition detailHead :: "jsval \<Rightarrow> PaneAct dom" where
  "detailHead item =
     (let favorite = boolField ''favorite'' item;
          star = (if favorite then ''Remove from favorites'' else ''Add to favorites'')
      in el ''div'' [cls ''detail-head'']
        [el ''h2'' []
           (Txt (shownName item) # el ''span'' [cls ''type-badge''] [Txt (typeLabel item)]
            # only (textField ''folder'' item \<noteq> [])
                [el ''span'' [cls ''type-badge folder-badge''] [icon (js ''folder'') 11, text_of '' '', Txt (textField ''folder'' item)]]),
         el ''div'' [cls ''detail-actions'']
           [Elem ''button'' [cls (if favorite then ''icon-btn star-btn on'' else ''icon-btn star-btn''), at ''aria-label'' star, at ''title'' star]
              [click StarItem] [icon (js ''star'') 17],
            Elem ''button'' [cls ''ghost''] [click EditItem] [icon (js ''edit'') 16, text_of '' Edit''],
            Elem ''button'' [cls ''ghost''] [click ShareItem] [icon (js ''share'') 16, text_of '' Share''],
            Elem ''button'' [cls ''ghost danger''] [click DeleteItem] [icon (js ''trash'') 16, text_of '' Delete'']]])"

definition itemDetail :: "DetailPane \<Rightarrow> jsval \<Rightarrow> PaneAct dom" where
  "itemDetail p item =
     el ''div'' [cls ''detail'']
       [detailHead item,
        el ''div'' [cls ''detail-body'']
          [el ''div'' [cls ''detail-fields'']
             (only (textField ''type'' item = js ''login'') (loginFields p item)
              @ only (textField ''type'' item = js ''card'') (cardFields p item)
              @ only (textField ''type'' item = js ''identity'') (identityFields item)
              @ map (\<lambda>(i, f). customField p i f) (enumerate 0 (fieldsOf item))),
           el ''div'' [cls ''detail-notes'']
             [el ''label'' [] [text_of ''Notes''],
              Elem ''textarea'' [cls ''notes-edit'', (''value'', dp_notes p), at ''placeholder'' ''Click to add notes...'']
                [change TypeNotes, (''onBlur'', Some LeaveNotes)] []]]]"

text \<open>The hooks of the pane. A value is hidden anew when its place has not been rendered in between: the state of
  a place goes with it.\<close>

definition hiddenSlots :: "jsval \<Rightarrow> Slot set" where
  "hiddenSlots item =
     (let ty = textField ''type'' item
      in set (only (ty = js ''login'' \<and> textField ''password'' item \<noteq> []) [PasswordSlot]
        @ only (ty = js ''card'' \<and> subField ''card'' ''number'' item \<noteq> []) [NumberSlot]
        @ only (ty = js ''card'' \<and> subField ''card'' ''cvv'' item \<noteq> []) [CvvSlot]
        @ map (FieldSlot \<circ> fst) (filter (boolField ''hidden'' \<circ> snd) (enumerate 0 (fieldsOf item)))))"

definition mountPane :: "jsval \<Rightarrow> DetailPane" where
  "mountPane item = \<lparr>dp_key = get_prop_opt item (js ''id''), dp_notes = textField ''notes'' item, dp_revealed = {}, dp_code = NotYet\<rparr>"

definition updatePane :: "jsval \<Rightarrow> DetailPane \<Rightarrow> DetailPane" where
  "updatePane item p = p\<lparr>dp_revealed := dp_revealed p \<inter> hiddenSlots item,
     dp_code := (if textField ''type'' item = js ''login'' \<and> textField ''totp'' item \<noteq> [] then dp_code p else NotYet)\<rparr>"

text \<open>The pane of the next rendering: \<open>key={selected.id}\<close> decides whether it is the one before. Ids are texts, so that the keys
  of two items are the same when the ids are.\<close>

definition nextPane :: "WebVault \<Rightarrow> DetailPane option \<Rightarrow> DetailPane option" where
  "nextPane v prev =
     (if wv_accountOpen v then None
      else case selectedItem v of
          None \<Rightarrow> None
        | Some item \<Rightarrow>
            (case prev of
               Some p \<Rightarrow> Some (if dp_key p = get_prop_opt item (js ''id'') then updatePane item p else mountPane item)
             | None \<Rightarrow> Some (mountPane item)))"

definition toggleReveal :: "Slot \<Rightarrow> DetailPane \<Rightarrow> DetailPane" where
  "toggleReveal slot p = p\<lparr>dp_revealed := (if slot \<in> dp_revealed p then dp_revealed p - {slot} else insert slot (dp_revealed p))\<rparr>"

section \<open>The screen\<close>

datatype ScreenAct = OpenMenu | CloseMenu | NewItem | SetFilter jsstring | OpenPanel Panel | OpenAccount | LockClick
  | ReviewAlert | DismissAlert | TypeQuery | SelectRow jsval | Back | CopyRecovery | DismissRecovery | InPane PaneAct
  | CopyIdentifier | CloseEditor | ClosePanel Panel | CloseSharing

definition navButton :: "jsstring \<Rightarrow> string \<Rightarrow> jsstring \<Rightarrow> string \<Rightarrow> ScreenAct dom" where
  "navButton current which ic label =
     Elem ''button'' [cls (if current = js which then ''nav-item active'' else ''nav-item'')] [click (SetFilter (js which))]
       [icon ic 16, text_of ('' '' @ label)]"

definition folderButton :: "jsstring \<Rightarrow> jsstring \<Rightarrow> ScreenAct dom" where
  "folderButton current f =
     Elem ''button'' [cls (if current = js ''folder:'' @ f then ''nav-item active'' else ''nav-item''), (''title'', f)]
       [click (SetFilter (js ''folder:'' @ f))]
       [icon (js ''folder'') 16, text_of '' '', el ''span'' [cls ''nav-label''] [Txt f]]"

definition toolButton :: "Panel \<Rightarrow> string \<Rightarrow> string \<Rightarrow> ScreenAct dom" where
  "toolButton panel ic label =
     Elem ''button'' [cls ''nav-item''] [click (OpenPanel panel)] [icon (js ic) 16, text_of ('' '' @ label)]"

definition sidebar :: "('n, 'z) webplatform_scheme \<Rightarrow> Session \<Rightarrow> WebVault \<Rightarrow> ScreenAct dom" where
  "sidebar P s v =
     Elem ''aside'' [cls ''sidebar''] [click CloseMenu]
       [el ''div'' [cls ''sidebar-brand''] [icon (js ''lock'') 20, text_of '' '', el ''span'' [] [text_of ''passwd'']],
        Elem ''button'' [cls ''primary add-btn''] [click NewItem] [text_of ''+ Add item''],
        el ''nav'' [cls ''sidebar-nav'']
          ([navButton (wv_filter v) ''all'' (js ''grid'') ''All items'', navButton (wv_filter v) ''favorites'' (js ''star'') ''Favorites'']
           @ map (folderButton (wv_filter v)) (folders P (wv_items v))),
        el ''nav'' [cls ''sidebar-nav sidebar-tools'']
          [toolButton DataPanel ''copy'' ''Import / export'', toolButton TwoFactorPanel ''settings'' ''Two-factor (2FA)'',
           toolButton PasskeysPanel ''lock'' ''Passkeys'', toolButton RecoveryPanel ''key'' ''Recovery code'',
           toolButton ActivityPanel ''clock'' ''Activity'', toolButton SecurityPanel ''check'' ''Security check'',
           toolButton SharedPanel ''share'' ''Shared with me''],
        el ''div'' [cls ''sidebar-footer'']
          [Elem ''button'' [cls ''account-btn'', (''title'', s_identifier s)] [click OpenAccount]
             [icon (js ''user'') 16, el ''span'' [cls ''account-id''] [Txt (s_identifier s)]],
           el ''div'' [cls ''sidebar-footer-row'']
             [Elem ''button'' [cls ''ghost''] [click LockClick] [text_of ''Lock''], el ''ThemeToggle'' [] []]]]"

definition itemRow :: "WebVault \<Rightarrow> jsval \<Rightarrow> ScreenAct dom" where
  "itemRow v item =
     Elem ''li''
       [cls (if get_prop_opt item (js ''id'') = wv_selected v \<and> \<not> wv_accountOpen v then ''item selected'' else ''item'')]
       [click (SelectRow item)]
       [el ''span'' [cls ''item-ico'', (''title'', typeLabel item)] [icon (typeIcon item) 16],
        el ''div'' [cls ''item-main'']
          [el ''div'' [cls ''item-name'']
             (Txt (shownName item) # only (boolField ''favorite'' item)
                [el ''span'' [cls ''item-star'', at ''title'' ''Favorite''] [icon (js ''star'') 12]]),
           el ''div'' [cls ''item-sub''] [Txt (itemSubtitle item)]]]"

text \<open>\<open>msg\<close> is the text of a message.\<close>

definition listColumn :: "'z jsenv_scheme \<Rightarrow> (shown \<Rightarrow> jsstring) \<Rightarrow> WebVault \<Rightarrow> ScreenAct dom" where
  "listColumn J msg v =
     el ''section'' [cls ''list-col'']
       ((case wv_alert v of None \<Rightarrow> [] | Some a \<Rightarrow>
           only (a \<noteq> [])
           [el ''div'' [cls ''warn-banner'']
              [el ''div'' [cls ''warn-banner-text''] [icon (js ''clock'') 16, el ''span'' [] [Txt a]],
               el ''div'' [cls ''warn-banner-actions'']
                 [Elem ''button'' [cls ''linklike''] [click ReviewAlert] [text_of ''Review''],
                  Elem ''button'' [cls ''linklike''] [click DismissAlert] [text_of ''Dismiss'']]]])
        @ [el ''div'' [cls ''search-field'']
             [icon (js ''search'') 16,
              Elem ''input'' [cls ''search'', at ''placeholder'' ''Search'', (''value'', wv_query v)] [change TypeQuery] []]]
        @ (case wv_error v of None \<Rightarrow> [] | Some e \<Rightarrow> only (msg e \<noteq> []) [el ''div'' [cls ''error banner''] [Txt (msg e)]])
        @ (if wv_loading v then [el ''p'' [cls ''muted center-text''] [text_of ''Decrypting vault...'']]
           else if filteredVault J v = []
           then [el ''p'' [cls ''muted center-text''] [Txt (js ''No items yet. Use '' @ [34] @ js ''+ Add item'' @ [34]
             @ js '' to store your first password.'')]]
           else [el ''ul'' [cls ''items''] (map (itemRow v) (filteredVault J v))]))"

definition detailColumn :: "Session \<Rightarrow> WebVault \<Rightarrow> jsstring option \<Rightarrow> DetailPane option \<Rightarrow> ScreenAct dom" where
  "detailColumn s v recovery pane =
     (let nothing = (recovery = None \<or> recovery = Some [])
      in el ''section'' [cls ''detail-col'']
       (only nothing [Elem ''button'' [cls ''mobile-back''] [click Back] [icon (js ''arrowLeft'') 16, text_of '' Back'']]
        @ (case recovery of None \<Rightarrow> [] | Some r \<Rightarrow>
            only (r \<noteq> [])
            [el ''div'' [cls ''recovery'']
               [el ''strong'' [] [text_of ''Save your recovery passphrase.''],
                text_of '' This is the only way back into your account, and there is no reset. Store it somewhere safe (not in this vault).'',
                el ''pre'' [] [Txt r],
                el ''div'' [cls ''row'']
                  [Elem ''button'' [cls ''ghost''] [click CopyRecovery] [text_of ''Copy''],
                   Elem ''button'' [cls ''ghost''] [click DismissRecovery] [Txt (js ''I'' @ [39] @ js ''ve saved it'')]]]])
        @ (if wv_accountOpen v
           then [Elem ''AccountPanel'' [(''identifier'', s_identifier s)] [(''onCopy'', Some CopyIdentifier), (''onDeleted'', Some LockClick)] []]
           else case (selectedItem v, pane) of
               (Some item, Some p) \<Rightarrow> [map_dom InPane (itemDetail p item)]
             | _ \<Rightarrow> only nothing
                 [el ''div'' [cls ''detail-empty'']
                    [icon (js ''lock'') 30, el ''p'' [cls ''muted''] [text_of ''Select an item to view its details.'']]])))"

definition panelOf :: "string \<Rightarrow> Panel \<Rightarrow> WebVault \<Rightarrow> ScreenAct dom list" where
  "panelOf tag panel v = only (panel \<in> wv_panels v) [Elem tag [] [(''onClose'', Some (ClosePanel panel))] []]"

text \<open>The forms and panels on top of the screen, in the order of the code.\<close>

definition onTop :: "WebVault \<Rightarrow> ScreenAct dom list" where
  "onTop v =
     only (wv_editing v \<noteq> None) [Elem ''ItemEditor'' [] [(''onCancel'', Some CloseEditor)] []]
     @ panelOf ''TwoFactor'' TwoFactorPanel v @ panelOf ''Passkeys'' PasskeysPanel v @ panelOf ''RecoveryCode'' RecoveryPanel v
     @ panelOf ''Activity'' ActivityPanel v @ panelOf ''SecurityCheck'' SecurityPanel v @ panelOf ''SharedWithMe'' SharedPanel v
     @ only (wv_sharing v \<noteq> None) [Elem ''ShareDialog'' [] [(''onClose'', Some CloseSharing)] []]
     @ panelOf ''ImportExport'' DataPanel v"

text \<open>A rendering throws when an item that is shown is of no known type.\<close>

definition renders :: "'z jsenv_scheme \<Rightarrow> WebVault \<Rightarrow> bool" where
  "renders J v \<longleftrightarrow> (wv_loading v \<or> list_all (\<lambda>i. typeMeta (textField ''type'' i) \<noteq> None) (filteredVault J v))
     \<and> (wv_accountOpen v \<or> (case selectedItem v of None \<Rightarrow> True | Some i \<Rightarrow> typeMeta (textField ''type'' i) \<noteq> None))"

definition vaultView :: "('n, 'z) webplatform_scheme \<Rightarrow> (shown \<Rightarrow> jsstring) \<Rightarrow> Session \<Rightarrow> jsstring option \<Rightarrow> DetailPane option \<Rightarrow> WebVault
   \<Rightarrow> ScreenAct dom" where
  "vaultView P msg s recovery pane v =
     el ''div'' [(''className'', js ''vault-layout'' @ only (detailOpen recovery v) (js '' detail-open'') @ only (wv_menuOpen v) (js '' menu-open''))]
       ([el ''header'' [cls ''mobile-topbar'']
           [Elem ''button'' [cls ''icon-btn'', at ''aria-label'' ''Menu''] [click OpenMenu] [icon (js ''menu'') 22],
            el ''span'' [cls ''mobile-title''] [icon (js ''lock'') 18, text_of '' passwd''],
            Elem ''button'' [cls ''icon-btn'', at ''aria-label'' ''Add item''] [click NewItem] [icon (js ''edit'') 20]],
         Elem ''div'' [cls ''drawer-backdrop''] [click CloseMenu] [],
         sidebar P s v, listColumn P msg v, detailColumn s v recovery pane]
        @ onTop v
        @ (case wv_toast v of None \<Rightarrow> [] | Some t \<Rightarrow> only (t \<noteq> []) [el ''div'' [cls ''toast''] [Txt t]]))"

section \<open>What an onlooker learns\<close>

text \<open>Items that differ in their secrets only. Passwords, card numbers, CVVs and hidden fields may be any texts of
  the same length up to sixteen; of a card number the last four digits are the same; a secret of one-time codes is there or not.\<close>

definition same_dots :: "jsstring \<Rightarrow> jsstring \<Rightarrow> bool" where
  "same_dots a b \<longleftrightarrow> min (length a) 16 = min (length b) 16"

definition lookalike_field :: "jsval \<Rightarrow> jsval \<Rightarrow> bool" where
  "lookalike_field f g \<longleftrightarrow> textField ''label'' f = textField ''label'' g \<and> boolField ''hidden'' f = boolField ''hidden'' g
     \<and> (if boolField ''hidden'' f then same_dots (textField ''value'' f) (textField ''value'' g)
        else textField ''value'' f = textField ''value'' g)"

definition lookalike :: "jsval \<Rightarrow> jsval \<Rightarrow> bool" where
  "lookalike a b \<longleftrightarrow> get_prop_opt a (js ''id'') = get_prop_opt b (js ''id'')
     \<and> (\<forall>k \<in> set [''type'', ''name'', ''folder'', ''url'', ''username'', ''notes'']. textField k a = textField k b)
     \<and> boolField ''favorite'' a = boolField ''favorite'' b
     \<and> (\<forall>k \<in> set [''cardholder'', ''expMonth'', ''expYear'']. subField ''card'' k a = subField ''card'' k b)
     \<and> (\<forall>k \<in> set [''fullName'', ''email'', ''phone'', ''address'', ''company'']. subField ''identity'' k a = subField ''identity'' k b)
     \<and> same_dots (textField ''password'' a) (textField ''password'' b)
     \<and> same_dots (subField ''card'' ''number'' a) (subField ''card'' ''number'' b)
     \<and> lastDigits (subField ''card'' ''number'' a) = lastDigits (subField ''card'' ''number'' b)
     \<and> same_dots (subField ''card'' ''cvv'' a) (subField ''card'' ''cvv'' b)
     \<and> (textField ''totp'' a = [] \<longleftrightarrow> textField ''totp'' b = [])
     \<and> list_all2 lookalike_field (fieldsOf a) (fieldsOf b)"

lemma same_masked: "same_dots a b \<Longrightarrow> maskedValue False a = maskedValue False b"
  by (simp add: maskedValue_def same_dots_def)

lemma same_Nil: "same_dots a b \<Longrightarrow> a = [] \<longleftrightarrow> b = []"
  by (cases a; cases b) (simp_all add: same_dots_def min_def split: if_splits)

lemma itemSubtitle_alike: "lookalike a b \<Longrightarrow> itemSubtitle a = itemSubtitle b"
  unfolding itemSubtitle_def by (rule itemLine_alike) (simp_all add: lookalike_def)

lemma detailField_blank [simp]:
  "blank (detailField l a ext kids) = blank (detailField l' b ext' kids')
     \<longleftrightarrow> l = l' \<and> seen kids @ seen ext = seen kids' @ seen ext'"
  by (auto simp: detailField_def)

lemma secretValue_seen: "same_dots v v' \<Longrightarrow> seen (secretValue False a v) = seen (secretValue False b v')"
  by (simp add: secretValue_def same_masked)

lemma hiddenField_seen:
  assumes "same_dots v v'" "dp_revealed p = {}"
  shows "seen (hiddenField p slot l c v) = seen (hiddenField p slot l c v')"
  using assms same_Nil [OF assms(1)] by (auto simp: hiddenField_def secretValue_seen)

lemma customField_seen:
  assumes "lookalike_field f g" "dp_revealed p = {}"
  shows "blank (customField p i f) = blank (customField p i g)"
  using assms by (auto simp: customField_def lookalike_field_def secretValue_seen split: if_splits)

lemma enumerate_seen:
  assumes "list_all2 R fs gs" "\<And>i f g. R f g \<Longrightarrow> blank (h i f) = blank (h' i g)"
  shows "seen (map (\<lambda>(i, f). h i f) (enumerate n fs)) = seen (map (\<lambda>(i, f). h' i f) (enumerate n gs))"
  using assms(1) by (induction arbitrary: n rule: list_all2_induct) (simp_all add: assms(2))

lemma itemDetail_seen:
  assumes l: "lookalike a b" and p: "dp_revealed p = {}"
  shows "blank (itemDetail p a) = blank (itemDetail p b)"
proof -
  note hf = hiddenField_seen [OF _ p]
  have s: "textField k a = textField k b" if "k \<in> {''type'', ''name'', ''folder'', ''url'', ''username''}" for k
    using l that by (auto simp: lookalike_def)
  have c: "subField ''card'' k a = subField ''card'' k b" if "k \<in> {''cardholder'', ''expMonth'', ''expYear''}" for k
    using l that by (auto simp: lookalike_def)
  have i: "subField ''identity'' k a = subField ''identity'' k b"
    if "k \<in> {''fullName'', ''email'', ''phone'', ''address'', ''company''}" for k
    using l that by (auto simp: lookalike_def)
  have e: "textField ''password'' a = [] \<longleftrightarrow> textField ''password'' b = []"
    "subField ''card'' ''number'' a = [] \<longleftrightarrow> subField ''card'' ''number'' b = []" "textField ''totp'' a = [] \<longleftrightarrow> textField ''totp'' b = []"
    using l by (simp_all add: lookalike_def same_Nil [of "textField ''password'' a" "textField ''password'' b"]
        same_Nil [of "subField ''card'' ''number'' a" "subField ''card'' ''number'' b"])
  have "seen (loginFields p a) = seen (loginFields p b)"
    using hf [of "textField ''password'' a" "textField ''password'' b"] l e by (simp add: loginFields_def loginEmpty_def s lookalike_def)
  moreover have "seen (cardFields p a) = seen (cardFields p b)"
    using hf [of "subField ''card'' ''number'' a" "subField ''card'' ''number'' b"]
      hf [of "subField ''card'' ''cvv'' a" "subField ''card'' ''cvv'' b"] l e by (simp add: cardFields_def cardExpiry_def c lookalike_def)
  moreover have "seen (identityFields a) = seen (identityFields b)"
    by (simp add: identityFields_def i)
  moreover have "seen (map (\<lambda>(i, f). customField p i f) (enumerate 0 (fieldsOf a)))
      = seen (map (\<lambda>(i, f). customField p i f) (enumerate 0 (fieldsOf b)))"
    by (rule enumerate_seen [where R = lookalike_field]) (use l customField_seen [OF _ p] in \<open>auto simp: lookalike_def\<close>)
  moreover have "blank (detailHead a) = blank (detailHead b)"
    using l by (simp add: detailHead_def shownName_def typeLabel_def s lookalike_def)
  ultimately show ?thesis
    by (simp add: itemDetail_def s del: seen_simps(4))
qed

text \<open>The same screen with other items.\<close>

lemma filteredVault_lookalike:
  assumes "list_all2 lookalike (wv_items v) items"
  shows "list_all2 lookalike (filteredVault J v) (filteredVault J (v\<lparr>wv_items := items\<rparr>))"
  unfolding filteredVault_def
  by (rule list_all2_sortBy, simp, rule list_all2_filter_same [OF assms])
    (simp_all add: lookalike_def inFilter_def searchHaystack_def)

lemma selectedItem_lookalike:
  assumes "list_all2 lookalike (wv_items v) items"
  shows "rel_option lookalike (selectedItem v) (selectedItem (v\<lparr>wv_items := items\<rparr>))"
  unfolding selectedItem_def using list_all2_find [OF assms] by (simp add: lookalike_def)

lemma folders_lookalike:
  assumes "list_all2 lookalike xs ys"
  shows "folders P xs = folders P ys"
  using list_all2_map_same [OF assms, of "textField ''folder''" "textField ''folder''"] by (simp add: folders_def lookalike_def)

lemma itemRow_seen: "lookalike a b \<Longrightarrow> blank (itemRow v a) = blank (itemRow (v\<lparr>wv_items := items\<rparr>) b)"
  using itemSubtitle_alike [of a b] by (simp add: itemRow_def lookalike_def shownName_def typeLabel_def typeIcon_def)


abbreviation secret_item :: "string \<Rightarrow> jsval" where
  "secret_item pw \<equiv> JObj [(js ''id'', JStr (js ''c1'')), (js ''type'', JStr (js ''login'')), (js ''password'', JStr (js pw))]"

abbreviation secret_card :: "string \<Rightarrow> jsval" where
  "secret_card n \<equiv> JObj [(js ''id'', JStr (js ''c2'')), (js ''type'', JStr (js ''card'')), (js ''card'', JObj [(js ''number'', JStr (js n))])]"


end
