(* ===== verification/WebScreen.thy ===== *)
theory WebScreen
  imports WebView
begin

text \<open>
  The signed-in screen of \<open>apps/web/src/VaultScreen.tsx\<close> at work: what every click and every text does, and what follows: each
  item can be found, the screen never throws, and what the detail pane makes of its notes.
\<close>

section \<open>What a click does\<close>

text \<open>The screen with what its application holds for it: the pane's hooks, the passphrase of a new account, whether it has been
  left, and the clipboard.\<close>

record 'n WebPage =
  pg_vault :: WebVault
  pg_pane :: "DetailPane option"
  pg_recovery :: "jsstring option"
  pg_locked :: bool
  pg_clip :: "jsstring option"
  pg_world :: "'n webworld"

text \<open>What an event brings with it: the text typed, the answer to a question, and whether the clipboard takes a text.\<close>

record Answer =
  an_text :: jsstring
  an_confirmed :: bool
  an_clip :: bool

definition onVault :: "(WebVault \<Rightarrow> WebVault) \<Rightarrow> 'n WebPage \<Rightarrow> 'n WebPage" where
  "onVault f pg = pg\<lparr>pg_vault := f (pg_vault pg)\<rparr>"

definition onPane :: "(DetailPane \<Rightarrow> DetailPane) \<Rightarrow> 'n WebPage \<Rightarrow> 'n WebPage" where
  "onPane f pg = pg\<lparr>pg_pane := map_option f (pg_pane pg)\<rparr>"

definition running :: "('n, unit) webhandler \<Rightarrow> 'n WebPage \<Rightarrow> 'n WebPage" where
  "running h pg = (case h (pg_vault pg) (pg_world pg) of (_, v, w) \<Rightarrow> pg\<lparr>pg_vault := v, pg_world := w\<rparr>)"

definition copyValue :: "bool \<Rightarrow> jsstring \<Rightarrow> jsstring \<Rightarrow> 'n WebPage \<Rightarrow> 'n WebPage" where
  "copyValue ok label t pg =
     (if ok then onVault (flashed (js ''Copied '' @ label)) (pg\<lparr>pg_clip := Some t\<rparr>) else pg)"

fun paneAct :: "('n, 'z) webplatform_scheme \<Rightarrow> Session \<Rightarrow> PaneAct \<Rightarrow> Answer \<Rightarrow> jsval \<Rightarrow> 'n WebPage \<Rightarrow> 'n WebPage" where
  "paneAct P s (CopyValue label t) an item pg = copyValue (an_clip an) label t pg"
| "paneAct P s (Reveal slot) an item pg = onPane (toggleReveal slot) pg"
| "paneAct P s StarItem an item pg = running (toggleFavorite P s item) pg"
| "paneAct P s EditItem an item pg = onVault (\<lambda>v. v\<lparr>wv_editing := Some item\<rparr>) pg"
| "paneAct P s ShareItem an item pg = onVault (\<lambda>v. v\<lparr>wv_sharing := Some item\<rparr>) pg"
| "paneAct P s DeleteItem an item pg = running (handleDelete P s (an_confirmed an) item) pg"
| "paneAct P s TypeNotes an item pg = onPane (\<lambda>p. p\<lparr>dp_notes := an_text an\<rparr>) pg"
| "paneAct P s LeaveNotes an item pg =
     (case pg_pane pg of None \<Rightarrow> pg | Some p \<Rightarrow> running (saveNotes P s item (dp_notes p)) pg)"

fun screenAct :: "('n, 'z) webplatform_scheme \<Rightarrow> Session \<Rightarrow> ScreenAct \<Rightarrow> Answer \<Rightarrow> 'n WebPage \<Rightarrow> 'n WebPage" where
  "screenAct P s OpenMenu an pg = onVault (\<lambda>v. v\<lparr>wv_menuOpen := True\<rparr>) pg"
| "screenAct P s CloseMenu an pg = onVault (\<lambda>v. v\<lparr>wv_menuOpen := False\<rparr>) pg"
| "screenAct P s NewItem an pg = onVault (\<lambda>v. v\<lparr>wv_editing := Some newItem\<rparr>) pg"
| "screenAct P s (SetFilter f) an pg = onVault (\<lambda>v. v\<lparr>wv_filter := f\<rparr>) pg"
| "screenAct P s (OpenPanel p) an pg = onVault (\<lambda>v. v\<lparr>wv_panels := insert p (wv_panels v)\<rparr>) pg"
| "screenAct P s OpenAccount an pg = onVault openAccount pg"
| "screenAct P s LockClick an pg = pg\<lparr>pg_locked := True\<rparr>"
| "screenAct P s ReviewAlert an pg = onVault reviewAlert pg"
| "screenAct P s DismissAlert an pg = onVault dismissAlert pg"
| "screenAct P s TypeQuery an pg = onVault (\<lambda>v. v\<lparr>wv_query := an_text an\<rparr>) pg"
| "screenAct P s (SelectRow item) an pg = onVault (selectItem item) pg"
| "screenAct P s Back an pg = onVault closeDetail pg"
| "screenAct P s CopyRecovery an pg =
     (case pg_recovery pg of None \<Rightarrow> pg | Some r \<Rightarrow> copyValue (an_clip an) (js ''recovery passphrase'') r pg)"
| "screenAct P s DismissRecovery an pg = pg\<lparr>pg_recovery := None\<rparr>"
| "screenAct P s (InPane a) an pg = (case selectedItem (pg_vault pg) of None \<Rightarrow> pg | Some item \<Rightarrow> paneAct P s a an item pg)"
| "screenAct P s CopyIdentifier an pg = copyValue (an_clip an) (js ''identifier'') (s_identifier s) pg"
| "screenAct P s CloseEditor an pg = onVault (\<lambda>v. v\<lparr>wv_editing := None\<rparr>) pg"
| "screenAct P s (ClosePanel p) an pg = onVault (\<lambda>v. v\<lparr>wv_panels := wv_panels v - {p}\<rparr>) pg"
| "screenAct P s CloseSharing an pg = onVault (\<lambda>v. v\<lparr>wv_sharing := None\<rparr>) pg"

text \<open>An event, and the rendering after it.\<close>

definition rerender :: "'n WebPage \<Rightarrow> 'n WebPage" where
  "rerender pg = pg\<lparr>pg_pane := nextPane (pg_vault pg) (pg_pane pg)\<rparr>"

definition screenEvent :: "('n, 'z) webplatform_scheme \<Rightarrow> Session \<Rightarrow> ScreenAct \<Rightarrow> Answer \<Rightarrow> 'n WebPage \<Rightarrow> 'n WebPage" where
  "screenEvent P s a an pg = rerender (screenAct P s a an pg)"

definition pageView :: "('n, 'z) webplatform_scheme \<Rightarrow> (shown \<Rightarrow> jsstring) \<Rightarrow> Session \<Rightarrow> 'n WebPage \<Rightarrow> ScreenAct dom option" where
  "pageView P msg s pg =
     (if pg_locked pg \<or> \<not> renders P (pg_vault pg) then None
      else Some (vaultView P msg s (pg_recovery pg) (pg_pane pg) (pg_vault pg)))"

text \<open>A click on something that is rendered runs its handlers from the element outwards; React renders after the last.\<close>

definition clickOn :: "('n, 'z) webplatform_scheme \<Rightarrow> Session \<Rightarrow> ScreenAct list \<Rightarrow> Answer \<Rightarrow> 'n WebPage \<Rightarrow> 'n WebPage" where
  "clickOn P s as an pg = rerender (fold (\<lambda>a. screenAct P s a an) as pg)"

section \<open>Every item that is loaded can be rendered\<close>

text \<open>Keys that are no array indices occur once.\<close>

definition named_once :: "props \<Rightarrow> bool" where
  "named_once kvs \<longleftrightarrow> distinct (filter (\<lambda>k. \<not> index_key k) (map fst kvs))"

lemma named_once_put: "named_once kvs \<Longrightarrow> named_once (obj_put k v kvs)"
proof (induction k v kvs rule: obj_put.induct)
  case (2 k v k' v' kvs)
  have "set (map fst (obj_put k v kvs)) = insert k (set (map fst kvs))"
    using keys_obj_put [of k v kvs] by simp
  with 2 show ?case
    by (auto simp: named_once_def key_before_def simp del: set_map)
qed (simp add: named_once_def)

lemma named_once_assign: "named_once o1 \<Longrightarrow> named_once (obj_assign o1 kvs)"
  by (induction o1 kvs rule: obj_assign.induct) (simp_all add: named_once_put)

lemma named_once_rev: "named_once kvs \<Longrightarrow> \<not> index_key k \<Longrightarrow> map_of (rev kvs) k = obj_get kvs k"
proof (induction kvs)
  case (Cons kv kvs)
  have "map_of kvs (fst kv) = None" if "fst kv = k"
    using that Cons.prems by (auto simp: named_once_def map_of_eq_None_iff)
  moreover have "named_once kvs"
    using Cons.prems(1) by (simp add: named_once_def split: if_splits)
  ultimately show ?case
    using Cons by (auto simp: obj_get_def map_add_def split: option.split)
qed (simp add: obj_get_def)

lemma putTexts_other:
  "putTexts J raw ks out = Inr out' \<Longrightarrow> named_once out \<Longrightarrow>
   named_once out' \<and> (\<forall>k. k \<notin> js ` set ks \<longrightarrow> obj_get out' k = obj_get out k)"
proof (induction J raw ks out rule: putTexts.induct)
  case (2 J raw k ks out)
  then obtain t where "putTexts J raw ks (obj_put (js k) (JStr t) out) = Inr out'"
    by auto
  from "2.IH" [OF this] "2.prems"(2) show ?case
    by (auto simp: obj_get_put named_once_put)
qed simp

lemma normalized_type:
  assumes "normalizeItemFields J raw = Inr v"
  shows "\<exists>kvs ty. v = JObj kvs \<and> named_once kvs \<and> ty \<in> set ITEM_TYPES \<and> obj_get kvs (js ''type'') = Some (JStr ty)"
proof -
  let ?get = "obj_get (own_props raw)"
  let ?out3 = "obj_put (js ''identity'') (complete blankIdentity (?get (js ''identity'')))
      (obj_put (js ''card'') (complete blankCard (?get (js ''card'')))
      (obj_put (js ''type'') (JStr (coerceType (?get (js ''type'')))) (obj_assign (blankFields (js ''login'')) (own_props raw))))"
  obtain fields out4 fav where t: "putTexts J ?get TEXT_KEYS (obj_put (js ''fields'') fields ?out3) = Inr out4"
      and v: "v = JObj (obj_put (js ''favorite'') (JBool fav) out4)"
    using assms by (auto simp: normalizeItemFields_def Let_def split: if_splits)
  have "named_once (obj_assign (blankFields (js ''login'')) (own_props raw))"
    by (rule named_once_assign) (simp add: named_once_def blankFields_def)
  then have o: "named_once out4" "obj_get out4 (js ''type'') = Some (JStr (coerceType (?get (js ''type''))))"
    using putTexts_other [OF t] by (simp_all add: named_once_put obj_get_put TEXT_KEYS_def)
  show ?thesis
    unfolding v by (intro exI conjI, rule refl) (simp_all add: o named_once_put obj_get_put coerceType_def ITEM_TYPES_def)
qed

lemma cipherItem_type:
  assumes "cipherItem P uk c = Inr i"
  shows "typeMeta (textField ''type'' i) \<noteq> None"
proof -
  obtain raw n cid where n: "normalizeItemFields P raw = Inr n" and i: "i = withId (opt_member ''id'' cid) n"
    using assms by (auto simp: cipherItem_def)
  obtain kvs ty where v: "n = JObj kvs" "named_once kvs" "ty \<in> set ITEM_TYPES" "obj_get kvs (js ''type'') = Some (JStr ty)"
    using normalized_type [OF n] by blast
  then have "textField ''type'' i = ty"
    by (simp add: i withId_def own_props_def obj_get_assign named_once_rev)
  then show ?thesis
    using v(3) by (auto simp: ITEM_TYPES_def typeMeta_def TYPE_META_def)
qed

lemma keepOk_set: "x \<in> set (keepOk f xs) \<Longrightarrow> \<exists>y. f y = Inr x"
  by (force simp: keepOk_def List.map_filter_def split: sum.splits)

lemma sortBy_set [simp]: "set (sortBy cmp xs) = set xs"
  using sortBy_mset [of cmp xs] by (metis set_mset_mset)

lemma renders_typed:
  assumes "\<forall>i \<in> set (wv_items v). typeMeta (textField ''type'' i) \<noteq> None"
  shows "renders J v"
  using assms by (auto simp: renders_def filteredVault_def list_all_iff selectedItem_def find_Some_iff split: option.split)

lemma reloadVault_typed:
  assumes "reloadVault P s v w = ((), v', w')" "\<forall>i \<in> set (wv_items v). typeMeta (textField ''type'' i) \<noteq> None"
  shows "\<forall>i \<in> set (wv_items v'). typeMeta (textField ''type'' i) \<noteq> None"
proof -
  consider items where "wv_items v' = items" "loadVault P s w = (Inr items, w')" | "wv_items v' = wv_items v"
    using assms(1) unfolding reloadVault_def Let_def failed_def by (auto split: prod.splits sum.splits)
  then show ?thesis
  proof cases
    case 1
    then obtain cs where "items = keepOk (cipherItem P (s_userKey s)) cs"
      by (auto simp: loadVault_def bindA_eq_Inr returnA_def intro: that sym)
    then show ?thesis
      using 1(1) by (auto dest!: keepOk_set dest: cipherItem_type)
  qed (simp add: assms(2))
qed
section \<open>Finding an item\<close>

lemma firsts_set [simp]: "set (firsts xs) = set xs"
  by (induction xs) auto

lemma folders_set: "set (folders P items) = {f. f \<noteq> [] \<and> (\<exists>i \<in> set items. textField ''folder'' i = f)}"
  by (auto simp: folders_def)

lemma sidebar_buttons:
  "clicks (navButton cur w ic l) = [([SetFilter (js w)], False)]"
  "clicks (folderButton cur f) = [([SetFilter (js ''folder:'' @ f)], False)]"
  "clicks (toolButton p i l) = [([OpenPanel p], False)]"
  by (simp_all add: navButton_def folderButton_def toolButton_def)

lemma row_clicks: "clicks (itemRow v i) = [([SelectRow i], False)]"
  by (simp add: itemRow_def)

lemma sidebar_filters:
  "[SetFilter f, CloseMenu] \<in> click_actions [sidebar P s v]
     \<longleftrightarrow> f = js ''all'' \<or> f = js ''favorites'' \<or> (\<exists>g \<in> set (folders P (wv_items v)). f = js ''folder:'' @ g)"
  by (auto simp: click_actions_def sidebar_def sidebar_buttons image_iff)

lemma rows_clicked:
  assumes "\<not> wv_loading v" "i \<in> set (filteredVault J v)"
  shows "[SelectRow i] \<in> click_actions [listColumn J msg v]"
  unfolding click_actions_def
  by (rule image_eqI [where x = "([SelectRow i], False)"]) (use assms in \<open>auto simp: listColumn_def row_clicks\<close>)

definition unique_id :: "jsval \<Rightarrow> jsval list \<Rightarrow> bool" where
  "unique_id i items \<longleftrightarrow> i \<in> set items \<and> (\<forall>j \<in> set items. get_prop_opt j (js ''id'') = get_prop_opt i (js ''id'') \<longrightarrow> j = i)"

lemma select_shows:
  assumes "unique_id i (wv_items v)"
  shows "selectedItem (selectItem i v) = Some i"
proof -
  have "find (\<lambda>j. get_prop_opt j (js ''id'') = get_prop_opt i (js ''id'')) (wv_items v) \<noteq> None"
    using assms by (auto simp: unique_id_def find_None_iff)
  then obtain j where j: "find (\<lambda>j. get_prop_opt j (js ''id'') = get_prop_opt i (js ''id'')) (wv_items v) = Some j"
    by auto
  then have "j \<in> set (wv_items v)" "get_prop_opt j (js ''id'') = get_prop_opt i (js ''id'')"
    by (auto simp: find_Some_iff)
  then have "j = i"
    using assms by (simp add: unique_id_def)
  with j show ?thesis
    by (simp add: selectedItem_def selectItem_def)
qed

text \<open>Nothing of the item is revealed in the pane.\<close>

definition unrevealed :: "jsval \<Rightarrow> DetailPane option \<Rightarrow> bool" where
  "unrevealed i prev \<longleftrightarrow> (\<forall>q. prev = Some q \<longrightarrow> dp_key q = get_prop_opt i (js ''id'') \<longrightarrow> dp_revealed q = {})"

lemma nextPane_unrevealed: "unrevealed i prev \<Longrightarrow> unrevealed i (nextPane v prev)"
  by (auto simp: unrevealed_def nextPane_def updatePane_def mountPane_def split: option.split)

lemma nextPane_open:
  assumes "selectedItem v = Some i" "\<not> wv_accountOpen v"
  shows "\<exists>p. nextPane v prev = Some p \<and> (unrevealed i prev \<longrightarrow> dp_revealed p = {})"
  using assms by (cases prev) (auto simp: unrevealed_def nextPane_def updatePane_def mountPane_def)

lemma parts_map_dom: "set (parts (map_dom f x)) = map_dom f ` set (parts x)"
  by (induction x) auto

lemma detail_shown:
  assumes "selectedItem v = Some i" "\<not> wv_accountOpen v"
  shows "map_dom InPane (itemDetail p i) \<in> set (parts (vaultView P msg s recovery (Some p) v))"
proof -
  have "x \<in> set (parts x)" for x :: "ScreenAct dom"
    by (cases x) simp_all
  then show ?thesis
    using assms by (auto simp: vaultView_def detailColumn_def Let_def)
qed

lemma detail_has:
  assumes "selectedItem v = Some i" "\<not> wv_accountOpen v" "Txt t \<in> set (parts (itemDetail p i))"
  shows "Txt t \<in> set (parts (vaultView P msg s r (Some p) v))"
proof -
  have "Txt t \<in> set (parts (map_dom InPane (itemDetail p i)))"
    using assms(3) by (force simp: parts_map_dom)
  then show ?thesis
    using assms(1,2) by (simp add: vaultView_def detailColumn_def Let_def)
qed

lemma filtered_all:
  "mset (filteredVault J (v\<lparr>wv_filter := f, wv_query := []\<rparr>)) = filter_mset (inFilter f) (mset (wv_items v))"
  by (simp add: filteredVault_def sortBy_mset mset_filter)

text \<open>C39: every item can be found. The sidebar has a button for every folder that is in use, and no other; with nothing typed in the
  search field, clicking it lists the items of that folder and no others, and closes the menu; clicking All items lists every
  item; and clicking the row of an item shows the detail pane of that very item, with nothing revealed if it was
  not open before.\<close>

theorem every_item_found:
  fixes pg :: "'n WebPage"
  assumes pg: "pg_vault pg = v" "wv_query v = []" "\<not> wv_loading v" and i: "unique_id i (wv_items v)"
  shows "([SetFilter (js ''folder:'' @ f), CloseMenu] \<in> click_actions [sidebar P s v]
      \<longleftrightarrow> f \<noteq> [] \<and> (\<exists>j \<in> set (wv_items v). textField ''folder'' j = f))
    \<and> (let v1 = pg_vault (clickOn P s [SetFilter (js ''folder:'' @ f), CloseMenu] an pg)
       in mset (filteredVault P v1) = filter_mset (\<lambda>j. textField ''folder'' j = f) (mset (wv_items v)) \<and> \<not> wv_menuOpen v1)
    \<and> [SetFilter (js ''all''), CloseMenu] \<in> click_actions [sidebar P s v]
    \<and> (let pg1 = clickOn P s [SetFilter (js ''all''), CloseMenu] an pg; pg2 = clickOn P s [SelectRow i] an pg1
       in [SelectRow i] \<in> click_actions [listColumn P msg (pg_vault pg1)]
        \<and> (\<exists>p. map_dom InPane (itemDetail p i) \<in> set (parts (vaultView P msg s (pg_recovery pg2) (pg_pane pg2) (pg_vault pg2)))
            \<and> (\<forall>q. pg_pane pg = Some q \<and> dp_key q \<noteq> get_prop_opt i (js ''id'') \<longrightarrow> dp_revealed p = {})))"
proof (intro conjI)
  have folder: "js ''folder:'' @ f \<noteq> js ''all''" "js ''folder:'' @ f \<noteq> js ''favorites''"
    by (simp_all add: jsc)
  then show "[SetFilter (js ''folder:'' @ f), CloseMenu] \<in> click_actions [sidebar P s v]
      \<longleftrightarrow> f \<noteq> [] \<and> (\<exists>j \<in> set (wv_items v). textField ''folder'' j = f)"
    by (auto simp: sidebar_filters folders_set)
  show "[SetFilter (js ''all''), CloseMenu] \<in> click_actions [sidebar P s v]"
    by (simp add: sidebar_filters)
  have v: "v = v\<lparr>wv_query := []\<rparr>"
    using pg(2) by simp
  have inf: "inFilter (js ''folder:'' @ f) = (\<lambda>j. textField ''folder'' j = f)"
    using folder by (auto simp: inFilter_def fun_eq_iff)
  show "let v1 = pg_vault (clickOn P s [SetFilter (js ''folder:'' @ f), CloseMenu] an pg)
       in mset (filteredVault P v1) = filter_mset (\<lambda>j. textField ''folder'' j = f) (mset (wv_items v)) \<and> \<not> wv_menuOpen v1"
    using pg inf by (simp add: clickOn_def rerender_def onVault_def filteredVault_def sortBy_mset mset_filter)
  show "let pg1 = clickOn P s [SetFilter (js ''all''), CloseMenu] an pg; pg2 = clickOn P s [SelectRow i] an pg1
       in [SelectRow i] \<in> click_actions [listColumn P msg (pg_vault pg1)]
        \<and> (\<exists>p. map_dom InPane (itemDetail p i) \<in> set (parts (vaultView P msg s (pg_recovery pg2) (pg_pane pg2) (pg_vault pg2)))
            \<and> (\<forall>q. pg_pane pg = Some q \<and> dp_key q \<noteq> get_prop_opt i (js ''id'') \<longrightarrow> dp_revealed p = {}))"
  proof -
    let ?v1 = "v\<lparr>wv_filter := js ''all'', wv_menuOpen := False\<rparr>"
    let ?pg1 = "clickOn P s [SetFilter (js ''all''), CloseMenu] an pg"
    let ?pg2 = "clickOn P s [SelectRow i] an ?pg1"
    have vs: "pg_vault ?pg1 = ?v1" "pg_vault ?pg2 = selectItem i ?v1"
      and ps: "pg_pane ?pg1 = nextPane ?v1 (pg_pane pg)" "pg_pane ?pg2 = nextPane (selectItem i ?v1) (nextPane ?v1 (pg_pane pg))"
      using pg(1) by (simp_all add: clickOn_def rerender_def onVault_def)
    have "i \<in> set (filteredVault P ?v1)"
      using i pg(2) by (simp add: filteredVault_def inFilter_def unique_id_def)
    have sel: "selectedItem (selectItem i ?v1) = Some i" "\<not> wv_accountOpen (selectItem i ?v1)"
      using select_shows [of i ?v1] i by (simp, simp add: selectItem_def)
    obtain p where p: "pg_pane ?pg2 = Some p" "unrevealed i (nextPane ?v1 (pg_pane pg)) \<longrightarrow> dp_revealed p = {}"
      unfolding ps(2) using nextPane_open [OF sel] by blast
    have "dp_revealed p = {}" if "pg_pane pg = Some q" "dp_key q \<noteq> get_prop_opt i (js ''id'')" for q
      using p(2) nextPane_unrevealed [of i "pg_pane pg" ?v1] that by (simp add: unrevealed_def)
    moreover have "[SelectRow i] \<in> click_actions [listColumn P msg (pg_vault ?pg1)]"
      using \<open>i \<in> set (filteredVault P ?v1)\<close> pg(3) unfolding vs by (intro rows_clicked) simp_all
    moreover note detail_shown [OF sel, of p P msg s "pg_recovery ?pg2"]
    ultimately show ?thesis
      unfolding Let_def vs(2) p(1) by blast
  qed
qed

abbreviation sample_listing :: "int WebPage" where
  "sample_listing \<equiv> \<lparr>pg_vault = initialVault\<lparr>wv_items := [secret_item ''hunter2''], wv_loading := False\<rparr>, pg_pane = None,
     pg_recovery = None, pg_locked = False, pg_clip = None,
     pg_world = \<lparr>entropy = \<lambda>_. 0, drawn = 0, net = 0, baseUrl = [], localStorage = Map.empty\<rparr>\<rparr>"

theorem every_item_found_witness:
  "\<forall>P msg s an. let v = initialVault\<lparr>wv_items := [secret_item ''hunter2''], wv_loading := False\<rparr>;
       pg2 = clickOn P s [SelectRow (secret_item ''hunter2'')] an (clickOn P s [SetFilter (js ''all''), CloseMenu] an sample_listing)
     in [SetFilter (js ''all''), CloseMenu] \<in> click_actions [sidebar P s v]
       \<and> (\<exists>p. map_dom InPane (itemDetail p (secret_item ''hunter2''))
           \<in> set (parts (vaultView P msg s (pg_recovery pg2) (pg_pane pg2) (pg_vault pg2))))"
proof (intro allI)
  fix P :: "(int, 'z) webplatform_scheme" and msg s an
  let ?v = "initialVault\<lparr>wv_items := [secret_item ''hunter2''], wv_loading := False\<rparr>"
  have "pg_vault sample_listing = ?v" "wv_query ?v = []" "\<not> wv_loading ?v" "unique_id (secret_item ''hunter2'') (wv_items ?v)"
    by (simp_all add: initialVault_def unique_id_def)
  note f = every_item_found [OF this, of "js ''work''" P s an msg]
  show "let v = ?v;
       pg2 = clickOn P s [SelectRow (secret_item ''hunter2'')] an (clickOn P s [SetFilter (js ''all''), CloseMenu] an sample_listing)
     in [SetFilter (js ''all''), CloseMenu] \<in> click_actions [sidebar P s v]
       \<and> (\<exists>p. map_dom InPane (itemDetail p (secret_item ''hunter2''))
           \<in> set (parts (vaultView P msg s (pg_recovery pg2) (pg_pane pg2) (pg_vault pg2))))"
    using f unfolding Let_def by blast
qed

section \<open>The notes of the detail pane\<close>

text \<open>The pane of an item that stays selected keeps its text of the notes, whatever the item's notes have become.\<close>

lemma pane_keeps_notes:
  assumes "selectedItem v = Some i" "\<not> wv_accountOpen v" "dp_key p = get_prop_opt i (js ''id'')"
  shows "nextPane v (Some p) = Some (updatePane i p) \<and> dp_notes (updatePane i p) = dp_notes p"
  using assms by (simp add: nextPane_def updatePane_def)

text \<open>So the notes typed in the editor are written over by the ones before, as soon as the text area of the pane is left: the
  vault has come back with the new notes, the pane was opened on the old ones.\<close>

lemma stale_notes_written_back:
  fixes pg :: "'n WebPage"
  assumes P: "aes_ok P" "32 \<le> length (s_userKey s)" "token_text P (s_accessToken s) t"
    and i: "item_fields_ok i" "it_notes i \<noteq> it_notes old" and c: "c \<noteq> []"
    and v: "selectedItem (pg_vault pg) = Some (vaultVal c i)" "\<not> wv_accountOpen (pg_vault pg)"
    and p: "pg_pane pg = Some (mountPane (vaultVal c old))"
  shows "\<exists>d. \<forall>cid n2. server_takes P t (pg_world pg) c d cid n2 \<longrightarrow>
    vaultVal c (i\<lparr>it_notes := it_notes old\<rparr>) \<in> set (wv_items (pg_vault (screenEvent P s (InPane LeaveNotes) an (rerender pg))))"
proof -
  have m: "dp_key (mountPane (vaultVal c old)) = get_prop_opt (vaultVal c i) (js ''id'')"
      "dp_notes (mountPane (vaultVal c old)) = it_notes old"
    by (simp_all add: mountPane_def vaultVal_props itemVal_def own_props_def textField_def quick_values get_prop_opt_def)
  note k = pane_keeps_notes [OF v m(1)]
  obtain d where d: "\<forall>cid n2. server_takes P t (pg_world pg) c d cid n2 \<longrightarrow>
      (\<exists>items w'. saveNotes P s (vaultVal c i) (it_notes old) (pg_vault pg) (pg_world pg)
          = ((), (listed items (pg_vault pg))\<lparr>wv_toast := Some (js ''Notes saved'')\<rparr>, w')
        \<and> vaultVal c (i\<lparr>it_notes := it_notes old\<rparr>) \<in> set items)"
    using notes_load [OF P i(1) i(2) [symmetric] c, of "pg_world pg" "pg_vault pg"] by blast
  show ?thesis
  proof (intro exI allI impI)
    fix cid n2
    assume "server_takes P t (pg_world pg) c d cid n2"
    then show "vaultVal c (i\<lparr>it_notes := it_notes old\<rparr>)
        \<in> set (wv_items (pg_vault (screenEvent P s (InPane LeaveNotes) an (rerender pg))))"
      using d k m(2) v p by (fastforce simp: screenEvent_def rerender_def running_def)
  qed
qed

text \<open>What is revealed is remembered by the position of a field: when the revealed field is removed, the next one is shown in its place.\<close>

abbreviation hidden_field :: "string \<Rightarrow> jsval" where
  "hidden_field t \<equiv> JObj [(js ''label'', JStr []), (js ''value'', JStr (js t)), (js ''hidden'', JBool True)]"

lemma reveal_moves:
  "let two = JObj [(js ''id'', JStr (js ''c1'')), (js ''type'', JStr (js ''note'')), (js ''fields'', JArr [hidden_field ''one'', hidden_field ''two''])];
       one = JObj [(js ''id'', JStr (js ''c1'')), (js ''type'', JStr (js ''note'')), (js ''fields'', JArr [hidden_field ''two''])];
       v = initialVault\<lparr>wv_items := [two], wv_selected := Some (JStr (js ''c1''))\<rparr>
     in edit (RemoveField 0) two = one
      \<and> map_option dp_revealed (nextPane (v\<lparr>wv_items := [one]\<rparr>) (map_option (toggleReveal (FieldSlot 0)) (nextPane v None)))
          = Some {FieldSlot 0}
      \<and> Txt (js ''two'') \<in> set (parts (itemDetail ((mountPane one)\<lparr>dp_revealed := {FieldSlot 0}\<rparr>) one))"
  by (simp add: initialVault_def nextPane_def mountPane_def updatePane_def toggleReveal_def hiddenSlots_def selectedItem_def
      removeField_def spread_def fieldsOf_def get_prop_opt_def own_props_def itemDetail_def customField_def detailField_def
      secretValue_def maskedValue_def key_before_def truthy_opt_def)

section \<open>What never happens to the screen\<close>

text \<open>The screen from the moment it opens: clicks and typing, and what ends later (the editor's save, an import, the
  check of the activity, a message that goes, a tick of the code). A step is labelled with the handlers of the user's event.\<close>

inductive page_step :: "('n, 'z) webplatform_scheme \<Rightarrow> Session \<Rightarrow> 'n WebPage \<Rightarrow> ScreenAct list \<Rightarrow> 'n WebPage \<Rightarrow> bool" for P s where
  event: "page_step P s pg as (clickOn P s as an pg)"
| saved: "handleSave P s item (pg_vault pg) (pg_world pg) = (ok, v, w) \<Longrightarrow>
    page_step P s pg [] (rerender (pg\<lparr>pg_vault := v, pg_world := w\<rparr>))"
| imported: "reloadVault P s (pg_vault pg) (pg_world pg) = ((), v, w) \<Longrightarrow>
    page_step P s pg [] (rerender (pg\<lparr>pg_vault := flashed (js ''Imported'') v, pg_world := w\<rparr>))"
| checked: "checkActivity P s gone goneLater (pg_vault pg) (pg_world pg) = (v, w) \<Longrightarrow>
    page_step P s pg [] (rerender (pg\<lparr>pg_vault := v, pg_world := w\<rparr>))"
| toast: "page_step P s pg [] (rerender (onVault (\<lambda>v. v\<lparr>wv_toast := None\<rparr>) pg))"
| tick: "page_step P s pg [] (rerender (onPane (\<lambda>p. p\<lparr>dp_code := totpTick P secret now True (dp_code p)\<rparr>) pg))"

inductive page_run :: "('n, 'z) webplatform_scheme \<Rightarrow> Session \<Rightarrow> 'n WebPage \<Rightarrow> bool" for P s where
  opened: "reloadVault P s initialVault w = ((), v, w') \<Longrightarrow>
    page_run P s (rerender \<lparr>pg_vault = v, pg_pane = None, pg_recovery = r, pg_locked = False, pg_clip = cb, pg_world = w'\<rparr>)"
| step: "page_run P s pg \<Longrightarrow> page_step P s pg as pg' \<Longrightarrow> page_run P s pg'"

definition typed :: "WebVault \<Rightarrow> bool" where
  "typed v \<longleftrightarrow> (\<forall>i \<in> set (wv_items v). typeMeta (textField ''type'' i) \<noteq> None)"

lemma typed_items: "wv_items v' = wv_items v \<Longrightarrow> typed v \<Longrightarrow> typed v'"
  by (simp add: typed_def)

lemma reload_typed: "reloadVault P s v w = (u, v', w') \<Longrightarrow> typed v \<Longrightarrow> typed v'"
  using reloadVault_typed [of P s v w v' w'] by (simp add: typed_def)

lemma changing_typed:
  assumes "changing P s m before after v w = (ok, v', w')" "typed v"
    and "\<And>v. wv_items (before v) = wv_items v" "\<And>v. wv_items (after v) = wv_items v"
  shows "typed v'"
proof (cases "m w")
  case (Pair r w1)
  obtain u v1 w2 where rl: "reloadVault P s (before v) w1 = (u, v1, w2)"
    using prod_cases3 by blast
  have "typed v1"
    by (rule reload_typed [OF rl]) (rule typed_items [OF assms(3) assms(2)])
  then show ?thesis
    using assms(1,2,4) Pair rl by (cases r) (auto simp: changing_def failed_def intro: typed_items)
qed

lemma handler_typed:
  "handleSave P s item v w = (ok, v', w') \<Longrightarrow> typed v \<Longrightarrow> typed v'"
  "saveNotes P s item n v w = (u, v', w') \<Longrightarrow> typed v \<Longrightarrow> typed v'"
  "toggleFavorite P s item v w = (u, v', w') \<Longrightarrow> typed v \<Longrightarrow> typed v'"
  "handleDelete P s cf item v w = (u, v', w') \<Longrightarrow> typed v \<Longrightarrow> typed v'"
  by (auto simp: handleSave_def saveNotes_def toggleFavorite_def handleDelete_def flashed_def split: prod.splits if_splits
      elim!: changing_typed)

lemma running_typed:
  "(\<And>u v' w'. h (pg_vault pg) (pg_world pg) = (u, v', w') \<Longrightarrow> typed v') \<Longrightarrow> typed (pg_vault (running h pg))"
  by (auto simp: running_def split: prod.split)

lemma onVault_typed:
  "wv_items (f (pg_vault pg)) = wv_items (pg_vault pg) \<Longrightarrow> typed (pg_vault pg) \<Longrightarrow> typed (pg_vault (onVault f pg))"
  by (simp add: onVault_def typed_def)

lemma copy_typed: "typed (pg_vault pg) \<Longrightarrow> typed (pg_vault (copyValue ok l t pg))"
  by (auto simp: copyValue_def onVault_def flashed_def typed_def)

lemma paneAct_typed:
  assumes "typed (pg_vault pg)"
  shows "typed (pg_vault (paneAct P s a an item pg))"
  using assms
  by (cases a) (auto intro!: running_typed onVault_typed copy_typed dest: handler_typed simp: onPane_def split: option.split)

lemma screenAct_typed:
  assumes "typed (pg_vault pg)"
  shows "typed (pg_vault (screenAct P s a an pg))"
  using assms
  by (cases a) (auto intro!: onVault_typed copy_typed paneAct_typed
      simp: openAccount_def reviewAlert_def dismissAlert_def selectItem_def closeDetail_def split: option.split)

lemma checkActivity_items: "checkActivity P s g gl v w = (v', w') \<Longrightarrow> wv_items v' = wv_items v"
  by (auto simp: checkActivity_def Let_def split: prod.splits sum.splits if_splits)

lemma rerender_vault [simp]: "pg_vault (rerender pg) = pg_vault pg"
  by (simp add: rerender_def)

lemma fold_typed: "typed (pg_vault pg) \<Longrightarrow> typed (pg_vault (fold (\<lambda>a. screenAct P s a an) as pg))"
  by (induction as arbitrary: pg) (simp_all add: screenAct_typed)

lemma page_step_typed: "page_step P s pg as pg' \<Longrightarrow> typed (pg_vault pg) \<Longrightarrow> typed (pg_vault pg')"
proof (induction rule: page_step.induct)
  case (imported pg v w)
  then have "typed v"
    by (blast intro: reload_typed)
  then show ?case
    by (simp add: flashed_def typed_def)
qed (auto simp: clickOn_def fold_typed onPane_def intro: handler_typed onVault_typed dest: checkActivity_items typed_items)

lemma page_run_typed: "page_run P s pg \<Longrightarrow> typed (pg_vault pg)"
proof (induction rule: page_run.induct)
  case (opened w v w' r cb)
  have "typed initialVault"
    by (simp add: typed_def initialVault_def)
  with opened show ?case
    by (auto dest: reload_typed)
qed (rule page_step_typed)

definition pane_of :: "DetailPane option \<Rightarrow> WebVault \<Rightarrow> bool" where
  "pane_of pane v \<longleftrightarrow>
     (case pane of
        None \<Rightarrow> wv_accountOpen v \<or> selectedItem v = None
      | Some p \<Rightarrow> \<not> wv_accountOpen v \<and> (\<exists>i. selectedItem v = Some i \<and> dp_key p = get_prop_opt i (js ''id'')
          \<and> dp_revealed p \<subseteq> hiddenSlots i))"

lemma nextPane_of: "pane_of (nextPane v prev) v"
  by (auto simp: pane_of_def nextPane_def updatePane_def mountPane_def split: option.split)

subsection \<open>What is revealed\<close>

text \<open>A place of the second pane is open only if the first is of the same item and has it open too, or its eye is among the
  things clicked.\<close>

definition opens_only :: "ScreenAct list \<Rightarrow> DetailPane option \<Rightarrow> DetailPane option \<Rightarrow> bool" where
  "opens_only as prev pane \<longleftrightarrow> (\<forall>q. pane = Some q \<longrightarrow> (\<forall>slot \<in> dp_revealed q.
     \<exists>p. prev = Some p \<and> dp_key p = dp_key q \<and> (slot \<in> dp_revealed p \<or> InPane (Reveal slot) \<in> set as)))"

text \<open>The handlers leave the pane as it is, but for the places whose eyes are clicked.\<close>

definition same_pane :: "ScreenAct list \<Rightarrow> DetailPane option \<Rightarrow> DetailPane option \<Rightarrow> bool" where
  "same_pane as = rel_option (\<lambda>p q. dp_key p = dp_key q \<and> dp_revealed q \<subseteq> dp_revealed p \<union> {slot. InPane (Reveal slot) \<in> set as})"

lemma same_pane_refl [simp]: "same_pane as p p"
  by (cases p) (simp_all add: same_pane_def)

lemma same_pane_trans: "same_pane as p q \<Longrightarrow> same_pane bs q r \<Longrightarrow> same_pane (as @ bs) p r"
  by (cases p; cases q; cases r) (auto simp: same_pane_def)

lemma nextPane_opens: "same_pane as p q \<Longrightarrow> opens_only as p (nextPane v q)"
  by (cases p; cases q) (auto simp: same_pane_def opens_only_def nextPane_def updatePane_def mountPane_def split: option.splits if_splits)

lemma untouched_pane:
  "pg_pane (running h pg) = pg_pane pg" "pg_pane (onVault f pg) = pg_pane pg" "pg_pane (copyValue ok l t pg) = pg_pane pg"
  by (simp_all add: running_def onVault_def copyValue_def split: prod.split)

lemma onPane_same:
  "same_pane [InPane (Reveal slot)] (pg_pane pg) (pg_pane (onPane (toggleReveal slot) pg))"
  "same_pane as (pg_pane pg) (pg_pane (onPane (\<lambda>p. p\<lparr>dp_notes := n\<rparr>) pg))"
  "same_pane as (pg_pane pg) (pg_pane (onPane (\<lambda>p. p\<lparr>dp_code := c p\<rparr>) pg))"
  by (cases "pg_pane pg"; auto simp: same_pane_def onPane_def toggleReveal_def)+

lemma screenAct_same: "same_pane [a] (pg_pane pg) (pg_pane (screenAct P s a an pg))"
proof (cases a)
  case (InPane b)
  then show ?thesis
    by (cases b) (auto simp: untouched_pane onPane_same split: option.split)
qed (auto simp: untouched_pane split: option.split)

lemma fold_same: "same_pane as (pg_pane pg) (pg_pane (fold (\<lambda>a. screenAct P s a an) as pg))"
proof (induction as arbitrary: pg)
  case (Cons a as)
  show ?case
    using same_pane_trans [OF screenAct_same Cons.IH, of a pg P s an] by simp
qed simp

lemma rerender_opens: "same_pane as p (pg_pane pg) \<Longrightarrow> opens_only as p (pg_pane (rerender pg))"
  by (simp add: rerender_def nextPane_opens)

lemma page_step_opens:
  assumes "page_step P s pg as pg'"
  shows "opens_only as (pg_pane pg) (pg_pane pg')"
proof -
  have other: "opens_only bs (pg_pane pg) (pg_pane (rerender pg1))" if "pg_pane pg1 = pg_pane pg" for bs pg1
    using that by (intro rerender_opens) simp
  show ?thesis
    using assms
  proof cases
    case (event an)
    then show ?thesis
      unfolding clickOn_def by (simp only: rerender_opens fold_same)
  next
    case (tick secret now)
    then show ?thesis
      by (simp only: rerender_opens onPane_same(3))
  qed (simp_all add: other untouched_pane)
qed

lemma page_step_pane: "page_step P s pg as pg' \<Longrightarrow> pane_of (pg_pane pg') (pg_vault pg')"
  by (induction rule: page_step.induct) (simp_all add: clickOn_def rerender_def nextPane_of onVault_def onPane_def)

lemma page_run_pane: "page_run P s pg \<Longrightarrow> pane_of (pg_pane pg) (pg_vault pg)"
  by (induction rule: page_run.induct) (simp_all add: rerender_def nextPane_of page_step_pane)

text \<open>The value at a place that hides one, and the values of an item that are in clear.\<close>

fun slotValue :: "jsval \<Rightarrow> Slot \<Rightarrow> jsstring" where
  "slotValue i PasswordSlot = textField ''password'' i"
| "slotValue i NumberSlot = subField ''card'' ''number'' i"
| "slotValue i CvvSlot = subField ''card'' ''cvv'' i"
| "slotValue i (FieldSlot n) = textField ''value'' (fieldsOf i ! n)"

definition shownValues :: "'n WebPage \<Rightarrow> jsstring set" where
  "shownValues pg = (case (selectedItem (pg_vault pg), pg_pane pg) of
     (Some i, Some p) \<Rightarrow> slotValue i ` dp_revealed p | _ \<Rightarrow> {})"

text \<open>The pane has the value of each of its places, in clear exactly when it is revealed.\<close>

lemma secret_part: "Txt (maskedValue r v) \<in> set (concat (map parts (secretValue r a v)))"
  by (simp add: secretValue_def)

lemma detailField_part: "x \<in> set (concat (map parts kids)) \<Longrightarrow> x \<in> set (parts (detailField l a ext kids))"
  by (auto simp: detailField_def)

lemma slot_shown:
  assumes "slot \<in> hiddenSlots i"
  shows "Txt (maskedValue (slot \<in> dp_revealed p) (slotValue i slot)) \<in> set (parts (itemDetail p i))"
proof -
  let ?x = "Txt (maskedValue (slot \<in> dp_revealed p) (slotValue i slot))"
  have h: "?x \<in> set (concat (map parts (hiddenField p slot l c (slotValue i slot))))" if "slotValue i slot \<noteq> []" for l c
    using that detailField_part [OF secret_part] by (simp add: hiddenField_def)
  consider "slot = PasswordSlot" "textField ''type'' i = js ''login''" "textField ''password'' i \<noteq> []"
    | "slot = NumberSlot" "textField ''type'' i = js ''card''" "subField ''card'' ''number'' i \<noteq> []"
    | "slot = CvvSlot" "textField ''type'' i = js ''card''" "subField ''card'' ''cvv'' i \<noteq> []"
    | n f where "slot = FieldSlot n" "(n, f) \<in> set (enumerate 0 (fieldsOf i))" "boolField ''hidden'' f"
    using assms by (auto simp: hiddenSlots_def Let_def split: if_splits)
  then show ?thesis
  proof cases
    case 1
    with h [of "''Password''" "''password''"] have "?x \<in> set (concat (map parts (loginFields p i)))"
      by (auto simp: loginFields_def)
    with 1 show ?thesis
      by (auto simp: itemDetail_def)
  next
    case 2
    with h [of "''Card number''" "''card number''"] have "?x \<in> set (concat (map parts (cardFields p i)))"
      by (auto simp: cardFields_def)
    with 2 show ?thesis
      by (auto simp: itemDetail_def)
  next
    case 3
    with h [of "''CVV''" "''CVV''"] have "?x \<in> set (concat (map parts (cardFields p i)))"
      by (auto simp: cardFields_def)
    with 3 show ?thesis
      by (auto simp: itemDetail_def)
  next
    case (4 n f)
    then have f: "fieldsOf i ! n = f"
      by (simp add: in_set_enumerate_eq)
    with 4 detailField_part [OF secret_part] have "?x \<in> set (parts (customField p n f))"
      by (simp add: customField_def)
    with 4(2) show ?thesis
      by (fastforce simp: itemDetail_def)
  qed
qed

text \<open>C8: the signed-in screen, whatever the server sends and whatever is clicked, typed, saved or imported. It renders without
  throwing, and its detail pane is that of the selected item and is there exactly when an item is selected and the account is not
  open; each place of the item that hides a value has that value in it, in clear or as dots. At every step of a run (not only a click), a place is open
  after the step only if the pane is still of the item with the same id and the place was open before, or its eye has been
  clicked; so as long as the item is the same, no value gets in clear but by its eye, and an item with
  another id has nothing open. (Places are positions: when the item itself is changed, what stands at an open position after
  that is in clear, \<open>reveal_moves\<close>.)\<close>

theorem screen_never_breaks:
  assumes "page_run P s pg" "page_step P s pg as pg'"
  shows "renders P (pg_vault pg') \<and> pane_of (pg_pane pg') (pg_vault pg')
    \<and> (\<forall>q i slot. pg_pane pg' = Some q \<and> selectedItem (pg_vault pg') = Some i \<and> slot \<in> hiddenSlots i \<longrightarrow>
        Txt (if slot \<in> dp_revealed q then slotValue i slot else replicate (min (length (slotValue i slot)) 16) 0x2022)
          \<in> set (parts (vaultView P msg s r (Some q) (pg_vault pg'))))
    \<and> (\<forall>q slot. pg_pane pg' = Some q \<and> slot \<in> dp_revealed q \<longrightarrow>
        (\<exists>p. pg_pane pg = Some p \<and> dp_key p = dp_key q \<and> (slot \<in> dp_revealed p \<or> InPane (Reveal slot) \<in> set as)))
    \<and> (\<forall>i. selectedItem (pg_vault pg) = Some i \<and> selectedItem (pg_vault pg') = Some i \<longrightarrow>
        shownValues pg' \<subseteq> shownValues pg \<union> {slotValue i slot | slot. InPane (Reveal slot) \<in> set as})"
proof (intro conjI)
  note o = page_step_opens [OF assms(2)] and pn = page_step_pane [OF assms(2)]
  have "typed (pg_vault pg')"
    using page_run_typed [OF assms(1)] page_step_typed [OF assms(2)] by blast
  then show "renders P (pg_vault pg')"
    by (intro renders_typed) (simp add: typed_def)
  show "pane_of (pg_pane pg') (pg_vault pg')"
    by (rule pn)
  show "\<forall>q slot. pg_pane pg' = Some q \<and> slot \<in> dp_revealed q \<longrightarrow>
        (\<exists>p. pg_pane pg = Some p \<and> dp_key p = dp_key q \<and> (slot \<in> dp_revealed p \<or> InPane (Reveal slot) \<in> set as))"
    using o by (auto simp: opens_only_def)
  show "\<forall>i. selectedItem (pg_vault pg) = Some i \<and> selectedItem (pg_vault pg') = Some i \<longrightarrow>
        shownValues pg' \<subseteq> shownValues pg \<union> {slotValue i slot | slot. InPane (Reveal slot) \<in> set as}"
    using o by (cases "pg_pane pg'") (fastforce simp: shownValues_def opens_only_def)+
  show "\<forall>q i slot. pg_pane pg' = Some q \<and> selectedItem (pg_vault pg') = Some i \<and> slot \<in> hiddenSlots i \<longrightarrow>
        Txt (if slot \<in> dp_revealed q then slotValue i slot else replicate (min (length (slotValue i slot)) 16) 0x2022)
          \<in> set (parts (vaultView P msg s r (Some q) (pg_vault pg')))"
  proof (intro allI impI, elim conjE)
    fix q i slot
    assume h: "pg_pane pg' = Some q" "selectedItem (pg_vault pg') = Some i" "slot \<in> hiddenSlots i"
    then have "\<not> wv_accountOpen (pg_vault pg')"
      using pn by (simp add: pane_of_def)
    then show "Txt (if slot \<in> dp_revealed q then slotValue i slot else replicate (min (length (slotValue i slot)) 16) 0x2022)
          \<in> set (parts (vaultView P msg s r (Some q) (pg_vault pg')))"
      using detail_has [OF h(2) _ slot_shown [OF h(3)], of q] unfolding maskedValue_def by blast
  qed
qed

theorem screen_never_breaks_witness:
  "\<forall>an. \<exists>pg pg'. page_run sample_store sample_session pg \<and> pg_pane pg \<noteq> None \<and> wv_items (pg_vault pg) \<noteq> []
    \<and> page_step sample_store sample_session pg [InPane (Reveal PasswordSlot)] pg' \<and> renders sample_store (pg_vault pg')"
proof
  fix an
  let ?i = "sample_item\<lparr>it_type := js ''login'', it_password := js ''pw''\<rparr>"
  let ?item = "vaultVal (js ''a'') ?i" and ?run = "page_run sample_store sample_session"
  obtain v w where r: "reloadVault sample_store sample_session initialVault sample_storeworld = ((), v, w)"
    by (metis prod_cases3 unit.exhaust)
  let ?pg0 = "rerender \<lparr>pg_vault = v, pg_pane = None, pg_recovery = None, pg_locked = False, pg_clip = None, pg_world = w\<rparr>"
  have p0: "?run ?pg0"
    by (rule page_run.opened [OF r])
  have k: "32 \<le> length (s_userKey sample_session)" "js ''a'' \<noteq> []" "item_fields_ok ?i"
    using sample_item_ok by (simp_all add: sample_session_def item_fields_ok_def ITEM_TYPES_def)
  have t: "token_text sample_store (s_accessToken sample_session) None"
    by (simp add: token_text_def sample_session_def truthy_opt_def)
  obtain d where d: "\<forall>cid n2 after v. server_takes sample_store None w (js ''a'') d cid n2 \<longrightarrow>
      (\<exists>items w'. changing sample_store sample_session (saveItem sample_store sample_session ?item) id after v w
          = (True, after (listed items v), w') \<and> ?item \<in> set items)"
    by (rule quick_edit [OF sample_store_aes k(1) t k(3,2)])
  have "get_prop_opt ?item (js ''id'') = Some (JStr (js ''a''))"
    by (simp add: vaultVal_props get_prop_opt_def own_props_def)
  then have e: "truthy_opt (get_prop_opt ?item (js ''id''))"
    by (simp add: truthy_opt_def js_def)
  obtain items w' where s: "handleSave sample_store sample_session ?item v w = (True, flashed (js ''Saved'') (listed items v), w')"
      "?item \<in> set items"
  proof -
    have "server_takes sample_store None w (js ''a'') d (js ''a'') d"
      by (rule sample_store_takes) simp
    then obtain items w' where "changing sample_store sample_session (saveItem sample_store sample_session ?item) id (flashed (js ''Saved'')) v w
        = (True, flashed (js ''Saved'') (listed items v), w')" "?item \<in> set items"
      using d by blast
    then show thesis
      using e by (intro that [of items w']) (simp_all only: handleSave_def if_True)
  qed
  let ?pg1 = "rerender (?pg0\<lparr>pg_vault := flashed (js ''Saved'') (listed items v), pg_world := w'\<rparr>)"
  let ?pg2 = "clickOn sample_store sample_session [SelectRow ?item] an ?pg1"
  let ?pg3 = "clickOn sample_store sample_session [InPane (Reveal PasswordSlot)] an ?pg2"
  have "?run ?pg1"
    by (rule page_run.step [OF p0 page_step.saved]) (use s(1) in \<open>simp add: rerender_def\<close>)
  then have p2: "?run ?pg2"
    by (rule page_run.step [OF _ page_step.event])
  have st: "page_step sample_store sample_session ?pg2 [InPane (Reveal PasswordSlot)] ?pg3"
    by (rule page_step.event)
  have "selectedItem (selectItem ?item (flashed (js ''Saved'') (listed items v))) \<noteq> None"
    using s(2) by (auto simp: selectedItem_def selectItem_def flashed_def find_None_iff)
  then have "pg_pane ?pg2 \<noteq> None" "wv_items (pg_vault ?pg2) \<noteq> []"
    using s(2) by (auto simp: clickOn_def rerender_def onVault_def nextPane_def selectItem_def flashed_def split: option.split)
  then show "\<exists>pg pg'. ?run pg \<and> pg_pane pg \<noteq> None \<and> wv_items (pg_vault pg) \<noteq> []
    \<and> page_step sample_store sample_session pg [InPane (Reveal PasswordSlot)] pg' \<and> renders sample_store (pg_vault pg')"
    using p2 st conjunct1 [OF screen_never_breaks [OF p2 st]] by blast
qed

end
