(* ===== verification/EditorView.thy ===== *)
theory EditorView
  imports WebView
begin

text \<open>
  The form of \<open>ItemEditor\<close> as it is rendered, and the fields it is made of. The predicate \<open>offered\<close>, which the correctness of
  saving rests on, is what the controls of the form can do.
\<close>

section \<open>The form\<close>

text \<open>What the controls of the form do: pass on the text typed into them, or one thing.\<close>

datatype FormAct = TypeText string | TypeCard string | TypeIdentity string | TypeLabel nat | TypeValue nat | TickFavorite
  | Does EditOp | Generate | Cancel | SaveItem

definition namePlaceholder :: "jsval \<Rightarrow> (string \<times> jsstring) list" where
  "namePlaceholder item =
     (case map_of [(js ''login'', js ''GitHub''), (js ''note'', js ''Wifi password''), (js ''card'', js ''Personal Visa''),
        (js ''identity'', js ''Me'')] (textField ''type'' item) of
        None \<Rightarrow> [] | Some t \<Rightarrow> [(''placeholder'', t)])"

definition labelled :: "string \<Rightarrow> FormAct dom" where
  "labelled t = el ''label'' [] [text_of t]"

definition textInput :: "jsstring \<Rightarrow> FormAct \<Rightarrow> (string \<times> jsstring) list \<Rightarrow> FormAct dom" where
  "textInput v act attrs = Elem ''input'' ((''value'', v) # attrs) [change act] []"

abbreviation numeric :: "string \<times> jsstring" where
  "numeric \<equiv> at ''inputMode'' ''numeric''"

abbreviation no_complete :: "string \<times> jsstring" where
  "no_complete \<equiv> at ''autoComplete'' ''off''"

abbreviation no_spell :: "string \<times> jsstring" where
  "no_spell \<equiv> at ''spellCheck'' ''false''"

definition typeTabs :: "jsval \<Rightarrow> FormAct dom" where
  "typeTabs item =
     el ''div'' [cls ''type-tabs'', at ''role'' ''tablist'']
       (map (\<lambda>t.
          Elem ''button''
            [at ''type'' ''button'', at ''role'' ''tab'', at ''aria-selected'' (if textField ''type'' item = t then ''true'' else ''false''),
             cls (if textField ''type'' item = t then ''type-tab active'' else ''type-tab'')]
            [click (Does (SetType t))]
            (case typeMeta t of None \<Rightarrow> [] | Some (l, ic) \<Rightarrow> [icon ic 15, text_of '' '', Txt l])) ITEM_TYPES)"

definition loginForm :: "jsval \<Rightarrow> FormAct dom list" where
  "loginForm item =
     [labelled ''URL'', textInput (textField ''url'' item) (TypeText ''url'') [at ''placeholder'' ''https://github.com''],
      labelled ''Username'', textInput (textField ''username'' item) (TypeText ''username'') [at ''placeholder'' ''you@example.com''],
      labelled ''Password'',
      el ''div'' [cls ''row'']
        [el ''div'' [at ''style'' ''flex: 1'']
           [Elem ''PasswordField'' [(''value'', textField ''password'' item)] [change (TypeText ''password'')] []],
         Elem ''button'' [at ''type'' ''button'', cls ''ghost''] [click Generate] [text_of ''Generate'']],
      labelled ''2FA secret (TOTP)'',
      textInput (textField ''totp'' item) (TypeText ''totp'')
        [(''placeholder'', js ''base32 secret or otpauth:// URI from the site'' @ [39] @ js ''s 2FA setup''), no_complete, no_spell]]"

definition cardForm :: "jsval \<Rightarrow> FormAct dom list" where
  "cardForm item =
     [labelled ''Cardholder'', textInput (subField ''card'' ''cardholder'' item) (TypeCard ''cardholder'') [at ''placeholder'' ''Name on the card''],
      labelled ''Card number'',
      textInput (subField ''card'' ''number'' item) (TypeCard ''number'') [at ''placeholder'' ''4111 1111 1111 1111'', numeric, no_complete],
      el ''div'' [cls ''row'']
        [el ''div'' [at ''style'' ''flex: 1'']
           [labelled ''Expiry month'', textInput (subField ''card'' ''expMonth'' item) (TypeCard ''expMonth'') [at ''placeholder'' ''MM'', numeric]],
         el ''div'' [at ''style'' ''flex: 1'']
           [labelled ''Expiry year'', textInput (subField ''card'' ''expYear'' item) (TypeCard ''expYear'') [at ''placeholder'' ''YYYY'', numeric]],
         el ''div'' [at ''style'' ''flex: 1'']
           [labelled ''CVV'', textInput (subField ''card'' ''cvv'' item) (TypeCard ''cvv'') [at ''placeholder'' ''123'', numeric, no_complete]]]]"

definition identityForm :: "jsval \<Rightarrow> FormAct dom list" where
  "identityForm item =
     [labelled ''Full name'', textInput (subField ''identity'' ''fullName'' item) (TypeIdentity ''fullName'') [],
      labelled ''Email'', textInput (subField ''identity'' ''email'' item) (TypeIdentity ''email'') [],
      labelled ''Phone'', textInput (subField ''identity'' ''phone'' item) (TypeIdentity ''phone'') [],
      labelled ''Address'',
      Elem ''textarea'' [(''value'', subField ''identity'' ''address'' item), at ''rows'' ''2''] [change (TypeIdentity ''address'')] [],
      labelled ''Company'', textInput (subField ''identity'' ''company'' item) (TypeIdentity ''company'') []]"

definition fieldRow :: "nat \<Rightarrow> jsval \<Rightarrow> FormAct dom" where
  "fieldRow i f =
     (let hidden = boolField ''hidden'' f
      in el ''div'' [cls ''cf-row'']
        [textInput (textField ''label'' f) (TypeLabel i) [at ''placeholder'' ''Label'', cls ''cf-label''],
         textInput (textField ''value'' f) (TypeValue i) [at ''placeholder'' ''Value'', cls ''cf-value'', no_complete],
         Elem ''button''
           [at ''type'' ''button'', cls ''icon-btn'',
            at ''title'' (if hidden then ''Shown masked in details'' else ''Shown in the clear; click to mask''),
            at ''aria-label'' (if hidden then ''Unmask this field'' else ''Mask this field'')]
           [click (Does (FieldMask i))] [icon (js (if hidden then ''eyeOff'' else ''eye'')) 16],
         Elem ''button'' [at ''type'' ''button'', cls ''icon-btn'', at ''title'' ''Remove field'', at ''aria-label'' ''Remove field'']
           [click (Does (RemoveField i))] [icon (js ''trash'') 16]])"

definition itemEditor :: "jsstring list \<Rightarrow> jsval \<Rightarrow> FormAct dom" where
  "itemEditor names item =
     Elem ''div'' [cls ''modal-backdrop''] [click Cancel]
       [Elem ''div'' [cls ''card modal''] [stop_click]
          ([el ''h2'' [] [text_of (if truthy_opt (get_prop_opt item (js ''id'')) then ''Edit item'' else ''Add item'')]]
           @ only (\<not> truthy_opt (get_prop_opt item (js ''id''))) [typeTabs item]
           @ [labelled ''Name'',
              textInput (textField ''name'' item) (TypeText ''name'') (namePlaceholder item @ [at ''autoFocus'' ''''])]
           @ only (textField ''type'' item = js ''login'') (loginForm item)
           @ only (textField ''type'' item = js ''card'') (cardForm item)
           @ only (textField ''type'' item = js ''identity'') (identityForm item)
           @ only (fieldsOf item \<noteq> []) [labelled ''Custom fields'']
           @ map (\<lambda>(i, f). fieldRow i f) (enumerate 0 (fieldsOf item))
           @ [Elem ''button'' [at ''type'' ''button'', cls ''ghost cf-add''] [click (Does AddField)] [text_of ''+ Add custom field''],
              labelled ''Notes'',
              Elem ''textarea'' [(''value'', textField ''notes'' item), at ''rows'' (if textField ''type'' item = js ''note'' then ''6'' else ''3'')]
                [change (TypeText ''notes'')] [],
              el ''div'' [cls ''row'']
                [el ''div'' [at ''style'' ''flex: 1'']
                   [labelled ''Folder'',
                    textInput (textField ''folder'' item) (TypeText ''folder'') [at ''placeholder'' ''none'', at ''list'' ''folder-suggestions''],
                    el ''datalist'' [at ''id'' ''folder-suggestions''] (map (\<lambda>f. el ''option'' [(''value'', f)] []) names)],
                 el ''label'' [cls ''fav-check'']
                   [Elem ''input'' [at ''type'' ''checkbox'', at ''checked'' (if boolField ''favorite'' item then ''true'' else ''false'')]
                      [change TickFavorite] [],
                    icon (js ''star'') 15, text_of '' Favorite'']],
              el ''div'' [cls ''row end'']
                [Elem ''button'' [cls ''ghost''] [click Cancel] [text_of ''Cancel''],
                 Elem ''AsyncButton'' [at ''variant'' ''primary'', at ''loadingLabel'' ''Saving'', at ''successLabel'' ''Saved'']
                   [click SaveItem, (''onSuccess'', Some Cancel)] [text_of ''Save'']]])]"

section \<open>What its controls can do\<close>

text \<open>The operation of an action on the item: \<open>t\<close> is the text typed, or generated, and \<open>b\<close> whether the box is ticked.\<close>

fun formOp :: "FormAct \<Rightarrow> jsstring \<Rightarrow> bool \<Rightarrow> EditOp option" where
  "formOp (TypeText k) t b = Some (SetText k t)"
| "formOp (TypeCard k) t b = Some (SetCard k t)"
| "formOp (TypeIdentity k) t b = Some (SetIdentity k t)"
| "formOp (TypeLabel i) t b = Some (FieldLabel i t)"
| "formOp (TypeValue i) t b = Some (FieldValue i t)"
| "formOp TickFavorite t b = Some (SetFavorite b)"
| "formOp (Does op) t b = Some op"
| "formOp Generate t b = Some (SetText ''password'' t)"
| "formOp Cancel t b = None"
| "formOp SaveItem t b = None"

definition formStep :: "FormAct \<Rightarrow> jsstring \<Rightarrow> bool \<Rightarrow> jsval \<Rightarrow> jsval" where
  "formStep a t b item = (case formOp a t b of None \<Rightarrow> item | Some op \<Rightarrow> edit op item)"

text \<open>What is done with the form, one action after the other: each must be one of the form as it is rendered by then.\<close>

fun formRun :: "jsstring list \<Rightarrow> (FormAct \<times> jsstring \<times> bool) list \<Rightarrow> jsval \<Rightarrow> jsval option" where
  "formRun names [] item = Some item"
| "formRun names ((a, t, b) # as) item =
     (if a \<in> set (actions (itemEditor names item)) then formRun names as (formStep a t b item) else None)"

definition formOps :: "FormAct \<Rightarrow> EditOp \<Rightarrow> bool" where
  "formOps a op \<longleftrightarrow> (\<exists>t b. formOp a t b = Some op)"

definition formOffers :: "FormAct dom \<Rightarrow> EditOp \<Rightarrow> bool" where
  "formOffers d op \<longleftrightarrow> (\<exists>a \<in> set (actions d). formOps a op)"

lemma formOffers_simps [simp]:
  "formOffers (Txt s) op \<longleftrightarrow> False"
  "formOffers (Elem t as hs xs) op \<longleftrightarrow> list_ex (\<lambda>h. case snd h of None \<Rightarrow> False | Some a \<Rightarrow> formOps a op) hs \<or> list_ex (\<lambda>x. formOffers x op) xs"
  by (force simp: formOffers_def List.map_filter_def list_ex_iff split: option.splits)+

lemma formOps_simps [simp]:
  "formOps (TypeText k) op \<longleftrightarrow> op \<in> range (SetText k)" "formOps (TypeCard k) op \<longleftrightarrow> op \<in> range (SetCard k)"
  "formOps (TypeIdentity k) op \<longleftrightarrow> op \<in> range (SetIdentity k)" "formOps (TypeLabel i) op \<longleftrightarrow> op \<in> range (FieldLabel i)"
  "formOps (TypeValue i) op \<longleftrightarrow> op \<in> range (FieldValue i)" "formOps TickFavorite op \<longleftrightarrow> op \<in> range SetFavorite"
  "formOps (Does op') op \<longleftrightarrow> op = op'" "formOps Generate op \<longleftrightarrow> op \<in> range (SetText ''password'')"
  "formOps Cancel op \<longleftrightarrow> False" "formOps SaveItem op \<longleftrightarrow> False"
  by (auto simp: formOps_def)

lemma input_offers [simp]:
  "formOffers (labelled t) op \<longleftrightarrow> False" "formOffers (textInput v a attrs) op \<longleftrightarrow> formOps a op"
  by (simp_all add: labelled_def textInput_def)

lemma typeTabs_offers: "formOffers (typeTabs item) op \<longleftrightarrow> (\<exists>t \<in> set ITEM_TYPES. op = SetType t)"
  by (simp add: typeTabs_def ITEM_TYPES_def typeMeta_def TYPE_META_def)

lemma loginForm_offers:
  "list_ex (\<lambda>x. formOffers x op) (loginForm item) \<longleftrightarrow> (\<exists>k \<in> {''url'', ''username'', ''password'', ''totp''}. op \<in> range (SetText k))"
  by (simp add: loginForm_def)

lemma cardForm_offers:
  "list_ex (\<lambda>x. formOffers x op) (cardForm item)
     \<longleftrightarrow> (\<exists>k \<in> {''cardholder'', ''number'', ''expMonth'', ''expYear'', ''cvv''}. op \<in> range (SetCard k))"
  by (simp add: cardForm_def)

lemma identityForm_offers:
  "list_ex (\<lambda>x. formOffers x op) (identityForm item)
     \<longleftrightarrow> (\<exists>k \<in> {''fullName'', ''email'', ''phone'', ''address'', ''company''}. op \<in> range (SetIdentity k))"
  by (simp add: identityForm_def)

lemma fieldRow_offers:
  "formOffers (fieldRow i f) op \<longleftrightarrow> op \<in> range (FieldLabel i) \<or> op \<in> range (FieldValue i) \<or> op = FieldMask i \<or> op = RemoveField i"
  by (simp add: fieldRow_def Let_def)

lemma rows_offer:
  "list_ex (\<lambda>x. formOffers x op) (map (\<lambda>(i, f). fieldRow i f) (enumerate n fs))
     \<longleftrightarrow> (\<exists>i \<in> {n..<n + length fs}. op \<in> range (FieldLabel i) \<or> op \<in> range (FieldValue i) \<or> op = FieldMask i \<or> op = RemoveField i)"
proof (induction fs arbitrary: n)
  case (Cons f fs)
  have "{n..<n + length (f # fs)} = insert n {Suc n..<Suc n + length fs}"
    by auto
  then show ?case
    using Cons.IH [of "Suc n"] by (simp add: fieldRow_offers del: map_map)
qed simp

lemma options_offer: "list_ex (\<lambda>x. formOffers x op) (map (\<lambda>f. el ''option'' [(''value'', f)] []) names) \<longleftrightarrow> False"
  by (simp add: list_ex_iff)

lemma list_ex_only: "list_ex Q (only c xs) \<longleftrightarrow> c \<and> list_ex Q xs"
  by simp

lemma form_offers:
  "formOffers (itemEditor names item) op \<longleftrightarrow> offered op item"
proof -
  have "formOffers (itemEditor names item) op \<longleftrightarrow>
      \<not> truthy_opt (get_prop_opt item (js ''id'')) \<and> (\<exists>t \<in> set ITEM_TYPES. op = SetType t)
      \<or> op \<in> range (SetText ''name'')
      \<or> textField ''type'' item = js ''login'' \<and> list_ex (\<lambda>x. formOffers x op) (loginForm item)
      \<or> textField ''type'' item = js ''card'' \<and> list_ex (\<lambda>x. formOffers x op) (cardForm item)
      \<or> textField ''type'' item = js ''identity'' \<and> list_ex (\<lambda>x. formOffers x op) (identityForm item)
      \<or> list_ex (\<lambda>x. formOffers x op) (map (\<lambda>(i, f). fieldRow i f) (enumerate 0 (fieldsOf item)))
      \<or> op = AddField \<or> op \<in> range (SetText ''notes'') \<or> op \<in> range (SetText ''folder'') \<or> op \<in> range SetFavorite"
    unfolding itemEditor_def by (simp add: typeTabs_offers options_offer list_ex_only del: map_map split del: if_split)
  then show ?thesis
    unfolding loginForm_offers cardForm_offers identityForm_offers rows_offer by (cases op) (simp_all add: image_iff disj_ac)
qed

lemma no_clicks [simp]: "clicks (labelled t) = []" "clicks (textInput v a attrs) = []"
  by (simp_all add: labelled_def textInput_def Let_def)

lemma form_clicks:
  "clicks (typeTabs item) = map (\<lambda>t. ([Does (SetType t)], False)) ITEM_TYPES"
  "concat (map clicks (loginForm item)) = [([Generate], False)]"
  "concat (map clicks (cardForm item)) = []"
  "concat (map clicks (identityForm item)) = []"
  "clicks (fieldRow i f) = [([Does (FieldMask i)], False), ([Does (RemoveField i)], False)]"
  by (simp_all add: typeTabs_def ITEM_TYPES_def typeMeta_def TYPE_META_def loginForm_def cardForm_def identityForm_def fieldRow_def Let_def)
text \<open>The clicks a form takes, when each does one thing at most.\<close>

definition single :: "('a list \<times> bool) list \<Rightarrow> bool" where
  "single cs \<longleftrightarrow> (\<forall>c \<in> set cs. length (fst c) \<le> 1)"

lemma single_simps [simp]:
  "single []" "single (c # cs) \<longleftrightarrow> length (fst c) \<le> 1 \<and> single cs" "single (cs @ ds) \<longleftrightarrow> single cs \<and> single ds"
  by (auto simp: single_def)

lemma formRun_edits:
  "formRun names as item = Some item' \<Longrightarrow> \<exists>ops. allOffered ops item \<and> item' = edits ops item"
proof (induction names as item rule: formRun.induct)
  case (1 names item)
  then show ?case
    by (intro exI [of _ "[]"]) simp
next
  case (2 names a t b as item)
  then have a: "a \<in> set (actions (itemEditor names item))" and r: "formRun names as (formStep a t b item) = Some item'"
    by (simp_all split: if_splits)
  obtain ops where ops: "allOffered ops (formStep a t b item)" "item' = edits ops (formStep a t b item)"
    using "2.IH" [OF a r] by blast
  show ?case
  proof (cases "formOp a t b")
    case None
    then show ?thesis
      using ops by (auto simp: formStep_def)
  next
    case (Some op)
    then have "formOffers (itemEditor names item) op"
      using a by (auto simp: formOffers_def formOps_def)
    then show ?thesis
      using ops Some by (intro exI [of _ "op # ops"]) (simp add: formStep_def form_offers)
  qed
qed

text \<open>C9: the form offers exactly the operations that the correctness of saving assumes of it: for every operation on an item, some
  control of the rendered form performs it (typing a text, ticking, a click) if and only if the model of the editor
  says that it is offered, so that whatever is done with the form as it is rendered from moment to moment amounts to a sequence
  of offered edits; and a click anywhere does one thing at most, so that one inside the form does not reach the
  backdrop behind it, which closes the form and drops what has been typed.\<close>

theorem form_offers_exactly:
  "(formOffers (itemEditor names item) op \<longleftrightarrow> offered op item)
    \<and> (formRun names as item = Some item' \<longrightarrow> (\<exists>ops. allOffered ops item \<and> item' = edits ops item))
    \<and> click_actions [itemEditor names item] \<subseteq> {as. length as \<le> 1}"
proof (intro conjI impI)
  show "formOffers (itemEditor names item) op \<longleftrightarrow> offered op item"
    by (rule form_offers)
  show "\<exists>ops. allOffered ops item \<and> item' = edits ops item" if "formRun names as item = Some item'"
    by (rule formRun_edits) (rule that)
  have "single (concat (map clicks (loginForm item)))" "single (concat (map clicks (cardForm item)))"
    "single (concat (map clicks (identityForm item)))" "single (clicks (typeTabs item))"
    by (simp_all add: form_clicks ITEM_TYPES_def)
  then show "click_actions [itemEditor names item] \<subseteq> {as. length as \<le> 1}"
    unfolding itemEditor_def stopped_modal by (auto simp: form_clicks(1,5) single_def)
qed

lemma always_there: "TypeText ''name'' \<in> set (actions (itemEditor names item))" "Does AddField \<in> set (actions (itemEditor names item))"
  by (simp_all add: itemEditor_def textInput_def List.map_filter_def)

theorem form_offers_exactly_witness:
  "\<exists>ops. allOffered ops newItem \<and> formRun [] [(TypeText ''name'', js ''Mail'', False), (Does AddField, [], False)] newItem
     = Some (edits ops newItem)"
proof -
  let ?as = "[(TypeText ''name'', js ''Mail'', False), (Does AddField, [], False)]"
  obtain item where r: "formRun [] ?as newItem = Some item"
    by (simp add: always_there)
  then show ?thesis
    using form_offers_exactly [of "[]" newItem AddField ?as item] by auto
qed

end
