(* ===== verification/PanelsView.thy ===== *)
theory PanelsView
  imports WebView
begin

text \<open>
  The panels of \<open>apps/web/src/VaultScreen.tsx\<close> as they are rendered: what they show of their hooks, and what can be done with them.
  \<open>msg\<close> is the text of a message; a date and a number are written by the browser. The lists of the server are arrays.
\<close>

section \<open>Two-factor authentication\<close>

datatype TwoFactorAct = TfClose | TfCode | TfDisable | TfEnable | TfSetup | TfSelectAll

definition codeInput :: "jsstring \<Rightarrow> 'a \<Rightarrow> 'a dom" where
  "codeInput code act =
     Elem ''input'' [(''value'', code), at ''placeholder'' ''6-digit code'', at ''inputMode'' ''numeric'', at ''autoFocus'' ''''] [change act] []"

definition twoFactorView :: "(shown \<Rightarrow> jsstring) \<Rightarrow> TwoFactor \<Rightarrow> TwoFactorAct dom" where
  "twoFactorView msg p =
     modal TfClose [text_of ''Two-factor authentication'']
       (let err = errorLine msg (map_option Failed (tf_error p))
        in if tf_loading p then [muted [text_of ''Loading...'']]
           else if tf_enabled p
           then [muted [text_of ''2FA is '', el ''strong'' [] [text_of ''enabled''], text_of ''. Enter a current code to turn it off.''],
                 codeInput (tf_code p) TfCode]
                @ err
                @ [rowEnd [ghost TfClose ''Close'', asyncButton ''ghost'' True (Some ''Disabling'') (Some ''Disabled'') TfDisable ''Disable 2FA'']]
           else case tf_setup p of
               Some (secret, uri) \<Rightarrow>
                 [muted [text_of ''Add this secret to your authenticator app (or paste the otpauth URI), then enter a code to confirm.''],
                  el ''label'' [] [text_of ''Secret''],
                  Elem ''input'' [at ''readOnly'' '''', (''value'', secret)] [(''onFocus'', Some TfSelectAll)] [],
                  el ''label'' [] [text_of ''otpauth URI''],
                  Elem ''input'' [at ''readOnly'' '''', (''value'', uri)] [(''onFocus'', Some TfSelectAll)] [],
                  el ''label'' [] [text_of ''Code from your app''], codeInput (tf_code p) TfCode]
                 @ err
                 @ [rowEnd [ghost TfClose ''Cancel'', asyncButton ''primary'' False (Some ''Enabling'') (Some ''Enabled'') TfEnable ''Enable'']]
             | None \<Rightarrow>
                 [muted [text_of ''Protect your account with a time-based one-time code (TOTP).'']]
                 @ err
                 @ [rowEnd [ghost TfClose ''Close'', asyncButton ''primary'' False (Some ''Starting'') None TfSetup ''Set up 2FA'']])"

section \<open>Passkeys\<close>

datatype PasskeysAct = PkClose | PkName | PkRemove "jsval option" | PkEnroll

definition passkeyRow :: "(jsval option \<Rightarrow> jsstring) \<Rightarrow> jsval \<Rightarrow> PasskeysAct dom" where
  "passkeyRow day c =
     el ''li'' [cls ''passkey-row'']
       [el ''span'' []
          [el ''strong'' [] [Txt (textField ''name'' c)],
           el ''span'' [cls ''muted''] [Txt ([32, 183] @ js '' added ''), Txt (day (get_prop_opt c (js ''createdAt'')))]],
        asyncButton ''ghost'' True (Some ''Removing'') (Some ''Removed'') (PkRemove (get_prop_opt c (js ''id''))) ''Remove'']"

definition passkeysView :: "(shown \<Rightarrow> jsstring) \<Rightarrow> (jsval option \<Rightarrow> jsstring) \<Rightarrow> bool \<Rightarrow> jsval list \<Rightarrow> Passkeys \<Rightarrow> PasskeysAct dom" where
  "passkeysView msg day supported creds p =
     modal PkClose [text_of ''Passkeys'']
       ([muted [text_of ''A passkey is a phishing-resistant second factor: at sign-in you confirm with your device (Touch ID, Windows Hello, or a security key) instead of, or alongside, a code.'']]
        @ only (\<not> supported) [el ''div'' [cls ''error''] [text_of ''This browser does not support passkeys.'']]
        @ (if pk_loading p then [muted [text_of ''Loading...'']]
           else [if creds \<noteq> [] then el ''ul'' [cls ''passkey-list''] (map (passkeyRow day) creds) else muted [text_of ''No passkeys yet.''],
                 el ''label'' [] [text_of ''Name a new passkey''],
                 Elem ''input'' [(''value'', pk_name p), at ''placeholder'' ''e.g. MacBook Touch ID'', at ''autoFocus'' ''''] [change PkName] []]
                @ errorLine msg (map_option Failed (pk_error p))
                @ [rowEnd [ghost PkClose ''Close'',
                     asyncButton ''primary'' False (Some ''Waiting for device'') (Some ''Added'') PkEnroll ''Add passkey'']]))"

section \<open>The recovery code\<close>

datatype RecoveryAct = RcClose | RcCopy jsstring | RcRemove | RcGenerate

definition recoveryView :: "(shown \<Rightarrow> jsstring) \<Rightarrow> RecoveryCode \<Rightarrow> RecoveryAct dom" where
  "recoveryView msg p =
     modal RcClose [text_of ''Recovery code'']
       (let err = errorLine msg (map_option Failed (rc_error p));
            code = (case rc_code p of None \<Rightarrow> [] | Some c \<Rightarrow> c)
        in if rc_loading p then [muted [text_of ''Loading...'']]
           else if code \<noteq> []
           then [muted [text_of ''Write down these 24 words and keep them somewhere safe and offline. They are the only way back into your vault if you forget your master password, and they will not be shown again. Anyone with this code can reset your password, so guard it like the password itself.''],
                 el ''pre'' [cls ''recovery-code''] [Txt code]]
                @ err
                @ [rowEnd [asyncButton ''ghost'' False None (Some ''Copied'') (RcCopy code) ''Copy'',
                     Elem ''button'' [cls ''primary''] [click RcClose] [Txt (js ''I'' @ [39] @ js ''ve saved it'')]]]
           else if rc_enabled p
           then [muted [text_of ''A recovery code is '', el ''strong'' [] [text_of ''set up''],
                   text_of ''. You can generate a new one (which replaces the old) or remove it. Removing it means a forgotten master password cannot be recovered.'']]
                @ err
                @ [rowEnd [asyncButton ''ghost'' True (Some ''Removing'') (Some ''Removed'') RcRemove ''Remove'',
                     asyncButton ''primary'' False (Some ''Generating'') None RcGenerate ''Generate new code'']]
           else [muted [text_of ''Set up a recovery code so you can get back into your vault if you ever forget your master password. It is generated on this device and shown only once; we never see it.'']]
                @ err
                @ [rowEnd [ghost RcClose ''Close'', asyncButton ''primary'' False (Some ''Generating'') None RcGenerate ''Set up recovery code'']])"

section \<open>Activity\<close>

definition activityLine :: "(jsval option \<Rightarrow> jsstring) \<Rightarrow> jsval \<Rightarrow> unit dom" where
  "activityLine time e =
     (case activityRow (textField ''event'' e) of
        (label, marked) \<Rightarrow>
          el ''li'' [cls ''activity-row'']
            [el ''span'' [cls (if marked then ''activity-label danger'' else ''activity-label'')] [Txt label],
             el ''span'' [cls ''activity-time''] [Txt (time (get_prop_opt e (js ''createdAt'')))]])"

text \<open>\<open>events\<close> is \<open>None\<close> while the log has not come.\<close>

definition activityView :: "(shown \<Rightarrow> jsstring) \<Rightarrow> (jsval option \<Rightarrow> jsstring) \<Rightarrow> jsval list option \<Rightarrow> Activity \<Rightarrow> unit dom" where
  "activityView msg time events p =
     modal () [text_of ''Account activity'']
       ([muted [text_of ''Recent security events on your account, newest first.'']]
        @ errorLine msg (map_option Failed (ac_error p))
        @ [case events of None \<Rightarrow> muted [text_of ''Loading...'']
           | Some es \<Rightarrow> if es = [] then muted [text_of ''No activity yet.''] else el ''ul'' [cls ''activity-list''] (map (activityLine time) es),
           rowEnd [ghost () ''Close'']])"

section \<open>The security check\<close>

datatype SecurityAct = ScClose | ScCheck

definition healthRow :: "(int \<Rightarrow> jsstring) \<Rightarrow> jsval list \<Rightarrow> SecurityCheck \<Rightarrow> jsval \<Rightarrow> SecurityAct dom" where
  "healthRow number items p it =
     (let n = breachesOf p it; badge = (\<lambda>c. el ''span'' [cls c])
      in el ''li'' [cls ''activity-row health-row'']
        [el ''span'' [cls ''activity-label''] [Txt (shownName it)],
         el ''span'' [cls ''health-badges'']
           (only (0 < n) [badge ''badge badge-danger'' [Txt (js ''Breached '' @ [215]), Txt (number n)]]
            @ only (textField ''id'' it \<in> reusedItemIds (map auditItem items)) [badge ''badge badge-warn'' [text_of ''Reused'']]
            @ (case weakById items (textField ''id'' it) of None \<Rightarrow> [] | Some w \<Rightarrow> [badge ''badge badge-warn'' [Txt w]]))])"

definition securityView :: "(shown \<Rightarrow> jsstring) \<Rightarrow> (int \<Rightarrow> jsstring) \<Rightarrow> jsval list \<Rightarrow> SecurityCheck \<Rightarrow> SecurityAct dom" where
  "securityView msg number items p =
     (let k = withPasswords items
      in modal ScClose [text_of ''Security check'']
        ([muted [Txt (js ''Weak and reused passwords are detected here on your device. The breach check compares each password against the HaveIBeenPwned database by sending only a short, unrecoverable fragment of its hash '' @ [8212] @ js '' your passwords never leave this browser, and the passwd server is never involved.'')],
          el ''div'' [cls ''row'']
            [Elem ''button'' (cls ''ghost'' # only (sc_busy p \<or> k = 0) [at ''disabled'' '''']) [click ScCheck]
               [Txt (if sc_busy p then js ''Checking...''
                     else if sc_breaches p \<noteq> None then js ''Re-check breaches''
                     else js ''Check '' @ nat_str k @ js '' password'' @ (if k = 1 then [] else js ''s'') @ js '' for breaches'')]]]
         @ errorLine msg (map_option Failed (sc_error p))
         @ [if flagged items p = []
            then muted [text_of (if k = 0 then ''No stored passwords to check yet.'' else ''No weak or reused passwords found.''),
                   text_of (if sc_breaches p \<noteq> None \<and> 0 < k then '' No breached passwords either.'' else '''')]
            else el ''ul'' [cls ''activity-list''] (map (healthRow number items p) (flagged items p)),
            rowEnd [ghost ScClose ''Close'']]))"

section \<open>Sharing\<close>

datatype ShareAct = SdClose | SdRecipient | SdShare

definition shareView :: "(shown \<Rightarrow> jsstring) \<Rightarrow> jsval \<Rightarrow> ShareDialog \<Rightarrow> ShareAct dom" where
  "shareView msg item p =
     modal SdClose [Txt (js ''Share '' @ [34]), Txt (shownName item), Txt [34]]
       ([muted [Txt (js ''Enter the recipient'' @ [39] @ js ''s account identifier (their passphrase or email). The item is encrypted to their public key '' @ [8212] @ js '' only they can read it, and the server never can.'')],
         el ''label'' [] [text_of ''Recipient identifier''],
         Elem ''input'' [(''value'', sd_recipient p), at ''placeholder'' ''their passphrase or email'', at ''autoComplete'' ''off'',
             at ''spellCheck'' ''false'', at ''autoFocus'' ''''] [change SdRecipient] []]
        @ errorLine msg (sd_error p)
        @ [rowEnd [ghost SdClose ''Cancel'', asyncButton ''primary'' False (Some ''Sharing'') (Some ''Shared'') SdShare ''Share item'']])"

datatype SharedAct = SwClose | SwCopy jsstring jsstring | SwRemove jsval

definition sharedRow :: "jsval \<Rightarrow> SharedAct dom" where
  "sharedRow it =
     el ''li'' [cls ''shared-row'']
       [el ''div'' [cls ''shared-main'']
          [el ''div'' [cls ''item-name''] [Txt (shownName it)], el ''div'' [cls ''item-sub''] [Txt (itemSubtitle it)]],
        el ''div'' [cls ''shared-actions'']
          (only (textField ''username'' it \<noteq> []) [ghost (SwCopy (js ''username'') (textField ''username'' it)) ''Copy user'']
           @ only (textField ''password'' it \<noteq> []) [ghost (SwCopy (js ''password'') (textField ''password'' it)) ''Copy pass'']
           @ [asyncButton ''ghost'' True (Some ''Removing'') None (SwRemove it) ''Remove''])]"

definition sharedView :: "(shown \<Rightarrow> jsstring) \<Rightarrow> SharedWithMe \<Rightarrow> SharedAct dom" where
  "sharedView msg p =
     modal SwClose [text_of ''Shared with me'']
       ([muted [text_of ''Items other people have shared with you, decrypted on this device.'']]
        @ errorLine msg (map_option Failed (sw_error p))
        @ [case sw_items p of None \<Rightarrow> muted [text_of ''Loading...'']
           | Some is \<Rightarrow> if is = [] then muted [text_of ''Nothing has been shared with you yet.'']
               else el ''ul'' [cls ''shared-list''] (map sharedRow is),
           rowEnd [ghost SwClose ''Close'']])"

section \<open>The account\<close>

datatype AccountAct = ApCopy | ApSignOut | ApDisableBio | ApConfirm | ApDelete

text \<open>\<open>sessions\<close> is \<open>None\<close> while the list has not come.\<close>

definition accountView :: "(shown \<Rightarrow> jsstring) \<Rightarrow> jsstring \<Rightarrow> jsval list option \<Rightarrow> AccountPanel \<Rightarrow> AccountAct dom" where
  "accountView msg identifier sessions p =
     el ''div'' [cls ''detail'']
       [el ''div'' [cls ''detail-head''] [el ''h2'' [] [text_of ''Account'']],
        el ''div'' [cls ''detail-fields'']
          ([detailField (js ''Account identifier'') ApCopy [] [el ''span'' [cls ''val val-wrap''] [Txt identifier]],
            muted [text_of ''This is your login handle (a private passphrase or email). It is blinded before it reaches the server, which never sees it in the clear.''],
            el ''div'' [cls ''sessions-block'']
              [el ''h3'' [] [text_of ''Active sessions''],
               muted
                 [Txt (case sessions of None \<Rightarrow> js ''Loading sessions...''
                    | Some ss \<Rightarrow> nat_str (length ss) @ js '' device'' @ (if length ss = 1 then [] else js ''s'') @ js '' currently signed in.''),
                  text_of '' '', text_of ''Signing out everywhere revokes every session; each device has to sign in again.''],
               Elem ''button'' (cls ''ghost'' # only (ap_signingOut p) [at ''disabled'' '''']) [click ApSignOut]
                 [text_of (if ap_signingOut p then ''Signing out...'' else ''Sign out of all devices'')]]]
           @ only (ap_bioOn p)
               [el ''div'' [cls ''sessions-block'']
                  [el ''h3'' [] [text_of ''Biometric unlock''],
                   muted [Txt (js ''This device can unlock your vault with a fingerprint or face. Your master password is held in the device'' @ [39] @ js ''s secure hardware store, released only after a biometric check.'')],
                   ghost ApDisableBio ''Disable biometric unlock'']]
           @ [el ''div'' [cls ''danger-zone'']
                ([el ''h3'' [] [text_of ''Delete account''],
                  muted [text_of ''Permanently erases your account and every item, share, and security record. This cannot be undone: the server never held your master password, so there is nothing to recover afterward.''],
                  el ''label'' [] [text_of ''Type '', el ''strong'' [] [text_of ''DELETE''], text_of '' to confirm''],
                  Elem ''input'' [(''value'', ap_confirm p), at ''placeholder'' ''DELETE'', at ''autoComplete'' ''off'', at ''spellCheck'' ''false'']
                    [change ApConfirm] []]
                 @ errorLine msg (map_option Failed (ap_error p))
                 @ [Elem ''button'' (cls ''danger-btn'' # only (ap_confirm p \<noteq> js ''DELETE'' \<or> ap_busy p) [at ''disabled'' '''']) [click ApDelete]
                      [text_of (if ap_busy p then ''Deleting...'' else ''Delete my account'')]])])]"

section \<open>Import and export\<close>

datatype DialogAct = DiClose | DiJson | DiCsv | DiExportPass | DiEncrypted | DiFile | DiImportPass | DiDecrypt | DiReset | DiImport

definition plural_s :: "nat \<Rightarrow> 'a dom" where
  "plural_s n = text_of (if n = 1 then '''' else ''s'')"

definition dialogField :: "jsstring \<Rightarrow> DialogAct \<Rightarrow> string \<Rightarrow> DialogAct dom" where
  "dialogField v act placeholder = Elem ''PasswordField'' [(''value'', v), at ''placeholder'' placeholder] [change act] []"

definition exportSection :: "(shown \<Rightarrow> jsstring) \<Rightarrow> jsval list \<Rightarrow> ImportExport \<Rightarrow> DialogAct dom" where
  "exportSection msg items d =
     el ''section'' [cls ''ie-section'']
       ([el ''h3'' [] [text_of ''Export''],
         muted [Txt (nat_str (length items)), text_of '' item'', plural_s (length items), text_of '' in this vault.''],
         el ''div'' [cls ''warn-banner'']
           [text_of ''Plain exports are '', el ''strong'' [] [text_of ''unencrypted''],
            text_of '' and contain every password in clear text. Store them briefly, then delete.''],
         el ''div'' [cls ''row''] [ghost DiJson ''Plain JSON'', ghost DiCsv ''CSV''],
         el ''label'' [] [text_of ''Encrypted backup passphrase''],
         dialogField (ie_exportPass d) DiExportPass ''protects the backup file'']
        @ errorLine msg (ie_exportErr d)
        @ [Elem ''AsyncButton'' [at ''variant'' ''primary'', at ''loadingLabel'' ''Encrypting'', at ''successLabel'' ''Downloaded''] [click DiEncrypted]
             [el ''span'' [cls ''btn-ico''] [icon (js ''download'') 16, text_of '' Download encrypted backup'']]])"

definition importSection :: "(shown \<Rightarrow> jsstring) \<Rightarrow> ImportExport \<Rightarrow> DialogAct dom" where
  "importSection msg d =
     el ''section'' [cls ''ie-section'']
       ([el ''h3'' [] [text_of ''Import''],
         muted [text_of ''From a passwd backup, plain JSON, or a CSV exported by another manager (Bitwarden, Chrome, and similar).''],
         Elem ''input'' [at ''type'' ''file'', at ''accept'' ''.json,.csv,.txt''] [change DiFile] []]
        @ only (ie_encrypted d \<noteq> None \<and> ie_encrypted d \<noteq> Some [] \<and> ie_parsed d = None)
            [el ''label'' [] [text_of ''Backup passphrase''],
             dialogField (ie_importPass d) DiImportPass ''passphrase for this backup'',
             el ''div'' [cls ''row''] [ghost DiDecrypt ''Decrypt'']]
        @ errorLine msg (ie_importErr d)
        @ (case ie_parsed d of None \<Rightarrow> [] | Some items \<Rightarrow>
             [el ''div'' [cls ''warn-banner'']
                [text_of ''Ready to import '', el ''strong'' [] [Txt (nat_str (length items))], text_of '' item'', plural_s (length items),
                 text_of ''. They are added to your vault (existing items are kept).''],
              el ''div'' [cls ''row'']
                [ghost DiReset ''Cancel'',
                 Elem ''AsyncButton'' [at ''variant'' ''primary'', at ''loadingLabel'' ''Importing'', at ''successLabel'' ''Done''] [click DiImport]
                   [text_of ''Import '', Txt (nat_str (length items)), text_of '' item'', plural_s (length items)]]])
        @ (case ie_progress d of None \<Rightarrow> [] | Some (don, whole) \<Rightarrow>
             [muted [text_of ''Importing '', Txt (nat_str don), text_of '' / '', Txt (nat_str whole), text_of ''...'']])
        @ (case ie_outcome d of None \<Rightarrow> [] | Some t \<Rightarrow> only (t \<noteq> []) [el ''div'' [cls ''ie-result''] [Txt t]]))"

definition dialogView :: "(shown \<Rightarrow> jsstring) \<Rightarrow> jsval list \<Rightarrow> ImportExport \<Rightarrow> DialogAct dom" where
  "dialogView msg items d =
     modal DiClose [text_of ''Import / export''] [exportSection msg items d, importSection msg d, rowEnd [ghost DiClose ''Close'']]"

section \<open>Typing\<close>

definition typeCode :: "jsstring \<Rightarrow> TwoFactor \<Rightarrow> TwoFactor" where
  "typeCode t p = p\<lparr>tf_code := t\<rparr>"

definition typeName :: "jsstring \<Rightarrow> Passkeys \<Rightarrow> Passkeys" where
  "typeName t p = p\<lparr>pk_name := t\<rparr>"

definition typeRecipient :: "jsstring \<Rightarrow> ShareDialog \<Rightarrow> ShareDialog" where
  "typeRecipient t p = p\<lparr>sd_recipient := t\<rparr>"

definition typeConfirm :: "jsstring \<Rightarrow> AccountPanel \<Rightarrow> AccountPanel" where
  "typeConfirm t p = p\<lparr>ap_confirm := t\<rparr>"

fun typeDialog :: "DialogAct \<Rightarrow> jsstring \<Rightarrow> ImportExport \<Rightarrow> ImportExport" where
  "typeDialog DiExportPass t d = d\<lparr>ie_exportPass := t\<rparr>"
| "typeDialog DiImportPass t d = d\<lparr>ie_importPass := t\<rparr>"
| "typeDialog _ t d = d"

section \<open>What can be done when\<close>

lemma codeInput_clicks [simp]: "clicks (codeInput c a) = []"
  by (simp add: codeInput_def)

lemma two_factor_clicks:
  "click_actions [twoFactorView msg p] = {[TfClose], []} \<union>
     (if tf_loading p then {} else if tf_enabled p then {[TfDisable]} else if tf_setup p \<noteq> None then {[TfEnable]} else {[TfSetup]})"
  by (cases "tf_setup p"; cases "tf_loading p"; cases "tf_enabled p")
    (auto simp: twoFactorView_def modal_clicks Let_def simp del: set_concat)

lemma recovery_clicks:
  "click_actions [recoveryView msg p] = {[RcClose], []} \<union>
     (if rc_loading p then {}
      else case rc_code p of
          Some (x # c) \<Rightarrow> {[RcCopy (x # c)]}
        | _ \<Rightarrow> if rc_enabled p then {[RcRemove], [RcGenerate]} else {[RcGenerate]})"
  by (cases "rc_loading p"; cases "rc_enabled p"; cases "rc_code p" rule: option.exhaust [case_names none some])
    (auto simp: recoveryView_def modal_clicks Let_def simp del: set_concat split: list.split)

lemma withPasswords_pos: "0 < withPasswords items \<longleftrightarrow> (\<exists>it \<in> set items. textField ''password'' it \<noteq> [])"
  by (auto simp: withPasswords_def filter_empty_conv)

lemma health_clicks: "clicks (healthRow number items p it) = []"
  by (cases "weakById items (textField ''id'' it)") (simp_all add: healthRow_def Let_def)

lemma security_clicks:
  "[ScCheck] \<in> click_actions [securityView msg number items p] \<longleftrightarrow> \<not> sc_busy p \<and> (\<exists>it \<in> set items. textField ''password'' it \<noteq> [])"
  unfolding withPasswords_pos [symmetric]
  by (auto simp: securityView_def modal_clicks health_clicks Let_def)

lemma account_clicks:
  "[ApDelete] \<in> click_actions [accountView msg ident ss p] \<longleftrightarrow> ap_confirm p = js ''DELETE'' \<and> \<not> ap_busy p"
  "[ApSignOut] \<in> click_actions [accountView msg ident ss p] \<longleftrightarrow> \<not> ap_signingOut p"
  by (auto simp: accountView_def detailField_def click_actions_def image_iff)

text \<open>The panels guard what cannot be undone. The account can be deleted exactly when DELETE has been typed and no deletion is under
  way; two-factor authentication can be disabled only where it is enabled, and enabled only once its secret is shown; while a
  recovery code is shown no other can be made, and copying it copies that code; and passwords are checked against the breach service only
  on a click that is there when the vault has a password and no check is under way.\<close>

theorem panels_guarded:
  "([ApDelete] \<in> click_actions [accountView msg ident ss ap] \<longleftrightarrow> ap_confirm ap = js ''DELETE'' \<and> \<not> ap_busy ap)
    \<and> ([TfDisable] \<in> click_actions [twoFactorView msg tf] \<longleftrightarrow> \<not> tf_loading tf \<and> tf_enabled tf)
    \<and> ([TfEnable] \<in> click_actions [twoFactorView msg tf] \<longleftrightarrow> \<not> tf_loading tf \<and> \<not> tf_enabled tf \<and> tf_setup tf \<noteq> None)
    \<and> ([RcCopy c] \<in> click_actions [recoveryView msg rc] \<longleftrightarrow> \<not> rc_loading rc \<and> rc_code rc = Some c \<and> c \<noteq> [])
    \<and> ([RcGenerate] \<in> click_actions [recoveryView msg rc] \<longleftrightarrow> \<not> rc_loading rc \<and> (rc_code rc = None \<or> rc_code rc = Some []))
    \<and> ([ScCheck] \<in> click_actions [securityView msg number items sc]
        \<longleftrightarrow> \<not> sc_busy sc \<and> (\<exists>it \<in> set items. textField ''password'' it \<noteq> []))"
  by (intro conjI account_clicks(1) security_clicks)
    (auto simp: two_factor_clicks recovery_clicks split: option.split list.split)

text \<open>The dialog imports only what it has read, and asks for a passphrase only while a backup waits for it.\<close>

lemma dialogField_clicks [simp]: "clicks (dialogField v a p) = []" "clicks (plural_s n) = []"
  by (simp_all add: dialogField_def plural_s_def)

lemma dialog_clicks:
  "[DiImport] \<in> click_actions [dialogView msg items d] \<longleftrightarrow> ie_parsed d \<noteq> None"
  "[DiDecrypt] \<in> click_actions [dialogView msg items d] \<longleftrightarrow> ie_parsed d = None \<and> ie_encrypted d \<noteq> None \<and> ie_encrypted d \<noteq> Some []"
proof -
  have e: "clicks (exportSection msg items d) = [([DiJson], False), ([DiCsv], False), ([DiEncrypted], False)]"
    by (simp add: exportSection_def)
  have i: "clicks (importSection msg d) =
      only (ie_encrypted d \<noteq> None \<and> ie_encrypted d \<noteq> Some [] \<and> ie_parsed d = None) [([DiDecrypt], False)]
      @ only (ie_parsed d \<noteq> None) [([DiReset], False), ([DiImport], False)]"
    by (cases "ie_progress d"; cases "ie_outcome d"; cases "ie_parsed d"; cases "ie_encrypted d") (auto simp: importSection_def)
  show "[DiImport] \<in> click_actions [dialogView msg items d] \<longleftrightarrow> ie_parsed d \<noteq> None"
    "[DiDecrypt] \<in> click_actions [dialogView msg items d] \<longleftrightarrow> ie_parsed d = None \<and> ie_encrypted d \<noteq> None \<and> ie_encrypted d \<noteq> Some []"
    by (auto simp: dialogView_def modal_clicks e i image_iff)
qed

end
