(* ===== verification/AuthView.thy ===== *)
theory AuthView
  imports WebView WebAuth
begin

text \<open>
  What the web application renders (\<open>apps/web/src/App.tsx\<close>): the sign-in screen while there is no session, the vault screen
  otherwise. \<open>msg\<close> is the text of a message, \<open>busy\<close> and \<open>bioBusy\<close> are the hooks of a request under way.
\<close>

datatype AuthAct = AuMode Mode | AuBio | AuIdentifier | AuGenerate | AuConfirmId | AuCode | AuPassword | AuConfirm | AuRecover | AuLeave
  | AuPasskey | AuTotp | AuRemember | AuSubmit

definition button_type :: "string \<times> jsstring" where
  "button_type = at ''type'' ''button''"

definition authLabel :: "string \<Rightarrow> AuthAct dom" where
  "authLabel t = el ''label'' [] [text_of t]"

definition submitLabel :: "bool \<Rightarrow> AuthForm \<Rightarrow> string" where
  "submitLabel busy f =
     (if busy then (if af_recover f then ''Recovering'' else ''Deriving keys'')
      else if af_recover f then ''Recover and unlock''
      else if af_mode f = Registering then ''Create account''
      else if formNeedsTotp f then ''Verify and unlock''
      else ''Unlock vault'')"

definition modeTab :: "AuthForm \<Rightarrow> Mode \<Rightarrow> string \<Rightarrow> AuthAct dom" where
  "modeTab f m label =
     Elem ''button'' [button_type, cls (if af_mode f = m then ''active'' else '''')] [click (AuMode m)] [text_of label]"

definition bioButton :: "bool \<Rightarrow> AuthForm \<Rightarrow> AuthAct dom list" where
  "bioButton bioBusy f =
     only (af_bioEnrolled f \<and> \<not> af_recover f \<and> af_twoFactor f = None)
       [Elem ''button'' ([button_type, cls ''ghost full''] @ only bioBusy [at ''disabled'' '''']) [click AuBio]
          [icon (js ''lock'') 16, el ''span'' [] [text_of (if bioBusy then ''Unlocking...'' else ''Unlock with biometrics'')]],
        el ''div'' [cls ''or-divider''] [text_of ''or'']]"

definition identifierFields :: "AuthForm \<Rightarrow> AuthAct dom list" where
  "identifierFields f =
     (let registering = (af_mode f = Registering)
      in [authLabel ''Account identifier'',
          el ''div'' [cls ''pwfield'']
            (Elem ''input'' [(''value'', af_identifier f),
                at ''placeholder'' (if registering then ''roll the dice, or use an email'' else ''your passphrase or email''),
                at ''autoComplete'' ''off'', at ''spellCheck'' ''false''] [change AuIdentifier] []
             # only registering
                 [Elem ''button'' [button_type, cls ''reveal icon-only'', at ''aria-label'' ''Generate a private passphrase'',
                    at ''title'' ''Generate a private passphrase''] [click AuGenerate] [icon (js ''dice'') 18]])]
         @ only registering
             [el ''p'' [cls ''hint''] [text_of ''Roll the dice for a private passphrase, or type your own email. No email needed.'']]
         @ only (registering \<and> \<not> af_generated f \<and> 64 \<in> set (af_identifier f))
             [authLabel ''Confirm email'',
              Elem ''input'' [(''value'', af_confirmId f), at ''placeholder'' ''type your email again'', at ''autoComplete'' ''off'',
                at ''spellCheck'' ''false'', at ''inputMode'' ''email''] [change AuConfirmId] [],
              el ''p'' [cls ''hint''] [text_of ''There is no password reset, so a typo here locks the account out for good. We never send email or store it in the clear.'']])"

definition passwordFields :: "AuthForm \<Rightarrow> AuthAct dom list" where
  "passwordFields f =
     only (af_recover f)
       [authLabel ''Recovery code'',
        Elem ''textarea'' [cls ''recovery-input'', (''value'', af_recoveryCode f), at ''placeholder'' ''your 24-word recovery code'',
          at ''rows'' ''3'', at ''autoComplete'' ''off'', at ''spellCheck'' ''false''] [change AuCode] []]
     @ [authLabel (if af_recover f then ''New master password'' else ''Master password''),
        Elem ''PasswordField'' [(''value'', af_password f),
          at ''placeholder'' (if af_recover f then ''choose a new master password'' else ''never sent to the server'')] [change AuPassword] []]
     @ only (af_mode f = Registering \<or> af_recover f)
         [el ''label'' [] [text_of ''Confirm '', text_of (if af_recover f then ''new '' else ''''), text_of ''master password''],
          Elem ''PasswordField'' [(''value'', af_confirm f), at ''placeholder'' ''type it again''] [change AuConfirm] []]"

definition recoveryLinks :: "AuthForm \<Rightarrow> AuthAct dom list" where
  "recoveryLinks f =
     only (af_mode f = SigningIn \<and> af_twoFactor f = None \<and> \<not> af_recover f)
       [Elem ''button'' [button_type, cls ''linklike''] [click AuRecover]
          [text_of ''Forgot your master password? Recover with a recovery code'']]
     @ only (af_recover f) [Elem ''button'' [button_type, cls ''linklike''] [click AuLeave] [text_of ''Back to sign in'']]"

definition secondFactorPart :: "bool \<Rightarrow> AuthForm \<Rightarrow> AuthAct dom list" where
  "secondFactorPart busy f =
     only (af_mode f = SigningIn \<and> af_twoFactor f \<noteq> None)
       [el ''div'' [cls ''twofactor'']
          ([el ''p'' [cls ''muted''] [text_of ''Finish signing in with your second factor.'']]
           @ only (formCanPasskey f)
               [Elem ''button'' ([button_type, cls ''ghost full''] @ only busy [at ''disabled'' '''']) [click AuPasskey]
                  [icon (js ''lock'') 16, el ''span'' [] [text_of ''Use a passkey'']]]
           @ only (formCanPasskey f \<and> formNeedsTotp f) [el ''div'' [cls ''or-divider''] [text_of ''or'']]
           @ only (formNeedsTotp f)
               [authLabel ''Two-factor code'',
                Elem ''input'' [(''value'', af_totp f), at ''placeholder'' ''6-digit code'', at ''inputMode'' ''numeric'',
                  at ''autoComplete'' ''one-time-code'', at ''autoFocus'' ''''] [change AuTotp] []])]"

definition submitPart :: "bool \<Rightarrow> AuthForm \<Rightarrow> AuthAct dom list" where
  "submitPart busy f =
     only (af_mode f = Registering \<or> af_twoFactor f = None \<or> formNeedsTotp f)
       [el ''button'' (cls ''primary'' # only busy [at ''disabled'' ''''] @ [at ''type'' ''submit''])
          (only busy [el ''span'' [cls ''spinner''] []] @ [el ''span'' [] [text_of (submitLabel busy f)]])]"

definition authView :: "(shown \<Rightarrow> jsstring) \<Rightarrow> jsstring \<Rightarrow> bool \<Rightarrow> bool \<Rightarrow> AuthForm \<Rightarrow> AuthAct dom" where
  "authView msg siteUrl busy bioBusy f =
     el ''div'' [cls ''center'']
       [el ''div'' [cls ''auth-toolbar''] [el ''ThemeToggle'' [] []],
        el ''a'' [cls ''back-link'', (''href'', siteUrl)] [icon (js ''arrowLeft'') 16, text_of ''Back to site''],
        Elem ''form'' [cls ''card auth''] [(''onSubmit'', Some AuSubmit)]
          ([el ''div'' [cls ''brand-row''] [icon (js ''lock'') 22, el ''h1'' [] [text_of ''passwd'']],
            el ''p'' [cls ''muted''] [text_of ''Zero-knowledge password manager''],
            el ''div'' [cls ''tabs''] [modeTab f Registering ''Create account'', modeTab f SigningIn ''Sign in'']]
           @ bioButton bioBusy f @ identifierFields f @ passwordFields f @ recoveryLinks f @ secondFactorPart busy f
           @ only (af_bioAvailable f \<and> \<not> af_recover f \<and> af_twoFactor f = None)
               [el ''label'' [cls ''bio-check'']
                  [Elem ''input'' [at ''type'' ''checkbox'', at ''checked'' (if af_bioRemember f then ''true'' else ''false'')] [change AuRemember] [],
                   el ''span'' [] [text_of ''Unlock with biometrics on this device next time'']]]
           @ errorLine msg (af_error f)
           @ submitPart busy f
           @ [el ''p'' [cls ''fineprint''] [text_of ''Your master password and identifier never leave this device in plaintext. There is no password reset; only a recovery code you set up yourself can get you back in, so keep it and your identifier safe.'']])]"

text \<open>Typing into the form, ticking its box, and its tabs and links.\<close>

definition onForm :: "(AuthForm \<Rightarrow> AuthForm) \<Rightarrow> WebApp \<Rightarrow> WebApp" where
  "onForm g a = a\<lparr>wa_form := g (wa_form a)\<rparr>"

fun authTyped :: "AuthAct \<Rightarrow> jsstring \<Rightarrow> bool \<Rightarrow> WebApp \<Rightarrow> WebApp" where
  "authTyped AuIdentifier t b a = typeIdentifier t a"
| "authTyped AuConfirmId t b a = onForm (\<lambda>f. f\<lparr>af_confirmId := t\<rparr>) a"
| "authTyped AuCode t b a = onForm (\<lambda>f. f\<lparr>af_recoveryCode := t\<rparr>) a"
| "authTyped AuPassword t b a = onForm (\<lambda>f. f\<lparr>af_password := t\<rparr>) a"
| "authTyped AuConfirm t b a = onForm (\<lambda>f. f\<lparr>af_confirm := t\<rparr>) a"
| "authTyped AuTotp t b a = onForm (\<lambda>f. f\<lparr>af_totp := t\<rparr>) a"
| "authTyped AuRemember t b a = onForm (\<lambda>f. f\<lparr>af_bioRemember := b\<rparr>) a"
| "authTyped (AuMode m) t b a = switchMode m a"
| "authTyped AuRecover t b a = startRecovery a"
| "authTyped AuLeave t b a = leaveRecovery a"
| "authTyped _ t b a = a"

datatype WebAct = InVaultScreen ScreenAct | InAuthScreen AuthAct

definition webApp ::
  "('n, 'z) webplatform_scheme \<Rightarrow> (shown \<Rightarrow> jsstring) \<Rightarrow> jsstring \<Rightarrow> bool \<Rightarrow> bool \<Rightarrow> DetailPane option \<Rightarrow> WebVault \<Rightarrow> WebApp \<Rightarrow> WebAct dom" where
  "webApp P msg siteUrl busy bioBusy pane v a =
     (case wa_session a of
        Some s \<Rightarrow> map_dom InVaultScreen (vaultView P msg s (wa_recovery a) pane v)
      | None \<Rightarrow> map_dom InAuthScreen (authView msg siteUrl busy bioBusy (wa_form a)))"

section \<open>What the form asks for\<close>

text \<open>A form can be submitted when it has a button for it that is not disabled.\<close>

fun submits :: "'a dom \<Rightarrow> bool" where
  "submits (Txt s) \<longleftrightarrow> False"
| "submits (Elem tag attrs hs xs) \<longleftrightarrow>
     tag = ''button'' \<and> at ''type'' ''submit'' \<in> set attrs \<and> ''disabled'' \<notin> fst ` set attrs \<or> list_ex submits xs"

fun asks :: "'a \<Rightarrow> 'a dom \<Rightarrow> bool" where
  "asks a (Txt s) \<longleftrightarrow> False"
| "asks a (Elem tag attrs hs xs) \<longleftrightarrow> Some a \<in> snd ` set hs \<or> list_ex (asks a) xs"

lemmas auth_parts = authView_def bioButton_def identifierFields_def passwordFields_def recoveryLinks_def secondFactorPart_def submitPart_def
  modeTab_def authLabel_def button_type_def

lemma error_asks [simp]: "list_ex (asks a) (errorLine msg e) \<longleftrightarrow> False" "list_ex submits (errorLine msg e) \<longleftrightarrow> False"
  by (cases e; simp add: errorLine_def)+

lemma auth_submits: "submits (authView msg url busy bioBusy f)
    \<longleftrightarrow> \<not> busy \<and> (af_mode f = Registering \<or> af_twoFactor f = None \<or> formNeedsTotp f)"
  by (auto simp: auth_parts Let_def js_def)

lemma auth_asks:
  "asks AuPasskey (authView msg url busy bioBusy f) \<longleftrightarrow> af_mode f = SigningIn \<and> formCanPasskey f"
  "asks AuTotp (authView msg url busy bioBusy f) \<longleftrightarrow> af_mode f = SigningIn \<and> formNeedsTotp f"
  "asks AuConfirm (authView msg url busy bioBusy f) \<longleftrightarrow> af_mode f = Registering \<or> af_recover f"
  "asks AuConfirmId (authView msg url busy bioBusy f) \<longleftrightarrow> af_mode f = Registering \<and> \<not> af_generated f \<and> 64 \<in> set (af_identifier f)"
  "asks AuCode (authView msg url busy bioBusy f) \<longleftrightarrow> af_recover f"
  by (auto simp: auth_parts Let_def formCanPasskey_def formNeedsTotp_def split: option.splits)

text \<open>The sign-in screen asks for what it checks, and has a way forward unless the second factor the server wants is of no kind it knows:
  it can be submitted, or a passkey can be used. Locking leaves a blank sign-in screen.\<close>

theorem auth_screen_asks:
  "(submits (authView msg url False bioBusy f) \<or> asks AuPasskey (authView msg url False bioBusy f)
      \<longleftrightarrow> \<not> (af_mode f = SigningIn \<and> af_twoFactor f \<noteq> None \<and> \<not> formNeedsTotp f \<and> \<not> formCanPasskey f))
    \<and> \<not> submits (authView msg url True bioBusy f)
    \<and> (asks AuConfirm (authView msg url busy bioBusy f) \<longleftrightarrow> af_mode f = Registering \<or> af_recover f)
    \<and> (asks AuConfirmId (authView msg url busy bioBusy f)
        \<longleftrightarrow> af_mode f = Registering \<and> \<not> af_generated f \<and> 64 \<in> set (af_identifier f))
    \<and> (asks AuCode (authView msg url busy bioBusy f) \<longleftrightarrow> af_recover f)
    \<and> webApp P msg url busy bioBusy pane v (lockWeb a) = map_dom InAuthScreen (authView msg url busy bioBusy blankForm)"
proof (intro conjI auth_asks)
  show "submits (authView msg url False bioBusy f) \<or> asks AuPasskey (authView msg url False bioBusy f)
      \<longleftrightarrow> \<not> (af_mode f = SigningIn \<and> af_twoFactor f \<noteq> None \<and> \<not> formNeedsTotp f \<and> \<not> formCanPasskey f)"
    unfolding auth_submits auth_asks by (cases "af_mode f") auto
qed (simp_all add: auth_submits webApp_def lockWeb_def)

end
