(* ===== verification/PopupView.thy ===== *)
theory PopupView
  imports Dom PopupForm
begin

text \<open>
  What \<open>apps/extension/entrypoints/popup/App.tsx\<close> renders: the frame, the unlock form, the list with its buttons, and the form
  an item is edited in. \<open>msg\<close> is the text of a message; hooks that only the rendering reads are arguments.
\<close>

section \<open>The frame\<close>

definition lockMark :: "nat \<Rightarrow> 'a dom" where
  "lockMark n =
     el ''svg''
       [(''width'', nat_str n), (''height'', nat_str n), at ''viewBox'' ''0 0 24 24'', at ''fill'' ''none'', at ''stroke'' ''currentColor'',
        at ''strokeWidth'' ''2'', at ''strokeLinecap'' ''round'', at ''strokeLinejoin'' ''round'', at ''aria-hidden'' ''true'']
       [el ''rect'' [at ''x'' ''4'', at ''y'' ''10'', at ''width'' ''16'', at ''height'' ''11'', at ''rx'' ''2''] [],
        el ''path'' [at ''d'' ''M8 10V7a4 4 0 0 1 8 0v3''] []]"

definition shell :: "bool \<Rightarrow> 'a dom list \<Rightarrow> 'a dom" where
  "shell pad kids =
     el ''div'' [cls ''shell'']
       [el ''div'' [cls (if pad then ''body padded'' else ''body'')] kids,
        el ''footer'' [cls ''trust''] [lockMark 13, text_of ''Zero-knowledge. Your keys never leave this device.'']]"

definition avatar :: "'z platform_scheme \<Rightarrow> jsval \<Rightarrow> 'a dom" where
  "avatar P item =
     el ''span''
       [cls ''avatar'', (''style'', js ''background: hsl('' @ nat_str (avatarHue P item) @ js '' 58% 42%)''), at ''aria-hidden'' ''true'']
       [Txt (avatarInitial P item)]"

section \<open>Unlocking\<close>

datatype UnlockAct = UfIdentifier | UfPassword | UfReveal | UfTotp | UfSubmit

definition vaultLink :: "jsstring \<Rightarrow> string \<Rightarrow> 'a dom" where
  "vaultLink url label =
     el ''a'' [cls ''link'', (''href'', url), at ''target'' ''_blank'', at ''rel'' ''noreferrer''] [text_of label]"

definition unlockView :: "(shown \<Rightarrow> jsstring) \<Rightarrow> jsstring \<Rightarrow> bool \<Rightarrow> bool \<Rightarrow> UnlockForm \<Rightarrow> UnlockAct dom" where
  "unlockView msg webVaultUrl showPw busy f =
     shell True
       [Elem ''form'' [cls ''unlock''] [(''onSubmit'', Some UfSubmit)]
          ([el ''h1'' [cls ''title''] [lockMark 18, text_of '' passwd''],
            el ''p'' [cls ''muted center tagline''] [text_of ''Unlock your vault for this browser.''],
            Elem ''input'' [at ''placeholder'' ''passphrase or email'', (''value'', uf_identifier f), at ''autoFocus'' '''',
                at ''spellCheck'' ''false'', at ''autoComplete'' ''off''] [change UfIdentifier] [],
            el ''div'' [cls ''pwrow'']
              [Elem ''input'' [at ''type'' (if showPw then ''text'' else ''password''), at ''placeholder'' ''master password'',
                  (''value'', uf_password f), at ''autoComplete'' ''off''] [change UfPassword] [],
               Elem ''button'' [at ''type'' ''button'', cls ''reveal''] [click UfReveal] [text_of (if showPw then ''Hide'' else ''Show'')]]]
           @ only (needTotp f)
               [Elem ''input'' [at ''placeholder'' ''6-digit code'', (''value'', uf_totp f), at ''inputMode'' ''numeric'',
                  at ''autoComplete'' ''one-time-code'', at ''autoFocus'' ''''] [change UfTotp] []]
           @ (case uf_twoFactor f of None \<Rightarrow> []
              | Some ms \<Rightarrow> only (js ''webauthn'' \<in> set ms) [vaultLink webVaultUrl ''Use a passkey? Sign in at the web vault''])
           @ errorLine msg (map_option Failed (uf_error f))
           @ only (\<not> passkeyOnly f)
               [Elem ''button'' (cls ''primary'' # only busy [at ''disabled'' ''''] @ [at ''type'' ''submit'']) []
                  [text_of (if busy then ''Unlocking...'' else if needTotp f then ''Verify & unlock'' else ''Unlock'')]]
           @ only (uf_twoFactor f = None) [vaultLink webVaultUrl ''No account? Create one in the web vault''])]"

fun unlockTyped :: "UnlockAct \<Rightarrow> jsstring \<Rightarrow> UnlockForm \<Rightarrow> UnlockForm" where
  "unlockTyped UfIdentifier t f = f\<lparr>uf_identifier := t\<rparr>"
| "unlockTyped UfPassword t f = f\<lparr>uf_password := t\<rparr>"
| "unlockTyped UfTotp t f = f\<lparr>uf_totp := t\<rparr>"
| "unlockTyped _ t f = f"

text \<open>The popup as a whole: nothing but a line until the worker has said whether the vault is locked.\<close>

definition popupLoading :: "UnlockAct dom" where
  "popupLoading = shell True [el ''p'' [cls ''muted center''] [text_of ''Loading...'']]"

section \<open>The list\<close>

datatype PopupAct = PuAdd | PuLock | PuReview | PuDismiss | PuQuery | PuFill jsval | PuCopy jsstring jsstring | PuCode jsval | PuEdit jsval

definition ghostButton :: "'a \<Rightarrow> string \<Rightarrow> string \<Rightarrow> 'a dom" where
  "ghostButton act title label = Elem ''button'' [cls ''ghost'', at ''title'' title] [click act] [text_of label]"

definition popupRow :: "'z platform_scheme \<Rightarrow> jsstring \<Rightarrow> jsval \<Rightarrow> PopupAct dom" where
  "popupRow P tabHost item =
     el ''li'' [cls (if marksSite P tabHost item then ''match'' else '''')]
       [avatar P item,
        el ''div'' [cls ''info'']
          [el ''div'' [cls ''name'']
             ([Txt (View.orElse (textField ''name'' item) (js ''(unnamed)'')), text_of '' '']
              @ only (marksSite P tabHost item) [el ''span'' [cls ''badge''] [text_of ''this site'']]
              @ only (\<not> isLogin item) [el ''span'' [cls ''badge''] [Txt (textField ''type'' item)]]),
           el ''div'' [cls ''sub''] [Txt (itemSub item)]],
        el ''div'' [cls ''actions'']
          (only (offersFill item) [ghostButton (PuFill item) ''Fill this page'' ''Fill'']
           @ only (offersFill item) [ghostButton (PuCopy (js ''password'') (textField ''password'' item)) ''Copy password'' ''Copy'']
           @ only (offersCode item) [ghostButton (PuCode item) ''Copy the current 2FA code'' ''2FA'']
           @ [ghostButton (PuEdit item) ''Edit'' ''Edit''])]"

definition popupListed :: "'z platform_scheme \<Rightarrow> jsstring \<Rightarrow> jsstring \<Rightarrow> Popup \<Rightarrow> jsval list" where
  "popupListed P tabHost query pp = filteredItems P query (sortedItems P tabHost (pp_items pp))"

definition popupList :: "'z platform_scheme \<Rightarrow> (shown \<Rightarrow> jsstring) \<Rightarrow> bool \<Rightarrow> jsstring \<Rightarrow> jsstring \<Rightarrow> Popup \<Rightarrow> PopupAct dom" where
  "popupList P msg loading tabHost query pp =
     shell False
       (el ''div'' [cls ''vault'']
          ([el ''header'' []
              [el ''span'' [cls ''brand''] [lockMark 18, text_of '' passwd''],
               el ''div'' [cls ''header-actions'']
                 [Elem ''button'' [cls ''ghost''] [click PuAdd] [text_of ''+ Add''],
                  Elem ''button'' [cls ''ghost''] [click PuLock] [text_of ''Lock'']]]]
           @ (case pp_pending pp of None \<Rightarrow> [] | Some p \<Rightarrow>
               [el ''div'' [cls ''pending'']
                  [el ''div'' [cls ''pending-text'']
                     [text_of ''Save login for '',
                      el ''strong'' [] [Txt (View.orElse (displayHost P (ps_url p)) (js ''this site''))], text_of ''?''],
                   el ''div'' [cls ''pending-actions'']
                     [Elem ''button'' [cls ''primary small''] [click PuReview] [text_of ''Review & save''],
                      Elem ''button'' [cls ''ghost''] [click PuDismiss] [text_of ''Not now'']]]])
           @ [Elem ''input'' [cls ''search'', at ''placeholder'' ''Search'', (''value'', query)] [change PuQuery] []]
           @ errorLine msg (map_option Failed (pp_error pp))
           @ [el ''div'' [cls ''list-area'']
                [if loading then el ''p'' [cls ''muted''] [text_of ''Decrypting...'']
                 else if popupListed P tabHost query pp = []
                 then el ''p'' [cls ''muted'']
                   [text_of ''No items yet. Use '', el ''strong'' [] [text_of ''+ Add''], text_of '' to store your first login.'']
                 else el ''ul'' [] (map (popupRow P tabHost) (popupListed P tabHost query pp))]])
        # (case pp_toast pp of None \<Rightarrow> [] | Some t \<Rightarrow> only (t \<noteq> []) [el ''div'' [cls ''toast''] [Txt t]]))"

section \<open>The form\<close>

datatype PopupFormAct = PfType string | PfReveal | PfGenerate | PfCancel | PfSave | PfDelete

definition formText :: "jsval \<Rightarrow> string \<Rightarrow> (string \<times> jsstring) list \<Rightarrow> PopupFormAct dom" where
  "formText item k attrs = Elem ''input'' ((''value'', textField k item) # attrs) [change (PfType k)] []"

definition formLabel :: "string \<Rightarrow> PopupFormAct dom" where
  "formLabel t = el ''label'' [] [text_of t]"

definition popupEditor :: "(shown \<Rightarrow> jsstring) \<Rightarrow> bool \<Rightarrow> bool \<Rightarrow> PopupForm \<Rightarrow> PopupFormAct dom" where
  "popupEditor msg showPw busy f =
     (let item = pf_item f; isNew = (textField ''id'' item = []); disabled = only busy [at ''disabled'' '''']
      in shell True
        [el ''div'' [cls ''editor'']
           ([el ''h1'' [cls ''title left''] [text_of (if isNew then ''Add item'' else ''Edit item'')],
             formLabel ''Name'', formText item ''name'' [at ''placeholder'' ''GitHub'', at ''autoFocus'' '''']]
            @ only (isLogin item)
                [formLabel ''URL'', formText item ''url'' [at ''placeholder'' ''https://github.com''],
                 formLabel ''Username'', formText item ''username'' [at ''placeholder'' ''you@example.com''],
                 formLabel ''Password'',
                 el ''div'' [cls ''pwrow'']
                   [formText item ''password'' [at ''type'' (if showPw then ''text'' else ''password'')],
                    Elem ''button'' [at ''type'' ''button'', cls ''reveal''] [click PfReveal] [text_of (if showPw then ''Hide'' else ''Show'')]],
                 Elem ''button'' [at ''type'' ''button'', cls ''ghost full''] [click PfGenerate] [text_of ''Generate password''],
                 formLabel ''2FA secret (TOTP)'',
                 formText item ''totp'' [at ''placeholder'' ''base32 secret or otpauth:// URI'', at ''autoComplete'' ''off'', at ''spellCheck'' ''false'']]
            @ only (\<not> isLogin item)
                [el ''p'' [cls ''muted'']
                   [text_of ''This is a '', Txt (textField ''type'' item), text_of ''; edit its details in the web vault.'']]
            @ [formLabel ''Notes'', Elem ''textarea'' [(''value'', textField ''notes'' item), at ''rows'' ''2''] [change (PfType ''notes'')] []]
            @ errorLine msg (pf_error f)
            @ [el ''div'' [cls ''editor-actions'']
                 [Elem ''button'' (cls ''ghost'' # disabled) [click PfCancel] [text_of ''Cancel''],
                  Elem ''button'' (cls ''primary'' # disabled) [click PfSave] [text_of (if busy then ''Saving...'' else ''Save'')]]]
            @ only (\<not> isNew)
                [Elem ''button'' (cls ''ghost danger full'' # disabled) [click PfDelete] [text_of ''Delete item'']])])"

text \<open>Which of them is shown. \<open>busy\<close> is the hook of a request under way: \<open>busy\<close> in the forms, \<open>loading\<close> in the list.\<close>

datatype PopupPage = InUnlock UnlockAct | InList PopupAct | InForm PopupFormAct

definition popupView ::
  "'z platform_scheme \<Rightarrow> (shown \<Rightarrow> jsstring) \<Rightarrow> jsstring \<Rightarrow> bool \<Rightarrow> bool \<Rightarrow> jsstring \<Rightarrow> jsstring \<Rightarrow> UnlockForm \<Rightarrow> PopupForm \<Rightarrow> Popup
   \<Rightarrow> PopupPage dom" where
  "popupView P msg webVaultUrl showPw busy tabHost query uf pf pp =
     (if pp_locked pp then map_dom InUnlock (unlockView msg webVaultUrl showPw busy uf)
      else if pp_editing pp \<noteq> None then map_dom InForm (popupEditor msg showPw busy pf)
      else map_dom InList (popupList P msg busy tabHost query pp))"

section \<open>What an onlooker learns\<close>

text \<open>Items that differ only in what the popup's list is not to show: everything but type, name, address, user name and
  star, the beginning of a note (fifty characters of its first line), the last four digits of a card, the e-mail address and name
  of an identity, and whether there is a password and a secret of one-time codes.\<close>

definition popup_alike :: "jsval \<Rightarrow> jsval \<Rightarrow> bool" where
  "popup_alike a b \<longleftrightarrow> (\<forall>k \<in> set [''type'', ''name'', ''url'', ''username'']. textField k a = textField k b)
     \<and> boolField ''favorite'' a = boolField ''favorite'' b
     \<and> (textField ''type'' a = js ''note'' \<longrightarrow>
          take 50 (takeWhile (\<lambda>c. c \<noteq> 10) (textField ''notes'' a)) = take 50 (takeWhile (\<lambda>c. c \<noteq> 10) (textField ''notes'' b)))
     \<and> (textField ''type'' a = js ''card'' \<longrightarrow>
          lastDigits (subField ''card'' ''number'' a) = lastDigits (subField ''card'' ''number'' b))
     \<and> (textField ''type'' a = js ''identity'' \<longrightarrow> subField ''identity'' ''email'' a = subField ''identity'' ''email'' b
          \<and> subField ''identity'' ''fullName'' a = subField ''identity'' ''fullName'' b)
     \<and> (textField ''password'' a = [] \<longleftrightarrow> textField ''password'' b = []) \<and> (textField ''totp'' a = [] \<longleftrightarrow> textField ''totp'' b = [])"

lemma itemSub_alike: "popup_alike a b \<Longrightarrow> itemSub a = itemSub b"
  unfolding itemSub_def by (rule itemLine_alike) (simp_all add: popup_alike_def)

lemma list_all2_insort:
  assumes "list_all2 R xs ys" "R x y" "\<And>a b. R a b \<Longrightarrow> (f a :: nat) = f b"
  shows "list_all2 R (insort_key f x xs) (insort_key f y ys)"
  using assms(1) by (induction rule: list_all2_induct) (auto simp: assms(2) assms(3) [OF assms(2)] assms(3))

lemma list_all2_sort_key:
  assumes "list_all2 R xs ys" "\<And>a b. R a b \<Longrightarrow> (f a :: nat) = f b"
  shows "list_all2 R (sort_key f xs) (sort_key f ys)"
  using assms(1) by (induction rule: list_all2_induct) (auto simp: sort_key_def assms(2) intro!: list_all2_insort)

lemma listed_alike:
  assumes "list_all2 popup_alike (pp_items pp) items"
  shows "list_all2 popup_alike (popupListed P h q pp) (popupListed P h q (pp\<lparr>pp_items := items\<rparr>))"
  unfolding popupListed_def filteredItems_def sortedItems_def
  by (rule list_all2_filter_same, rule list_all2_sort_key) (use assms in \<open>simp_all add: popup_alike_def rank_def onPage_def\<close>)

lemma row_alike: "popup_alike a b \<Longrightarrow> blank (popupRow P h a) = blank (popupRow P h b)"
  using itemSub_alike [of a b] by (simp add: popupRow_def popup_alike_def avatar_def avatarHue_def avatarKey_def avatarInitial_def ghostButton_def
      marksSite_def isLogin_def onPage_def offersFill_def offersCode_def)

section \<open>What can be done\<close>

lemma formText_actions [simp]: "actions (formText item k attrs) = [PfType k]" "actions (formLabel t) = []"
  by (simp_all add: formText_def formLabel_def List.map_filter_def)

lemma errorLine_actions [simp]: "concat (map actions (errorLine msg e)) = []"
  by (cases e) (simp_all add: errorLine_def List.map_filter_def)

lemma shell_actions: "actions (shell pad kids) = concat (map actions kids)"
  by (simp add: shell_def lockMark_def List.map_filter_def)

lemma popupEditor_actions:
  "PfType k \<in> set (actions (popupEditor msg showPw busy f)) \<longleftrightarrow> popupShows k (pf_item f)"
  by (cases "isLogin (pf_item f)"; cases "textField ''id'' (pf_item f) = []")
    (auto simp: popupEditor_def shell_actions popupShows_def Let_def List.map_filter_def simp del: set_concat)

lemma popupEditor_password:
  assumes "Elem ''input'' attrs hs kids \<in> set (parts (popupEditor msg showPw busy f))" "change (PfType ''password'') \<in> set hs"
  shows "(''type'', js (if showPw then ''text'' else ''password'')) \<in> set attrs"
  using assms
  by (cases "isLogin (pf_item f)"; cases "textField ''id'' (pf_item f) = []"; cases "pf_error f")
    (auto simp: popupEditor_def shell_def lockMark_def formText_def formLabel_def errorLine_def Let_def)

lemma popupEditor_totp:
  assumes "Elem ''input'' attrs hs kids \<in> set (parts (popupEditor msg showPw busy f))" "change (PfType ''totp'') \<in> set hs"
  shows "(''value'', textField ''totp'' (pf_item f)) \<in> set attrs \<and> ''type'' \<notin> fst ` set attrs"
  using assms
  by (cases "isLogin (pf_item f)"; cases "textField ''id'' (pf_item f) = []"; cases "pf_error f")
    (auto simp: popupEditor_def shell_def lockMark_def formText_def formLabel_def errorLine_def Let_def)

text \<open>C40: what the list of the popup shows and offers, and what its form has. The list looks the same for two vaults that agree in
  the types, names, addresses, user names and stars of their items, in the lines under the names (of a note the beginning of its first line, of a
  card the last four digits, of an identity its e-mail address and name), and in which items have a password and which a secret of
  one-time codes: nothing else of an item is on it, not even the length of a password. Exactly a login with
  a password has a button that fills the page and one that copies the password, and exactly one with a secret of one-time codes a
  button that copies the code. The form has a text for the name and the notes, and for a login for
  address, user name, password and secret of one-time codes, and for nothing else; the password is masked there unless it has
  been revealed (the secret is not: the form shows it).\<close>

theorem popup_shows_only:
  assumes "list_all2 popup_alike (pp_items pp) items"
  shows "blank (popupList P msg loading tabHost query pp) = blank (popupList P msg loading tabHost query (pp\<lparr>pp_items := items\<rparr>))
    \<and> (PuFill i \<in> set (actions (popupRow P tabHost i)) \<longleftrightarrow> textField ''type'' i = js ''login'' \<and> textField ''password'' i \<noteq> [])
    \<and> (PuCopy l t \<in> set (actions (popupRow P tabHost i)) \<longleftrightarrow>
         textField ''type'' i = js ''login'' \<and> textField ''password'' i \<noteq> [] \<and> l = js ''password'' \<and> t = textField ''password'' i)
    \<and> (PuCode i \<in> set (actions (popupRow P tabHost i)) \<longleftrightarrow> textField ''type'' i = js ''login'' \<and> textField ''totp'' i \<noteq> [])
    \<and> (PfType k \<in> set (actions (popupEditor m showPw busy f)) \<longleftrightarrow> k \<in> {''name'', ''notes''}
         \<or> textField ''type'' (pf_item f) = js ''login'' \<and> k \<in> {''url'', ''username'', ''password'', ''totp''})
    \<and> (\<forall>attrs hs kids. Elem ''input'' attrs hs kids \<in> set (parts (popupEditor m showPw busy f))
         \<and> change (PfType ''password'') \<in> set hs \<longrightarrow> (''type'', js (if showPw then ''text'' else ''password'')) \<in> set attrs)
    \<and> (\<forall>attrs hs kids. Elem ''input'' attrs hs kids \<in> set (parts (popupEditor m showPw busy f))
         \<and> change (PfType ''totp'') \<in> set hs \<longrightarrow>
           (''value'', textField ''totp'' (pf_item f)) \<in> set attrs \<and> ''type'' \<notin> fst ` set attrs)"
proof (intro conjI)
  let ?pp = "pp\<lparr>pp_items := items\<rparr>"
  note l = listed_alike [OF assms, of P tabHost query]
  have "popupListed P tabHost query pp = [] \<longleftrightarrow> popupListed P tabHost query ?pp = []"
    using l by auto
  moreover have "map (\<lambda>i. blank (popupRow P tabHost i)) (popupListed P tabHost query pp) = map (\<lambda>i. blank (popupRow P tabHost i)) (popupListed P tabHost query ?pp)"
    by (rule list_all2_map_same [OF l row_alike])
  ultimately show "blank (popupList P msg loading tabHost query pp) = blank (popupList P msg loading tabHost query ?pp)"
    by (simp add: popupList_def shell_def split: option.split)
  show "PuFill i \<in> set (actions (popupRow P tabHost i)) \<longleftrightarrow> textField ''type'' i = js ''login'' \<and> textField ''password'' i \<noteq> []"
    "PuCopy l t \<in> set (actions (popupRow P tabHost i)) \<longleftrightarrow>
       textField ''type'' i = js ''login'' \<and> textField ''password'' i \<noteq> [] \<and> l = js ''password'' \<and> t = textField ''password'' i"
    "PuCode i \<in> set (actions (popupRow P tabHost i)) \<longleftrightarrow> textField ''type'' i = js ''login'' \<and> textField ''totp'' i \<noteq> []"
    by (auto simp: popupRow_def ghostButton_def avatar_def List.map_filter_def offersFill_def offersCode_def isLogin_def)
  show "PfType k \<in> set (actions (popupEditor m showPw busy f)) \<longleftrightarrow> k \<in> {''name'', ''notes''}
         \<or> textField ''type'' (pf_item f) = js ''login'' \<and> k \<in> {''url'', ''username'', ''password'', ''totp''}"
    unfolding popupEditor_actions popupShows_def isLogin_def ..
  show "\<forall>attrs hs kids. Elem ''input'' attrs hs kids \<in> set (parts (popupEditor m showPw busy f))
         \<and> change (PfType ''password'') \<in> set hs \<longrightarrow> (''type'', js (if showPw then ''text'' else ''password'')) \<in> set attrs"
    using popupEditor_password by blast
  show "\<forall>attrs hs kids. Elem ''input'' attrs hs kids \<in> set (parts (popupEditor m showPw busy f))
         \<and> change (PfType ''totp'') \<in> set hs \<longrightarrow>
           (''value'', textField ''totp'' (pf_item f)) \<in> set attrs \<and> ''type'' \<notin> fst ` set attrs"
    using popupEditor_totp by blast
qed

abbreviation shown_item :: "string \<Rightarrow> jsval" where
  "shown_item pw \<equiv> JObj [(js ''id'', JStr (js ''c1'')), (js ''type'', JStr (js ''login'')), (js ''name'', JStr (js ''Mail'')), (js ''password'', JStr (js pw))]"

theorem popup_shows_only_witness:
  "\<forall>P msg. let pp = freshPopup\<lparr>pp_items := [shown_item ''pw'']\<rparr>
     in blank (popupList P msg False [] [] pp) = blank (popupList P msg False [] [] (pp\<lparr>pp_items := [shown_item ''a longer one'']\<rparr>))
      \<and> PuFill (shown_item ''pw'') \<in> set (actions (popupRow P [] (shown_item ''pw'')))"
proof (intro allI)
  fix P :: "'z platform_scheme" and msg
  let ?pp = "freshPopup\<lparr>pp_items := [shown_item ''pw'']\<rparr>"
  have "list_all2 popup_alike (pp_items ?pp) [shown_item ''a longer one'']"
    by (simp add: popup_alike_def js_def)
  note s = popup_shows_only [OF this, of P msg False "[]" "[]" "shown_item ''pw''"]
  have "textField ''type'' (shown_item ''pw'') = js ''login'' \<and> textField ''password'' (shown_item ''pw'') \<noteq> []"
    by (simp add: js_def)
  with s show "let pp = ?pp
     in blank (popupList P msg False [] [] pp) = blank (popupList P msg False [] [] (pp\<lparr>pp_items := [shown_item ''a longer one'']\<rparr>))
      \<and> PuFill (shown_item ''pw'') \<in> set (actions (popupRow P [] (shown_item ''pw'')))"
    unfolding Let_def by blast
qed

end
