(* ===== verification/DesktopView.thy ===== *)
theory DesktopView
  imports Dom DesktopApp
begin

text \<open>
  What the desktop application renders (\<open>apps/desktop/src/App.tsx\<close> and \<open>VaultScreen.tsx\<close>): the start, unlock and create screens,
  and the vault with its detail pane and forms. \<open>msg\<close> is the text of a message; hooks that only the rendering reads are arguments.
\<close>

section \<open>The vault\<close>

datatype DetailAct = DdEdit | DdDelete | DdReveal | DdCopy jsstring jsstring

definition iconButton :: "'a \<Rightarrow> string \<Rightarrow> string \<Rightarrow> 'a dom" where
  "iconButton act title ic = Elem ''button'' [cls ''reveal icon-only'', at ''title'' title] [click act] [icon (js ic) 16]"

definition noValue :: "'a dom" where
  "noValue = el ''span'' [cls ''muted''] [Txt [8212]]"

definition detailRow :: "string \<Rightarrow> jsstring \<Rightarrow> 'a \<Rightarrow> 'a dom" where
  "detailRow label v act =
     el ''div'' [cls ''field'']
       [el ''label'' [] [text_of label],
        el ''div'' [cls ''field-row'']
          (el ''span'' [cls ''field-value ellipsis''] [if v \<noteq> [] then Txt v else noValue]
           # only (v \<noteq> []) [iconButton act ''Copy'' ''copy''])]"

text \<open>\<open>shown\<close> is the hook of the pane, which starts anew for another item.\<close>

definition deskDetail :: "bool \<Rightarrow> jsval \<Rightarrow> DetailAct dom" where
  "deskDetail shown item =
     (let pw = textField ''password'' item
      in el ''div'' [cls ''detail'']
        ([el ''div'' [cls ''detail-head'']
            [el ''h2'' [cls ''ellipsis''] [Txt (View.orElse (textField ''name'' item) (js ''(unnamed)''))],
             el ''div'' [cls ''row'']
               [Elem ''button'' [cls ''ghost''] [click DdEdit] [icon (js ''edit'') 16, text_of '' Edit''],
                Elem ''button'' [cls ''ghost danger''] [click DdDelete] [icon (js ''trash'') 16, text_of '' Delete'']]],
          detailRow ''Username'' (textField ''username'' item) (DdCopy (js ''username'') (textField ''username'' item)),
          el ''div'' [cls ''field'']
            [el ''label'' [] [text_of ''Password''],
             el ''div'' [cls ''field-row'']
               (el ''span'' [cls ''field-value mono'']
                  [if pw \<noteq> [] then Txt (if shown then pw else replicate 10 0x2022) else noValue]
                # only (pw \<noteq> [])
                    [iconButton DdReveal (if shown then ''Hide'' else ''Show'') (if shown then ''eyeOff'' else ''eye''),
                     iconButton (DdCopy (js ''password'') pw) ''Copy'' ''copy''])],
          detailRow ''URL'' (textField ''url'' item) (DdCopy (js ''URL'') (textField ''url'' item))]
         @ only (textField ''notes'' item \<noteq> [])
             [el ''div'' [cls ''field'']
                [el ''label'' [] [text_of ''Notes''], el ''div'' [cls ''notes''] [Txt (textField ''notes'' item)]]]))"

datatype VaultAct = VaAdd | VaPassword | VaLock | VaQuery | VaSelect jsval | VaDetail DetailAct | VaCancel | VaClosePassword

definition deskRow :: "jsstring option \<Rightarrow> jsval \<Rightarrow> VaultAct dom" where
  "deskRow selected item =
     Elem ''li'' [cls (if get_prop_opt item (js ''id'') = map_option JStr selected \<and> selected \<noteq> None then ''active'' else '''')]
       [click (VaSelect item)]
       [el ''div'' [cls ''item-name''] [Txt (View.orElse (textField ''name'' item) (js ''(unnamed)''))],
        el ''div'' [cls ''item-sub''] [Txt (View.orElse (textField ''username'' item) (textField ''url'' item))]]"

definition deskVault ::
  "'z jsenv_scheme \<Rightarrow> (jsstring \<Rightarrow> jsstring \<Rightarrow> int) \<Rightarrow> (shown \<Rightarrow> jsstring) \<Rightarrow> jsstring \<Rightarrow> bool \<Rightarrow> bool \<Rightarrow> DesktopVault \<Rightarrow> DesktopUI
   \<Rightarrow> VaultAct dom" where
  "deskVault J collate msg query showChangePw shown v u =
     (let found = listedItems J collate query (dv_items v)
      in el ''div'' [cls ''app-shell'']
        ([el ''header'' [cls ''topbar'']
            [el ''div'' [cls ''brand''] [icon (js ''lock'') 18, text_of '' '', el ''span'' [] [text_of ''passwd'']],
             el ''span'' [cls ''vault-name ellipsis'', (''title'', dv_path v)] [Txt (basename (dv_path v))],
             el ''div'' [cls ''topbar-actions'']
               [Elem ''button'' [cls ''ghost''] [click VaAdd] [text_of ''+ Add''],
                Elem ''button'' [cls ''ghost''] [click VaPassword] [icon (js ''settings'') 16, text_of '' Password''],
                el ''ThemeToggle'' [] [],
                Elem ''button'' [cls ''ghost''] [click VaLock] [icon (js ''lock'') 16, text_of '' Lock'']]]]
         @ (case ui_error u of None \<Rightarrow> [] | Some e \<Rightarrow> only (msg e \<noteq> []) [el ''div'' [cls ''error toperror''] [Txt (msg e)]])
         @ [el ''div'' [cls ''panes'']
              [el ''section'' [cls ''list-pane'']
                 [el ''div'' [cls ''search-row'']
                    [icon (js ''search'') 16, Elem ''input'' [at ''placeholder'' ''Search'', (''value'', query)] [change VaQuery] []],
                  if found = []
                  then el ''p'' [cls ''muted empty''] [text_of ''No items'', text_of (if query \<noteq> [] then '' match'' else '' yet''), text_of ''.'']
                  else el ''ul'' [cls ''items''] (map (deskRow (ui_selected u)) found)],
               el ''section'' [cls ''detail-pane'']
                 [case selectedItemUI u of
                    Some item \<Rightarrow> map_dom VaDetail (deskDetail shown item)
                  | None \<Rightarrow>
                      el ''div'' [cls ''detail-empty'']
                        [icon (js ''lock'') 30, el ''p'' [cls ''muted''] [text_of ''Select an item to view its details.'']]]]]
         @ only (ui_editing u \<noteq> None) [Elem ''ItemEditor'' [] [(''onCancel'', Some VaCancel)] []]
         @ only showChangePw [Elem ''ChangePassword'' [] [(''onClose'', Some VaClosePassword)] []]
         @ (case ui_toast u of None \<Rightarrow> [] | Some t \<Rightarrow> only (t \<noteq> []) [el ''div'' [cls ''toast''] [Txt t]])))"

section \<open>The forms of the vault\<close>

datatype DeskFormAct = DfType string | DfGenerate | DfCancel | DfSave

definition deskText :: "jsval \<Rightarrow> string \<Rightarrow> string \<Rightarrow> DeskFormAct dom" where
  "deskText item k placeholder =
     Elem ''input'' [(''value'', textField k item), at ''placeholder'' placeholder] [change (DfType k)] []"

definition deskLabel :: "string \<Rightarrow> 'a dom" where
  "deskLabel t = el ''label'' [] [text_of t]"

definition deskEditor :: "(shown \<Rightarrow> jsstring) \<Rightarrow> shown option \<Rightarrow> jsval \<Rightarrow> DeskFormAct dom" where
  "deskEditor msg err item =
     modal DfCancel [text_of (if textField ''id'' item = [] then ''Add item'' else ''Edit item'')]
       ([deskLabel ''Name'',
         Elem ''input'' [(''value'', textField ''name'' item), at ''placeholder'' ''GitHub'', at ''autoFocus'' ''''] [change (DfType ''name'')] [],
         deskLabel ''URL'', deskText item ''url'' ''https://github.com'',
         deskLabel ''Username'', deskText item ''username'' ''you@example.com'',
         deskLabel ''Password'',
         el ''div'' [cls ''pwfield'']
           [deskText item ''password'' ''password'',
            Elem ''button'' [at ''type'' ''button'', cls ''reveal icon-only'', at ''title'' ''Generate a strong password''] [click DfGenerate]
              [icon (js ''dice'') 18]],
         deskLabel ''Notes'',
         Elem ''textarea'' [(''value'', textField ''notes'' item), at ''rows'' ''3''] [change (DfType ''notes'')] []]
        @ errorLine msg err
        @ [rowEnd [ghost DfCancel ''Cancel'', asyncButton ''primary'' False (Some ''Saving'') (Some ''Saved'') DfSave ''Save'']])"

datatype ChangeAct = CpPassword | CpConfirm | CpClose | CpChange

definition passwordField :: "jsstring \<Rightarrow> 'a \<Rightarrow> string \<Rightarrow> bool \<Rightarrow> 'a dom" where
  "passwordField v act placeholder focus =
     Elem ''PasswordField'' ([(''value'', v), at ''placeholder'' placeholder] @ only focus [at ''autoFocus'' '''']) [change act] []"

definition changePasswordView :: "(shown \<Rightarrow> jsstring) \<Rightarrow> jsstring \<Rightarrow> jsstring \<Rightarrow> shown option \<Rightarrow> ChangeAct dom" where
  "changePasswordView msg pw confirm err =
     modal CpClose [text_of ''Change master password'']
       ([muted [text_of ''Re-keys this vault file. Items are not re-encrypted, only the wrapping key.''],
         deskLabel ''New master password'', passwordField pw CpPassword ''at least 12 characters'' True,
         deskLabel ''Confirm'', passwordField confirm CpConfirm ''type it again'' False]
        @ errorLine msg err
        @ [rowEnd [ghost CpClose ''Cancel'',
             asyncButton ''primary'' False (Some ''Re-keying'') (Some ''Changed'') CpChange ''Change password'']])"

section \<open>The screens without a vault\<close>

datatype StartAct = StRecent "jsval option" | StClear | StOpen | StNew | StBack | StPassword | StConfirm | StSubmit

definition toolbar :: "'a dom" where
  "toolbar = el ''div'' [cls ''auth-toolbar''] [el ''ThemeToggle'' [] []]"

definition brandRow :: "string \<Rightarrow> 'a dom" where
  "brandRow title = el ''div'' [cls ''brand-row''] [icon (js ''lock'') 22, el ''h1'' [] [text_of title]]"

definition recentRow :: "jsval \<Rightarrow> StartAct dom" where
  "recentRow r =
     el ''li'' []
       [Elem ''button'' [cls ''recent-item'', (''title'', textField ''path'' r)] [click (StRecent (get_prop_opt r (js ''path'')))]
          [icon (js ''lock'') 16, el ''span'' [cls ''recent-name''] [Txt (textField ''name'' r)],
           el ''span'' [cls ''recent-path''] [Txt (textField ''path'' r)]]]"

definition startView :: "(shown \<Rightarrow> jsstring) \<Rightarrow> jsval list \<Rightarrow> shown option \<Rightarrow> StartAct dom" where
  "startView msg rs err =
     el ''div'' [cls ''center'']
       [toolbar,
        el ''div'' [cls ''card auth'']
          ([brandRow ''passwd'', muted [text_of ''Offline vault. Your passwords stay in one encrypted file.'']]
           @ only (rs \<noteq> [])
               [deskLabel ''Recent vaults'', el ''ul'' [cls ''recent-list''] (map recentRow rs),
                Elem ''button'' [cls ''linklike''] [click StClear] [text_of ''Clear recent list'']]
           @ errorLine msg err
           @ [el ''div'' [cls ''row'']
                [Elem ''button'' [cls ''primary full''] [click StOpen] [text_of ''Open vault...''],
                 Elem ''button'' [cls ''ghost full''] [click StNew] [text_of ''New vault...'']],
              el ''p'' [cls ''fineprint'']
                [text_of ''The vault is a single '', el ''code'' [] [text_of ''.passwd''],
                 text_of '' file you can keep anywhere, including a USB stick. There is no account, no server, and no password reset.'']])]"

definition backLink :: "string \<Rightarrow> StartAct dom" where
  "backLink label = Elem ''button'' [cls ''back-link''] [click StBack] [icon (js ''arrowLeft'') 16, text_of label]"

definition submitButton :: "bool \<Rightarrow> string \<Rightarrow> string \<Rightarrow> 'a dom" where
  "submitButton busy working label =
     el ''button'' (cls ''primary'' # only busy [at ''disabled'' ''''] @ [at ''type'' ''submit''])
       (only busy [el ''span'' [cls ''spinner''] []] @ [el ''span'' [] [text_of (if busy then working else label)]])"

definition pathLine :: "jsstring \<Rightarrow> 'a dom" where
  "pathLine path = el ''p'' [cls ''muted ellipsis'', (''title'', path)] [Txt path]"

definition unlockDesk :: "(shown \<Rightarrow> jsstring) \<Rightarrow> jsstring \<Rightarrow> jsstring \<Rightarrow> bool \<Rightarrow> shown option \<Rightarrow> StartAct dom" where
  "unlockDesk msg path password busy err =
     el ''div'' [cls ''center'']
       [toolbar, backLink ''Choose another vault'',
        Elem ''form'' [cls ''card auth''] [(''onSubmit'', Some StSubmit)]
          ([brandRow ''Unlock'', pathLine path, deskLabel ''Master password'',
            passwordField password StPassword ''your master password'' False]
           @ errorLine msg err @ [submitButton busy ''Unlocking'' ''Unlock''])]"

definition createDesk :: "(shown \<Rightarrow> jsstring) \<Rightarrow> jsstring \<Rightarrow> jsstring \<Rightarrow> jsstring \<Rightarrow> bool \<Rightarrow> shown option \<Rightarrow> StartAct dom" where
  "createDesk msg path password confirm busy err =
     el ''div'' [cls ''center'']
       [toolbar, backLink ''Back'',
        Elem ''form'' [cls ''card auth''] [(''onSubmit'', Some StSubmit)]
          ([brandRow ''New vault'', pathLine path, deskLabel ''Master password'',
            passwordField password StPassword ''at least 12 characters'' False, deskLabel ''Confirm master password'',
            passwordField confirm StConfirm ''type it again'' False]
           @ errorLine msg err
           @ [submitButton busy ''Creating'' ''Create vault'',
              el ''p'' [cls ''fineprint''] [text_of ''There is no recovery. If you lose this password the vault cannot be opened.'']])]"

text \<open>Which screen is shown: the vault as soon as there is one.\<close>

datatype AppAct = InVault VaultAct | InStart StartAct

record DeskHooks =
  dk_query :: jsstring
  dk_changing :: bool
  dk_shown :: bool
  dk_recents :: "jsval list"
  dk_password :: jsstring
  dk_confirm :: jsstring
  dk_busy :: bool
  dk_error :: "shown option"

text \<open>Typing into the forms and the search field.\<close>

fun deskTyped :: "StartAct \<Rightarrow> jsstring \<Rightarrow> DeskHooks \<Rightarrow> DeskHooks" where
  "deskTyped StPassword t h = h\<lparr>dk_password := t\<rparr>"
| "deskTyped StConfirm t h = h\<lparr>dk_confirm := t\<rparr>"
| "deskTyped _ t h = h"

definition deskApp :: "'z jsenv_scheme \<Rightarrow> (jsstring \<Rightarrow> jsstring \<Rightarrow> int) \<Rightarrow> (shown \<Rightarrow> jsstring) \<Rightarrow> DeskHooks \<Rightarrow> DesktopUI \<Rightarrow> AppAct dom" where
  "deskApp J collate msg h u =
     (case ui_vault u of
        Some v \<Rightarrow> map_dom InVault (deskVault J collate msg (dk_query h) (dk_changing h) (dk_shown h) v u)
      | None \<Rightarrow>
          (case ui_screen u of
             Boot \<Rightarrow> el ''div'' [cls ''center''] [el ''span'' [cls ''spinner''] []]
           | UnlockAt path \<Rightarrow> map_dom InStart (unlockDesk msg path (dk_password h) (dk_busy h) (dk_error h))
           | CreateAt path \<Rightarrow> map_dom InStart (createDesk msg path (dk_password h) (dk_confirm h) (dk_busy h) (dk_error h))
           | Start \<Rightarrow> map_dom InStart (startView msg (dk_recents h) (dk_error h))))"

section \<open>What an onlooker learns\<close>

text \<open>Items of a vault file that differ in their passwords only.\<close>

definition desk_alike :: "jsval \<Rightarrow> jsval \<Rightarrow> bool" where
  "desk_alike a b \<longleftrightarrow> get_prop_opt a (js ''id'') = get_prop_opt b (js ''id'')
     \<and> (\<forall>k \<in> set [''name'', ''username'', ''url'', ''notes'']. textField k a = textField k b)
     \<and> (textField ''password'' a = [] \<longleftrightarrow> textField ''password'' b = [])"

lemma deskDetail_alike: "desk_alike a b \<Longrightarrow> blank (deskDetail False a) = blank (deskDetail False b)"
  by (simp add: deskDetail_def desk_alike_def detailRow_def iconButton_def noValue_def Let_def)

lemma deskRow_alike: "desk_alike a b \<Longrightarrow> blank (deskRow s a) = blank (deskRow s b)"
  by (simp add: deskRow_def desk_alike_def)

lemma listedItems_alike:
  assumes "list_all2 desk_alike xs ys"
  shows "list_all2 desk_alike (listedItems J collate q xs) (listedItems J collate q ys)"
  unfolding listedItems_def foundItems_def Let_def
  by (rule list_all2_sortBy, rule list_all2_filter_same [OF assms]) (simp_all add: desk_alike_def)

lemma selectedItemUI_alike:
  assumes "list_all2 desk_alike (dv_items v) items" "ui_vault u = Some v"
  shows "rel_option desk_alike (selectedItemUI u) (selectedItemUI (u\<lparr>ui_vault := Some (v\<lparr>dv_items := items\<rparr>)\<rparr>))"
  using assms(2) list_all2_find [OF assms(1)] by (simp add: selectedItemUI_def desk_alike_def)

lemma deskVault_alike:
  assumes "list_all2 desk_alike (dv_items v) items" "ui_vault u = Some v"
  shows "blank (deskVault J collate msg query ch False v u)
    = blank (deskVault J collate msg query ch False (v\<lparr>dv_items := items\<rparr>) (u\<lparr>ui_vault := Some (v\<lparr>dv_items := items\<rparr>)\<rparr>))"
proof -
  let ?v = "v\<lparr>dv_items := items\<rparr>"
  let ?u = "u\<lparr>ui_vault := Some ?v\<rparr>"
  have l: "list_all2 desk_alike (listedItems J collate query (dv_items v)) (listedItems J collate query items)"
    by (rule listedItems_alike) (rule assms(1))
  then have e: "listedItems J collate query (dv_items v) = [] \<longleftrightarrow> listedItems J collate query items = []"
    by auto
  have d: "blank (case selectedItemUI u of Some item \<Rightarrow> map_dom VaDetail (deskDetail False item) | None \<Rightarrow> x)
      = blank (case selectedItemUI ?u of Some item \<Rightarrow> map_dom VaDetail (deskDetail False item) | None \<Rightarrow> x)" for x
    using selectedItemUI_alike [OF assms] by (cases "selectedItemUI u"; cases "selectedItemUI ?u") (auto simp: deskDetail_alike)
  have "map (\<lambda>i. blank (deskRow (ui_selected u) i)) (listedItems J collate query (dv_items v))
      = map (\<lambda>i. blank (deskRow (ui_selected u) i)) (listedItems J collate query items)"
    by (rule list_all2_map_same [OF l deskRow_alike])
  then show ?thesis
    unfolding deskVault_def Let_def using e d by (simp split: option.split)
qed

section \<open>What can be done\<close>

lemma deskEditor_types: "DfType k \<in> set (actions (deskEditor msg err item)) \<longleftrightarrow> k \<in> set DESK_TEXTS"
  by (cases err) (auto simp: deskEditor_def modal_def deskText_def deskLabel_def rowEnd_def ghost_def asyncButton_def errorLine_def
      DESK_TEXTS_def List.map_filter_def simp del: set_concat)

lemma deskRow_clicks: "clicks (deskRow s i) = [([VaSelect i], False)]"
  by (simp add: deskRow_def)

text \<open>The desktop application shows of its vault what it may. While the password of the selected item is not revealed, the screen
  looks the same for two vaults whose items differ in their passwords only (so that not even their lengths can be seen); once the vault is
  locked, the application shows the unlock form of its file, whatever the vault held and whatever was selected, edited
  or reported; and the form of an item has a text for exactly the fields that its edits may touch.\<close>

theorem desktop_shows_only:
  assumes "list_all2 desk_alike (dv_items v) items" "ui_vault u = Some v" "\<not> dk_shown h"
  shows "blank (deskApp J collate msg h u) = blank (deskApp J collate msg h (u\<lparr>ui_vault := Some (v\<lparr>dv_items := items\<rparr>)\<rparr>))
    \<and> deskApp J collate msg h (lockVault u)
        = map_dom InStart (unlockDesk msg (dv_path v) (dk_password h) (dk_busy h) (dk_error h))
    \<and> (DfType k \<in> set (actions (deskEditor m err item)) \<longleftrightarrow> k \<in> set DESK_TEXTS)"
proof (intro conjI)
  show "blank (deskApp J collate msg h u) = blank (deskApp J collate msg h (u\<lparr>ui_vault := Some (v\<lparr>dv_items := items\<rparr>)\<rparr>))"
    using deskVault_alike [OF assms(1,2)] assms(2,3) by (simp add: deskApp_def)
  show "deskApp J collate msg h (lockVault u) = map_dom InStart (unlockDesk msg (dv_path v) (dk_password h) (dk_busy h) (dk_error h))"
    using assms(2) by (simp add: deskApp_def lockVault_def)
qed (rule deskEditor_types)

abbreviation desk_item :: "string \<Rightarrow> jsval" where
  "desk_item pw \<equiv> JObj [(js ''id'', JStr (js ''a'')), (js ''name'', JStr (js ''Mail'')), (js ''username'', JStr []), (js ''password'', JStr (js pw)),
     (js ''url'', JStr []), (js ''notes'', JStr [])]"

abbreviation quiet_hooks :: DeskHooks where
  "quiet_hooks \<equiv> \<lparr>dk_query = [], dk_changing = False, dk_shown = False, dk_recents = [], dk_password = [], dk_confirm = [], dk_busy = False,
     dk_error = None\<rparr>"

theorem desktop_shows_only_witness:
  "\<forall>st J msg. let v = \<lparr>dv_path = js ''/v.passwd'', dv_state = st, dv_items = [desk_item ''pw'']\<rparr>;
       u = initialUI\<lparr>ui_vault := Some v, ui_selected := Some (js ''a'')\<rparr>
     in blank (deskApp J (\<lambda>a b. 0) msg quiet_hooks u)
      = blank (deskApp J (\<lambda>a b. 0) msg quiet_hooks (u\<lparr>ui_vault := Some (v\<lparr>dv_items := [desk_item ''a longer one'']\<rparr>)\<rparr>))"
proof (intro allI)
  fix st and J :: "'z jsenv_scheme" and msg
  let ?v = "\<lparr>dv_path = js ''/v.passwd'', dv_state = st, dv_items = [desk_item ''pw'']\<rparr>"
  let ?u = "initialUI\<lparr>ui_vault := Some ?v, ui_selected := Some (js ''a'')\<rparr>"
  have "list_all2 desk_alike (dv_items ?v) [desk_item ''a longer one'']" "ui_vault ?u = Some ?v" "\<not> dk_shown quiet_hooks"
    by (simp_all add: desk_alike_def get_prop_opt_def own_props_def js_def)
  from desktop_shows_only [OF this, of J "\<lambda>a b. 0" msg, THEN conjunct1] show "let v = ?v; u = initialUI\<lparr>ui_vault := Some v, ui_selected := Some (js ''a'')\<rparr>
     in blank (deskApp J (\<lambda>a b. 0) msg quiet_hooks u)
      = blank (deskApp J (\<lambda>a b. 0) msg quiet_hooks (u\<lparr>ui_vault := Some (v\<lparr>dv_items := [desk_item ''a longer one'']\<rparr>)\<rparr>))"
    unfolding Let_def .
qed

end
