(* ===== verification/Components.thy ===== *)
theory Components
  imports Dom Button
begin

text \<open>
  What the small components of the web vault and the desktop application render (\<open>components/PasswordField.tsx\<close>,
  \<open>AsyncButton.tsx\<close>, \<open>ThemeToggle.tsx\<close>, \<open>Icon.tsx\<close>); in the views of the screens they are elements of their names.
\<close>

section \<open>The password field\<close>

datatype FieldAct = FieldTyped | FieldToggled

text \<open>\<open>shown\<close> is the hook; an attribute without a value is not there.\<close>

definition passwordInput :: "bool \<Rightarrow> jsstring \<Rightarrow> jsstring option \<Rightarrow> bool \<Rightarrow> jsstring option \<Rightarrow> FieldAct dom" where
  "passwordInput shown v placeholder autoFocus autoComplete =
     el ''div'' [cls ''pwfield'']
       [Elem ''input''
          ([at ''type'' (if shown then ''text'' else ''password''), (''value'', v)]
           @ (case placeholder of None \<Rightarrow> [] | Some t \<Rightarrow> [(''placeholder'', t)])
           @ only autoFocus [at ''autoFocus'' '''']
           @ [(''autoComplete'', case autoComplete of None \<Rightarrow> js ''off'' | Some t \<Rightarrow> t)])
          [change FieldTyped] [],
        Elem ''button'' [at ''type'' ''button'', cls ''reveal'', at ''aria-label'' (if shown then ''Hide password'' else ''Show password'')]
          [click FieldToggled]
          [icon (js (if shown then ''eyeOff'' else ''eye'')) 16, text_of (if shown then ''Hide'' else ''Show'')]]"

section \<open>The button of an asynchronous action\<close>

definition buttonClass :: "string \<Rightarrow> bool \<Rightarrow> ButtonState \<Rightarrow> jsstring" where
  "buttonClass variant danger st =
     join [32] (filter (\<lambda>t. t \<noteq> []) [js variant, js (if danger then ''danger'' else ''''), js (if st = Success then ''success'' else '''')])"

definition buttonLabel :: "jsstring option \<Rightarrow> jsstring option \<Rightarrow> ButtonState \<Rightarrow> unit dom list \<Rightarrow> unit dom list" where
  "buttonLabel loading success st kids =
     (case st of
        Loading \<Rightarrow> [Txt (case loading of None \<Rightarrow> js ''Working'' | Some l \<Rightarrow> l)]
      | Success \<Rightarrow> [Txt (case success of None \<Rightarrow> js ''Done'' | Some l \<Rightarrow> l)]
      | Idle \<Rightarrow> kids)"

definition asyncView :: "string \<Rightarrow> bool \<Rightarrow> jsstring option \<Rightarrow> jsstring option \<Rightarrow> unit dom list \<Rightarrow> Button \<Rightarrow> unit dom" where
  "asyncView variant danger loading success kids b =
     (let st = ab_state b
      in Elem ''button''
        ([at ''type'' ''button'', (''className'', buttonClass variant danger st)] @ only (st = Loading) [at ''disabled'' ''''])
        [click ()]
        (only (st = Loading) [el ''span'' [cls ''spinner''] []] @ only (st = Success) [icon (js ''check'') 16]
         @ [el ''span'' [] (buttonLabel loading success st kids)]))"

section \<open>The theme switch\<close>

definition themeSvg :: "string \<Rightarrow> unit dom list \<Rightarrow> unit dom" where
  "themeSvg c kids =
     el ''svg''
       [cls c, at ''xmlns'' ''http://www.w3.org/2000/svg'', at ''width'' ''18'', at ''height'' ''18'', at ''viewBox'' ''0 0 24 24'',
        at ''fill'' ''none'', at ''stroke'' ''currentColor'', at ''strokeWidth'' ''2'', at ''strokeLinecap'' ''round'',
        at ''strokeLinejoin'' ''round'', at ''aria-hidden'' ''true''] kids"

definition themeView :: "Theme \<Rightarrow> unit dom" where
  "themeView t =
     Elem ''button''
       [at ''type'' ''button'', cls ''theme-toggle'', at ''aria-label'' ''Toggle dark mode'',
        at ''aria-pressed'' (if th_dark t then ''true'' else ''false'')]
       [click ()]
       [themeSvg ''sun''
          [el ''circle'' [at ''cx'' ''12'', at ''cy'' ''12'', at ''r'' ''4''] [],
           el ''path'' [at ''d'' ''M12 2v2M12 20v2M4.9 4.9l1.4 1.4M17.7 17.7l1.4 1.4M2 12h2M20 12h2M4.9 19.1l1.4-1.4M17.7 6.3l1.4-1.4''] []],
        themeSvg ''moon'' [el ''path'' [at ''d'' ''M21 12.8A9 9 0 1111.2 3a7 7 0 009.8 9.8z''] []]]"

section \<open>Icons\<close>

text \<open>The segments of a path: it is cut before every move but the first. The drawings are data, the argument \<open>paths\<close>.\<close>

fun moves :: "jsstring \<Rightarrow> jsstring list" where
  "moves (c # d # s) =
     (if c = 32 \<and> d = 77 then [] # moves s
      else case moves (d # s) of [] \<Rightarrow> [[c]] | m # ms \<Rightarrow> (c # m) # ms)"
| "moves s = [s]"

definition iconView :: "(jsstring \<Rightarrow> jsstring option) \<Rightarrow> jsstring \<Rightarrow> nat \<Rightarrow> unit dom" where
  "iconView paths name n =
     el ''svg''
       [at ''xmlns'' ''http://www.w3.org/2000/svg'', (''width'', nat_str n), (''height'', nat_str n), at ''viewBox'' ''0 0 24 24'',
        at ''fill'' ''none'', at ''stroke'' ''currentColor'', at ''strokeWidth'' ''2'', at ''strokeLinecap'' ''round'',
        at ''strokeLinejoin'' ''round'', at ''aria-hidden'' ''true'']
       (map (\<lambda>(i, seg). el ''path'' [(''d'', if i = 0 then seg else 77 # seg)] [])
          (enumerate (0 :: nat) (moves (case paths name of None \<Rightarrow> [] | Some d \<Rightarrow> d))))"

section \<open>Facts\<close>

text \<open>Joined again by the text they were cut at, the segments are the path.\<close>

lemma join_grow: "join sep ((c # x) # xs) = c # join sep (x # xs)"
  by (cases xs) simp_all

lemma moves_join: "join [32, 77] (moves s) = s"
proof (induction s rule: moves.induct)
  case (1 c d s)
  have ne: "moves t \<noteq> []" for t
    by (induction t rule: moves.induct) (auto split: list.split)
  then show ?case
    using 1 by (cases "moves (d # s)"; cases "moves s") (auto simp: join_grow)
qed simp_all

text \<open>The button takes clicks unless its action runs, and its class is made of what applies.\<close>

lemma async_clicks: "[()] \<in> click_actions [asyncView variant danger ld sc [] b] \<longleftrightarrow> ab_state b \<noteq> Loading"
  by (cases "ab_state b") (auto simp: asyncView_def click_actions_def buttonLabel_def)

end
