(* ===== verification/ContentScript.thy ===== *)
theory ContentScript
  imports Content
begin

text \<open>
  The life of the content script (\<open>apps/extension/entrypoints/content.ts\<close>) in a tab: the addresses it runs on, its two
  listeners, and what it does to the page and sends while the user, the page and the popup act in any order.
\<close>

text \<open>\<open>matches\<close>, on the address of a page as the browser serialises it.\<close>

definition runsOn :: "jsstring \<Rightarrow> bool" where
  "runsOn href \<longleftrightarrow> startsWith href (js ''http://'') \<or> startsWith href (js ''https://'')"

text \<open>A message for the tab (\<open>None\<close> for one that is no \<open>fill\<close>), a form or the document being submitted, and whatever the
  user and the scripts of the page do to the page.\<close>

datatype TabEvent = Message "FillMessage option" | Submitted "nat option" | Page "input_el list"

record Tab =
  tb_page :: "input_el list"
  tb_sent :: "BgRequest list"
  tb_replies :: "bool option list" \<comment> \<open>\<open>None\<close>: the listener threw, which rejects the sender's promise\<close>

definition tabStep :: "jsstring \<Rightarrow> TabEvent \<Rightarrow> Tab \<Rightarrow> Tab" where
  "tabStep href e tab =
     (case e of
        Page page \<Rightarrow> tab\<lparr>tb_page := page\<rparr>
      | Message msg \<Rightarrow>
          if runsOn href
          then (case onFill msg (tb_page tab) of
              None \<Rightarrow> tab\<lparr>tb_replies := tb_replies tab @ [None]\<rparr>
            | Some (reply, page) \<Rightarrow> tab\<lparr>tb_page := page,
                tb_replies := tb_replies tab @ (case reply of None \<Rightarrow> [] | Some ok \<Rightarrow> [Some ok])\<rparr>)
          else tab
      | Submitted scope \<Rightarrow>
          if runsOn href
          then (case captureFrom href scope (tb_page tab) of
              None \<Rightarrow> tab | Some r \<Rightarrow> tab\<lparr>tb_sent := tb_sent tab @ [r]\<rparr>)
          else tab)"

definition runTab :: "jsstring \<Rightarrow> TabEvent list \<Rightarrow> Tab \<Rightarrow> Tab" where
  "runTab href es tab = fold (tabStep href) es tab"

lemma runTab_simps [simp]:
  "runTab href [] tab = tab" "runTab href (es @ [e]) tab = tabStep href e (runTab href es tab)"
  by (simp_all add: runTab_def)

text \<open>What a listener may do: a request is one for a password that is in the page, submitted from an address the script runs on;
  texts change in at most the two fields of a login, and no element comes or goes.\<close>

definition captured_from :: "jsstring \<Rightarrow> input_el list \<Rightarrow> BgRequest \<Rightarrow> bool" where
  "captured_from href page r \<longleftrightarrow> runsOn href
     \<and> (\<exists>user. \<exists>e \<in> set page. password_input e \<and> el_text e \<noteq> [] \<and> r = CaptureLogin href user (el_text e))"

lemma captureFrom_from:
  assumes "captureFrom href scope page = Some r" "runsOn href"
  shows "captured_from href page r"
proof -
  obtain i where i: "querySelector password_input scope page = Some i"
    using assms by (auto simp: captureFrom_def split: option.splits)
  then have "page ! i \<in> set page \<and> password_input (page ! i)"
    using querySelector_bound by (metis nth_mem)
  with assms i show ?thesis
    by (auto simp: captureFrom_def captured_from_def split: if_splits)
qed

definition attributes :: "input_el \<Rightarrow> input_el" where
  "attributes e = e\<lparr>el_text := []\<rparr>"

lemma withText_attributes [simp]: "map attributes (withText page i v) = map attributes page"
  by (cases "i < length page") (auto simp: withText_def attributes_def map_update list_update_beyond intro!: list_update_same_conv [THEN iffD2])

lemma fill_attributes: "fillLoginForm u p page = Some (ok, page') \<Longrightarrow> map attributes page' = map attributes page"
  by (auto simp: fillLoginForm_def setValue_def split: option.splits if_splits)

lemma fill_reply: "fillLoginForm u p page = Some (ok, page') \<Longrightarrow> ok \<longleftrightarrow> (\<exists>e \<in> set page. password_input e)"
  using first_index_None [of "\<lambda>e. in_scope None e \<and> password_input e" page]
  by (auto simp: fillLoginForm_def querySelector_def in_scope_def split: option.splits)

definition is_fill :: "TabEvent \<Rightarrow> bool" where
  "is_fill e \<longleftrightarrow> (\<exists>m. e = Message (Some m))"

definition is_submit :: "TabEvent \<Rightarrow> bool" where
  "is_submit e \<longleftrightarrow> (\<exists>s. e = Submitted s)"

lemma kind_simps [simp]:
  "is_fill (Message m) \<longleftrightarrow> m \<noteq> None" "\<not> is_fill (Submitted s)" "\<not> is_fill (Page p)"
  "is_submit (Submitted s)" "\<not> is_submit (Message m)" "\<not> is_submit (Page p)"
  by (auto simp: is_fill_def is_submit_def)

text \<open>The script does nothing unasked. Whatever happens in a tab, every request it sends is the capture of a password that
  stood in a password field of the page when a form was submitted, under the address of the page, and there is no more than one for each
  submission; a message is answered when it is a \<open>fill\<close> and only then, and the answer, if the filling does not throw, says whether
  there was a password field;
  a step that is no \<open>fill\<close> and not the page's own leaves the page as it is, and a \<open>fill\<close> changes texts only; and
  on any other kind of address it neither writes nor sends.\<close>

theorem content_script_discreet:
  fixes t :: Tab
  assumes t: "tb_sent t = []" "tb_replies t = []"
  shows "(\<forall>r \<in> set (tb_sent (runTab href es t)).
        \<exists>es1 s es2. es = es1 @ Submitted s # es2 \<and> captured_from href (tb_page (runTab href es1 t)) r)
    \<and> length (tb_sent (runTab href es t)) \<le> length (filter is_submit es)
    \<and> length (tb_replies (runTab href es t)) = (if runsOn href then length (filter is_fill es) else 0)
    \<and> ((\<forall>page. e \<noteq> Page page) \<longrightarrow> map attributes (tb_page (tabStep href e t)) = map attributes (tb_page t)
        \<and> (\<not> (is_fill e \<and> runsOn href) \<longrightarrow> tb_page (tabStep href e t) = tb_page t)
        \<and> (\<not> runsOn href \<longrightarrow> tabStep href e t = t))
    \<and> (runsOn href \<longrightarrow> (\<exists>r. tb_replies (tabStep href (Message (Some m)) t) = [r]
        \<and> (r = None \<or> r = Some (\<exists>x \<in> set (tb_page t). password_input x))))"
proof (intro conjI impI ballI)
  fix r assume "r \<in> set (tb_sent (runTab href es t))"
  then show "\<exists>es1 s es2. es = es1 @ Submitted s # es2 \<and> captured_from href (tb_page (runTab href es1 t)) r"
  proof (induction es rule: rev_induct)
    case (snoc e es)
    show ?case
    proof (cases "r \<in> set (tb_sent (runTab href es t))")
      case True
      then show ?thesis
        using snoc.IH by (metis append.assoc append_Cons)
    next
      case False
      then obtain s where "e = Submitted s" "runsOn href" "captureFrom href s (tb_page (runTab href es t)) = Some r"
        using snoc.prems by (auto simp: tabStep_def split: TabEvent.splits if_splits option.splits prod.splits)
      then show ?thesis
        using captureFrom_from by blast
    qed
  qed (simp add: t)
next
  show "length (tb_sent (runTab href es t)) \<le> length (filter is_submit es)"
    by (induction es rule: rev_induct)
      (auto simp: t tabStep_def split: TabEvent.split option.split prod.split)
  show "length (tb_replies (runTab href es t)) = (if runsOn href then length (filter is_fill es) else 0)"
    by (induction es rule: rev_induct)
      (auto simp: t tabStep_def onFill_def split: TabEvent.split option.split prod.split)
  show "map attributes (tb_page (tabStep href e t)) = map attributes (tb_page t)" if "\<forall>page. e \<noteq> Page page"
    using that by (auto simp: tabStep_def onFill_def split: TabEvent.split option.split prod.split dest: fill_attributes)
  show "tb_page (tabStep href e t) = tb_page t" if "\<forall>page. e \<noteq> Page page" "\<not> (is_fill e \<and> runsOn href)"
    using that by (auto simp: tabStep_def onFill_def is_fill_def split: TabEvent.split option.split prod.split)
  show "tabStep href e t = t" if "\<forall>page. e \<noteq> Page page" "\<not> runsOn href"
    using that by (auto simp: tabStep_def split: TabEvent.split)
  show "\<exists>r. tb_replies (tabStep href (Message (Some m)) t) = [r]
      \<and> (r = None \<or> r = Some (\<exists>x \<in> set (tb_page t). password_input x))" if "runsOn href"
    using that t fill_reply [of "fm_username m" "fm_password m" "tb_page t"]
    by (cases "fillLoginForm (fm_username m) (fm_password m) (tb_page t)") (auto simp: tabStep_def onFill_def)
qed

theorem content_script_discreet_witness:
  "tb_replies (tabStep (js ''https://a/'') (Message (Some \<lparr>fm_username = js ''me'', fm_password = js ''pw''\<rparr>))
      \<lparr>tb_page = sample_page, tb_sent = [], tb_replies = []\<rparr>) \<in> {[None], [Some True]}"
proof -
  have "runsOn (js ''https://a/'')"
    by (simp add: runsOn_def startsWith_def js_def)
  moreover have "\<exists>x \<in> set sample_page. password_input x"
    using querySelector_bound [OF sample_page_fields(1)] by (metis nth_mem)
  ultimately show ?thesis
    using content_script_discreet [of "\<lparr>tb_page = sample_page, tb_sent = [], tb_replies = []\<rparr>" "js ''https://a/''" "[]"
        "Page []" "\<lparr>fm_username = js ''me'', fm_password = js ''pw''\<rparr>"] by auto
qed

end
