(* ===== verification/PanelRuns.thy ===== *)
theory PanelRuns
  imports PanelsView
begin

text \<open>
  Panels of \<open>apps/web/src/VaultScreen.tsx\<close> and the dialog of \<open>ImportExport.tsx\<close> in use: the controls a panel renders, and what
  using them, in any order, can make of its hooks. A handler runs to its end before the next begins.
\<close>

section \<open>Using what is rendered\<close>

text \<open>\<open>offers\<close> are the actions of the controls that are rendered; \<open>act\<close> is what they do, with what the user puts in.\<close>

inductive panel_run :: "('s \<Rightarrow> 'a set) \<Rightarrow> ('a \<Rightarrow> 't \<Rightarrow> 's \<times> 'w \<Rightarrow> 's \<times> 'w) \<Rightarrow> 's \<times> 'w \<Rightarrow> 's \<times> 'w \<Rightarrow> bool"
  for offers act where
  stay: "panel_run offers act c c"
| use: "panel_run offers act c d \<Longrightarrow> a \<in> offers (fst d) \<Longrightarrow> panel_run offers act c (act a t d)"

locale panel =
  fixes offers :: "'s \<Rightarrow> 'a set" and act :: "'a \<Rightarrow> 't \<Rightarrow> 's \<times> 'w \<Rightarrow> 's \<times> 'w" and sound :: "'s \<Rightarrow> bool"
  assumes kept: "sound p \<Longrightarrow> a \<in> offers p \<Longrightarrow> sound (fst (act a t (p, w)))"
begin

lemma run_sound: "panel_run offers act c d \<Longrightarrow> sound (fst c) \<Longrightarrow> sound (fst d)"
proof (induction rule: panel_run.induct)
  case (use c d a t)
  then show ?case
    using kept by (cases d) simp
qed

end

definition controls :: "('s \<Rightarrow> 'a dom) \<Rightarrow> 's \<Rightarrow> 'a set" where
  "controls view p = set (actions (view p))"

section \<open>Two-factor authentication\<close>

definition mountTwoFactor :: TwoFactor where
  "mountTwoFactor = \<lparr>tf_loading = True, tf_enabled = False, tf_setup = None, tf_code = [], tf_error = None\<rparr>"

fun twoFactorAct :: "('n, 'z) service_scheme \<Rightarrow> Session \<Rightarrow> TwoFactorAct \<Rightarrow> jsstring \<Rightarrow> TwoFactor \<times> 'n webworld \<Rightarrow> TwoFactor \<times> 'n webworld" where
  "twoFactorAct P s TfCode t (p, w) = (typeCode t p, w)"
| "twoFactorAct P s TfDisable t (p, w) = snd (disableClicked P s p w)"
| "twoFactorAct P s TfEnable t (p, w) = snd (enableClicked P s p w)"
| "twoFactorAct P s TfSetup t (p, w) = snd (setupClicked P s p w)"
| "twoFactorAct P s TfClose t (p, w) = (p, w)"
| "twoFactorAct P s TfSelectAll t (p, w) = (p, w)"

text \<open>The secret of the authenticator app is kept only until two-factor authentication is on.\<close>

definition secret_until_enabled :: "TwoFactor \<Rightarrow> bool" where
  "secret_until_enabled p \<longleftrightarrow> (tf_enabled p \<longrightarrow> tf_setup p = None)"

lemma outcome_state: "Q (fst (snd (outcome m good bad w))) \<longleftrightarrow> (case m w of (Inr a, _) \<Rightarrow> Q (good a) | (Inl e, _) \<Rightarrow> Q (bad e))"
  by (simp add: outcome_def split: prod.split sum.split)

lemma two_factor_controls:
  "TfSetup \<in> controls (twoFactorView msg) p \<Longrightarrow> \<not> tf_enabled p"
  by (cases "tf_setup p"; cases "tf_error p")
    (auto simp: controls_def twoFactorView_def modal_def muted_def errorLine_def codeInput_def rowEnd_def ghost_def asyncButton_def
      List.map_filter_def Let_def split: if_splits)

interpretation two_factor: panel "controls (twoFactorView msg)" "twoFactorAct P s" secret_until_enabled
proof
  fix p a t and w :: "'a webworld"
  assume "secret_until_enabled p" "a \<in> controls (twoFactorView msg) p"
  then show "secret_until_enabled (fst (twoFactorAct P s a t (p, w)))"
    using two_factor_controls [of msg p]
    by (cases a) (auto simp: secret_until_enabled_def disableClicked_def enableClicked_def setupClicked_def outcome_def
        typeCode_def split: prod.split sum.split)
qed

section \<open>The recovery code\<close>

definition mountRecovery :: RecoveryCode where
  "mountRecovery = \<lparr>rc_loading = True, rc_enabled = False, rc_code = None, rc_error = None\<rparr>"

fun recoveryAct :: "('n, 'z) service_scheme \<Rightarrow> Session \<Rightarrow> RecoveryAct \<Rightarrow> unit \<Rightarrow> RecoveryCode \<times> 'n webworld \<Rightarrow> RecoveryCode \<times> 'n webworld" where
  "recoveryAct P s RcGenerate t (p, w) = snd (generateCode P s p w)"
| "recoveryAct P s RcRemove t (p, w) = snd (removeCode P s p w)"
| "recoveryAct P s RcClose t (p, w) = (p, w)"
| "recoveryAct P s (RcCopy c) t (p, w) = (p, w)"

text \<open>A code that is shown is one that is set up.\<close>

definition shown_is_enabled :: "RecoveryCode \<Rightarrow> bool" where
  "shown_is_enabled p \<longleftrightarrow> (\<forall>c. rc_code p = Some c \<longrightarrow> c \<noteq> [] \<longrightarrow> rc_enabled p)"

lemma recovery_controls: "RcRemove \<in> controls (recoveryView msg) p \<Longrightarrow> rc_code p = None \<or> rc_code p = Some []"
  by (cases "rc_code p"; cases "rc_error p")
    (auto simp: controls_def recoveryView_def modal_def muted_def errorLine_def rowEnd_def ghost_def asyncButton_def
      List.map_filter_def Let_def split: if_splits)

interpretation recovery: panel "controls (recoveryView msg)" "recoveryAct P s" shown_is_enabled
proof
  fix p a t and w :: "'a webworld"
  assume "shown_is_enabled p" "a \<in> controls (recoveryView msg) p"
  then show "shown_is_enabled (fst (recoveryAct P s a t (p, w)))"
    using recovery_controls [of msg p]
    by (cases a) (auto simp: shown_is_enabled_def generateCode_def removeCode_def outcome_def split: prod.split sum.split)
qed

section \<open>The import and export dialog\<close>

text \<open>What is put in: a text typed, or the content of the file chosen.\<close>

fun dialogAct ::
  "('n, 'z) service_scheme \<Rightarrow> Session \<Rightarrow> jsstring \<Rightarrow> jsval list \<Rightarrow> DialogAct \<Rightarrow> jsstring option
   \<Rightarrow> ImportExport \<times> 'n webworld \<Rightarrow> ImportExport \<times> 'n webworld" where
  "dialogAct P s today items DiJson t (d, w) = ((case exportPlain P today items False d of Inr d' \<Rightarrow> d' | Inl e \<Rightarrow> d), w)"
| "dialogAct P s today items DiCsv t (d, w) = ((case exportPlain P today items True d of Inr d' \<Rightarrow> d' | Inl e \<Rightarrow> d), w)"
| "dialogAct P s today items DiEncrypted t (d, w) = snd (exportEncrypted P today items d w)"
| "dialogAct P s today items DiFile t (d, w) = (onFile P t d, w)"
| "dialogAct P s today items DiDecrypt t (d, w) = (decryptFile P d, w)"
| "dialogAct P s today items DiReset t (d, w) = (resetImport d, w)"
| "dialogAct P s today items DiImport t (d, w) = runImport P s d w"
| "dialogAct P s today items a t (d, w) = ((case t of None \<Rightarrow> d | Some u \<Rightarrow> typeDialog a u d), w)"

text \<open>What is offered for import has been read from a text, no error is shown beside it, a passphrase is asked for
  a backup only, and no import is left half reported.\<close>

definition offers_what_was_read :: "'z jsenv_scheme \<Rightarrow> ImportExport \<Rightarrow> bool" where
  "offers_what_was_read J d \<longleftrightarrow>
     (\<forall>items. ie_parsed d = Some items \<longrightarrow> ie_importErr d = None \<and> (\<exists>t. parseVaultImport J t = Inr items))
     \<and> (\<forall>f. ie_encrypted d = Some f \<longrightarrow> isBackupEnvelope f) \<and> ie_progress d = None"

lemma dialog_controls: "DiDecrypt \<in> controls (dialogView msg items) d \<Longrightarrow> ie_parsed d = None"
  by (cases "ie_parsed d"; cases "ie_progress d"; cases "ie_outcome d"; cases "ie_importErr d"; cases "ie_exportErr d")
    (auto simp: controls_def dialogView_def modal_def muted_def errorLine_def rowEnd_def ghost_def exportSection_def importSection_def
      dialogField_def plural_s_def List.map_filter_def split: if_splits)

lemma exports_keep:
  "exportPlain J today items csv d = Inr d' \<Longrightarrow> offers_what_was_read J d \<Longrightarrow> offers_what_was_read J d'"
  "exportEncrypted P today items d w = (r, d', w') \<Longrightarrow> offers_what_was_read J d \<Longrightarrow> offers_what_was_read J d'"
  by (auto simp: exportPlain_def exportEncrypted_def download_def offers_what_was_read_def mapR_def split: sum.splits prod.splits if_splits)

lemma imports_keep:
  "offers_what_was_read J (onFile J t d)"
  "offers_what_was_read J d \<Longrightarrow> offers_what_was_read J (resetImport d)"
  "offers_what_was_read P d \<Longrightarrow> ie_parsed d = None \<Longrightarrow> offers_what_was_read P (decryptFile P d)"
  by (auto simp: onFile_def decryptFile_def tryParse_def resetImport_def offers_what_was_read_def split: option.split sum.split)

lemma import_keeps:
  assumes "offers_what_was_read J d" "runImport P s d w = (d', w')"
  shows "offers_what_was_read J d'"
proof (cases "ie_parsed d")
  case (Some items)
  obtain a n w1 where "importItems P s items 0 0 w = (Inr (a, n), w1)"
    using importItems_total [of P s items 0 0 w] by auto
  with Some assms show ?thesis
    by (auto simp: runImport_def offers_what_was_read_def)
qed (use assms in \<open>simp add: runImport_def\<close>)

lemma typing_keeps [simp]:
  "offers_what_was_read J (d\<lparr>ie_exportPass := t\<rparr>) \<longleftrightarrow> offers_what_was_read J d"
  "offers_what_was_read J (d\<lparr>ie_importPass := t\<rparr>) \<longleftrightarrow> offers_what_was_read J d"
  by (simp_all add: offers_what_was_read_def)

interpretation dialog: panel "controls (dialogView msg shown)" "dialogAct P s today items" "offers_what_was_read P"
proof
  fix d a t and w :: "'a webworld"
  assume "offers_what_was_read P d" "a \<in> controls (dialogView msg shown) d"
  then show "offers_what_was_read P (fst (dialogAct P s today items a t (d, w)))"
    using dialog_controls [of msg shown d]
    by (cases a; cases "exportEncrypted P today items d w"; cases "runImport P s d w")
      (auto intro: exports_keep imports_keep import_keeps split: sum.split option.split)
qed

section \<open>What use can make of a panel\<close>

text \<open>However the controls a panel shows are used from the moment it has loaded: the secret of an authenticator app is gone once
  two-factor authentication is on, a recovery code on show is one that is set up, and what the dialog offers to import it has read from a
  text, with no error beside it.\<close>

theorem panels_in_use:
  fixes w0 w :: "'n webworld"
  shows "openTwoFactor P s mountTwoFactor w0 = (b, c) \<Longrightarrow> panel_run (controls (twoFactorView msg)) (twoFactorAct P s) c (tf, w)
      \<Longrightarrow> tf_enabled tf \<Longrightarrow> tf_setup tf = None"
    and "openRecovery P s mountRecovery w0 = (b, c') \<Longrightarrow> panel_run (controls (recoveryView msg)) (recoveryAct P s) c' (rc, w)
      \<Longrightarrow> rc_code rc = Some code \<Longrightarrow> code \<noteq> [] \<Longrightarrow> rc_enabled rc"
    and "panel_run (controls (dialogView msg shown)) (dialogAct P s today items) (openDialog, w0) (d, w)
      \<Longrightarrow> ie_parsed d = Some found \<Longrightarrow> ie_importErr d = None \<and> (\<exists>t. parseVaultImport P t = Inr found)"
proof -
  show "tf_setup tf = None" if "openTwoFactor P s mountTwoFactor w0 = (b, c)"
    "panel_run (controls (twoFactorView msg)) (twoFactorAct P s) c (tf, w)" "tf_enabled tf"
  proof -
    have "secret_until_enabled (fst c)"
      using that(1) by (auto simp: openTwoFactor_def outcome_def mountTwoFactor_def secret_until_enabled_def split: prod.splits sum.splits)
    from two_factor.run_sound [OF that(2) this] that(3) show ?thesis
      by (simp add: secret_until_enabled_def)
  qed
  show "rc_enabled rc" if "openRecovery P s mountRecovery w0 = (b, c')"
    "panel_run (controls (recoveryView msg)) (recoveryAct P s) c' (rc, w)" "rc_code rc = Some code" "code \<noteq> []"
  proof -
    have "shown_is_enabled (fst c')"
      using that(1) by (auto simp: openRecovery_def outcome_def mountRecovery_def shown_is_enabled_def split: prod.splits sum.splits)
    from recovery.run_sound [OF that(2) this] that(3,4) show ?thesis
      by (simp add: shown_is_enabled_def)
  qed
  show "ie_importErr d = None \<and> (\<exists>t. parseVaultImport P t = Inr found)"
    if "panel_run (controls (dialogView msg shown)) (dialogAct P s today items) (openDialog, w0) (d, w)" "ie_parsed d = Some found"
  proof -
    have "offers_what_was_read P (fst (openDialog, w0))"
      by (simp add: openDialog_def offers_what_was_read_def)
    from dialog.run_sound [OF that(1) this] that(2) show ?thesis
      by (simp add: offers_what_was_read_def)
  qed
qed

text \<open>An encrypted backup is still waiting for its passphrase after it has been imported: the dialog asks for it again, below the
  message of success, with the passphrase filled in; a click on Decrypt offers the same items, and importing them adds them a second time.\<close>

lemma backup_offered_again:
  assumes f: "ie_encrypted d = Some f" "f \<noteq> []" "decryptBackup P f (ie_importPass d) = Inr t" "parseVaultImport P t = Inr found"
    and d: "ie_parsed d = Some found" "runImport P s d w = (d', w')"
  shows "[DiDecrypt] \<in> click_actions [dialogView msg items d'] \<and> ie_outcome d' \<noteq> None
    \<and> ie_parsed (decryptFile P d') = Some found"
proof -
  obtain a n w1 where "importItems P s found 0 0 w = (Inr (a, n), w1)"
    using importItems_total [of P s found 0 0 w] by auto
  with d have "d' = d\<lparr>ie_progress := None, ie_parsed := None, ie_outcome := Some (importedMessage a n)\<rparr>"
    by (simp add: runImport_def)
  with f show ?thesis
    by (simp add: dialog_clicks decryptFile_def tryParse_def)
qed

text \<open>A list of sessions that cannot be fetched is shown as no sessions at all, without an error.\<close>

lemma failed_sessions_read_zero:
  assumes "getSessions P s w = (Inl e, w')" "ap_error p = None" "openAccountPanel P N s p w = (u, p', w'')"
  shows "ap_sessions p' = Some (Some (JArr [])) \<and> ap_error p' = None
    \<and> Txt (js ''0 devices currently signed in.'') \<in> set (parts (accountView msg ident (Some []) p'))"
proof -
  have "ap_sessions p' = Some (Some (JArr [])) \<and> ap_error p' = None"
    using assms by (auto simp: openAccountPanel_def outcome_def split: prod.splits sum.splits)
  moreover have "nat_str 0 @ js '' device'' @ js ''s'' @ js '' currently signed in.'' = js ''0 devices currently signed in.''"
    by code_simp
  ultimately show ?thesis
    by (simp add: accountView_def muted_def)
qed

end
