(* ===== verification/Spec2Isabelle.thy ===== *)
theory Spec2Isabelle
  imports Backup Vault Password Totp Session Background Content Desktop Health Biometric Popup
    DesktopApp ImportDialog WebAuth Button WebVault WebPanels Idle Clipboard PopupForm
    WebScreen EditorView PanelsView AuthView PopupView DesktopView Components ContentScript PanelRuns
begin

text \<open>
  The clients of \<^emph>\<open>passwd\<close>, an end-to-end encrypted password manager: the TypeScript packages under
  \<open>src/clients/packages\<close> (cryptography and protocol) and the applications under \<open>src/clients/apps\<close> (web,
  desktop, browser extension). The server (Go, \<open>src/backend\<close>) stores what the clients encrypt; to this
  development it is a service that answers requests.

  \<^bold>\<open>How the code is read.\<close> A JavaScript string is the list of its UTF-16 units, a \<open>Uint8Array\<close> a list of \<open>8 word\<close>, a parsed
  JSON value a \<open>jsval\<close>; an \<open>async\<close> function is an action that takes the world, and settles with a value or an error
  and leaves a world (Prelude). Every \<open>throw\<close>, and every platform exception the code relies on, is a value of \<open>jserror\<close>. What
  comes from outside (replies, files, stored texts) is unchecked JSON, as in the code, with the conversions and
  exceptions this implies; what TypeScript checks inside the program is typed here.

  \<^bold>\<open>Parameters and hypotheses.\<close> Web Crypto, the RSA and WebAuthn operations, \<open>fetch\<close>, URL parsing, Unicode case mapping
  and normalisation, the Tauri file commands, the Capacitor plugin and the clock are fields of platform records
  (\<open>platform\<close>, \<open>service\<close>, \<open>bgplatform\<close>, \<open>webplatform\<close>, \<open>dplatform\<close>, \<open>native\<close>). Hypotheses on them are named and state what their documentation
  says: \<open>aes_ok\<close> (decryption inverts encryption under the same key and nonce), \<open>mac_ok\<close>, \<open>kdf_ok\<close>, \<open>rsa_ok\<close>, together
  \<open>webcrypto_ok\<close>; \<open>fs_ok\<close>, \<open>disk_works\<close>; \<open>clock_ok\<close>; \<open>keychain_ok\<close>. Each is satisfied by a concrete platform of the theory that uses
  it, on which the witnesses are evaluated. Nothing is proved about secrecy: only what the code computes.

  \<^bold>\<open>Theories.\<close>
  \<^item> Prelude, JSString, JSNumber, JSValue, Json, Base64, Utf8, Dates: the language: strings, number texts, dates, objects in
    enumeration order, \<open>JSON.parse\<close> and \<open>JSON.stringify\<close> as inverse of one another, \<open>atob\<close> and \<open>btoa\<close>, UTF-8. Codecs share the
    locale \<open>codec\<close>.
  \<^item> Primitives, EncString, Kdf, Identifier with Wordlist, Seal, Sharing, Account, Backup, Vault, Password, Totp: the files of
    \<open>packages/crypto/src\<close>. Seal states once, as a locale, what every envelope of the package promises, and is interpreted
    for item, key and share envelopes; Sample is a platform for witnesses. The lemmas show the round trips of each envelope,
    the contract of vault files over every history of operations, HKDF, HOTP and base32 equal to their RFCs, and
    the termination and absence of bias of the identifier generator.
  \<^item> Items, Portable, Api, Session: \<open>packages/api-client/src\<close>. Coercion of decrypted items to the full type, import and
    export, the requests, and the operations on accounts and items composed of them.
  \<^item> Task, Protocol, Background, Content, ContentScript: the extension. A handler is a resumption: it runs to its next \<open>await\<close>, and other
    handlers, alarms and the clock may come in between. Task gives the interleaving semantics and the locale
    \<open>pool_invariant\<close>; Background interprets it twice (locking, deadlines), shows what alone can undo a lock, and that the storage refines the
    history of captured logins. Content has the texts of a page as the HTML standard sets them, type by type (what the browser makes of
    a number, a date, a range or a colour is an argument of the element); ContentScript shows that the script in a page neither writes nor sends unasked.
  \<^item> View, Popup, PopupForm, WebAuth, ImportDialog, Editor, Store, WebVault, WebPanels, Button, DesktopApp: the screens. The hooks of a component are the fields of a record, its
    handlers functions on the record and the world. The lemmas compose the packages: what one save of a captured login does to the
    offer, what the popup fills into a page and the page submits is what the popup then offers to save, the popup's
    form changes what it shows of an item and nothing else, the sign-in form lets nothing through unchecked, an export is imported again, what the item
    editor shows is what the vault returns once saved (Editor gives the specification of its controls), the alert of the web
    vault reports what is stamped later than the newest event of the last visit, a recovery code shown recovers, the desktop client
    refines a list of items behind a password.
  \<^item> Dom, WebView, WebScreen, EditorView, PanelsView, PanelRuns, AuthView, PopupView, DesktopView, Components: what the screens render. A
    rendering is a tree of elements with their attributes and texts (Dom), a function of the hooks; a handler in it is a name
    of what it does, so that the tree says what can be clicked and what a click runs, from the element outwards. WebScreen gives the
    names of the web vault's screen their meaning and has the screen run: events, and what ends later, each followed by a rendering, with the
    life of the hooks of the detail pane as its key decides it. The lemmas show that a value that is not revealed leaves nothing on the
    screen but its length (and of a card its last four digits), that every item is found from the sidebar, that no step of a run makes the screen throw or
    opens a place that hides a value but by its own eye, that the controls of the item form perform exactly the edits Editor assumes, what the popup and
    the desktop client show and offer, and that buttons of panels are there exactly when their handlers make sense. PanelRuns uses the controls of a panel in any order, with
    one contract (the locale \<open>panel\<close>) that it interprets on the two-factor panel, the recovery code and the import dialog.
  \<^item> Timers, Idle, Clipboard: what happens when nobody does anything. Timers has the runs of timed events, in which a timer
    may be late but never early, and two contracts: a screen that its timer shuts, a fixed time after the last activity at the earliest (\<open>idle_lock\<close>),
    and a value that is there only while the timer that takes it back is pending (\<open>taken_back\<close>). Idle interprets the first on the desktop client and on the web vault, Clipboard the second on the
    clipboard and on the passing notices.
  \<^item> Desktop, Health, Biometric: \<open>apps/desktop/src/storage.ts\<close> and \<open>types.ts\<close>, \<open>apps/web/src/health.ts\<close>, \<open>apps/web/src/biometric.ts\<close>.

  \<^bold>\<open>Recursion.\<close> All loops are total functions: structural recursion or a measure. No fuel is used. The sampling loop of
  \<open>generateAccountId\<close> terminates because 2048 divides the range of a draw, so that nothing is ever rejected.

  \<^bold>\<open>Not modelled.\<close> The drawings of the icons (an argument of Components) and the style sheets; focus, and the selection of text; the panels of
  the web vault as parts of one running screen (each has its handlers in WebPanels and its rendering in PanelsView, where the lists of the server
  are arrays; PanelRuns has three of them run on their own); scripts of a page that act while a field is being filled; collation by locale (a parameter of WebVault and DesktopApp) and the file dialogs (their answers
  are parameters of DesktopApp); a \<open>localStorage\<close> that fails. Handlers of one screen run one
  at a time, except in the extension's worker, and in Idle, where what they set arrives at any time. Of the server only replies are seen. Numbers are safe integers or the
  texts of other numbers (JSNumber). The Rust shell, the Go server, the site and the tests are other programs.
\<close>

end
